(* ===== verification/Prelude.thy ===== *)
theory Prelude
  imports Complex_Main
begin

text \<open>
  Shared vocabulary of the development.

  \<^item> Amounts, prices and volumes are shopspring Decimals. Their exact operations (Add, Sub,
    Mul, Neg, Abs, Cmp, Min, Max, Floor) are the operations of the rational numbers.
  \<^item> The operations that round are not code of this repository: \<open>Div\<close>, \<open>DivRound\<close> and
    \<open>Truncate\<close> of the decimal package, and the rounding MySQL applies when a value is stored in a
    \<open>DECIMAL(_, s)\<close> column. They are the fields of the record \<open>dec_lib\<close>, an argument of every
    definition that uses them. The locale \<open>decimal_lib\<close> states what their documentation
    promises; \<open>std_lib\<close> is an executable instance, rounding half away from zero.
  \<^item> A SQL table is the list of its rows; \<open>UPDATE ... SET f WHERE p\<close> is \<open>sql_update p f\<close>, and the
    number of affected rows is the number of rows that match \<open>p\<close> (the connection is opened with
    \<open>ClientFoundRows\<close>, src/internal/db/db.go).
\<close>

type_synonym dec = rat

named_theorems table_simps \<open>rewriting of table reads over table writes\<close>
named_theorems dec_rules \<open>facts about rounding at a scale\<close>

section \<open>Decimal arithmetic that rounds\<close>

record dec_lib =
  lib_Div :: "dec \<Rightarrow> dec \<Rightarrow> dec"
  lib_DivRound :: "dec \<Rightarrow> dec \<Rightarrow> nat \<Rightarrow> dec"
  lib_Truncate :: "dec \<Rightarrow> nat \<Rightarrow> dec"
  lib_Col :: "nat \<Rightarrow> dec \<Rightarrow> dec"

text \<open>\<open>fits s x\<close>: x has at most s digits after the decimal point.\<close>

definition fits :: "nat \<Rightarrow> dec \<Rightarrow> bool" where
  "fits s x \<longleftrightarrow> x * 10 ^ s = of_int \<lfloor>x * 10 ^ s\<rfloor>"

lemma fits_iff: "fits s x \<longleftrightarrow> (\<exists>k::int. x * 10 ^ s = of_int k)"
  unfolding fits_def by (metis floor_of_int)

lemma fits_0 [simp]: "fits s 0"
  by (simp add: fits_def)

lemma fits_of_int [simp]: "fits s (of_int k)"
  unfolding fits_iff by (rule exI [of _ "k * 10 ^ s"]) simp

lemma fits_numeral [simp]: "fits s (numeral n)" "fits s 1"
  using fits_of_int [of s "numeral n"] fits_of_int [of s 1] by simp_all

lemma fits_add [intro]: "fits s x \<Longrightarrow> fits s y \<Longrightarrow> fits s (x + y)"
  unfolding fits_iff by (auto simp: distrib_right) (metis of_int_add)

lemma fits_uminus [intro]: "fits s x \<Longrightarrow> fits s (- x)"
  unfolding fits_iff by auto (metis of_int_minus)

lemma fits_diff [intro]: "fits s x \<Longrightarrow> fits s y \<Longrightarrow> fits s (x - y)"
  using fits_add [of s x "- y"] fits_uminus [of s y] by simp

lemma fits_max [intro]: "fits s x \<Longrightarrow> fits s y \<Longrightarrow> fits s (max x y)"
  by (simp add: max_def)

lemma fits_min [intro]: "fits s x \<Longrightarrow> fits s y \<Longrightarrow> fits s (min x y)"
  by (simp add: min_def)

lemma fits_mono:
  assumes "fits s x" "s \<le> s'" shows "fits s' x"
proof -
  obtain k where "x * 10 ^ s = of_int k" using assms(1) by (auto simp: fits_iff)
  moreover have "(10::dec) ^ s' = 10 ^ s * 10 ^ (s' - s)" using assms(2) by (simp flip: power_add)
  ultimately have "x * 10 ^ s' = of_int (k * 10 ^ (s' - s))" by (simp flip: mult.assoc)
  thus ?thesis unfolding fits_iff by blast
qed

text \<open>What the decimal package and the DECIMAL columns document: the result is the nearest value
  with that many digits, a value that already fits is kept, and rounding is monotone.\<close>

locale decimal_lib =
  fixes L :: dec_lib
  assumes div_is_divround: "lib_Div L a b = lib_DivRound L a b 16"
    and divround_fits: "b \<noteq> 0 \<Longrightarrow> fits s (lib_DivRound L a b s)"
    and divround_exact: "b \<noteq> 0 \<Longrightarrow> fits s (a / b) \<Longrightarrow> lib_DivRound L a b s = a / b"
    and divround_near: "b \<noteq> 0 \<Longrightarrow> \<bar>lib_DivRound L a b s - a / b\<bar> \<le> 1 / (2 * 10 ^ s)"
    and divround_mono: "b \<noteq> 0 \<Longrightarrow> d \<noteq> 0 \<Longrightarrow> a / b \<le> c / d \<Longrightarrow> lib_DivRound L a b s \<le> lib_DivRound L c d s"
    and trunc_fits: "fits s (lib_Truncate L x s)"
    and trunc_id: "fits s x \<Longrightarrow> lib_Truncate L x s = x"
    and trunc_le: "0 \<le> x \<Longrightarrow> lib_Truncate L x s \<le> x"
    and trunc_nonneg: "0 \<le> x \<Longrightarrow> 0 \<le> lib_Truncate L x s"
    and col_fits: "fits s (lib_Col L s x)"
    and col_id: "fits s x \<Longrightarrow> lib_Col L s x = x"
    and col_mono: "x \<le> y \<Longrightarrow> lib_Col L s x \<le> lib_Col L s y"
    and col_near: "\<bar>lib_Col L s x - x\<bar> \<le> 1 / (2 * 10 ^ s)"
begin

lemma col_0 [simp]: "lib_Col L s 0 = 0"
  by (rule col_id) simp

lemma col_nonneg: "0 \<le> x \<Longrightarrow> 0 \<le> lib_Col L s x"
  using col_mono [of 0 x s] by simp

lemma col_nonpos: "x \<le> 0 \<Longrightarrow> lib_Col L s x \<le> 0"
  using col_mono [of x 0 s] by simp

lemma div_fits: "b \<noteq> 0 \<Longrightarrow> fits 16 (lib_Div L a b)"
  by (simp add: div_is_divround divround_fits)

lemma div_exact: "b \<noteq> 0 \<Longrightarrow> fits 16 (a / b) \<Longrightarrow> lib_Div L a b = a / b"
  by (simp add: div_is_divround divround_exact)

lemma div_near: "b \<noteq> 0 \<Longrightarrow> \<bar>lib_Div L a b - a / b\<bar> \<le> 1 / (2 * 10 ^ 16)"
  unfolding div_is_divround by (rule divround_near)

lemma div_mono: "b \<noteq> 0 \<Longrightarrow> d \<noteq> 0 \<Longrightarrow> a / b \<le> c / d \<Longrightarrow> lib_Div L a b \<le> lib_Div L c d"
  unfolding div_is_divround by (rule divround_mono)

lemma div_0 [simp]: "b \<noteq> 0 \<Longrightarrow> lib_Div L 0 b = 0"
  using div_exact [of b 0] by simp

lemma div_nonneg: "0 \<le> a \<Longrightarrow> 0 < b \<Longrightarrow> 0 \<le> lib_Div L a b"
  using div_mono [of b b 0 a] by simp

lemma div_le_fits:
  assumes "0 < b" and "fits 16 c" and "a \<le> c * b"
  shows "lib_Div L a b \<le> c"
proof -
  have "a / b \<le> c" using assms by (simp add: pos_divide_le_eq)
  with div_mono [of b 1 a c] have "lib_Div L a b \<le> lib_Div L c 1"
    using assms(1) by simp
  with div_exact [of 1 c] assms(2) show ?thesis by simp
qed

lemma div_ge_fits:
  assumes "0 < b" and "fits 16 c" and "c * b \<le> a"
  shows "c \<le> lib_Div L a b"
proof -
  have "c \<le> a / b" using assms by (simp add: pos_le_divide_eq)
  with div_mono [of 1 b c a] have "lib_Div L c 1 \<le> lib_Div L a b"
    using assms(1) by simp
  with div_exact [of 1 c] assms(2) show ?thesis by simp
qed

lemma div_self: "b \<noteq> 0 \<Longrightarrow> fits 16 a \<Longrightarrow> lib_Div L (a * b) b = a"
  by (simp add: div_exact)

text \<open>The share x of V that belongs to a margin M with a credit part C.\<close>

lemma share_bounds:
  assumes "0 < V" "0 \<le> x" "x \<le> V" "fits 16 M" "0 \<le> C" "C \<le> M"
  shows "0 \<le> lib_Div L (C * x) V \<and> lib_Div L (C * x) V \<le> lib_Div L (M * x) V \<and> lib_Div L (M * x) V \<le> M \<and>
    fits 16 (lib_Div L (C * x) V) \<and> fits 16 (lib_Div L (M * x) V)"
proof (intro conjI)
  show "0 \<le> lib_Div L (C * x) V" using assms by (intro div_nonneg) simp_all
  show "lib_Div L (C * x) V \<le> lib_Div L (M * x) V"
    using assms by (intro div_mono) (simp_all add: divide_right_mono mult_right_mono)
  show "lib_Div L (M * x) V \<le> M"
    using assms by (intro div_le_fits) (simp_all add: mult_left_mono)
qed (use assms in \<open>simp_all add: div_fits\<close>)

end

section \<open>An executable instance: rounding half away from zero\<close>

definition round_away :: "dec \<Rightarrow> int" where
  "round_away x = (if 0 \<le> x then \<lfloor>x + 1 / 2\<rfloor> else - \<lfloor>1 / 2 - x\<rfloor>)"

definition round_to :: "nat \<Rightarrow> dec \<Rightarrow> dec" where
  "round_to s x = of_int (round_away (x * 10 ^ s)) / 10 ^ s"

definition truncate_to :: "nat \<Rightarrow> dec \<Rightarrow> dec" where
  "truncate_to s x = (if 0 \<le> x then of_int \<lfloor>x * 10 ^ s\<rfloor> / 10 ^ s else of_int \<lceil>x * 10 ^ s\<rceil> / 10 ^ s)"

definition std_lib :: dec_lib where
  "std_lib = \<lparr> lib_Div = (\<lambda>a b. round_to 16 (a / b)), lib_DivRound = (\<lambda>a b s. round_to s (a / b)),
               lib_Truncate = (\<lambda>x s. truncate_to s x), lib_Col = round_to \<rparr>"

lemma round_away_of_int [simp]: "round_away (of_int k) = k"
proof -
  have "\<lfloor>(of_int k :: dec) + 1 / 2\<rfloor> = k" by (rule floor_unique) auto
  moreover have "\<lfloor>1 / 2 - (of_int k :: dec)\<rfloor> = - k" by (rule floor_unique) auto
  ultimately show ?thesis by (simp add: round_away_def)
qed

lemma round_away_near: "\<bar>of_int (round_away x) - x\<bar> \<le> 1 / 2"
proof (cases "0 \<le> x")
  case True
  have "of_int \<lfloor>x + 1 / 2\<rfloor> \<le> x + 1 / 2" "x + 1 / 2 < of_int \<lfloor>x + 1 / 2\<rfloor> + 1"
    using floor_correct [of "x + 1 / 2"] by (simp_all only: of_int_add of_int_1)
  with True show ?thesis unfolding round_away_def by (simp only: if_True abs_le_iff) linarith
next
  case False
  have "of_int \<lfloor>1 / 2 - x\<rfloor> \<le> 1 / 2 - x" "1 / 2 - x < of_int \<lfloor>1 / 2 - x\<rfloor> + 1"
    using floor_correct [of "1 / 2 - x"] by (simp_all only: of_int_add of_int_1)
  with False show ?thesis unfolding round_away_def by (simp only: if_False abs_le_iff of_int_minus) linarith
qed

lemma round_away_mono:
  assumes "x \<le> y" shows "round_away x \<le> round_away y"
proof (cases "0 \<le> x")
  case True
  with assms show ?thesis by (simp add: round_away_def floor_mono)
next
  case False
  have "0 \<le> \<lfloor>1 / 2 - x\<rfloor>" using False by (simp add: le_floor_iff)
  moreover have "0 \<le> y \<Longrightarrow> 0 \<le> \<lfloor>y + 1 / 2\<rfloor>" by (simp add: le_floor_iff)
  moreover have "\<lfloor>1 / 2 - y\<rfloor> \<le> \<lfloor>1 / 2 - x\<rfloor>" using assms by (intro floor_mono) simp
  ultimately show ?thesis using False by (simp add: round_away_def) linarith
qed

lemma fits_scaled [simp]: "fits s (of_int k / 10 ^ s)"
  by (simp add: fits_iff)

lemma round_to_fits: "fits s (round_to s x)"
  by (simp add: round_to_def)

lemma round_to_id: "fits s x \<Longrightarrow> round_to s x = x"
  unfolding fits_iff round_to_def by (auto simp: field_simps)

lemma round_to_mono: "x \<le> y \<Longrightarrow> round_to s x \<le> round_to s y"
  unfolding round_to_def by (intro divide_right_mono) (auto intro!: round_away_mono mult_right_mono)

lemma round_to_near: "\<bar>round_to s x - x\<bar> \<le> 1 / (2 * 10 ^ s)"
proof -
  have "round_to s x - x = (of_int (round_away (x * 10 ^ s)) - x * 10 ^ s) / 10 ^ s"
    by (simp add: round_to_def field_simps)
  hence "\<bar>round_to s x - x\<bar> = \<bar>of_int (round_away (x * 10 ^ s)) - x * 10 ^ s\<bar> / 10 ^ s"
    by simp
  also have "\<dots> \<le> (1 / 2) / 10 ^ s"
    by (intro divide_right_mono round_away_near) simp
  finally show ?thesis by simp
qed

lemma truncate_to_fits: "fits s (truncate_to s x)"
  by (simp add: truncate_to_def)

lemma truncate_to_id: "fits s x \<Longrightarrow> truncate_to s x = x"
  unfolding fits_iff truncate_to_def by (auto simp: field_simps)

lemma truncate_to_le: "0 \<le> x \<Longrightarrow> truncate_to s x \<le> x"
  using of_int_floor_le [of "x * 10 ^ s"] by (simp add: truncate_to_def pos_divide_le_eq)

lemma truncate_to_nonneg: "0 \<le> x \<Longrightarrow> 0 \<le> truncate_to s x"
  by (simp add: truncate_to_def)

interpretation std: decimal_lib std_lib
  by unfold_locales
    (auto simp: std_lib_def round_to_fits round_to_id round_to_mono truncate_to_fits truncate_to_id
      truncate_to_le truncate_to_nonneg intro: round_to_near simp del: abs_le_iff)

lemma std_decimal_lib: "decimal_lib std_lib"
  by (rule std.decimal_lib_axioms)

lemma std_eval [simp]:
  "lib_Div std_lib a b = round_to 16 (a / b)" "lib_DivRound std_lib a b s = round_to s (a / b)"
  "lib_Truncate std_lib x s = truncate_to s x" "lib_Col std_lib s x = round_to s x"
  by (simp_all add: std_lib_def)

section \<open>SQL tables\<close>

text \<open>\<open>UPDATE t SET f WHERE p\<close>, the number of rows it affects, and the first row a SELECT
  returns.\<close>

definition sql_update :: "('r \<Rightarrow> bool) \<Rightarrow> ('r \<Rightarrow> 'r) \<Rightarrow> 'r list \<Rightarrow> 'r list" where
  "sql_update p f rows = map (\<lambda>r. if p r then f r else r) rows"

definition sql_affected :: "('r \<Rightarrow> bool) \<Rightarrow> 'r list \<Rightarrow> nat" where
  "sql_affected p rows = length (filter p rows)"

definition sql_first :: "('r \<Rightarrow> bool) \<Rightarrow> 'r list \<Rightarrow> 'r option" where
  "sql_first p rows = find p rows"

text \<open>One statement: whether it affected a row, and the table after it.\<close>

definition sql_exec :: "('r \<Rightarrow> bool) \<Rightarrow> ('r \<Rightarrow> 'r) \<Rightarrow> 'r list \<Rightarrow> bool \<times> 'r list" where
  "sql_exec p f rows = (0 < sql_affected p rows, sql_update p f rows)"

lemma sql_update_Nil [simp]: "sql_update p f [] = []"
  by (simp add: sql_update_def)

lemma sql_update_Cons [simp]: "sql_update p f (r # rows) = (if p r then f r else r) # sql_update p f rows"
  by (simp add: sql_update_def)

lemma sql_update_none: "(\<And>r. r \<in> set rows \<Longrightarrow> \<not> p r) \<Longrightarrow> sql_update p f rows = rows"
  by (simp add: sql_update_def map_idI)

lemma sql_affected_0 [simp]: "sql_affected p rows = 0 \<longleftrightarrow> (\<forall>r\<in>set rows. \<not> p r)"
  by (auto simp: sql_affected_def filter_empty_conv)

lemma map_sql_update:
  "(\<And>r. p r \<Longrightarrow> k (f r) = k r) \<Longrightarrow> map k (sql_update p f rows) = map k rows"
  by (simp add: sql_update_def)

lemma sql_update_key_ex:
  assumes "\<And>x. k (f x) = k x" "r \<in> set rows"
  shows "\<exists>y\<in>set (sql_update p f rows). k y = k r"
proof
  show "(if p r then f r else r) \<in> set (sql_update p f rows)" using assms(2) by (simp add: sql_update_def)
qed (simp add: assms(1))

lemma sql_first_Some: "sql_first p rows = Some r \<Longrightarrow> r \<in> set rows \<and> p r"
  by (auto simp: sql_first_def find_Some_iff)

lemma sql_first_None: "sql_first p rows = None \<longleftrightarrow> (\<forall>r\<in>set rows. \<not> p r)"
  by (auto simp: sql_first_def find_None_iff)

lemma sql_first_append: "sql_first p (xs @ ys) = (case sql_first p xs of None \<Rightarrow> sql_first p ys | Some r \<Rightarrow> Some r)"
  by (induction xs) (auto simp: sql_first_def)

lemma sql_first_unique:
  assumes "r \<in> set rows" "p r" "\<And>q. q \<in> set rows \<Longrightarrow> p q \<Longrightarrow> q = r"
  shows "sql_first p rows = Some r"
proof (cases "sql_first p rows")
  case None
  with assms(1,2) show ?thesis by (simp add: sql_first_None)
next
  case (Some q)
  with sql_first_Some [OF Some] assms(3) show ?thesis by blast
qed

text \<open>Rows with a unique key: at most one row has a given key.\<close>

lemma unique_key_eq: "distinct (map k rows) \<Longrightarrow> q \<in> set rows \<Longrightarrow> r \<in> set rows \<Longrightarrow> k q = k r \<Longrightarrow> q = r"
  by (metis distinct_map inj_on_def)

lemma sql_first_key:
  "distinct (map k rows) \<Longrightarrow> r \<in> set rows \<Longrightarrow> k r = i \<Longrightarrow> sql_first (\<lambda>q. k q = i) rows = Some r"
  by (rule sql_first_unique) (auto intro: unique_key_eq)

lemma sql_first_update:
  assumes "\<And>r. p r \<Longrightarrow> q (f r) = q r"
  shows "sql_first q (sql_update p f rows) = map_option (\<lambda>r. if p r then f r else r) (sql_first q rows)"
  using assms by (induction rows) (auto simp: sql_first_def sql_update_def)

lemma sql_exec_fst [simp]: "fst (sql_exec p f rows) \<longleftrightarrow> (\<exists>r\<in>set rows. p r)"
  by (auto simp: sql_exec_def sql_affected_def filter_empty_conv)

lemma sql_exec_snd [simp]: "snd (sql_exec p f rows) = sql_update p f rows"
  by (simp add: sql_exec_def)

lemma sql_exec_eq: "sql_exec p f rows = ((\<exists>r\<in>set rows. p r), sql_update p f rows)"
  using sql_exec_fst [of p f rows] sql_exec_snd [of p f rows] by (cases "sql_exec p f rows") simp

text \<open>An UPDATE by primary key with a guard, seen from a SELECT by primary key: the row with that key
  changes when the guard holds of it, no other row changes.\<close>

lemma sql_exec_key:
  assumes "\<And>r. k (f r) = k r"
  shows "sql_first (\<lambda>r. k r = j) (snd (sql_exec (\<lambda>r. k r = i \<and> g r) f rows)) =
    (case sql_first (\<lambda>r. k r = j) rows of None \<Rightarrow> None | Some r \<Rightarrow> Some (if k r = i \<and> g r then f r else r))"
proof -
  have "sql_first (\<lambda>r. k r = j) (sql_update (\<lambda>r. k r = i \<and> g r) f rows) =
      map_option (\<lambda>r. if k r = i \<and> g r then f r else r) (sql_first (\<lambda>r. k r = j) rows)"
    by (rule sql_first_update) (simp add: assms)
  thus ?thesis by (simp add: option.case_eq_if map_option_case)
qed

lemma sql_exec_key_ok:
  assumes "distinct (map k rows)"
  shows "fst (sql_exec (\<lambda>r. k r = i \<and> g r) f rows) \<longleftrightarrow>
    (case sql_first (\<lambda>r. k r = i) rows of None \<Rightarrow> False | Some r \<Rightarrow> g r)"
proof (cases "sql_first (\<lambda>r. k r = i) rows")
  case None
  hence "\<not> (\<exists>r\<in>set rows. k r = i \<and> g r)" by (auto simp: sql_first_None)
  with None show ?thesis by simp
next
  case (Some r)
  with sql_first_Some [OF Some] assms show ?thesis by (auto dest: unique_key_eq)
qed

lemma map_sql_exec [simp]: "(\<And>r. k (f r) = k r) \<Longrightarrow> map k (snd (sql_exec p f rows)) = map k rows"
  by (simp add: map_sql_update)

section \<open>Operations that can fail half-way\<close>

text \<open>An operation returns an error or a value, and the state it leaves behind in either case: an early
  return keeps the writes made before it. \<open>andThen\<close> is \<open>if err != nil { return err }\<close>.\<close>

definition andThen :: "('s \<Rightarrow> ('e + 'a) \<times> 's) \<Rightarrow> ('a \<Rightarrow> 's \<Rightarrow> ('e + 'b) \<times> 's) \<Rightarrow> 's \<Rightarrow> ('e + 'b) \<times> 's" where
  "andThen f k s = (case f s of (Inl e, s') \<Rightarrow> (Inl e, s') | (Inr a, s') \<Rightarrow> k a s')"

lemma andThen_Inr [simp]: "f s = (Inr a, s') \<Longrightarrow> andThen f k s = k a s'"
  by (simp add: andThen_def)

lemma andThen_Inl [simp]: "f s = (Inl e, s') \<Longrightarrow> andThen f k s = (Inl e, s')"
  by (simp add: andThen_def)

definition retn :: "'a \<Rightarrow> 's \<Rightarrow> ('e + 'a) \<times> 's" where
  "retn a s = (Inr a, s)"

lemma andThen_retn [simp]: "andThen (retn a) k = k a"
  by (rule ext) (simp add: andThen_def retn_def)

lemma andThen_assoc: "andThen (andThen f g) h = andThen f (\<lambda>a. andThen (g a) h)"
  by (rule ext) (simp add: andThen_def split: prod.splits sum.splits)

text \<open>A loop over a slice whose body can fail.\<close>

fun mapEach :: "('a \<Rightarrow> 's \<Rightarrow> ('e + 'b) \<times> 's) \<Rightarrow> 'a list \<Rightarrow> 's \<Rightarrow> ('e + 'b list) \<times> 's" where
  "mapEach f [] = retn []"
| "mapEach f (x # xs) = andThen (f x) (\<lambda>y. andThen (mapEach f xs) (\<lambda>ys. retn (y # ys)))"

text \<open>What every step keeps, the whole operation keeps.\<close>

definition keeps :: "('s \<Rightarrow> bool) \<Rightarrow> ('s \<Rightarrow> 'r \<times> 's) \<Rightarrow> bool" where
  "keeps P f \<longleftrightarrow> (\<forall>s. P s \<longrightarrow> P (snd (f s)))"

named_theorems keeps_rules \<open>operations keep an invariant when their parts do\<close>

lemma keepsI: "(\<And>s. P s \<Longrightarrow> P (snd (f s))) \<Longrightarrow> keeps P f"
  by (simp add: keeps_def)

lemma keepsD: "keeps P f \<Longrightarrow> P s \<Longrightarrow> P (snd (f s))"
  by (simp add: keeps_def)

lemma keeps_retn [keeps_rules]: "keeps P (retn a)"
  by (simp add: keeps_def retn_def)

lemma keeps_andThen [keeps_rules]: "keeps P f \<Longrightarrow> (\<And>a. keeps P (k a)) \<Longrightarrow> keeps P (andThen f k)"
  by (simp add: keeps_def andThen_def split: prod.splits sum.splits) (metis snd_conv)

lemma keeps_mapEach [keeps_rules]: "(\<And>x. x \<in> set xs \<Longrightarrow> keeps P (f x)) \<Longrightarrow> keeps P (mapEach f xs)"
  by (induction xs) (auto intro!: keeps_rules)

lemma keeps_if [keeps_rules]: "keeps P f \<Longrightarrow> keeps P g \<Longrightarrow> keeps P (if b then f else g)"
  by simp

lemma keeps_option [keeps_rules]: "keeps P f \<Longrightarrow> (\<And>a. keeps P (g a)) \<Longrightarrow> keeps P (case x of None \<Rightarrow> f | Some a \<Rightarrow> g a)"
  by (simp split: option.split)

text \<open>The elements of a list in the order in which they first occur.\<close>

definition firsts :: "'a list \<Rightarrow> 'a list" where
  "firsts xs = rev (remdups (rev xs))"

lemma set_firsts [simp]: "set (firsts xs) = set xs"
  by (simp add: firsts_def)

lemma distinct_firsts [simp]: "distinct (firsts xs)"
  by (simp add: firsts_def)

section \<open>Optimistic read-compute-write loops\<close>

text \<open>Several repository methods read a row, compute its new value in Go and write it back with an
  \<open>UPDATE\<close> whose \<open>WHERE\<close> repeats the values read, until the write affects a row. \<open>attempt s s'\<close> is one
  round that read \<open>s\<close> and wrote to \<open>s'\<close>: the result and the state after it, or \<open>None\<close> when the write
  missed. \<open>env n\<close> is what other sessions do between the read and the write; \<open>fuel\<close> bounds the number
  of rounds.\<close>

fun cas_loop :: "nat \<Rightarrow> (nat \<Rightarrow> 's \<Rightarrow> 's) \<Rightarrow> ('s \<Rightarrow> 's \<Rightarrow> ('r \<times> 's) option) \<Rightarrow> 's \<Rightarrow> ('r \<times> 's) option" where
  "cas_loop 0 env attempt s = None"
| "cas_loop (Suc fuel) env attempt s =
     (case attempt s (env fuel s) of
        Some x \<Rightarrow> Some x
      | None \<Rightarrow> cas_loop fuel env attempt (env fuel s))"

text \<open>\<open>ok\<close> are the tables, \<open>rel\<close> the interference the WHERE clause can detect. Under it the loop is
  linearizable: what it returns is one undisturbed round, on the table it wrote to or, when it wrote
  nothing, on the table it read; and it returns as soon as one round is undisturbed.\<close>

locale optimistic =
  fixes attempt :: "'s \<Rightarrow> 's \<Rightarrow> ('r \<times> 's) option" and ok :: "'s \<Rightarrow> bool" and rel :: "'s \<Rightarrow> 's \<Rightarrow> bool"
  assumes cas_sound: "ok s \<Longrightarrow> ok s' \<Longrightarrow> rel s s' \<Longrightarrow> attempt s s' = Some (r, t) \<Longrightarrow>
      attempt s' s' = Some (r, t) \<or> (t = s' \<and> attempt s s = Some (r, s))"
    and cas_progress: "ok s \<Longrightarrow> attempt s s \<noteq> None"
begin

lemma linearizable:
  assumes "cas_loop fuel env attempt s = Some (r, t)" "ok s" "\<And>n u. ok u \<Longrightarrow> ok (env n u) \<and> rel u (env n u)"
  shows "\<exists>u. ok u \<and> (attempt u u = Some (r, t) \<or> (attempt u u = Some (r, u) \<and> (\<exists>n. t = env n u)))"
  using assms
proof (induction fuel arbitrary: s)
  case (Suc fuel)
  have e: "ok (env fuel s)" "rel s (env fuel s)" using Suc.prems(2,3) by blast+
  show ?case
  proof (cases "attempt s (env fuel s)")
    case None
    with Suc.prems(1) have "cas_loop fuel env attempt (env fuel s) = Some (r, t)" by simp
    from Suc.IH [OF this e(1) Suc.prems(3)] show ?thesis by blast
  next
    case (Some y)
    with Suc.prems(1) have "attempt s (env fuel s) = Some (r, t)" by simp
    with cas_sound [OF Suc.prems(2) e] e(1) Suc.prems(2) show ?thesis by blast
  qed
qed simp

lemma returns_when_quiet:
  assumes "ok s" "\<And>n u. ok u \<Longrightarrow> ok (env n u)" "k < fuel" "\<And>u. env k u = u"
  shows "cas_loop fuel env attempt s \<noteq> None"
  using assms(1,3)
proof (induction fuel arbitrary: s)
  case (Suc fuel)
  show ?case
  proof (cases "k = fuel")
    case True
    with assms(4) cas_progress [OF Suc.prems(1)] show ?thesis by (auto split: option.splits)
  next
    case False
    with Suc.prems assms(2) Suc.IH [of "env fuel s"] show ?thesis by (auto split: option.splits)
  qed
qed simp

lemma undisturbed: "ok s \<Longrightarrow> cas_loop (Suc fuel) (\<lambda>_ u. u) attempt s = attempt s s"
  using cas_progress [of s] by (auto split: option.splits)

end

end
