(* ===== verification/Model.thy ===== *)
theory Model
  imports Prelude
begin

text \<open>
  The data model of src/internal/model/model.go: the enumerations as datatypes, every table row and
  domain struct as a record (fields prefixed by the struct, otherwise named as in the source), and
  the pure methods of those structs. Identifiers and the unsigned counters are naturals, times
  (milliseconds or nanoseconds) integers. An error value of the source is a constructor of \<open>err\<close>,
  a result that can fail is \<open>err + 'a\<close>; an unguarded decimal division panics on a zero divisor and
  is \<open>sdiv\<close> with the error \<open>PanicDivisionByZero\<close>.
\<close>

type_synonym symbol = string
type_synonym uid = nat

section \<open>Errors\<close>

datatype err =
    ErrInsufficientMargin
  | ErrAccountNotFound
  | ErrInsufficientBalance
  | ErrIdempotencyConflict
  | ErrAccountNotInsured
  | ErrFrozenMarginShort          \<comment> \<open>less margin is locked than is to be released\<close>
  | ErrPositionGone               \<comment> \<open>the position to close is missing or too small\<close>
  | ErrNoRows                     \<comment> \<open>sql.ErrNoRows\<close>
  | ErrInvalidArgument            \<comment> \<open>a request refused by validation\<close>
  | ErrDeadlock
  | ErrDuplicateKey                \<comment> \<open>MySQL error 1062, IsDuplicateKey of src/internal/repo/errors.go\<close>
  | ErrLockBusy
  | FatalExit                      \<comment> \<open>log.Fatalf\<close>
  | PanicDivisionByZero
  | PanicNilPointer

type_synonym 'a res = "err + 'a"

text \<open>A panic and \<open>log.Fatalf\<close> end the process (no goroutine of the engine recovers); any other error is a
  value the caller may log and go on, and then the writes made before it stay.\<close>

fun isPanic :: "err \<Rightarrow> bool" where
  "isPanic PanicDivisionByZero = True"
| "isPanic PanicNilPointer = True"
| "isPanic FatalExit = True"
| "isPanic _ = False"

definition tolerate :: "('s \<Rightarrow> 'a res \<times> 's) \<Rightarrow> 's \<Rightarrow> 'a option res \<times> 's" where
  "tolerate f s =
     (case f s of
        (Inl e, s') \<Rightarrow> (if isPanic e then Inl e else Inr None, s')
      | (Inr a, s') \<Rightarrow> (Inr (Some a), s'))"

lemma snd_tolerate [simp]: "snd (tolerate f s) = snd (f s)"
  by (simp add: tolerate_def split: prod.split sum.split)

lemma keeps_tolerate [keeps_rules]: "keeps P f \<Longrightarrow> keeps P (tolerate f)"
  by (simp add: keeps_def)

definition sdiv :: "dec_lib \<Rightarrow> dec \<Rightarrow> dec \<Rightarrow> dec res" where
  "sdiv L a b = (if b = 0 then Inl PanicDivisionByZero else Inr (lib_Div L a b))"

lemma sdiv_Inr [simp]: "b \<noteq> 0 \<Longrightarrow> sdiv L a b = Inr (lib_Div L a b)"
  by (simp add: sdiv_def)

lemma sdiv_zero [simp]: "sdiv L a 0 = Inl PanicDivisionByZero"
  by (simp add: sdiv_def)

section \<open>Enumerations\<close>

datatype Side = SideLong | SideShort

fun Opposite :: "Side \<Rightarrow> Side" where
  "Opposite SideLong = SideShort"
| "Opposite SideShort = SideLong"

datatype OrderAction = ActionOpen | ActionClose

datatype OrderType = OrderTypeLimit | OrderTypeMarket

datatype OrderStatus =
    OrderStatusOpen | OrderStatusPartiallyFilled | OrderStatusFilled
  | OrderStatusCanceled | OrderStatusRejected

fun ActiveOrderStatuses :: "OrderStatus \<Rightarrow> bool" where
  "ActiveOrderStatuses OrderStatusOpen = True"
| "ActiveOrderStatuses OrderStatusPartiallyFilled = True"
| "ActiveOrderStatuses _ = False"

datatype TriggerDirection = TriggerGTE | TriggerLTE

datatype ConditionalOrderStatus =
    ConditionalStatusPending | ConditionalStatusTriggered | ConditionalStatusCanceled

datatype PositionStatus = PositionStatusNormal | PositionStatusLiquidating | PositionStatusClosed

datatype AccountStatus = AccountStatusActive | AccountStatusFrozen

datatype TxType = TxDeposit | TxFee | TxRealizedPnl | TxFundingFee | TxCreditGrant | TxRoundClose

section \<open>Rows\<close>

record Transaction =
  tx_UID :: uid
  tx_Symbol :: symbol
  tx_Amount :: dec
  tx_Type :: TxType
  tx_CreateTime :: int
  tx_RequestID :: "string option"
  tx_RequestHash :: "string option"

record Account =
  acc_ID :: nat
  acc_UID :: uid
  acc_IsInsured :: bool
  acc_Round :: nat
  acc_Credit :: dec
  acc_Balance :: dec
  acc_FrozenMargin :: dec
  acc_FrozenCredit :: dec
  acc_Version :: nat
  acc_Status :: AccountStatus
  acc_StatusReason :: string
  acc_StatusTime :: int

record Coin =
  coin_Symbol :: symbol
  coin_BaseCoinScale :: nat
  coin_PriceScale :: nat
  coin_Enable :: bool
  coin_MakerFee :: dec
  coin_TakerFee :: dec
  coin_PriceTick :: dec
  coin_VolumeStep :: dec
  coin_MinVolume :: dec
  coin_MaxVolume :: dec
  coin_FundingIntervalHours :: int
  coin_FundingRateCap :: dec
  coin_FundingImpactNotional :: dec
  coin_PriceProtectionRatio :: dec

record RiskLimitTier =
  tier_ID :: nat
  tier_Symbol :: symbol
  tier_Tier :: int
  tier_MaxNotional :: dec
  tier_MaintenanceMarginRate :: dec
  tier_MaintenanceAmount :: dec
  tier_MaxLeverage :: nat

record Order =
  ord_OrderID :: nat
  ord_UID :: uid
  ord_Symbol :: symbol
  ord_Side :: Side
  ord_Action :: OrderAction
  ord_Type :: OrderType
  ord_Price :: dec
  ord_Amount :: dec
  ord_TradedAmount :: dec
  ord_AvgDealPrice :: dec
  ord_FrozenMargin :: dec
  ord_FrozenCredit :: dec
  ord_Leverage :: nat
  ord_ReduceOnly :: bool
  ord_Liquidation :: bool
  ord_Status :: OrderStatus
  ord_CreateTime :: int
  ord_UpdateTime :: int
  ord_RequestID :: "string option"
  ord_RequestHash :: "string option"

definition RemainingAmount :: "Order \<Rightarrow> dec" where
  "RemainingAmount o' = ord_Amount o' - ord_TradedAmount o'"

record ConditionalOrder =
  co_OrderID :: nat
  co_UID :: uid
  co_Symbol :: symbol
  co_Side :: Side
  co_Action :: OrderAction
  co_TriggerPrice :: dec
  co_TriggerDirection :: TriggerDirection
  co_Type :: OrderType
  co_Price :: dec
  co_Amount :: dec
  co_Leverage :: nat
  co_ReduceOnly :: bool
  co_FrozenMargin :: dec
  co_FrozenCredit :: dec
  co_Status :: ConditionalOrderStatus
  co_CreateTime :: int
  co_UpdateTime :: int
  co_RequestID :: "string option"
  co_RequestHash :: "string option"

definition Triggered :: "ConditionalOrder \<Rightarrow> dec \<Rightarrow> bool" where
  "Triggered co mark =
     (if co_TriggerDirection co = TriggerGTE then co_TriggerPrice co \<le> mark
      else mark \<le> co_TriggerPrice co)"

text \<open>The share of an order's locked margin that belongs to \<open>volume\<close> of its amount; both divisions
  are unguarded in the source.\<close>

definition ProportionalFrozen :: "dec_lib \<Rightarrow> Order \<Rightarrow> dec \<Rightarrow> (dec \<times> dec) res" where
  "ProportionalFrozen L o' volume =
     (case sdiv L (ord_FrozenMargin o' * volume) (ord_Amount o') of
        Inl e \<Rightarrow> Inl e
      | Inr m \<Rightarrow>
          (case sdiv L (ord_FrozenCredit o' * volume) (ord_Amount o') of
             Inl e \<Rightarrow> Inl e
           | Inr c \<Rightarrow> Inr (m, c)))"

record Position =
  pos_ID :: nat
  pos_UID :: uid
  pos_Symbol :: symbol
  pos_Side :: Side
  pos_Volume :: dec
  pos_AvgEntryPrice :: dec
  pos_PositionMargin :: dec
  pos_CreditMargin :: dec
  pos_Leverage :: nat
  pos_Status :: PositionStatus
  pos_Version :: nat
  pos_UpdateTime :: int

definition UnrealizedPnl :: "Position \<Rightarrow> dec \<Rightarrow> dec" where
  "UnrealizedPnl p markPrice =
     (if pos_Side p = SideLong then (markPrice - pos_AvgEntryPrice p) * pos_Volume p
      else (pos_AvgEntryPrice p - markPrice) * pos_Volume p)"

definition LiquidationPrice :: "dec_lib \<Rightarrow> Position \<Rightarrow> dec \<Rightarrow> dec \<Rightarrow> dec" where
  "LiquidationPrice L p lossRatio equityBase =
     (if pos_Volume p = 0 then 0
      else let buffer = lib_Div L (lossRatio * equityBase) (pos_Volume p) in
        if pos_Side p = SideLong then max 0 (pos_AvgEntryPrice p - buffer)
        else pos_AvgEntryPrice p + buffer)"

record Trade =
  tr_TradeID :: nat
  tr_Symbol :: symbol
  tr_Price :: dec
  tr_Volume :: dec
  tr_BuyOrderID :: nat
  tr_SellOrderID :: nat
  tr_BuyUID :: uid
  tr_SellUID :: uid
  tr_MakerOrderID :: nat
  tr_CreateTime :: int

record PublicTrade =
  pt_TradeID :: nat
  pt_Symbol :: symbol
  pt_Price :: dec
  pt_Volume :: dec
  pt_TakerSide :: string
  pt_CreateTime :: int

definition Public :: "Trade \<Rightarrow> PublicTrade" where
  "Public t =
     \<lparr> pt_TradeID = tr_TradeID t, pt_Symbol = tr_Symbol t, pt_Price = tr_Price t,
       pt_Volume = tr_Volume t,
       pt_TakerSide = (if tr_MakerOrderID t = tr_BuyOrderID t then ''sell'' else ''buy''),
       pt_CreateTime = tr_CreateTime t \<rparr>"

datatype KlineInterval = Kline1m | Kline5m | Kline15m | Kline1h | Kline4h | Kline1d

fun KlineIntervalMillis :: "KlineInterval \<Rightarrow> int" where
  "KlineIntervalMillis Kline1m = 60000"
| "KlineIntervalMillis Kline5m = 5 * 60000"
| "KlineIntervalMillis Kline15m = 15 * 60000"
| "KlineIntervalMillis Kline1h = 60 * 60000"
| "KlineIntervalMillis Kline4h = 4 * 60 * 60000"
| "KlineIntervalMillis Kline1d = 24 * 60 * 60000"

definition AllKlineIntervals :: "KlineInterval list" where
  "AllKlineIntervals = [Kline1m, Kline5m, Kline15m, Kline1h, Kline4h, Kline1d]"

record Kline =
  kl_Symbol :: symbol
  kl_Interval :: KlineInterval
  kl_OpenTime :: int
  kl_Open :: dec
  kl_High :: dec
  kl_Low :: dec
  kl_Close :: dec
  kl_Volume :: dec
  kl_TradeCount :: nat
  kl_UpdateTime :: int

record FundingRateRecord =
  fr_Symbol :: symbol
  fr_FundingTime :: int
  fr_Rate :: dec
  fr_MarkPrice :: dec
  fr_IndexPrice :: dec
  fr_CreateTime :: int

section \<open>Intervals are ordered by their length\<close>

lemma KlineIntervalMillis_inj: "KlineIntervalMillis a = KlineIntervalMillis b \<Longrightarrow> a = b"
  by (cases a; cases b) simp_all

lemma KlineIntervalMillis_pos [simp]: "0 < KlineIntervalMillis iv"
  by (cases iv) simp_all

instantiation KlineInterval :: linorder
begin

definition less_eq_KlineInterval :: "KlineInterval \<Rightarrow> KlineInterval \<Rightarrow> bool" where
  "less_eq_KlineInterval a b \<longleftrightarrow> KlineIntervalMillis a \<le> KlineIntervalMillis b"

definition less_KlineInterval :: "KlineInterval \<Rightarrow> KlineInterval \<Rightarrow> bool" where
  "less_KlineInterval a b \<longleftrightarrow> KlineIntervalMillis a < KlineIntervalMillis b"

instance
  by standard (auto simp: less_eq_KlineInterval_def less_KlineInterval_def intro: KlineIntervalMillis_inj)

end

section \<open>Facts about the pure methods\<close>

lemma Opposite_Opposite [simp]: "Opposite (Opposite s) = s"
  by (cases s) simp_all

lemma Opposite_neq [simp]: "Opposite s \<noteq> s" "s \<noteq> Opposite s"
  by (cases s; simp)+

lemma ActiveOrderStatuses_iff: "ActiveOrderStatuses st \<longleftrightarrow> st = OrderStatusOpen \<or> st = OrderStatusPartiallyFilled"
  by (cases st) simp_all

lemma UnrealizedPnl_entry [simp]: "UnrealizedPnl p (pos_AvgEntryPrice p) = 0"
  by (simp add: UnrealizedPnl_def)

lemma ProportionalFrozen_Inr:
  "ord_Amount o' \<noteq> 0 \<Longrightarrow>
   ProportionalFrozen L o' v = Inr (lib_Div L (ord_FrozenMargin o' * v) (ord_Amount o'),
                                    lib_Div L (ord_FrozenCredit o' * v) (ord_Amount o'))"
  by (simp add: ProportionalFrozen_def)

lemma ProportionalFrozen_zero: "ord_Amount o' = 0 \<Longrightarrow> ProportionalFrozen L o' v = Inl PanicDivisionByZero"
  by (simp add: ProportionalFrozen_def)

end
