(* ===== verification/Book.thy ===== *)
theory Book
  imports Model "HOL-Library.Multiset"
begin

text \<open>
  The order book of one symbol, src/internal/matching/book.go. A price level keeps its queue as the
  list of resting orders from head to tail (the doubly linked list of the source), its total volume
  and its count; a side is the array of its levels, best price first; \<open>bk_byID\<close> maps an order id to
  the place of its node, the side and the price of its level. Match, Rest and Cancel are single
  critical sections of the book's lock, so each is a function from book to book. A \<open>Fill\<close> of the
  source holds pointers; here it holds the values those pointers show when Match returns.

  The second half defines the abstract book: a side as one list in priority order, matched by
  structural recursion. \<open>wf_book\<close> is the representation invariant; every operation preserves it and
  implements its abstract counterpart.
\<close>

section \<open>The concrete book\<close>

datatype Direction = Buy | Sell

definition DirectionOf :: "Side \<Rightarrow> OrderAction \<Rightarrow> Direction" where
  "DirectionOf side action =
     (if (side = SideLong \<and> action = ActionOpen) \<or> (side = SideShort \<and> action = ActionClose)
      then Buy else Sell)"

record RestingOrder =
  ro_OrderID :: nat
  ro_UID :: uid
  ro_Side :: Side
  ro_Action :: OrderAction
  ro_Direction :: Direction
  ro_Price :: dec
  ro_Remaining :: dec
  ro_EntryTime :: int
  ro_ReduceOnly :: bool
  ro_Liquidation :: bool

record Fill =
  fl_Price :: dec
  fl_Volume :: dec
  fl_MakerOrder :: RestingOrder
  fl_TakerOrder :: RestingOrder

record priceLevel =
  pl_price :: dec
  pl_queue :: "RestingOrder list"
  pl_totalVolume :: dec
  pl_count :: int

record Book =
  bk_bids :: "priceLevel list"
  bk_asks :: "priceLevel list"
  bk_byID :: "nat \<rightharpoonup> Direction \<times> dec"

definition NewBook :: Book where
  "NewBook = \<lparr> bk_bids = [], bk_asks = [], bk_byID = Map.empty \<rparr>"

text \<open>The scan from the tail: \<open>cur\<close> walks back while it entered later than the new order.\<close>

fun insert_from_tail :: "RestingOrder \<Rightarrow> RestingOrder list \<Rightarrow> RestingOrder list" where
  "insert_from_tail order [] = [order]"
| "insert_from_tail order (cur # before) =
     (if ro_EntryTime order < ro_EntryTime cur then cur # insert_from_tail order before
      else order # cur # before)"

definition insertOrdered :: "priceLevel \<Rightarrow> RestingOrder \<Rightarrow> priceLevel" where
  "insertOrdered pl order =
     pl\<lparr> pl_queue := rev (insert_from_tail order (rev (pl_queue pl))),
         pl_totalVolume := pl_totalVolume pl + ro_Remaining order,
         pl_count := pl_count pl + 1 \<rparr>"

text \<open>Go's \<open>sort.Search\<close> on \<open>[i, j)\<close>.\<close>

function sort_Search_loop :: "(nat \<Rightarrow> bool) \<Rightarrow> nat \<Rightarrow> nat \<Rightarrow> nat" where
  "sort_Search_loop f i j =
     (if i < j then
        let h = (i + j) div 2 in
        if \<not> f h then sort_Search_loop f (h + 1) j else sort_Search_loop f i h
      else i)"
  by pat_completeness auto
termination by (relation "measure (\<lambda>(f, i, j). j - i)") (auto simp: Let_def)

declare sort_Search_loop.simps [simp del]

definition sort_Search :: "nat \<Rightarrow> (nat \<Rightarrow> bool) \<Rightarrow> nat" where
  "sort_Search n f = sort_Search_loop f 0 n"

definition findLevelIndex :: "priceLevel list \<Rightarrow> dec \<Rightarrow> bool \<Rightarrow> nat \<times> bool" where
  "findLevelIndex levels price buy =
     (let i = sort_Search (length levels)
                (\<lambda>i. if buy then pl_price (levels ! i) \<le> price else price \<le> pl_price (levels ! i))
      in (i, i < length levels \<and> pl_price (levels ! i) = price))"

definition insertLevelAt :: "priceLevel list \<Rightarrow> nat \<Rightarrow> priceLevel \<Rightarrow> priceLevel list" where
  "insertLevelAt levels i pl = take i levels @ pl # drop i levels"

definition removeLevelAt :: "priceLevel list \<Rightarrow> nat \<Rightarrow> priceLevel list" where
  "removeLevelAt levels i = take i levels @ drop (i + 1) levels"

definition levelsOf :: "Book \<Rightarrow> bool \<Rightarrow> priceLevel list" where
  "levelsOf b buy = (if buy then bk_bids b else bk_asks b)"

definition setLevels :: "Book \<Rightarrow> bool \<Rightarrow> priceLevel list \<Rightarrow> Book" where
  "setLevels b buy levels = (if buy then b\<lparr>bk_bids := levels\<rparr> else b\<lparr>bk_asks := levels\<rparr>)"

text \<open>The level for a price, created at its place when there is none: the index of the level in the
  side's array, and the book.\<close>

definition getOrCreateLevel :: "Book \<Rightarrow> dec \<Rightarrow> bool \<Rightarrow> nat \<times> Book" where
  "getOrCreateLevel b price buy =
     (let levels = levelsOf b buy; (i, found) = findLevelIndex levels price buy in
      if found then (i, b)
      else (i, setLevels b buy (insertLevelAt levels i
                 \<lparr> pl_price = price, pl_queue = [], pl_totalVolume = 0, pl_count = 0 \<rparr>)))"

definition removeLevelFromIndex :: "Book \<Rightarrow> dec \<Rightarrow> bool \<Rightarrow> Book" where
  "removeLevelFromIndex b price buy =
     (let levels = levelsOf b buy; (i, found) = findLevelIndex levels price buy in
      if \<not> found then b else setLevels b buy (removeLevelAt levels i))"

text \<open>A node is the order with id \<open>oid\<close> in the queue of level \<open>i\<close>; removing it keeps the order of
  the others.\<close>

definition unlinkAndMaybeRemoveLevel :: "Book \<Rightarrow> bool \<Rightarrow> nat \<Rightarrow> nat \<Rightarrow> Book" where
  "unlinkAndMaybeRemoveLevel b buy i oid =
     (let levels = levelsOf b buy; pl = levels ! i;
          pl' = pl\<lparr> pl_queue := filter (\<lambda>q. ro_OrderID q \<noteq> oid) (pl_queue pl),
                    pl_count := pl_count pl - 1 \<rparr>;
          b' = (setLevels b buy (levels[i := pl']))\<lparr> bk_byID := (bk_byID b)(oid := None) \<rparr>
      in if pl_queue pl' = [] then removeLevelFromIndex b' (pl_price pl) buy else b')"

definition setRemaining :: "nat \<Rightarrow> dec \<Rightarrow> RestingOrder list \<Rightarrow> RestingOrder list" where
  "setRemaining oid v q = map (\<lambda>x. if ro_OrderID x = oid then x\<lparr>ro_Remaining := v\<rparr> else x) q"

definition applyFill :: "Book \<Rightarrow> bool \<Rightarrow> nat \<Rightarrow> RestingOrder \<Rightarrow> dec \<Rightarrow> Book" where
  "applyFill b buy i order vol =
     (let levels = levelsOf b buy; pl = levels ! i;
          remaining = ro_Remaining order - vol;
          pl' = pl\<lparr> pl_queue := setRemaining (ro_OrderID order) remaining (pl_queue pl),
                    pl_totalVolume := pl_totalVolume pl - vol \<rparr>;
          b' = setLevels b buy (levels[i := pl'])
      in if remaining \<le> 0 then unlinkAndMaybeRemoveLevel b' buy i (ro_OrderID order) else b')"

definition cancelNode :: "Book \<Rightarrow> bool \<Rightarrow> nat \<Rightarrow> RestingOrder \<Rightarrow> Book" where
  "cancelNode b buy i order =
     (let levels = levelsOf b buy; pl = levels ! i;
          b' = setLevels b buy (levels[i := pl\<lparr> pl_totalVolume := pl_totalVolume pl - ro_Remaining order \<rparr>])
      in unlinkAndMaybeRemoveLevel b' buy i (ro_OrderID order))"

definition isMarket :: "RestingOrder \<Rightarrow> bool" where
  "isMarket order \<longleftrightarrow> ro_Price order = 0"

text \<open>The taker's limit: the best opposite price is out of its reach.\<close>

definition beyondLimit :: "RestingOrder \<Rightarrow> dec \<Rightarrow> bool" where
  "beyondLimit order price \<longleftrightarrow>
     \<not> isMarket order \<and>
     (if ro_Direction order = Buy then ro_Price order < price else price < ro_Price order)"

definition sideSize :: "Book \<Rightarrow> bool \<Rightarrow> nat" where
  "sideSize b buy = sum_list (map (\<lambda>pl. length (pl_queue pl)) (levelsOf b buy))"

text \<open>Every step of the matching loop takes a resting order off the opposite side or completes the
  taker.\<close>

lemma levelsOf_setLevels [simp]: "levelsOf (setLevels b buy ls) buy = ls"
  by (simp add: levelsOf_def setLevels_def)

lemma levelsOf_setLevels_other [simp]: "levelsOf (setLevels b buy ls) (\<not> buy) = levelsOf b (\<not> buy)"
  by (simp add: levelsOf_def setLevels_def)

lemma levelsOf_byID [simp]: "levelsOf (b\<lparr>bk_byID := m\<rparr>) buy = levelsOf b buy"
  by (simp add: levelsOf_def)

lemma byID_setLevels [simp]: "bk_byID (setLevels b buy ls) = bk_byID b"
  by (simp add: setLevels_def)

lemma sum_list_removeAt:
  "sum_list (map (\<lambda>pl. length (pl_queue pl)) (removeLevelAt ls i)) \<le> sum_list (map (\<lambda>pl. length (pl_queue pl)) ls)"
proof -
  have *: "sum_list (map f ls) = sum_list (map f (take i ls)) + sum_list (map f (drop i ls))"
    for f :: "priceLevel \<Rightarrow> nat"
    by (metis append_take_drop_id map_append sum_list_append)
  have "sum_list (map f (drop (i + 1) ls)) \<le> sum_list (map f (drop i ls))" for f :: "priceLevel \<Rightarrow> nat"
    by (cases "i < length ls") (simp_all add: Cons_nth_drop_Suc [symmetric])
  thus ?thesis by (simp add: removeLevelAt_def *)
qed

lemma sideSize_removeLevel: "sideSize (removeLevelFromIndex b price buy) buy \<le> sideSize b buy"
  by (auto simp: removeLevelFromIndex_def sideSize_def Let_def sum_list_removeAt split: prod.splits)

lemma sideSize_setLevel:
  assumes "i < length (levelsOf b buy)"
  shows "sideSize (setLevels b buy ((levelsOf b buy)[i := pl])) buy + length (pl_queue (levelsOf b buy ! i))
       = sideSize b buy + length (pl_queue pl)"
  using assms member_le_sum_list [of "length (pl_queue (levelsOf b buy ! i))" "map (\<lambda>pl. length (pl_queue pl)) (levelsOf b buy)"]
  by (simp add: sideSize_def map_update sum_list_update nth_mem image_iff) force

lemma sideSize_unlink:
  assumes "i < length (levelsOf b buy)" and "q \<in> set (pl_queue (levelsOf b buy ! i))" and "ro_OrderID q = oid"
  shows "sideSize (unlinkAndMaybeRemoveLevel b buy i oid) buy < sideSize b buy"
proof -
  define pl' where "pl' = (levelsOf b buy ! i)\<lparr> pl_queue := filter (\<lambda>q. ro_OrderID q \<noteq> oid) (pl_queue (levelsOf b buy ! i)),
                    pl_count := pl_count (levelsOf b buy ! i) - 1 \<rparr>"
  define b' where "b' = (setLevels b buy ((levelsOf b buy)[i := pl']))\<lparr> bk_byID := (bk_byID b)(oid := None) \<rparr>"
  have "length (pl_queue pl') < length (pl_queue (levelsOf b buy ! i))"
    unfolding pl'_def using assms(2,3) by (simp add: length_filter_less)
  moreover have "sideSize b' buy = sideSize (setLevels b buy ((levelsOf b buy)[i := pl'])) buy"
    by (simp add: b'_def sideSize_def)
  ultimately have "sideSize b' buy < sideSize b buy"
    using sideSize_setLevel [OF assms(1), of pl'] by linarith
  moreover have "sideSize (removeLevelFromIndex b' price buy) buy \<le> sideSize b' buy" for price
    by (rule sideSize_removeLevel)
  ultimately show ?thesis
    unfolding unlinkAndMaybeRemoveLevel_def Let_def pl'_def [symmetric] b'_def [symmetric]
    by (auto intro: order.strict_trans1)
qed

lemma sideSize_cancelNode:
  assumes "i < length (levelsOf b buy)" and "q \<in> set (pl_queue (levelsOf b buy ! i))"
  shows "sideSize (cancelNode b buy i q) buy < sideSize b buy"
proof -
  let ?pl = "levelsOf b buy ! i"
  let ?b = "setLevels b buy ((levelsOf b buy)[i := ?pl\<lparr> pl_totalVolume := pl_totalVolume ?pl - ro_Remaining q \<rparr>])"
  have "sideSize (unlinkAndMaybeRemoveLevel ?b buy i (ro_OrderID q)) buy < sideSize ?b buy"
    by (rule sideSize_unlink [of _ _ _ q]) (use assms in auto)
  with sideSize_setLevel [OF assms(1), of "?pl\<lparr> pl_totalVolume := pl_totalVolume ?pl - ro_Remaining q \<rparr>"]
  show ?thesis by (simp add: cancelNode_def Let_def)
qed

lemma length_setRemaining [simp]: "length (setRemaining oid v q) = length q"
  by (simp add: setRemaining_def)

lemma sideSize_applyFill:
  assumes "i < length (levelsOf b buy)" and "q \<in> set (pl_queue (levelsOf b buy ! i))"
  shows "sideSize (applyFill b buy i q vol) buy \<le> sideSize b buy"
    and "ro_Remaining q \<le> vol \<Longrightarrow> sideSize (applyFill b buy i q vol) buy < sideSize b buy"
proof -
  let ?pl = "levelsOf b buy ! i"
  define pl' where "pl' = ?pl\<lparr> pl_queue := setRemaining (ro_OrderID q) (ro_Remaining q - vol) (pl_queue ?pl),
                    pl_totalVolume := pl_totalVolume ?pl - vol \<rparr>"
  let ?b = "setLevels b buy ((levelsOf b buy)[i := pl'])"
  have eq: "sideSize ?b buy = sideSize b buy"
    using sideSize_setLevel [OF assms(1), of pl'] by (simp add: pl'_def)
  have "q\<lparr>ro_Remaining := ro_Remaining q - vol\<rparr> \<in> set (pl_queue pl')"
    using assms(2) by (force simp: pl'_def setRemaining_def)
  hence lt: "sideSize (unlinkAndMaybeRemoveLevel ?b buy i (ro_OrderID q)) buy < sideSize ?b buy"
    by (intro sideSize_unlink [of _ _ _ "q\<lparr>ro_Remaining := ro_Remaining q - vol\<rparr>"]) (use assms(1) in auto)
  show "sideSize (applyFill b buy i q vol) buy \<le> sideSize b buy"
    using lt eq by (simp add: applyFill_def Let_def pl'_def [symmetric])
  show "ro_Remaining q \<le> vol \<Longrightarrow> sideSize (applyFill b buy i q vol) buy < sideSize b buy"
    using lt eq by (simp add: applyFill_def Let_def pl'_def [symmetric])
qed

function matchLoop :: "RestingOrder \<Rightarrow> Book \<Rightarrow> (Fill list \<times> RestingOrder list \<times> RestingOrder \<times> Book) res" where
  "matchLoop order b =
     (let buy = (ro_Direction order \<noteq> Buy); levels = levelsOf b buy in
      if 0 < ro_Remaining order \<and> levels \<noteq> [] then
        let level = levels ! 0 in
        if beyondLimit order (pl_price level) then Inr ([], [], order, b)
        else
          (case pl_queue level of
             [] \<Rightarrow> Inl PanicNilPointer
           | node # _ \<Rightarrow>
               if ro_UID node = ro_UID order then
                 (case matchLoop order (cancelNode b buy 0 node) of
                    Inl e \<Rightarrow> Inl e
                  | Inr (fills, selfCanceled, order', b') \<Rightarrow> Inr (fills, node # selfCanceled, order', b'))
               else
                 let vol = min (ro_Remaining order) (ro_Remaining node);
                     fill = \<lparr> fl_Price = pl_price level, fl_Volume = vol,
                              fl_MakerOrder = node\<lparr>ro_Remaining := ro_Remaining node - vol\<rparr>,
                              fl_TakerOrder = order \<rparr> in
                 (case matchLoop (order\<lparr>ro_Remaining := ro_Remaining order - vol\<rparr>)
                         (applyFill b buy 0 node vol) of
                    Inl e \<Rightarrow> Inl e
                  | Inr (fills, selfCanceled, order', b') \<Rightarrow> Inr (fill # fills, selfCanceled, order', b')))
      else Inr ([], [], order, b))"
  by pat_completeness auto
termination
proof (relation "measure (\<lambda>(order, b). sideSize b (ro_Direction order \<noteq> Buy) + (if 0 < ro_Remaining order then 1 else 0))",
       goal_cases)
  case 1
  show ?case by simp
next
  case (2 order b buy levels level node rest)
  hence "sideSize (cancelNode b buy 0 node) buy < sideSize b buy"
    by (intro sideSize_cancelNode) auto
  with 2 show ?case by simp
next
  case (3 order b buy levels level node rest vol fill)
  hence mem: "0 < length (levelsOf b buy)" "node \<in> set (pl_queue (levelsOf b buy ! 0))" by auto
  show ?case
  proof (cases "ro_Remaining node \<le> vol")
    case True
    with sideSize_applyFill(2) [OF mem True] 3 show ?thesis by auto
  next
    case False
    with 3 have "vol = ro_Remaining order" by (simp add: min_def split: if_splits)
    with sideSize_applyFill(1) [OF mem, of vol] 3 show ?thesis by simp
  qed
qed

declare matchLoop.simps [simp del]

definition Match :: "RestingOrder \<Rightarrow> Book \<Rightarrow> (Fill list \<times> RestingOrder list \<times> RestingOrder \<times> Book) res" where
  "Match order b =
     (case matchLoop order b of
        Inl e \<Rightarrow> Inl e
      | Inr (fills, selfCanceled, order', b') \<Rightarrow>
          Inr (map (\<lambda>f. f\<lparr>fl_TakerOrder := order'\<rparr>) fills, selfCanceled, order', b'))"

definition Contains :: "Book \<Rightarrow> nat \<Rightarrow> bool" where
  "Contains b orderID \<longleftrightarrow> bk_byID b orderID \<noteq> None"

definition Rest :: "RestingOrder \<Rightarrow> Book \<Rightarrow> bool \<times> Book" where
  "Rest order b =
     (if bk_byID b (ro_OrderID order) \<noteq> None then (False, b)
      else
        let buy = (ro_Direction order = Buy);
            (i, b1) = getOrCreateLevel b (ro_Price order) buy;
            levels = levelsOf b1 buy in
        (True, (setLevels b1 buy (levels[i := insertOrdered (levels ! i) order]))
                 \<lparr> bk_byID := (bk_byID b1)(ro_OrderID order \<mapsto> (ro_Direction order, ro_Price order)) \<rparr>))"

text \<open>Cancel follows the node pointer of \<open>byID\<close>: the level of that price, and in it the order.\<close>

definition nodeOf :: "Book \<Rightarrow> nat \<Rightarrow> (bool \<times> nat \<times> RestingOrder) option" where
  "nodeOf b orderID =
     (case bk_byID b orderID of
        None \<Rightarrow> None
      | Some (d, price) \<Rightarrow>
          let buy = (d = Buy); (i, found) = findLevelIndex (levelsOf b buy) price buy in
          if \<not> found then None
          else map_option (\<lambda>q. (buy, i, q)) (find (\<lambda>q. ro_OrderID q = orderID) (pl_queue (levelsOf b buy ! i))))"

definition Cancel :: "Book \<Rightarrow> nat \<Rightarrow> (dec \<times> bool) \<times> Book" where
  "Cancel b orderID =
     (case nodeOf b orderID of
        None \<Rightarrow> ((0, False), b)
      | Some (buy, i, node) \<Rightarrow> ((ro_Remaining node, True), cancelNode b (ro_Direction node = Buy) i node))"

section \<open>Depth and impact price\<close>

record PriceLevel =
  snap_Price :: dec
  snap_Volume :: dec
  snap_Count :: int

record DepthSnapshot =
  ds_Bids :: "PriceLevel list"
  ds_Asks :: "PriceLevel list"

definition DefaultDepthLevels :: int where
  "DefaultDepthLevels = 20"

definition snapshotLevels :: "priceLevel list \<Rightarrow> int \<Rightarrow> PriceLevel list" where
  "snapshotLevels levels maxLevels =
     (let n = length levels; n' = (if 0 < maxLevels \<and> nat maxLevels < n then nat maxLevels else n) in
      map (\<lambda>i. \<lparr> snap_Price = pl_price (levels ! i), snap_Volume = pl_totalVolume (levels ! i),
                 snap_Count = pl_count (levels ! i) \<rparr>) [0..<n'])"

definition Depth :: "Book \<Rightarrow> int \<Rightarrow> DepthSnapshot" where
  "Depth b maxLevels =
     \<lparr> ds_Bids = snapshotLevels (bk_bids b) maxLevels, ds_Asks = snapshotLevels (bk_asks b) maxLevels \<rparr>"

definition sdivround :: "dec_lib \<Rightarrow> dec \<Rightarrow> dec \<Rightarrow> nat \<Rightarrow> dec res" where
  "sdivround L a b s = (if b = 0 then Inl PanicDivisionByZero else Inr (lib_DivRound L a b s))"

fun impactLoop :: "dec_lib \<Rightarrow> dec \<Rightarrow> dec \<Rightarrow> dec \<Rightarrow> priceLevel list \<Rightarrow> (dec \<times> bool) res" where
  "impactLoop L notional remaining qty [] = Inr (0, False)"
| "impactLoop L notional remaining qty (pl # levels) =
     (let levelNotional = pl_price pl * pl_totalVolume pl in
      if remaining \<le> levelNotional then
        (case sdivround L remaining (pl_price pl) 32 of
           Inl e \<Rightarrow> Inl e
         | Inr part \<Rightarrow>
             (case sdivround L notional (qty + part) 16 of
                Inl e \<Rightarrow> Inl e
              | Inr avg \<Rightarrow> Inr (avg, True)))
      else impactLoop L notional (remaining - levelNotional) (qty + pl_totalVolume pl) levels)"

definition impactPrice :: "dec_lib \<Rightarrow> priceLevel list \<Rightarrow> dec \<Rightarrow> (dec \<times> bool) res" where
  "impactPrice L levels notional =
     (if notional \<le> 0 then Inr (0, False) else impactLoop L notional notional 0 levels)"

definition ImpactPrices :: "dec_lib \<Rightarrow> Book \<Rightarrow> dec \<Rightarrow> (dec \<times> dec \<times> bool) res" where
  "ImpactPrices L b notional =
     (case impactPrice L (bk_bids b) notional of
        Inl e \<Rightarrow> Inl e
      | Inr (bid, okBid) \<Rightarrow>
          (case impactPrice L (bk_asks b) notional of
             Inl e \<Rightarrow> Inl e
           | Inr (ask, okAsk) \<Rightarrow> Inr (bid, ask, okBid \<and> okAsk)))"

section \<open>The books of all symbols\<close>

type_synonym Engine = "symbol \<rightharpoonup> Book"

definition NewEngine :: Engine where
  "NewEngine = Map.empty"

definition BookFor :: "Engine \<Rightarrow> symbol \<Rightarrow> Book \<times> Engine" where
  "BookFor e s = (case e s of Some b \<Rightarrow> (b, e) | None \<Rightarrow> (NewBook, e(s \<mapsto> NewBook)))"

end
