(* ===== verification/BookSpec.thy ===== *)
theory BookSpec
  imports Book
begin

text \<open>
  Correctness of the order book. \<open>wf_book\<close> is the representation invariant of Book; \<open>flat\<close> reads a
  side as the one list of its resting orders in matching order; \<open>absMatch\<close>, \<open>absInsert\<close> and list
  removal are the abstract operations on it. The lemmas show that the level arrays with their binary
  search, totals and id index implement the abstract list, and the locale \<open>price_time_book\<close> holds
  what clients of a book may rely on, proved once from its laws and interpreted on the code's book.
\<close>

section \<open>Binary search\<close>

lemma sort_Search_loop_bounds:
  assumes "i \<le> j" "j \<le> n" "\<And>a b. a \<le> b \<Longrightarrow> b < n \<Longrightarrow> f a \<Longrightarrow> f b"
    and "\<And>k. k < i \<Longrightarrow> \<not> f k" "\<And>k. j \<le> k \<Longrightarrow> k < n \<Longrightarrow> f k"
  shows "sort_Search_loop f i j \<le> j \<and> (\<forall>k < sort_Search_loop f i j. \<not> f k) \<and>
         (\<forall>k. sort_Search_loop f i j \<le> k \<longrightarrow> k < n \<longrightarrow> f k)"
  using assms
proof (induction f i j rule: sort_Search_loop.induct)
  case (1 f i j)
  show ?case
  proof (cases "i < j")
    case False
    hence "sort_Search_loop f i j = i" by (subst sort_Search_loop.simps) simp
    with 1(3-) False show ?thesis by auto
  next
    case True
    define h where "h = (i + j) div 2"
    have h: "i \<le> h" "h < j" using True by (simp_all add: h_def)
    have eq: "sort_Search_loop f i j = (if f h then sort_Search_loop f i h else sort_Search_loop f (h + 1) j)"
      by (subst sort_Search_loop.simps) (simp add: True h_def Let_def)
    show ?thesis
    proof (cases "f h")
      case False
      have "\<not> f k" if "k < h + 1" for k
        using 1(5) [of k h] False h that 1(4) by linarith
      with 1(1) [OF True h_def] False h 1(4-) show ?thesis
        by (simp add: eq)
    next
      case fh: True
      have "f k" if "h \<le> k" "k < n" for k using 1(5) [of h k] fh that by blast
      with 1(2) [OF True h_def] fh h 1(4-) show ?thesis
        by (auto simp: eq)
    qed
  qed
qed

lemma sort_Search_takeWhile:
  assumes "\<And>a b. a \<le> b \<Longrightarrow> b < length xs \<Longrightarrow> P (xs ! a) \<Longrightarrow> P (xs ! b)"
  shows "sort_Search (length xs) (\<lambda>i. P (xs ! i)) = length (takeWhile (\<lambda>x. \<not> P x) xs)"
proof -
  define r where "r = sort_Search (length xs) (\<lambda>i. P (xs ! i))"
  have r: "r \<le> length xs \<and> (\<forall>k<r. \<not> P (xs ! k)) \<and> (\<forall>k. r \<le> k \<longrightarrow> k < length xs \<longrightarrow> P (xs ! k))"
    unfolding r_def sort_Search_def
    by (rule sort_Search_loop_bounds) (simp_all add: assms)
  have "takeWhile (\<lambda>x. \<not> P x) xs = take r xs"
    by (rule takeWhile_eq_take_P_nth) (use r in auto)
  moreover have "length (take r xs) = r" using r by (simp only: length_take min.absorb2)
  ultimately show ?thesis unfolding r_def [symmetric] by (simp only:)
qed

text \<open>\<open>ahead buy p q\<close>: on that side, price p is matched before price q.\<close>

definition ahead :: "bool \<Rightarrow> dec \<Rightarrow> dec \<Rightarrow> bool" where
  "ahead buy p q \<longleftrightarrow> (if buy then q < p else p < q)"

definition sorted_levels :: "bool \<Rightarrow> priceLevel list \<Rightarrow> bool" where
  "sorted_levels buy levels \<longleftrightarrow> sorted_wrt (\<lambda>x y. ahead buy (pl_price x) (pl_price y)) levels"

lemma ahead_irrefl [simp]: "\<not> ahead buy p p"
  by (simp add: ahead_def)

lemma ahead_trans [trans]: "ahead buy p q \<Longrightarrow> ahead buy q r \<Longrightarrow> ahead buy p r"
  by (auto simp: ahead_def split: if_splits)

lemma not_ahead_iff: "\<not> ahead buy p q \<longleftrightarrow> p = q \<or> ahead buy q p"
  by (auto simp: ahead_def)

lemma sorted_levels_append:
  "sorted_levels buy (xs @ ys) \<longleftrightarrow> sorted_levels buy xs \<and> sorted_levels buy ys \<and>
     (\<forall>x\<in>set xs. \<forall>y\<in>set ys. ahead buy (pl_price x) (pl_price y))"
  by (simp add: sorted_levels_def sorted_wrt_append)

lemma sorted_levels_Cons:
  "sorted_levels buy (x # ys) \<longleftrightarrow> (\<forall>y\<in>set ys. ahead buy (pl_price x) (pl_price y)) \<and> sorted_levels buy ys"
  by (simp add: sorted_levels_def)

lemma sorted_levels_Nil [simp]: "sorted_levels buy []"
  by (simp add: sorted_levels_def)

lemma findLevelIndex_sorted:
  assumes "sorted_levels buy levels"
  shows "findLevelIndex levels price buy =
    (let i = length (takeWhile (\<lambda>pl. ahead buy (pl_price pl) price) levels)
     in (i, i < length levels \<and> pl_price (levels ! i) = price))"
proof -
  have eq: "(if buy then pl_price pl \<le> price else price \<le> pl_price pl) = (\<not> ahead buy (pl_price pl) price)" for pl
    by (auto simp: ahead_def)
  have "\<not> ahead buy (pl_price (levels ! b)) price"
    if "a \<le> b" "b < length levels" "\<not> ahead buy (pl_price (levels ! a)) price" for a b
  proof (cases "a = b")
    case False
    with that assms have "ahead buy (pl_price (levels ! a)) (pl_price (levels ! b))"
      unfolding sorted_levels_def by (simp add: sorted_wrt_iff_nth_less)
    with that(3) show ?thesis by (meson ahead_trans)
  qed (use that in simp)
  from sort_Search_takeWhile [of levels "\<lambda>pl. \<not> ahead buy (pl_price pl) price", OF this]
  show ?thesis unfolding findLevelIndex_def eq by (simp add: Let_def)
qed

lemma takeWhile_prefix:
  "(\<forall>x\<in>set pre. P x) \<Longrightarrow> (post = [] \<or> \<not> P (hd post)) \<Longrightarrow> takeWhile P (pre @ post) = pre"
  by (cases post) (simp_all add: takeWhile_append)

lemma findLevelIndex_at:
  assumes "sorted_levels buy (pre @ pl # post)"
  shows "findLevelIndex (pre @ pl # post) (pl_price pl) buy = (length pre, True)"
proof -
  have "takeWhile (\<lambda>x. ahead buy (pl_price x) (pl_price pl)) (pre @ pl # post) = pre"
    by (rule takeWhile_prefix) (use assms in \<open>auto simp: sorted_levels_append\<close>)
  thus ?thesis by (simp add: findLevelIndex_sorted [OF assms] Let_def)
qed

lemma findLevelIndex_split:
  assumes "sorted_levels buy levels" and "findLevelIndex levels price buy = (i, found)"
  shows "\<exists>pre post. levels = pre @ post \<and> length pre = i \<and> (\<forall>x\<in>set pre. ahead buy (pl_price x) price) \<and>
     (if found then \<exists>pl rest. post = pl # rest \<and> pl_price pl = price
      else \<forall>x\<in>set post. ahead buy price (pl_price x))"
proof -
  let ?P = "\<lambda>pl. ahead buy (pl_price pl) price"
  define pre post where "pre = takeWhile ?P levels" and "post = dropWhile ?P levels"
  have eq: "levels = pre @ post" by (simp add: pre_def post_def)
  have "(i, found) = (length pre, length pre < length levels \<and> pl_price (levels ! length pre) = price)"
    using assms(2) findLevelIndex_sorted [OF assms(1), of price] by (simp only: Let_def pre_def)
  hence i: "i = length pre" and "found \<longleftrightarrow> length pre < length (pre @ post) \<and> pl_price ((pre @ post) ! length pre) = price"
    unfolding eq [symmetric] by (simp_all only: prod.inject)
  hence f: "found \<longleftrightarrow> post \<noteq> [] \<and> pl_price (hd post) = price"
    by (cases post) simp_all
  have pre: "\<forall>x\<in>set pre. ?P x" unfolding pre_def by (blast dest: set_takeWhileD)
  have "\<forall>x\<in>set post. ahead buy price (pl_price x)" if "\<not> found"
  proof (cases post)
    case (Cons a rest)
    with that f have "pl_price a \<noteq> price" by simp
    moreover have "\<not> ?P a" using Cons hd_dropWhile [of ?P levels] by (auto simp: post_def)
    ultimately have "ahead buy price (pl_price a)" by (auto simp: not_ahead_iff)
    moreover have "sorted_levels buy (a # rest)" using assms(1) eq Cons by (simp add: sorted_levels_append)
    ultimately show ?thesis using Cons by (auto simp: sorted_levels_Cons intro: ahead_trans)
  qed simp
  moreover have "\<exists>pl rest. post = pl # rest \<and> pl_price pl = price" if found
    using that f by (cases post) auto
  ultimately show ?thesis using eq i pre
    by (intro exI [of _ pre] exI [of _ post]) auto
qed

section \<open>The representation invariant\<close>

definition flat :: "priceLevel list \<Rightarrow> RestingOrder list" where
  "flat levels = concat (map pl_queue levels)"

definition wf_level :: "bool \<Rightarrow> priceLevel \<Rightarrow> bool" where
  "wf_level buy pl \<longleftrightarrow>
     pl_queue pl \<noteq> [] \<and>
     sorted (map ro_EntryTime (pl_queue pl)) \<and>
     pl_totalVolume pl = sum_list (map ro_Remaining (pl_queue pl)) \<and>
     pl_count pl = int (length (pl_queue pl)) \<and>
     (\<forall>q\<in>set (pl_queue pl). ro_Price q = pl_price pl \<and> (ro_Direction q = Buy) = buy \<and> 0 < ro_Remaining q)"

definition wf_side :: "bool \<Rightarrow> priceLevel list \<Rightarrow> bool" where
  "wf_side buy levels \<longleftrightarrow> sorted_levels buy levels \<and> (\<forall>pl\<in>set levels. wf_level buy pl)"

definition bookOrders :: "Book \<Rightarrow> RestingOrder list" where
  "bookOrders b = flat (bk_bids b) @ flat (bk_asks b)"

definition wf_ids :: "Book \<Rightarrow> bool" where
  "wf_ids b \<longleftrightarrow>
     distinct (map ro_OrderID (bookOrders b)) \<and>
     (\<forall>i d p. bk_byID b i = Some (d, p) \<longleftrightarrow>
        (\<exists>q\<in>set (bookOrders b). ro_OrderID q = i \<and> ro_Direction q = d \<and> ro_Price q = p))"

definition wf_book :: "Book \<Rightarrow> bool" where
  "wf_book b \<longleftrightarrow> wf_side True (bk_bids b) \<and> wf_side False (bk_asks b) \<and> wf_ids b"

lemma flat_simps [simp]: "flat [] = []" "flat (pl # ls) = pl_queue pl @ flat ls" "flat (xs @ ys) = flat xs @ flat ys"
  by (simp_all add: flat_def)

lemma wf_side_levelsOf: "wf_book b \<Longrightarrow> wf_side buy (levelsOf b buy)"
  by (cases buy) (simp_all add: wf_book_def levelsOf_def)

lemma wf_side_Cons: "wf_side buy (pl # ls) \<longleftrightarrow>
   wf_level buy pl \<and> (\<forall>y\<in>set ls. ahead buy (pl_price pl) (pl_price y)) \<and> wf_side buy ls"
  by (auto simp: wf_side_def sorted_levels_Cons)

lemma wf_side_append: "wf_side buy (xs @ ys) \<longleftrightarrow> wf_side buy xs \<and> wf_side buy ys \<and>
   (\<forall>x\<in>set xs. \<forall>y\<in>set ys. ahead buy (pl_price x) (pl_price y))"
  by (auto simp: wf_side_def sorted_levels_append)

lemma wf_side_Nil [simp]: "wf_side buy []"
  by (simp add: wf_side_def)

lemma in_flat: "q \<in> set (flat ls) \<longleftrightarrow> (\<exists>pl\<in>set ls. q \<in> set (pl_queue pl))"
  by (auto simp: flat_def)

lemma wf_side_order:
  "wf_side buy ls \<Longrightarrow> q \<in> set (flat ls) \<Longrightarrow> 0 < ro_Remaining q \<and> (ro_Direction q = Buy) = buy \<and>
     (\<exists>pl\<in>set ls. q \<in> set (pl_queue pl) \<and> ro_Price q = pl_price pl)"
  by (auto simp: wf_side_def wf_level_def in_flat)

lemma wf_levelD: "wf_level buy pl \<Longrightarrow> q \<in> set (pl_queue pl) \<Longrightarrow>
   ro_Price q = pl_price pl \<and> (ro_Direction q = Buy) = buy \<and> 0 < ro_Remaining q"
  by (auto simp: wf_level_def)

lemma bookOrders_sides: "set (bookOrders b) = set (flat (levelsOf b buy)) \<union> set (flat (levelsOf b (\<not> buy)))"
  by (cases buy) (auto simp: bookOrders_def levelsOf_def)

lemma mset_bookOrders: "mset (bookOrders b) = mset (flat (levelsOf b buy)) + mset (flat (levelsOf b (\<not> buy)))"
  by (cases buy) (auto simp: bookOrders_def levelsOf_def)

lemma wf_ids_alt:
  "wf_ids b \<longleftrightarrow> distinct (map ro_OrderID (flat (levelsOf b buy) @ flat (levelsOf b (\<not> buy)))) \<and>
     (\<forall>i d p. bk_byID b i = Some (d, p) \<longleftrightarrow>
        (\<exists>q\<in>set (flat (levelsOf b buy) @ flat (levelsOf b (\<not> buy))). ro_OrderID q = i \<and> ro_Direction q = d \<and> ro_Price q = p))"
proof -
  have "mset (bookOrders b) = mset (flat (levelsOf b buy) @ flat (levelsOf b (\<not> buy)))"
    using mset_bookOrders [of b buy] by simp
  hence "distinct (map ro_OrderID (bookOrders b)) \<longleftrightarrow> distinct (map ro_OrderID (flat (levelsOf b buy) @ flat (levelsOf b (\<not> buy))))"
    by (metis mset_map mset_eq_imp_distinct_iff)
  moreover have "set (bookOrders b) = set (flat (levelsOf b buy) @ flat (levelsOf b (\<not> buy)))"
    using bookOrders_sides [of b buy] by simp
  ultimately show ?thesis by (simp only: wf_ids_def)
qed

lemma wf_book_alt: "wf_book b \<longleftrightarrow> wf_side buy (levelsOf b buy) \<and> wf_side (\<not> buy) (levelsOf b (\<not> buy)) \<and> wf_ids b"
  by (cases buy) (auto simp: wf_book_def levelsOf_def)

lemma wf_NewBook: "wf_book NewBook"
  by (simp add: wf_book_def wf_ids_def NewBook_def bookOrders_def)

section \<open>Removing and filling a node\<close>

definition keepLevel :: "priceLevel \<Rightarrow> priceLevel list" where
  "keepLevel pl = (if pl_queue pl = [] then [] else [pl])"

lemma flat_keepLevel [simp]: "flat (keepLevel pl) = pl_queue pl"
  by (simp add: keepLevel_def)

lemma set_keepLevel: "x \<in> set (keepLevel pl) \<longleftrightarrow> x = pl \<and> pl_queue pl \<noteq> []"
  by (auto simp: keepLevel_def)

lemma removeLevelFromIndex_at:
  assumes "levelsOf b buy = pre @ pl # post" and "sorted_levels buy (pre @ pl # post)"
  shows "removeLevelFromIndex b (pl_price pl) buy = setLevels b buy (pre @ post)"
  using findLevelIndex_at [OF assms(2)] by (simp add: removeLevelFromIndex_def assms(1) removeLevelAt_def)

lemma setLevels_setLevels [simp]: "setLevels (setLevels b buy xs) buy ys = setLevels b buy ys"
  by (simp add: setLevels_def)

lemma setLevels_byID: "setLevels (b\<lparr>bk_byID := m\<rparr>) buy xs = (setLevels b buy xs)\<lparr>bk_byID := m\<rparr>"
  by (simp add: setLevels_def)

lemma sorted_levels_replace:
  "pl_price pl' = pl_price pl \<Longrightarrow> sorted_levels buy (pre @ pl' # post) = sorted_levels buy (pre @ pl # post)"
  by (simp add: sorted_levels_append sorted_levels_Cons)

lemma unlink_eq:
  assumes lv: "levelsOf b buy = pre @ pl # post" and sorted: "sorted_levels buy (pre @ pl # post)"
  shows "unlinkAndMaybeRemoveLevel b buy (length pre) oid =
    (setLevels b buy (pre @ keepLevel (pl\<lparr> pl_queue := filter (\<lambda>q. ro_OrderID q \<noteq> oid) (pl_queue pl),
                                           pl_count := pl_count pl - 1 \<rparr>) @ post))
      \<lparr> bk_byID := (bk_byID b)(oid := None) \<rparr>"
proof -
  define pl' where "pl' = pl\<lparr> pl_queue := filter (\<lambda>q. ro_OrderID q \<noteq> oid) (pl_queue pl), pl_count := pl_count pl - 1 \<rparr>"
  define b' where "b' = (setLevels b buy (pre @ pl' # post))\<lparr> bk_byID := (bk_byID b)(oid := None) \<rparr>"
  have lv': "levelsOf b' buy = pre @ pl' # post" by (simp add: b'_def)
  have price: "pl_price pl' = pl_price pl" by (simp add: pl'_def)
  have srt: "sorted_levels buy (pre @ pl' # post)"
    using sorted sorted_levels_replace [OF price] by simp
  have "unlinkAndMaybeRemoveLevel b buy (length pre) oid =
        (if pl_queue pl' = [] then removeLevelFromIndex b' (pl_price pl) buy else b')"
    by (simp add: unlinkAndMaybeRemoveLevel_def lv Let_def pl'_def b'_def)
  also have "\<dots> = (setLevels b buy (pre @ keepLevel pl' @ post))\<lparr> bk_byID := (bk_byID b)(oid := None) \<rparr>"
    using removeLevelFromIndex_at [OF lv' srt] by (simp add: price b'_def keepLevel_def setLevels_byID)
  finally show ?thesis by (simp add: pl'_def)
qed

lemma pl_update_commute: "pl\<lparr>pl_totalVolume := t, pl_queue := q\<rparr> = pl\<lparr>pl_queue := q, pl_totalVolume := t\<rparr>"
  by simp

lemma cancelNode_eq:
  assumes lv: "levelsOf b buy = pre @ pl # post" and sorted: "sorted_levels buy (pre @ pl # post)"
  shows "cancelNode b buy (length pre) q =
    (setLevels b buy (pre @ keepLevel (pl\<lparr> pl_queue := filter (\<lambda>x. ro_OrderID x \<noteq> ro_OrderID q) (pl_queue pl),
                                           pl_totalVolume := pl_totalVolume pl - ro_Remaining q,
                                           pl_count := pl_count pl - 1 \<rparr>) @ post))
      \<lparr> bk_byID := (bk_byID b)(ro_OrderID q := None) \<rparr>"
proof -
  let ?pl = "pl\<lparr>pl_totalVolume := pl_totalVolume pl - ro_Remaining q\<rparr>"
  let ?b = "setLevels b buy (pre @ ?pl # post)"
  have "unlinkAndMaybeRemoveLevel ?b buy (length pre) (ro_OrderID q) =
    (setLevels ?b buy (pre @ keepLevel (?pl\<lparr> pl_queue := filter (\<lambda>x. ro_OrderID x \<noteq> ro_OrderID q) (pl_queue ?pl),
                                           pl_count := pl_count ?pl - 1 \<rparr>) @ post))
      \<lparr> bk_byID := (bk_byID ?b)(ro_OrderID q := None) \<rparr>"
    by (rule unlink_eq) (use sorted sorted_levels_replace [of ?pl pl] in simp_all)
  thus ?thesis by (simp add: cancelNode_def lv pl_update_commute)
qed

lemma applyFill_eq:
  assumes lv: "levelsOf b buy = pre @ pl # post" and sorted: "sorted_levels buy (pre @ pl # post)"
  shows "applyFill b buy (length pre) q vol =
    (if ro_Remaining q \<le> vol then
      (setLevels b buy (pre @ keepLevel (pl\<lparr> pl_queue := filter (\<lambda>x. ro_OrderID x \<noteq> ro_OrderID q) (pl_queue pl),
                                           pl_totalVolume := pl_totalVolume pl - vol,
                                           pl_count := pl_count pl - 1 \<rparr>) @ post))
        \<lparr> bk_byID := (bk_byID b)(ro_OrderID q := None) \<rparr>
     else setLevels b buy (pre @ pl\<lparr> pl_queue := setRemaining (ro_OrderID q) (ro_Remaining q - vol) (pl_queue pl),
                                     pl_totalVolume := pl_totalVolume pl - vol \<rparr> # post))"
proof -
  let ?pl = "pl\<lparr> pl_queue := setRemaining (ro_OrderID q) (ro_Remaining q - vol) (pl_queue pl),
                 pl_totalVolume := pl_totalVolume pl - vol \<rparr>"
  let ?b = "setLevels b buy (pre @ ?pl # post)"
  have "filter (\<lambda>x. ro_OrderID x \<noteq> i) (setRemaining i v xs) = filter (\<lambda>x. ro_OrderID x \<noteq> i) xs" for i v xs
    by (induction xs) (simp_all add: setRemaining_def)
  moreover have "unlinkAndMaybeRemoveLevel ?b buy (length pre) (ro_OrderID q) =
    (setLevels ?b buy (pre @ keepLevel (?pl\<lparr> pl_queue := filter (\<lambda>x. ro_OrderID x \<noteq> ro_OrderID q) (pl_queue ?pl),
                                           pl_count := pl_count ?pl - 1 \<rparr>) @ post))
      \<lparr> bk_byID := (bk_byID ?b)(ro_OrderID q := None) \<rparr>"
    by (rule unlink_eq) (use sorted sorted_levels_replace [of ?pl pl] in simp_all)
  ultimately show ?thesis by (simp add: applyFill_def lv Let_def pl_update_commute)
qed

lemma filter_id_notin: "oid \<notin> ro_OrderID ` set xs \<Longrightarrow> filter (\<lambda>x. ro_OrderID x \<noteq> oid) xs = xs"
  by (rule filter_True) auto

lemma setRemaining_notin: "oid \<notin> ro_OrderID ` set xs \<Longrightarrow> setRemaining oid v xs = xs"
  unfolding setRemaining_def by (rule map_idI) auto

lemma filter_id_sums:
  assumes "distinct (map ro_OrderID xs)" "q \<in> set xs"
  shows "sum_list (map ro_Remaining (filter (\<lambda>x. ro_OrderID x \<noteq> ro_OrderID q) xs)) = sum_list (map ro_Remaining xs) - ro_Remaining q"
    and "length (filter (\<lambda>x. ro_OrderID x \<noteq> ro_OrderID q) xs) + 1 = length xs"
proof -
  obtain ys zs where xs: "xs = ys @ q # zs" using split_list [OF assms(2)] by blast
  with assms(1) have "filter (\<lambda>x. ro_OrderID x \<noteq> ro_OrderID q) xs = ys @ zs"
    by (simp add: filter_id_notin)
  thus "sum_list (map ro_Remaining (filter (\<lambda>x. ro_OrderID x \<noteq> ro_OrderID q) xs)) = sum_list (map ro_Remaining xs) - ro_Remaining q"
    and "length (filter (\<lambda>x. ro_OrderID x \<noteq> ro_OrderID q) xs) + 1 = length xs"
    by (simp_all add: xs)
qed

lemma setRemaining_sums:
  assumes "distinct (map ro_OrderID xs)" "q \<in> set xs"
  shows "sum_list (map ro_Remaining (setRemaining (ro_OrderID q) v xs)) = sum_list (map ro_Remaining xs) - ro_Remaining q + v"
proof -
  obtain ys zs where xs: "xs = ys @ q # zs" using split_list [OF assms(2)] by blast
  with assms(1) have "setRemaining (ro_OrderID q) v xs = ys @ q\<lparr>ro_Remaining := v\<rparr> # zs"
    using setRemaining_notin [of "ro_OrderID q" ys v] setRemaining_notin [of "ro_OrderID q" zs v]
    by (auto simp: setRemaining_def)
  thus ?thesis by (simp add: xs)
qed

lemma setRemaining_keys [simp]:
  "map ro_OrderID (setRemaining i v xs) = map ro_OrderID xs"
  "map ro_EntryTime (setRemaining i v xs) = map ro_EntryTime xs"
  "setRemaining i v xs = [] \<longleftrightarrow> xs = []"
  "setRemaining i v (xs @ ys) = setRemaining i v xs @ setRemaining i v ys"
  by (auto simp: setRemaining_def)

lemma setRemaining_in:
  assumes "y \<in> set (setRemaining i v xs)"
  shows "\<exists>x\<in>set xs. y = (if ro_OrderID x = i then x\<lparr>ro_Remaining := v\<rparr> else x)"
  using assms by (auto simp: setRemaining_def)

lemma setRemaining_places:
  "(\<exists>y\<in>set (setRemaining i v xs). ro_OrderID y = j \<and> ro_Direction y = d \<and> ro_Price y = p) \<longleftrightarrow>
   (\<exists>x\<in>set xs. ro_OrderID x = j \<and> ro_Direction x = d \<and> ro_Price x = p)"
  by (induction xs) (auto simp: setRemaining_def)

text \<open>The facts an operation on one node of one side needs from the invariant.\<close>

lemma wf_book_node:
  assumes "wf_book b" "levelsOf b buy = pre @ pl # post" "q \<in> set (pl_queue pl)"
  shows "sorted_levels buy (pre @ pl # post)" "wf_level buy pl"
    and "distinct (map ro_OrderID (pl_queue pl))"
    and "ro_OrderID q \<notin> ro_OrderID ` set (flat pre)" "ro_OrderID q \<notin> ro_OrderID ` set (flat post)"
    and "ro_OrderID q \<notin> ro_OrderID ` set (flat (levelsOf b (\<not> buy)))"
    and "0 < ro_Remaining q" "ro_Price q = pl_price pl" "(ro_Direction q = Buy) = buy"
proof -
  have side: "wf_side buy (pre @ pl # post)" using wf_side_levelsOf [OF assms(1), of buy] assms(2) by simp
  thus "sorted_levels buy (pre @ pl # post)" and lv: "wf_level buy pl" by (simp_all add: wf_side_def)
  have d: "distinct (map ro_OrderID (flat (levelsOf b buy) @ flat (levelsOf b (\<not> buy))))"
    using assms(1) wf_ids_alt [of b buy] by (simp add: wf_book_def)
  show "distinct (map ro_OrderID (pl_queue pl))" using d by (simp add: assms(2))
  have "ro_OrderID q \<in> ro_OrderID ` set (pl_queue pl)" using assms(3) by (rule imageI)
  with d show "ro_OrderID q \<notin> ro_OrderID ` set (flat pre)" "ro_OrderID q \<notin> ro_OrderID ` set (flat post)"
    "ro_OrderID q \<notin> ro_OrderID ` set (flat (levelsOf b (\<not> buy)))"
    by (auto simp: assms(2) disjoint_iff)
  show "0 < ro_Remaining q" "ro_Price q = pl_price pl" "(ro_Direction q = Buy) = buy"
    using wf_levelD [OF lv assms(3)] by auto
qed

lemma wf_level_remove:
  assumes "wf_level buy pl" "distinct (map ro_OrderID (pl_queue pl))" "q \<in> set (pl_queue pl)"
    and "pl' = pl\<lparr> pl_queue := filter (\<lambda>x. ro_OrderID x \<noteq> ro_OrderID q) (pl_queue pl),
                   pl_totalVolume := pl_totalVolume pl - ro_Remaining q, pl_count := pl_count pl - 1 \<rparr>"
    and "x \<in> set (keepLevel pl')"
  shows "wf_level buy x"
proof -
  have x: "x = pl'" "pl_queue pl' \<noteq> []" using assms(5) by (auto simp: set_keepLevel)
  have "int (length (filter (\<lambda>x. ro_OrderID x \<noteq> ro_OrderID q) (pl_queue pl))) = int (length (pl_queue pl)) - 1"
    using filter_id_sums(2) [OF assms(2,3)] by linarith
  with x assms(1) show ?thesis
    using filter_id_sums(1) [OF assms(2,3)]
    by (auto simp: wf_level_def assms(4) intro: sorted_filter)
qed

lemma cancelNode_correct:
  assumes wf: "wf_book b" and lv: "levelsOf b buy = pre @ pl # post" and q: "q \<in> set (pl_queue pl)"
  defines "b' \<equiv> cancelNode b buy (length pre) q"
  shows "wf_book b'"
    and "flat (levelsOf b' buy) = filter (\<lambda>x. ro_OrderID x \<noteq> ro_OrderID q) (flat (levelsOf b buy))"
    and "levelsOf b' (\<not> buy) = levelsOf b (\<not> buy)"
proof -
  note node = wf_book_node [OF wf lv q]
  define pl' where "pl' = pl\<lparr> pl_queue := filter (\<lambda>x. ro_OrderID x \<noteq> ro_OrderID q) (pl_queue pl),
                   pl_totalVolume := pl_totalVolume pl - ro_Remaining q, pl_count := pl_count pl - 1 \<rparr>"
  have b': "b' = (setLevels b buy (pre @ keepLevel pl' @ post))\<lparr> bk_byID := (bk_byID b)(ro_OrderID q := None) \<rparr>"
    unfolding b'_def pl'_def by (rule cancelNode_eq [OF lv node(1)])
  have lv': "levelsOf b' buy = pre @ keepLevel pl' @ post" by (simp add: b')
  show other: "levelsOf b' (\<not> buy) = levelsOf b (\<not> buy)" by (simp add: b')
  show fl: "flat (levelsOf b' buy) = filter (\<lambda>x. ro_OrderID x \<noteq> ro_OrderID q) (flat (levelsOf b buy))"
    by (simp add: lv lv' pl'_def filter_id_notin [OF node(4)] filter_id_notin [OF node(5)])
  have "wf_side buy (pre @ pl # post)" using wf_side_levelsOf [OF wf, of buy] lv by simp
  moreover have "pl_price pl' = pl_price pl" by (simp add: pl'_def)
  ultimately have side: "wf_side buy (levelsOf b' buy)"
    using wf_level_remove [OF node(2,3) q pl'_def] unfolding lv'
    by (auto simp: wf_side_append wf_side_Cons keepLevel_def)
  have ids: "wf_ids b'"
  proof -
    have flo: "filter (\<lambda>x. ro_OrderID x \<noteq> ro_OrderID q) (flat (levelsOf b (\<not> buy))) = flat (levelsOf b (\<not> buy))"
      by (rule filter_id_notin [OF node(6)])
    have eq: "flat (levelsOf b' buy) @ flat (levelsOf b' (\<not> buy))
        = filter (\<lambda>x. ro_OrderID x \<noteq> ro_OrderID q) (flat (levelsOf b buy) @ flat (levelsOf b (\<not> buy)))"
      by (simp add: fl other flo)
    have by_id: "bk_byID b' = (bk_byID b)(ro_OrderID q := None)" by (simp add: b')
    have "wf_ids b" using wf by (simp add: wf_book_def)
    thus ?thesis
      unfolding wf_ids_alt [of b' buy] wf_ids_alt [of b buy] eq by_id
      by (auto intro: distinct_map_filter)
  qed
  have "wf_side (\<not> buy) (levelsOf b (\<not> buy))" by (rule wf_side_levelsOf [OF wf])
  with side ids show "wf_book b'" by (simp add: wf_book_alt [of b' buy] other)
qed

lemma applyFill_all:
  assumes wf: "wf_book b" and lv: "levelsOf b buy = pre @ pl # post" and q: "q \<in> set (pl_queue pl)"
  shows "applyFill b buy (length pre) q (ro_Remaining q) = cancelNode b buy (length pre) q"
  using applyFill_eq [OF lv wf_book_node(1) [OF wf lv q]] cancelNode_eq [OF lv wf_book_node(1) [OF wf lv q]]
  by simp

lemma applyFill_part:
  assumes wf: "wf_book b" and lv: "levelsOf b buy = pre @ pl # post" and q: "q \<in> set (pl_queue pl)"
    and vol: "vol < ro_Remaining q"
  defines "b' \<equiv> applyFill b buy (length pre) q vol"
  shows "wf_book b'"
    and "flat (levelsOf b' buy) = setRemaining (ro_OrderID q) (ro_Remaining q - vol) (flat (levelsOf b buy))"
    and "levelsOf b' (\<not> buy) = levelsOf b (\<not> buy)"
proof -
  note node = wf_book_node [OF wf lv q]
  let ?sr = "setRemaining (ro_OrderID q) (ro_Remaining q - vol)"
  define pl' where "pl' = pl\<lparr> pl_queue := ?sr (pl_queue pl), pl_totalVolume := pl_totalVolume pl - vol \<rparr>"
  have b': "b' = setLevels b buy (pre @ pl' # post)"
    unfolding b'_def pl'_def applyFill_eq [OF lv node(1)] using vol by simp
  have lv': "levelsOf b' buy = pre @ pl' # post" by (simp add: b')
  show other: "levelsOf b' (\<not> buy) = levelsOf b (\<not> buy)" by (simp add: b')
  show fl: "flat (levelsOf b' buy) = ?sr (flat (levelsOf b buy))"
    by (simp add: lv lv' pl'_def setRemaining_notin [OF node(4)] setRemaining_notin [OF node(5)])
  have "wf_level buy pl'"
    using node(2) setRemaining_sums [OF node(3) q, of "ro_Remaining q - vol"] vol
    by (auto simp: wf_level_def pl'_def dest!: setRemaining_in split: if_splits)
      (simp_all add: setRemaining_def)?
  moreover have "wf_side buy (pre @ pl # post)" using wf_side_levelsOf [OF wf, of buy] lv by simp
  moreover have "pl_price pl' = pl_price pl" by (simp add: pl'_def)
  ultimately have side: "wf_side buy (levelsOf b' buy)"
    unfolding lv' by (simp add: wf_side_append wf_side_Cons)
  have ids: "wf_ids b'"
  proof -
    have eq: "flat (levelsOf b' buy) @ flat (levelsOf b' (\<not> buy)) = ?sr (flat (levelsOf b buy) @ flat (levelsOf b (\<not> buy)))"
      by (simp add: fl other setRemaining_notin [OF node(6)])
    have by_id: "bk_byID b' = bk_byID b" by (simp add: b')
    have "wf_ids b" using wf by (simp add: wf_book_def)
    thus ?thesis
      unfolding wf_ids_alt [of b' buy] wf_ids_alt [of b buy] eq by_id setRemaining_keys(1) setRemaining_places .
  qed
  have "wf_side (\<not> buy) (levelsOf b (\<not> buy))" by (rule wf_side_levelsOf [OF wf])
  with side ids show "wf_book b'" by (simp add: wf_book_alt [of b' buy] other)
qed

section \<open>Matching implements the abstract book\<close>

text \<open>The abstract taker walks one list of makers in priority order.\<close>

fun absMatch :: "RestingOrder \<Rightarrow> RestingOrder list \<Rightarrow>
    Fill list \<times> RestingOrder list \<times> RestingOrder \<times> RestingOrder list" where
  "absMatch t [] = ([], [], t, [])"
| "absMatch t (m # ms) =
     (if ro_Remaining t \<le> 0 \<or> beyondLimit t (ro_Price m) then ([], [], t, m # ms)
      else if ro_UID m = ro_UID t then
        (let (fs, cs, t', ms') = absMatch t ms in (fs, m # cs, t', ms'))
      else
        let vol = min (ro_Remaining t) (ro_Remaining m);
            t1 = t\<lparr>ro_Remaining := ro_Remaining t - vol\<rparr>;
            m1 = m\<lparr>ro_Remaining := ro_Remaining m - vol\<rparr>;
            f = \<lparr> fl_Price = ro_Price m, fl_Volume = vol, fl_MakerOrder = m1, fl_TakerOrder = t \<rparr> in
        if ro_Remaining m \<le> vol then (let (fs, cs, t', ms') = absMatch t1 ms in (f # fs, cs, t', ms'))
        else ([f], [], t1, m1 # ms))"

lemma wf_level_head:
  assumes "wf_book b" "levelsOf b buy = pl # ls"
  obtains n ns where "pl_queue pl = n # ns" "ro_Price n = pl_price pl" "0 < ro_Remaining n"
    "flat (levelsOf b buy) = n # ns @ flat ls"
    "filter (\<lambda>x. ro_OrderID x \<noteq> ro_OrderID n) (flat (levelsOf b buy)) = ns @ flat ls"
    "\<And>v. setRemaining (ro_OrderID n) v (flat (levelsOf b buy)) = n\<lparr>ro_Remaining := v\<rparr> # ns @ flat ls"
proof -
  have "wf_level buy pl" using wf_side_levelsOf [OF assms(1), of buy] assms(2) by (simp add: wf_side_Cons)
  then obtain n ns where q: "pl_queue pl = n # ns" by (cases "pl_queue pl") (auto simp: wf_level_def)
  note node = wf_book_node [OF assms(1), of buy "[]" pl ls n]
  have n: "n \<in> set (pl_queue pl)" by (simp add: q)
  have lv: "levelsOf b buy = [] @ pl # ls" by (simp add: assms(2))
  have ns: "ro_OrderID n \<notin> ro_OrderID ` set (ns @ flat ls)"
    using node(3) [OF lv n] node(5) [OF lv n] by (auto simp: q)
  show ?thesis
    by (rule that [of n ns])
      (use node(7,8) [OF lv n] filter_id_notin [OF ns] setRemaining_notin [OF ns]
        in \<open>simp_all add: assms(2) q\<close>, simp_all add: setRemaining_def)
qed

lemma matchLoop_refines:
  assumes "wf_book b"
  shows "\<exists>fs cs t' b'. matchLoop t b = Inr (fs, cs, t', b') \<and> wf_book b' \<and>
    absMatch t (flat (levelsOf b (ro_Direction t \<noteq> Buy))) = (fs, cs, t', flat (levelsOf b' (ro_Direction t \<noteq> Buy))) \<and>
    levelsOf b' (ro_Direction t = Buy) = levelsOf b (ro_Direction t = Buy)"
  using assms
proof (induction t b rule: matchLoop.induct)
  case (1 t b)
  define buy where "buy = (ro_Direction t \<noteq> Buy)"
  have nbuy: "(ro_Direction t = Buy) = (\<not> buy)" by (simp add: buy_def)
  note unf = matchLoop.simps [of t b]
  show ?case
  proof (cases "0 < ro_Remaining t \<and> levelsOf b buy \<noteq> []")
    case False
    have "absMatch t (flat (levelsOf b buy)) = ([], [], t, flat (levelsOf b buy))"
      using False by (cases "flat (levelsOf b buy)") auto
    with False 1(3) show ?thesis by (subst unf) (auto simp: Let_def buy_def [symmetric])
  next
    case True
    then obtain pl ls where lv: "levelsOf b buy = pl # ls" by (cases "levelsOf b buy") auto
    obtain n ns where n: "pl_queue pl = n # ns" "ro_Price n = pl_price pl" "0 < ro_Remaining n"
      and fl: "flat (levelsOf b buy) = n # ns @ flat ls"
      and rem: "filter (\<lambda>x. ro_OrderID x \<noteq> ro_OrderID n) (flat (levelsOf b buy)) = ns @ flat ls"
      and upd: "\<And>v. setRemaining (ro_OrderID n) v (flat (levelsOf b buy)) = n\<lparr>ro_Remaining := v\<rparr> # ns @ flat ls"
      using wf_level_head [OF 1(3) lv] by metis
    have lv0: "levelsOf b buy = [] @ pl # ls" and nq: "n \<in> set (pl_queue pl)" by (simp_all add: lv n)
    show ?thesis
    proof (cases "beyondLimit t (pl_price pl)")
      case True
      with lv n fl 1(3) \<open>0 < ro_Remaining t \<and> _\<close> show ?thesis
        by (subst unf) (simp add: Let_def buy_def [symmetric])
    next
      case lim: False
      show ?thesis
      proof (cases "ro_UID n = ro_UID t")
        case True
        define b1 where "b1 = cancelNode b buy 0 n"
        note c = cancelNode_correct [OF 1(3) lv0 nq, unfolded list.size(3), folded b1_def]
        obtain fs cs t' b' where "matchLoop t b1 = Inr (fs, cs, t', b')" "wf_book b'"
          "absMatch t (flat (levelsOf b1 buy)) = (fs, cs, t', flat (levelsOf b' buy))"
          "levelsOf b' (\<not> buy) = levelsOf b1 (\<not> buy)"
          using 1(1) [OF buy_def refl _ refl, of n ns] \<open>0 < ro_Remaining t \<and> _\<close> lim True c(1) n
          by (auto simp: lv nbuy b1_def buy_def [symmetric])
        with c lv n fl rem lim True \<open>0 < ro_Remaining t \<and> _\<close> show ?thesis
          by (subst unf) (simp add: Let_def nbuy buy_def [symmetric] b1_def)
      next
        case nself: False
        define vol where "vol = min (ro_Remaining t) (ro_Remaining n)"
        define t1 where "t1 = t\<lparr>ro_Remaining := ro_Remaining t - vol\<rparr>"
        define b1 where "b1 = applyFill b buy 0 n vol"
        have dir: "ro_Direction t1 = ro_Direction t" by (simp add: t1_def)
        have c: "wf_book b1" "levelsOf b1 (\<not> buy) = levelsOf b (\<not> buy)"
          "flat (levelsOf b1 buy) = (if ro_Remaining n \<le> vol then ns @ flat ls
             else n\<lparr>ro_Remaining := ro_Remaining n - vol\<rparr> # ns @ flat ls)"
        proof -
          have "vol \<le> ro_Remaining n" by (simp add: vol_def)
          then consider "vol = ro_Remaining n" | "vol < ro_Remaining n" by linarith
          thus "wf_book b1" "levelsOf b1 (\<not> buy) = levelsOf b (\<not> buy)"
            "flat (levelsOf b1 buy) = (if ro_Remaining n \<le> vol then ns @ flat ls
               else n\<lparr>ro_Remaining := ro_Remaining n - vol\<rparr> # ns @ flat ls)"
            using applyFill_all [OF 1(3) lv0 nq] cancelNode_correct [OF 1(3) lv0 nq]
              applyFill_part [OF 1(3) lv0 nq, of vol] rem upd
            unfolding b1_def list.size(3) by (cases; simp)+
        qed
        obtain fs cs t' b' where rec: "matchLoop t1 b1 = Inr (fs, cs, t', b')" "wf_book b'"
          "absMatch t1 (flat (levelsOf b1 buy)) = (fs, cs, t', flat (levelsOf b' buy))"
          "levelsOf b' (\<not> buy) = levelsOf b1 (\<not> buy)"
          using 1(2) [OF buy_def refl _ refl, of n ns vol] \<open>0 < ro_Remaining t \<and> _\<close> lim nself c(1) n
          by (auto simp: lv nbuy b1_def t1_def vol_def buy_def [symmetric])
        have part: "ro_Remaining t1 = 0" if "\<not> ro_Remaining n \<le> vol"
          using that by (simp add: t1_def vol_def min_def split: if_splits)
        have "matchLoop t b = Inr (\<lparr> fl_Price = pl_price pl, fl_Volume = vol,
              fl_MakerOrder = n\<lparr>ro_Remaining := ro_Remaining n - vol\<rparr>, fl_TakerOrder = t \<rparr> # fs, cs, t', b')"
          using rec(1) lv n lim nself \<open>0 < ro_Remaining t \<and> _\<close>
          by (subst unf) (simp add: Let_def buy_def [symmetric] b1_def t1_def vol_def)
        moreover have "absMatch t (flat (levelsOf b buy)) = (\<lparr> fl_Price = pl_price pl, fl_Volume = vol,
              fl_MakerOrder = n\<lparr>ro_Remaining := ro_Remaining n - vol\<rparr>, fl_TakerOrder = t \<rparr> # fs, cs, t',
              flat (levelsOf b' buy))"
        proof (cases "ro_Remaining n \<le> vol")
          case True
          with rec(3) c(3) fl n lim nself \<open>0 < ro_Remaining t \<and> _\<close> show ?thesis
            by (simp add: Let_def vol_def [symmetric] t1_def [symmetric])
        next
          case False
          with rec(3) c(3) part have "fs = []" "cs = []" "t' = t1" "flat (levelsOf b' buy) = n\<lparr>ro_Remaining := ro_Remaining n - vol\<rparr> # ns @ flat ls"
            by simp_all
          with False fl n lim nself \<open>0 < ro_Remaining t \<and> _\<close> show ?thesis
            by (simp add: Let_def vol_def [symmetric] t1_def [symmetric])
        qed
        ultimately show ?thesis using rec c by (simp add: nbuy buy_def [symmetric])
      qed
    qed
  qed
qed

section \<open>Resting implements priority insertion\<close>

text \<open>\<open>before buy x y\<close>: x is matched before a new order y of the same side.\<close>

definition before :: "bool \<Rightarrow> RestingOrder \<Rightarrow> RestingOrder \<Rightarrow> bool" where
  "before buy x y \<longleftrightarrow> ahead buy (ro_Price x) (ro_Price y) \<or>
     (ro_Price x = ro_Price y \<and> ro_EntryTime x \<le> ro_EntryTime y)"

definition absInsert :: "bool \<Rightarrow> RestingOrder \<Rightarrow> RestingOrder list \<Rightarrow> RestingOrder list" where
  "absInsert buy order xs = takeWhile (\<lambda>x. before buy x order) xs @ order # dropWhile (\<lambda>x. before buy x order) xs"

lemma dropWhile_prefix:
  "(\<forall>x\<in>set pre. P x) \<Longrightarrow> (post = [] \<or> \<not> P (hd post)) \<Longrightarrow> dropWhile P (pre @ post) = post"
  by (cases post) (simp_all add: dropWhile_append)

lemma absInsert_split:
  "(\<forall>x\<in>set pre. before buy x order) \<Longrightarrow> (\<forall>x\<in>set post. \<not> before buy x order) \<Longrightarrow>
   absInsert buy order (pre @ post) = pre @ order # post"
  unfolding absInsert_def by (subst takeWhile_prefix dropWhile_prefix; cases post; auto)+

lemma insert_from_tail_prefix:
  "(\<forall>x\<in>set late. ro_EntryTime o' < ro_EntryTime x) \<Longrightarrow>
   (early = [] \<or> \<not> ro_EntryTime o' < ro_EntryTime (hd early)) \<Longrightarrow>
   insert_from_tail o' (late @ early) = late @ o' # early"
  by (induction late) (cases early; simp)+

lemma insertOrdered_queue:
  assumes "sorted (map ro_EntryTime (pl_queue pl))"
  shows "\<exists>early late. pl_queue pl = early @ late \<and> (\<forall>x\<in>set early. ro_EntryTime x \<le> ro_EntryTime o') \<and>
    (\<forall>x\<in>set late. ro_EntryTime o' < ro_EntryTime x) \<and> pl_queue (insertOrdered pl o') = early @ o' # late"
proof -
  let ?P = "\<lambda>x. ro_EntryTime x \<le> ro_EntryTime o'"
  define early late where "early = takeWhile ?P (pl_queue pl)" and "late = dropWhile ?P (pl_queue pl)"
  have q: "pl_queue pl = early @ late" by (simp add: early_def late_def)
  have e: "\<forall>x\<in>set early. ?P x" unfolding early_def by (blast dest: set_takeWhileD)
  have l: "\<forall>x\<in>set late. ro_EntryTime o' < ro_EntryTime x"
  proof (cases late)
    case (Cons a rest)
    have "\<not> ?P a" using Cons hd_dropWhile [of ?P "pl_queue pl"] by (auto simp: late_def)
    moreover have "sorted (map ro_EntryTime (a # rest))" using assms q Cons by (simp add: sorted_append)
    ultimately show ?thesis using Cons by fastforce
  qed simp
  have "insert_from_tail o' (rev late @ rev early) = rev late @ o' # rev early"
    by (rule insert_from_tail_prefix) (use e l in \<open>auto simp: hd_rev last_in_set\<close>, use e last_in_set in fastforce)
  hence "pl_queue (insertOrdered pl o') = early @ o' # late" by (simp add: insertOrdered_def q)
  with q e l show ?thesis by blast
qed

lemma wf_level_insert:
  assumes "pl_queue pl = [] \<or> wf_level buy pl" "pl_queue pl = [] \<longrightarrow> pl_totalVolume pl = 0 \<and> pl_count pl = 0"
    and "ro_Price o' = pl_price pl" "(ro_Direction o' = Buy) = buy" "0 < ro_Remaining o'"
  shows "wf_level buy (insertOrdered pl o')"
proof -
  have "sorted (map ro_EntryTime (pl_queue pl))" using assms(1) by (auto simp: wf_level_def)
  then obtain early late where q: "pl_queue pl = early @ late" "\<forall>x\<in>set early. ro_EntryTime x \<le> ro_EntryTime o'"
    "\<forall>x\<in>set late. ro_EntryTime o' < ro_EntryTime x" "pl_queue (insertOrdered pl o') = early @ o' # late"
    using insertOrdered_queue by blast
  have "sorted (map ro_EntryTime (early @ late))"
    using \<open>sorted (map ro_EntryTime (pl_queue pl))\<close> q(1) by simp
  with q(2,3) have "sorted (map ro_EntryTime (early @ o' # late))"
    by (auto simp: sorted_append)
  moreover have "pl_price (insertOrdered pl o') = pl_price pl"
    "pl_totalVolume (insertOrdered pl o') = pl_totalVolume pl + ro_Remaining o'"
    "pl_count (insertOrdered pl o') = pl_count pl + 1" by (simp_all add: insertOrdered_def)
  ultimately show ?thesis using assms q by (auto simp: wf_level_def)
qed

lemma Contains_iff: "wf_book b \<Longrightarrow> Contains b i \<longleftrightarrow> i \<in> ro_OrderID ` set (bookOrders b)"
  unfolding wf_book_def wf_ids_def Contains_def by (cases "bk_byID b i") force+

text \<open>After \<open>getOrCreateLevel\<close> the side has a level of the order's price, possibly empty, at the
  returned index, and everything else as before.\<close>

lemma getOrCreateLevel_split:
  assumes "wf_book b" and "getOrCreateLevel b price buy = (i, b1)"
  shows "\<exists>pre pl post. levelsOf b1 buy = pre @ pl # post \<and> length pre = i \<and> pl_price pl = price \<and>
    levelsOf b buy = pre @ keepLevel pl @ post \<and> sorted_levels buy (pre @ pl # post) \<and>
    (pl_queue pl = [] \<longrightarrow> pl_totalVolume pl = 0 \<and> pl_count pl = 0) \<and>
    levelsOf b1 (\<not> buy) = levelsOf b (\<not> buy) \<and> bk_byID b1 = bk_byID b"
proof -
  have side: "wf_side buy (levelsOf b buy)" by (rule wf_side_levelsOf [OF assms(1)])
  hence srt: "sorted_levels buy (levelsOf b buy)" by (simp add: wf_side_def)
  obtain found where f: "findLevelIndex (levelsOf b buy) price buy = (i, found)"
    using assms(2) by (auto simp: getOrCreateLevel_def Let_def split: prod.splits if_splits)
  obtain pre post where sp: "levelsOf b buy = pre @ post" "length pre = i" "\<forall>x\<in>set pre. ahead buy (pl_price x) price"
    "if found then \<exists>pl rest. post = pl # rest \<and> pl_price pl = price else \<forall>x\<in>set post. ahead buy price (pl_price x)"
    using findLevelIndex_split [OF srt f] by blast
  show ?thesis
  proof (cases found)
    case True
    with sp(4) obtain pl rest where p: "post = pl # rest" "pl_price pl = price" by auto
    have "wf_level buy pl" using side sp(1) p(1) by (simp add: wf_side_append wf_side_Cons)
    hence "keepLevel pl = [pl]" by (simp add: keepLevel_def wf_level_def)
    with True assms(2) f sp p srt show ?thesis
      by (intro exI [of _ pre] exI [of _ pl] exI [of _ rest])
        (auto simp: getOrCreateLevel_def keepLevel_def split: if_splits)
  next
    case False
    let ?pl = "\<lparr> pl_price = price, pl_queue = [], pl_totalVolume = 0, pl_count = 0 \<rparr>"
    have "b1 = setLevels b buy (pre @ ?pl # post)"
      using False assms(2) f sp by (auto simp: getOrCreateLevel_def insertLevelAt_def)
    with sp False srt show ?thesis
      by (intro exI [of _ pre] exI [of _ ?pl] exI [of _ post])
        (auto simp: keepLevel_def sorted_levels_append sorted_levels_Cons)
  qed
qed

lemma wf_ids_insert:
  assumes "wf_ids b" and "bk_byID b' = (bk_byID b)(ro_OrderID q \<mapsto> (ro_Direction q, ro_Price q))"
    and "mset (bookOrders b') = mset (q # bookOrders b)" and "ro_OrderID q \<notin> ro_OrderID ` set (bookOrders b)"
  shows "wf_ids b'"
proof -
  have "set (bookOrders b') = insert q (set (bookOrders b))"
    using assms(3) by (metis list.simps(15) set_mset_mset)
  moreover have "distinct (map ro_OrderID (bookOrders b')) \<longleftrightarrow> distinct (map ro_OrderID (q # bookOrders b))"
    using assms(3) by (metis mset_eq_imp_distinct_iff mset_map)
  ultimately show ?thesis using assms(1,4) unfolding wf_ids_def assms(2)
    by (auto simp: image_iff)
qed

lemma Rest_correct:
  assumes wf: "wf_book b" and new: "\<not> Contains b (ro_OrderID o')" and pos: "0 < ro_Remaining o'"
  defines "buy \<equiv> (ro_Direction o' = Buy)" and "b' \<equiv> snd (Rest o' b)"
  shows "fst (Rest o' b)" and "wf_book b'"
    and "flat (levelsOf b' buy) = absInsert buy o' (flat (levelsOf b buy))"
    and "levelsOf b' (\<not> buy) = levelsOf b (\<not> buy)"
proof -
  obtain i b1 where g: "getOrCreateLevel b (ro_Price o') buy = (i, b1)" by fastforce
  obtain pre pl post where sp: "levelsOf b1 buy = pre @ pl # post" "length pre = i" "pl_price pl = ro_Price o'"
    "levelsOf b buy = pre @ keepLevel pl @ post" "sorted_levels buy (pre @ pl # post)"
    "pl_queue pl = [] \<longrightarrow> pl_totalVolume pl = 0 \<and> pl_count pl = 0"
    "levelsOf b1 (\<not> buy) = levelsOf b (\<not> buy)" "bk_byID b1 = bk_byID b"
    using getOrCreateLevel_split [OF wf g] by blast
  have none: "bk_byID b (ro_OrderID o') = None" using new unfolding Contains_def by blast
  define pl' where "pl' = insertOrdered pl o'"
  have rest: "Rest o' b = (True, (setLevels b1 buy (pre @ pl' # post))
      \<lparr> bk_byID := (bk_byID b)(ro_OrderID o' \<mapsto> (ro_Direction o', ro_Price o')) \<rparr>)"
    using g sp(1,3-) by (simp add: Rest_def none buy_def Let_def pl'_def sp(2) [symmetric])
  thus "fst (Rest o' b)" by simp
  have lv': "levelsOf b' buy = pre @ pl' # post" by (simp add: b'_def rest)
  show other: "levelsOf b' (\<not> buy) = levelsOf b (\<not> buy)" by (simp add: b'_def rest sp)
  have side: "wf_side buy (pre @ keepLevel pl @ post)" using wf_side_levelsOf [OF wf, of buy] sp(4) by simp
  have "pl_queue pl = [] \<or> wf_level buy pl"
    using side by (auto simp: keepLevel_def wf_side_append wf_side_Cons split: if_splits)
  hence lvl: "wf_level buy pl'"
    unfolding pl'_def using sp(3,6) pos by (intro wf_level_insert) (simp_all add: buy_def)
  have price: "pl_price pl' = pl_price pl" by (simp add: pl'_def insertOrdered_def)
  have side': "wf_side buy (levelsOf b' buy)"
    using side lvl sp(5) unfolding lv' wf_side_def
    by (auto simp: sorted_levels_replace [OF price] set_keepLevel)
  have "sorted (map ro_EntryTime (pl_queue pl))"
    using \<open>pl_queue pl = [] \<or> wf_level buy pl\<close> by (auto simp: wf_level_def)
  then obtain early late where q: "pl_queue pl = early @ late" "\<forall>x\<in>set early. ro_EntryTime x \<le> ro_EntryTime o'"
    "\<forall>x\<in>set late. ro_EntryTime o' < ro_EntryTime x" "pl_queue pl' = early @ o' # late"
    using insertOrdered_queue unfolding pl'_def by blast
  have prices: "ro_Price x = pl_price pl" if "x \<in> set (early @ late)" for x
    using that \<open>pl_queue pl = [] \<or> wf_level buy pl\<close> q(1) by (auto simp: wf_level_def)
  have pre: "\<forall>x\<in>set (flat pre @ early). before buy x o'"
  proof -
    have "ahead buy (ro_Price x) (ro_Price o')" if "x \<in> set (flat pre)" for x
      using that side sp(3,5) wf_side_order [of buy pre x] by (auto simp: wf_side_append sorted_levels_append)
    moreover have "before buy x o'" if "x \<in> set early" for x
      using prices [of x] that sp(3) q(2) by (simp add: before_def)
    ultimately show ?thesis by (metis Un_iff before_def set_append)
  qed
  have post: "\<forall>x\<in>set (late @ flat post). \<not> before buy x o'"
  proof -
    have "ahead buy (ro_Price o') (ro_Price x)" if "x \<in> set (flat post)" for x
      using that side sp(3,5) wf_side_order [of buy post x]
      by (auto simp: wf_side_append sorted_levels_append sorted_levels_Cons)
    hence "\<not> before buy x o'" if "x \<in> set (flat post)" for x
      using that by (metis ahead_irrefl ahead_trans before_def)
    moreover have "\<not> before buy x o'" if "x \<in> set late" for x
    proof -
      have "ro_Price x = ro_Price o'" using prices [of x] that sp(3) by simp
      with q(3) that show ?thesis by (force simp: before_def)
    qed
    ultimately show ?thesis by (metis Un_iff set_append)
  qed
  show fl: "flat (levelsOf b' buy) = absInsert buy o' (flat (levelsOf b buy))"
    using absInsert_split [OF pre post] by (simp add: lv' sp(4) q(1,4))
  have ids: "wf_ids b'"
  proof -
    have by_id: "bk_byID b' = (bk_byID b)(ro_OrderID o' \<mapsto> (ro_Direction o', ro_Price o'))" by (simp add: b'_def rest)
    have fresh: "ro_OrderID o' \<notin> ro_OrderID ` set (bookOrders b)" using new Contains_iff [OF wf] by simp
    have ms: "mset (bookOrders b') = mset (o' # bookOrders b)"
      unfolding mset_bookOrders [of b' buy] lv' other by (simp add: mset_bookOrders [of b buy] sp(4) q(1,4))
    show ?thesis using wf by (intro wf_ids_insert [OF _ by_id ms fresh]) (simp add: wf_book_def)
  qed
  have "wf_side (\<not> buy) (levelsOf b (\<not> buy))" by (rule wf_side_levelsOf [OF wf])
  with side' ids show "wf_book b'" by (simp add: wf_book_alt [of b' buy] other)
qed

section \<open>Cancelling removes exactly that order\<close>

lemma nodeOf_correct:
  assumes wf: "wf_book b" and q: "q \<in> set (bookOrders b)"
  shows "\<exists>pre pl post. levelsOf b (ro_Direction q = Buy) = pre @ pl # post \<and> q \<in> set (pl_queue pl) \<and>
    nodeOf b (ro_OrderID q) = Some (ro_Direction q = Buy, length pre, q)"
proof -
  define buy where "buy = (ro_Direction q = Buy)"
  have side: "wf_side buy (levelsOf b buy)" and nside: "wf_side (\<not> buy) (levelsOf b (\<not> buy))"
    by (rule wf_side_levelsOf [OF wf])+
  have "q \<in> set (flat (levelsOf b buy))"
    using q bookOrders_sides [of b buy] wf_side_order [OF nside, of q] by (auto simp: buy_def)
  then obtain pl where pl: "pl \<in> set (levelsOf b buy)" "q \<in> set (pl_queue pl)" by (auto simp: in_flat)
  then obtain pre post where lv: "levelsOf b buy = pre @ pl # post" by (meson split_list)
  note node = wf_book_node [OF wf lv pl(2)]
  have by_id: "bk_byID b (ro_OrderID q) = Some (ro_Direction q, ro_Price q)"
    using wf q by (auto simp: wf_book_def wf_ids_def)
  have fnd: "findLevelIndex (levelsOf b buy) (ro_Price q) buy = (length pre, True)"
    using findLevelIndex_at [OF node(1)] by (simp add: lv node(8))
  have "sql_first (\<lambda>x. ro_OrderID x = ro_OrderID q) (pl_queue pl) = Some q"
    by (rule sql_first_key [OF node(3) pl(2)]) simp
  hence "find (\<lambda>x. ro_OrderID x = ro_OrderID q) (pl_queue pl) = Some q"
    by (simp add: sql_first_def)
  hence "nodeOf b (ro_OrderID q) = Some (buy, length pre, q)"
    by (simp add: nodeOf_def by_id Let_def buy_def [symmetric] fnd) (simp add: lv)
  with lv pl show ?thesis unfolding buy_def by blast
qed

lemma Cancel_correct:
  assumes wf: "wf_book b" and q: "q \<in> set (bookOrders b)"
  defines "b' \<equiv> snd (Cancel b (ro_OrderID q))"
  shows "fst (Cancel b (ro_OrderID q)) = (ro_Remaining q, True)" and "wf_book b'"
    and "flat (levelsOf b' buy) = filter (\<lambda>x. ro_OrderID x \<noteq> ro_OrderID q) (flat (levelsOf b buy))"
proof -
  define qb where "qb = (ro_Direction q = Buy)"
  obtain pre pl post where n: "levelsOf b qb = pre @ pl # post" "q \<in> set (pl_queue pl)"
    "nodeOf b (ro_OrderID q) = Some (qb, length pre, q)"
    using nodeOf_correct [OF wf q] unfolding qb_def by blast
  have c: "Cancel b (ro_OrderID q) = ((ro_Remaining q, True), cancelNode b qb (length pre) q)"
    by (simp add: Cancel_def n(3) qb_def)
  note cc = cancelNode_correct [OF wf n(1,2)]
  show "fst (Cancel b (ro_OrderID q)) = (ro_Remaining q, True)" by (simp add: c)
  show "wf_book b'" using cc(1) by (simp add: b'_def c)
  have other: "flat (levelsOf b' (\<not> qb)) = filter (\<lambda>x. ro_OrderID x \<noteq> ro_OrderID q) (flat (levelsOf b (\<not> qb)))"
    using cc(3) filter_id_notin [OF wf_book_node(6) [OF wf n(1,2)]] by (simp add: b'_def c)
  have same: "flat (levelsOf b' qb) = filter (\<lambda>x. ro_OrderID x \<noteq> ro_OrderID q) (flat (levelsOf b qb))"
    using cc(2) by (simp add: b'_def c)
  show "flat (levelsOf b' buy) = filter (\<lambda>x. ro_OrderID x \<noteq> ro_OrderID q) (flat (levelsOf b buy))"
    using same other by (cases "buy = qb") auto
qed

lemma Cancel_absent: "wf_book b \<Longrightarrow> \<not> Contains b i \<Longrightarrow> Cancel b i = ((0, False), b)"
  unfolding Contains_def by (cases "bk_byID b i") (simp_all add: Cancel_def nodeOf_def)

section \<open>Facts about the abstract matching\<close>

definition volumeOf :: "RestingOrder list \<Rightarrow> dec" where
  "volumeOf qs = sum_list (map ro_Remaining qs)"

definition filledVolume :: "Fill list \<Rightarrow> dec" where
  "filledVolume fs = sum_list (map fl_Volume fs)"

lemma volume_simps [simp]:
  "volumeOf [] = 0" "volumeOf (q # qs) = ro_Remaining q + volumeOf qs"
  "filledVolume [] = 0" "filledVolume (f # fs) = fl_Volume f + filledVolume fs"
  by (simp_all add: volumeOf_def filledVolume_def)

lemma beyondLimit_remaining [simp]: "beyondLimit (t\<lparr>ro_Remaining := v\<rparr>) p = beyondLimit t p"
  by (simp add: beyondLimit_def isMarket_def)

lemma absMatch_taker:
  "absMatch t ms = (fs, cs, t', ms') \<Longrightarrow> t' = t\<lparr>ro_Remaining := ro_Remaining t'\<rparr>"
  by (induction t ms arbitrary: fs cs t' ms' rule: absMatch.induct)
    (fastforce simp: Let_def split: if_splits prod.splits)+

text \<open>Nothing is lost: the taker's fills and remainder add up to what it brought, and what left the
  maker side is what was filled or cancelled.\<close>

lemma absMatch_conserves:
  assumes "absMatch t ms = (fs, cs, t', ms')"
  shows "filledVolume fs + ro_Remaining t' = ro_Remaining t"
    and "volumeOf ms = filledVolume fs + volumeOf cs + volumeOf ms'"
  using assms
  by (induction t ms arbitrary: fs cs t' ms' rule: absMatch.induct)
    (fastforce simp: Let_def split: if_splits prod.splits)+

lemma absMatch_remaining_nonneg:
  "absMatch t ms = (fs, cs, t', ms') \<Longrightarrow> 0 \<le> ro_Remaining t \<Longrightarrow> 0 \<le> ro_Remaining t'"
  by (induction t ms arbitrary: fs cs t' ms' rule: absMatch.induct)
    (fastforce simp: Let_def split: if_splits prod.splits)+

text \<open>The four ways a step of the abstract taker can go.\<close>

lemma absMatch_step:
  assumes "absMatch t (m # ms) = (fs, cs, t', ms')"
  obtains (stop) "ro_Remaining t \<le> 0 \<or> beyondLimit t (ro_Price m)" "fs = []" "cs = []" "t' = t" "ms' = m # ms"
  | (self) cs1 where "0 < ro_Remaining t" "\<not> beyondLimit t (ro_Price m)" "ro_UID m = ro_UID t"
      "absMatch t ms = (fs, cs1, t', ms')" "cs = m # cs1"
  | (take) fs1 where "0 < ro_Remaining t" "\<not> beyondLimit t (ro_Price m)" "ro_UID m \<noteq> ro_UID t"
      "ro_Remaining m \<le> ro_Remaining t"
      "absMatch (t\<lparr>ro_Remaining := ro_Remaining t - ro_Remaining m\<rparr>) ms = (fs1, cs, t', ms')"
      "fs = \<lparr> fl_Price = ro_Price m, fl_Volume = ro_Remaining m, fl_MakerOrder = m\<lparr>ro_Remaining := 0\<rparr>, fl_TakerOrder = t \<rparr> # fs1"
  | (part) "0 < ro_Remaining t" "\<not> beyondLimit t (ro_Price m)" "ro_UID m \<noteq> ro_UID t"
      "ro_Remaining t < ro_Remaining m" "cs = []" "t' = t\<lparr>ro_Remaining := 0\<rparr>"
      "fs = [\<lparr> fl_Price = ro_Price m, fl_Volume = ro_Remaining t,
               fl_MakerOrder = m\<lparr>ro_Remaining := ro_Remaining m - ro_Remaining t\<rparr>, fl_TakerOrder = t \<rparr>]"
      "ms' = m\<lparr>ro_Remaining := ro_Remaining m - ro_Remaining t\<rparr> # ms"
proof -
  consider "ro_Remaining t \<le> 0 \<or> beyondLimit t (ro_Price m)"
    | "\<not> (ro_Remaining t \<le> 0 \<or> beyondLimit t (ro_Price m))" "ro_UID m = ro_UID t"
    | "\<not> (ro_Remaining t \<le> 0 \<or> beyondLimit t (ro_Price m))" "ro_UID m \<noteq> ro_UID t" "ro_Remaining m \<le> ro_Remaining t"
    | "\<not> (ro_Remaining t \<le> 0 \<or> beyondLimit t (ro_Price m))" "ro_UID m \<noteq> ro_UID t" "ro_Remaining t < ro_Remaining m"
    by linarith
  thus ?thesis
  proof cases
    case 1
    with assms show ?thesis by (intro stop) auto
  next
    case 2
    obtain fs1 cs1 t1 ms1 where r: "absMatch t ms = (fs1, cs1, t1, ms1)" by (metis prod_cases4)
    with 2 assms show ?thesis by (intro self [of cs1]) auto
  next
    case 3
    obtain fs1 cs1 t1 ms1
      where r: "absMatch (t\<lparr>ro_Remaining := ro_Remaining t - ro_Remaining m\<rparr>) ms = (fs1, cs1, t1, ms1)"
      by (metis prod_cases4)
    moreover from 3 have "min (ro_Remaining t) (ro_Remaining m) = ro_Remaining m" by simp
    ultimately show ?thesis using 3 assms by (intro take [of fs1]) (auto simp: Let_def)
  next
    case 4
    hence "min (ro_Remaining t) (ro_Remaining m) = ro_Remaining t" by simp
    with 4 assms show ?thesis by (intro part) (auto simp: Let_def)
  qed
qed

lemma absMatch_fill:
  assumes "absMatch t ms = (fs, cs, t', ms')" "\<forall>m\<in>set ms. 0 < ro_Remaining m" "f \<in> set fs"
  shows "0 < fl_Volume f \<and> \<not> beyondLimit t (fl_Price f) \<and>
    (\<exists>m\<in>set ms. ro_UID m \<noteq> ro_UID t \<and> fl_Price f = ro_Price m \<and> fl_Volume f \<le> ro_Remaining m \<and>
       fl_MakerOrder f = m\<lparr>ro_Remaining := ro_Remaining m - fl_Volume f\<rparr>)"
  using assms
proof (induction ms arbitrary: t fs cs)
  case (Cons m ms)
  from Cons.prems(1) show ?case
  proof (cases rule: absMatch_step)
    case self
    with Cons.IH [OF self(4)] Cons.prems show ?thesis by auto
  next
    case (take fs1)
    with Cons.IH [OF take(5)] Cons.prems show ?thesis by auto
  next
    case part
    with Cons.prems show ?thesis by auto
  qed (use Cons.prems in simp)
qed simp

lemma absMatch_cancelled:
  "absMatch t ms = (fs, cs, t', ms') \<Longrightarrow> c \<in> set cs \<Longrightarrow> c \<in> set ms \<and> ro_UID c = ro_UID t"
  by (induction t ms arbitrary: fs cs t' ms' rule: absMatch.induct)
    (fastforce simp: Let_def split: if_splits prod.splits)+

text \<open>The taker stops only when it is complete or when nothing within its limit is left.\<close>

lemma absMatch_exhausts:
  "absMatch t ms = (fs, cs, t', ms') \<Longrightarrow>
   ro_Remaining t' \<le> 0 \<or> ms' = [] \<or> beyondLimit t (ro_Price (hd ms'))"
  by (induction t ms arbitrary: fs cs t' ms' rule: absMatch.induct)
    (auto simp: Let_def min_def split: if_splits prod.splits)

text \<open>Priority: the makers taken off are a prefix of the queue; the rest keeps its order, the first
  of it possibly reduced.\<close>

lemma absMatch_prefix:
  assumes "absMatch t ms = (fs, cs, t', ms')"
  shows "\<exists>gone kept. ms = gone @ kept \<and>
    (ms' = kept \<or> (\<exists>m rest v. kept = m # rest \<and> ms' = m\<lparr>ro_Remaining := v\<rparr> # rest \<and> v < ro_Remaining m))
    \<and> mset (map ro_OrderID gone) \<subseteq># mset (map (\<lambda>f. ro_OrderID (fl_MakerOrder f)) fs) + mset (map ro_OrderID cs)"
  using assms
proof (induction ms arbitrary: t fs cs)
  case (Cons m ms)
  from Cons.prems show ?case
  proof (cases rule: absMatch_step)
    case stop
    thus ?thesis by (intro exI [of _ "[]"] exI [of _ "m # ms"]) simp
  next
    case (self cs1)
    from Cons.IH [OF self(4)] obtain gone kept where
      "ms = gone @ kept" "ms' = kept \<or> (\<exists>m rest v. kept = m # rest \<and> ms' = m\<lparr>ro_Remaining := v\<rparr> # rest \<and> v < ro_Remaining m)"
      "mset (map ro_OrderID gone) \<subseteq># mset (map (\<lambda>f. ro_OrderID (fl_MakerOrder f)) fs) + mset (map ro_OrderID cs1)"
      by blast
    with self(5) show ?thesis by (intro exI [of _ "m # gone"] exI [of _ kept]) auto
  next
    case (take fs1)
    from Cons.IH [OF take(5)] obtain gone kept where
      "ms = gone @ kept" "ms' = kept \<or> (\<exists>m rest v. kept = m # rest \<and> ms' = m\<lparr>ro_Remaining := v\<rparr> # rest \<and> v < ro_Remaining m)"
      "mset (map ro_OrderID gone) \<subseteq># mset (map (\<lambda>f. ro_OrderID (fl_MakerOrder f)) fs1) + mset (map ro_OrderID cs)"
      by blast
    with take(6) show ?thesis by (intro exI [of _ "m # gone"] exI [of _ kept]) auto
  next
    case part
    thus ?thesis by (intro exI [of _ "[]"] exI [of _ "m # ms"]) auto
  qed
qed simp

lemma absMatch_prices:
  "absMatch t ms = (fs, cs, t', ms') \<Longrightarrow> x \<in> set ms' \<Longrightarrow> \<exists>y\<in>set ms. ro_Price x = ro_Price y"
  using absMatch_prefix [of t ms fs cs t' ms'] by fastforce

lemma set_absInsert [simp]: "set (absInsert buy q xs) = insert q (set xs)"
proof -
  have "set (takeWhile P xs) \<union> set (dropWhile P xs) = set xs" for P
    by (metis set_append takeWhile_dropWhile_id)
  thus ?thesis by (auto simp: absInsert_def)
qed

lemma sorted_flat: "wf_side buy levels \<Longrightarrow> sorted_wrt (before buy) (flat levels)"
proof (induction levels)
  case (Cons pl ls)
  have "sorted_wrt (before buy) (pl_queue pl)"
  proof -
    have "sorted_wrt (\<lambda>x y. ro_EntryTime x \<le> ro_EntryTime y) (pl_queue pl)"
      using Cons.prems by (simp add: wf_side_Cons wf_level_def sorted_map)
    thus ?thesis
      by (rule sorted_wrt_mono_rel [rotated])
        (use Cons.prems in \<open>simp add: before_def wf_side_Cons wf_level_def\<close>)
  qed
  moreover have "before buy x y" if "x \<in> set (pl_queue pl)" "y \<in> set (flat ls)" for x y
  proof -
    from Cons.prems have "wf_side buy ls" by (simp add: wf_side_Cons)
    from wf_side_order [OF this that(2)] obtain p where "p \<in> set ls" "ro_Price y = pl_price p" by auto
    moreover have "ro_Price x = pl_price pl" using Cons.prems that(1) by (simp add: wf_side_Cons wf_level_def)
    ultimately show ?thesis using Cons.prems by (simp add: before_def wf_side_Cons)
  qed
  ultimately show ?case using Cons by (simp add: sorted_wrt_append wf_side_Cons)
qed simp

definition uncrossed :: "RestingOrder list \<Rightarrow> RestingOrder list \<Rightarrow> bool" where
  "uncrossed bids asks \<longleftrightarrow> (\<forall>x\<in>set bids. \<forall>y\<in>set asks. ro_Price x < ro_Price y)"

section \<open>The interface of a price-time book\<close>

text \<open>What the engine relies on, whatever holds the orders: \<open>makers b True\<close> are the bids and
  \<open>makers b False\<close> the asks, in priority order.\<close>

locale price_time_book =
  fixes inv :: "'b \<Rightarrow> bool"
    and makers :: "'b \<Rightarrow> bool \<Rightarrow> RestingOrder list"
    and match :: "RestingOrder \<Rightarrow> 'b \<Rightarrow> (Fill list \<times> RestingOrder list \<times> RestingOrder \<times> 'b) res"
    and rest :: "RestingOrder \<Rightarrow> 'b \<Rightarrow> bool \<times> 'b"
    and cancel :: "'b \<Rightarrow> nat \<Rightarrow> (dec \<times> bool) \<times> 'b"
    and has :: "'b \<Rightarrow> nat \<Rightarrow> bool"
  assumes match_law: "inv b \<Longrightarrow> \<exists>fs cs t' b'.
      match t b = Inr (map (\<lambda>f. f\<lparr>fl_TakerOrder := t'\<rparr>) fs, cs, t', b') \<and> inv b' \<and>
      absMatch t (makers b (ro_Direction t \<noteq> Buy)) = (fs, cs, t', makers b' (ro_Direction t \<noteq> Buy)) \<and>
      makers b' (ro_Direction t = Buy) = makers b (ro_Direction t = Buy)"
    and rest_law: "inv b \<Longrightarrow> \<not> has b (ro_OrderID q) \<Longrightarrow> 0 < ro_Remaining q \<Longrightarrow>
      fst (rest q b) \<and> inv (snd (rest q b)) \<and>
      makers (snd (rest q b)) (ro_Direction q = Buy) = absInsert (ro_Direction q = Buy) q (makers b (ro_Direction q = Buy)) \<and>
      makers (snd (rest q b)) (ro_Direction q \<noteq> Buy) = makers b (ro_Direction q \<noteq> Buy)"
    and rest_again: "has b (ro_OrderID q) \<Longrightarrow> rest q b = (False, b)"
    and cancel_law: "inv b \<Longrightarrow> q \<in> set (makers b s) \<Longrightarrow>
      fst (cancel b (ro_OrderID q)) = (ro_Remaining q, True) \<and> inv (snd (cancel b (ro_OrderID q))) \<and>
      makers (snd (cancel b (ro_OrderID q))) buy = filter (\<lambda>x. ro_OrderID x \<noteq> ro_OrderID q) (makers b buy)"
    and cancel_absent: "inv b \<Longrightarrow> \<not> has b i \<Longrightarrow> cancel b i = ((0, False), b)"
    and has_law: "inv b \<Longrightarrow> has b i \<longleftrightarrow> (\<exists>s. i \<in> ro_OrderID ` set (makers b s))"
    and makers_law: "inv b \<Longrightarrow> sorted_wrt (before buy) (makers b buy) \<and> distinct (map ro_OrderID (makers b buy)) \<and>
      (\<forall>q\<in>set (makers b buy). 0 < ro_Remaining q \<and> (ro_Direction q = Buy) = buy)"
begin

lemma match_total: "inv b \<Longrightarrow> \<exists>fs cs t' b'. match t b = Inr (fs, cs, t', b') \<and> inv b'"
  using match_law by blast

lemma match_abs:
  assumes "inv b" "match t b = Inr (fs, cs, t', b')"
  obtains fs0 where "fs = map (\<lambda>f. f\<lparr>fl_TakerOrder := t'\<rparr>) fs0" "inv b'"
    "absMatch t (makers b (ro_Direction t \<noteq> Buy)) = (fs0, cs, t', makers b' (ro_Direction t \<noteq> Buy))"
    "makers b' (ro_Direction t = Buy) = makers b (ro_Direction t = Buy)"
  using match_law [OF assms(1), of t] assms(2) by auto

lemma match_conserves:
  assumes "inv b" "match t b = Inr (fs, cs, t', b')"
  shows "filledVolume fs + ro_Remaining t' = ro_Remaining t"
    and "volumeOf (makers b (ro_Direction t \<noteq> Buy)) = filledVolume fs + volumeOf cs + volumeOf (makers b' (ro_Direction t \<noteq> Buy))"
proof -
  obtain fs0 where a: "fs = map (\<lambda>f. f\<lparr>fl_TakerOrder := t'\<rparr>) fs0"
    "absMatch t (makers b (ro_Direction t \<noteq> Buy)) = (fs0, cs, t', makers b' (ro_Direction t \<noteq> Buy))"
    using match_abs [OF assms] by metis
  have "filledVolume fs = filledVolume fs0" by (simp add: a(1) filledVolume_def comp_def)
  with absMatch_conserves [OF a(2)]
  show "filledVolume fs + ro_Remaining t' = ro_Remaining t"
    and "volumeOf (makers b (ro_Direction t \<noteq> Buy)) = filledVolume fs + volumeOf cs + volumeOf (makers b' (ro_Direction t \<noteq> Buy))"
    by simp_all
qed

lemma match_fill:
  assumes "inv b" "match t b = Inr (fs, cs, t', b')" "f \<in> set fs"
  shows "0 < fl_Volume f" "\<not> beyondLimit t (fl_Price f)" "fl_TakerOrder f = t'"
    and "ro_UID (fl_MakerOrder f) \<noteq> ro_UID t" "fl_Price f = ro_Price (fl_MakerOrder f)"
    and "0 \<le> ro_Remaining (fl_MakerOrder f)"
    and "ro_OrderID (fl_MakerOrder f) \<in> ro_OrderID ` set (makers b (ro_Direction t \<noteq> Buy))"
proof -
  obtain fs0 where a: "fs = map (\<lambda>f. f\<lparr>fl_TakerOrder := t'\<rparr>) fs0"
    "absMatch t (makers b (ro_Direction t \<noteq> Buy)) = (fs0, cs, t', makers b' (ro_Direction t \<noteq> Buy))"
    using match_abs [OF assms(1,2)] by metis
  from assms(3) a(1) obtain f0 where f0: "f0 \<in> set fs0" "f = f0\<lparr>fl_TakerOrder := t'\<rparr>" by auto
  have "\<forall>m\<in>set (makers b (ro_Direction t \<noteq> Buy)). 0 < ro_Remaining m" using makers_law [OF assms(1)] by blast
  from absMatch_fill [OF a(2) this f0(1)] f0(2)
  show "0 < fl_Volume f" "\<not> beyondLimit t (fl_Price f)" "fl_TakerOrder f = t'"
    "ro_UID (fl_MakerOrder f) \<noteq> ro_UID t" "fl_Price f = ro_Price (fl_MakerOrder f)"
    "0 \<le> ro_Remaining (fl_MakerOrder f)"
    "ro_OrderID (fl_MakerOrder f) \<in> ro_OrderID ` set (makers b (ro_Direction t \<noteq> Buy))"
    by auto
qed

lemma match_cancelled:
  "inv b \<Longrightarrow> match t b = Inr (fs, cs, t', b') \<Longrightarrow> c \<in> set cs \<Longrightarrow>
   c \<in> set (makers b (ro_Direction t \<noteq> Buy)) \<and> ro_UID c = ro_UID t"
  by (metis match_abs absMatch_cancelled)

lemma match_taker:
  "inv b \<Longrightarrow> match t b = Inr (fs, cs, t', b') \<Longrightarrow> t' = t\<lparr>ro_Remaining := ro_Remaining t'\<rparr>"
  by (metis match_abs absMatch_taker)

lemma match_remaining_nonneg:
  "inv b \<Longrightarrow> match t b = Inr (fs, cs, t', b') \<Longrightarrow> 0 \<le> ro_Remaining t \<Longrightarrow> 0 \<le> ro_Remaining t'"
  by (metis match_abs absMatch_remaining_nonneg)

lemma match_exhausts:
  assumes "inv b" "match t b = Inr (fs, cs, t', b')" "0 < ro_Remaining t'" "m \<in> set (makers b' (ro_Direction t \<noteq> Buy))"
  shows "beyondLimit t (ro_Price m)"
proof -
  obtain fs0 where a: "inv b'"
    "absMatch t (makers b (ro_Direction t \<noteq> Buy)) = (fs0, cs, t', makers b' (ro_Direction t \<noteq> Buy))"
    using match_abs [OF assms(1,2)] by metis
  define buy where "buy = (ro_Direction t \<noteq> Buy)"
  let ?h = "hd (makers b' buy)"
  have "makers b' buy \<noteq> []" using assms(4) by (auto simp: buy_def)
  with absMatch_exhausts [OF a(2)] assms(3) have h: "beyondLimit t (ro_Price ?h)" by (auto simp: buy_def)
  have "sorted_wrt (before buy) (makers b' buy)" using makers_law [OF a(1)] by blast
  with \<open>makers b' buy \<noteq> []\<close> assms(4) have "m = ?h \<or> before buy ?h m"
    by (cases "makers b' buy") (auto simp: buy_def)
  with h show ?thesis by (auto simp: before_def ahead_def beyondLimit_def buy_def split: if_splits)
qed

text \<open>Matching a limit order and resting its remainder never leaves a crossed book.\<close>

lemma match_then_rest_uncrossed:
  assumes inv: "inv b" and un: "uncrossed (makers b True) (makers b False)" and limit: "ro_Price t \<noteq> 0"
    and fresh: "\<not> has b (ro_OrderID t)"
    and m: "match t b = Inr (fs, cs, t', b')" and pos: "0 < ro_Remaining t'"
  shows "inv (snd (rest t' b'))" and "uncrossed (makers (snd (rest t' b')) True) (makers (snd (rest t' b')) False)"
proof -
  obtain fs0 where a: "inv b'"
    "absMatch t (makers b (ro_Direction t \<noteq> Buy)) = (fs0, cs, t', makers b' (ro_Direction t \<noteq> Buy))"
    "makers b' (ro_Direction t = Buy) = makers b (ro_Direction t = Buy)"
    using match_abs [OF inv m] by metis
  have t': "ro_OrderID t' = ro_OrderID t" "ro_Direction t' = ro_Direction t" "ro_Price t' = ro_Price t"
    using arg_cong [OF match_taker [OF inv m], of ro_OrderID] arg_cong [OF match_taker [OF inv m], of ro_Direction]
      arg_cong [OF match_taker [OF inv m], of ro_Price] by simp_all
  have left: "\<exists>y\<in>set (makers b (ro_Direction t \<noteq> Buy)). ro_Price x = ro_Price y \<and> ro_OrderID x = ro_OrderID y"
    if "x \<in> set (makers b' (ro_Direction t \<noteq> Buy))" for x
    using absMatch_prefix [OF a(2)] that by fastforce
  have "\<not> has b' (ro_OrderID t')"
  proof
    assume "has b' (ro_OrderID t')"
    then obtain s where "ro_OrderID t' \<in> ro_OrderID ` set (makers b' s)" using has_law [OF a(1)] by blast
    hence "\<exists>s. ro_OrderID t' \<in> ro_OrderID ` set (makers b s)"
      using left a(3) by (cases "s = (ro_Direction t = Buy)") force+
    with fresh has_law [OF inv] show False by (simp add: t')
  qed
  note r = rest_law [OF a(1) this pos]
  show "inv (snd (rest t' b'))" using r by blast
  show "uncrossed (makers (snd (rest t' b')) True) (makers (snd (rest t' b')) False)"
  proof (cases "ro_Direction t = Buy")
    case True
    have "ro_Price t < ro_Price x" if "x \<in> set (makers b' False)" for x
      using match_exhausts [OF inv m pos, of x] that True limit by (simp add: beyondLimit_def isMarket_def)
    moreover have "uncrossed (makers b True) (makers b' False)"
      using un left True by (fastforce simp: uncrossed_def)
    ultimately show ?thesis using r a(3) True by (auto simp: t' uncrossed_def)
  next
    case False
    have "ro_Price x < ro_Price t" if "x \<in> set (makers b' True)" for x
      using match_exhausts [OF inv m pos, of x] that False limit by (simp add: beyondLimit_def isMarket_def)
    moreover have "uncrossed (makers b' True) (makers b False)"
      using un left False by (fastforce simp: uncrossed_def)
    ultimately show ?thesis using r a(3) False by (auto simp: t' uncrossed_def)
  qed
qed

end

interpretation book: price_time_book wf_book "\<lambda>b buy. flat (levelsOf b buy)" Match Rest Cancel Contains
proof (unfold_locales, goal_cases)
  case (1 b t)
  from matchLoop_refines [OF 1, of t] show ?case by (force simp: Match_def)
next
  case (2 b q)
  from Rest_correct [OF 2] show ?case by simp
next
  case (3 b q)
  thus ?case by (simp add: Rest_def Contains_def)
next
  case (4 b q s buy)
  hence "q \<in> set (bookOrders b)" by (cases s) (auto simp: bookOrders_def levelsOf_def)
  from Cancel_correct [OF 4(1) this] show ?case by simp
next
  case (5 b i)
  thus ?case by (rule Cancel_absent)
next
  case (6 b i)
  have "(\<exists>s. i \<in> ro_OrderID ` set (flat (levelsOf b s))) \<longleftrightarrow> i \<in> ro_OrderID ` set (bookOrders b)"
    using bookOrders_sides [of b True] by (auto simp: ex_bool_eq)
  with Contains_iff [OF 6] show ?case by simp
next
  case (7 b buy)
  have "wf_side buy (levelsOf b buy)" by (rule wf_side_levelsOf [OF 7])
  moreover have "distinct (map ro_OrderID (flat (levelsOf b buy)))"
    using 7 wf_ids_alt [of b buy] by (simp add: wf_book_def)
  ultimately show ?case using sorted_flat wf_side_order by blast
qed

end
