(* ===== verification/BookProps.thy ===== *)
theory BookProps
  imports BookSpec
begin

text \<open>
  What the order book promises, stated over the definitions of Book: matching implements
  price-time priority, conserves volume, respects limits and never trades a user with itself;
  resting and cancelling act on exactly one order; the depth snapshot and the impact price agree
  with the resting orders. The demo book of the witnesses holds two asks and one bid.
\<close>

section \<open>A concrete book\<close>

definition demoOrder :: "nat \<Rightarrow> uid \<Rightarrow> Side \<Rightarrow> dec \<Rightarrow> dec \<Rightarrow> int \<Rightarrow> RestingOrder" where
  "demoOrder i u s p v t = \<lparr> ro_OrderID = i, ro_UID = u, ro_Side = s, ro_Action = ActionOpen,
     ro_Direction = DirectionOf s ActionOpen, ro_Price = p, ro_Remaining = v, ro_EntryTime = t,
     ro_ReduceOnly = False, ro_Liquidation = False \<rparr>"

definition demoBook :: Book where
  "demoBook = snd (Rest (demoOrder 3 3 SideLong 99 5 7)
               (snd (Rest (demoOrder 2 2 SideShort 101 2 6)
                 (snd (Rest (demoOrder 1 1 SideShort 100 1 5) NewBook)))))"

lemma wf_Rest: "wf_book b \<Longrightarrow> 0 < ro_Remaining q \<Longrightarrow> wf_book (snd (Rest q b))"
  using book.rest_again [of b q] book.rest_law [of b q] by (cases "Contains b (ro_OrderID q)") simp_all

lemma wf_demoBook: "wf_book demoBook"
  unfolding demoBook_def by (intro wf_Rest wf_NewBook) (simp_all add: demoOrder_def)

lemma demoBook_sides:
  "flat (levelsOf demoBook True) = [demoOrder 3 3 SideLong 99 5 7]"
  "flat (levelsOf demoBook False) = [demoOrder 1 1 SideShort 100 1 5, demoOrder 2 2 SideShort 101 2 6]"
  by code_simp+

lemma demoBook_Contains: "Contains demoBook i \<longleftrightarrow> i = 1 \<or> i = 2 \<or> i = 3"
  using Contains_iff [OF wf_demoBook, of i] bookOrders_sides [of demoBook True]
  by (auto simp: demoBook_sides demoOrder_def)

section \<open>Matching\<close>

text \<open>C1. On a well-formed book Match never fails, keeps the book well-formed and produces exactly
  the fills, self-trade cancellations, remainder and resting orders of the abstract price-time
  matching on the list of opposite orders in priority order; the taker's own side is untouched.\<close>
theorem Match_implements_priority_matching:
  assumes "wf_book b"
  shows "\<exists>fs cs t' b'. Match t b = Inr (map (\<lambda>f. f\<lparr>fl_TakerOrder := t'\<rparr>) fs, cs, t', b') \<and> wf_book b' \<and>
    absMatch t (flat (levelsOf b (ro_Direction t \<noteq> Buy))) = (fs, cs, t', flat (levelsOf b' (ro_Direction t \<noteq> Buy))) \<and>
    sorted_wrt (before (ro_Direction t \<noteq> Buy)) (flat (levelsOf b' (ro_Direction t \<noteq> Buy))) \<and>
    flat (levelsOf b' (ro_Direction t = Buy)) = flat (levelsOf b (ro_Direction t = Buy))"
  using book.match_law [OF assms, of t] book.makers_law by metis

lemma Match_implements_priority_matching_witness:
  "\<exists>fs cs t' b'. Match (demoOrder 9 9 SideLong 101 2 8) demoBook = Inr (fs, cs, t', b') \<and> wf_book b' \<and>
     map fl_Price fs = [100, 101] \<and> map fl_Volume fs = [1, 1] \<and> cs = [] \<and>
     flat (levelsOf b' False) = [demoOrder 2 2 SideShort 101 1 6]"
proof -
  have "absMatch (demoOrder 9 9 SideLong 101 2 8) (flat (levelsOf demoBook False)) =
    (let t1 = demoOrder 9 9 SideLong 101 2 8; t2 = demoOrder 9 9 SideLong 101 1 8 in
     ([\<lparr> fl_Price = 100, fl_Volume = 1, fl_MakerOrder = demoOrder 1 1 SideShort 100 0 5, fl_TakerOrder = t1 \<rparr>,
       \<lparr> fl_Price = 101, fl_Volume = 1, fl_MakerOrder = demoOrder 2 2 SideShort 101 1 6, fl_TakerOrder = t2 \<rparr>],
      [], demoOrder 9 9 SideLong 101 0 8, [demoOrder 2 2 SideShort 101 1 6]))"
    by (simp add: demoBook_sides) (simp add: demoOrder_def beyondLimit_def isMarket_def DirectionOf_def Let_def)
  moreover have "ro_Direction (demoOrder 9 9 SideLong 101 2 8) = Buy" by (simp add: demoOrder_def DirectionOf_def)
  ultimately show ?thesis
    using Match_implements_priority_matching [OF wf_demoBook, of "demoOrder 9 9 SideLong 101 2 8"]
    by (auto simp: Let_def)
qed

text \<open>Matching conserves volume: the taker's fills plus its remainder are what it came with, and
  the opposite side loses exactly what was filled and what self-trade protection cancelled.\<close>
theorem Match_conserves_volume:
  assumes "wf_book b" "Match t b = Inr (fs, cs, t', b')"
  shows "filledVolume fs + ro_Remaining t' = ro_Remaining t \<and>
    volumeOf (flat (levelsOf b (ro_Direction t \<noteq> Buy))) =
      filledVolume fs + volumeOf cs + volumeOf (flat (levelsOf b' (ro_Direction t \<noteq> Buy)))"
  using book.match_conserves [OF assms] by simp

lemma Match_conserves_volume_witness:
  "\<exists>fs cs t' b'. Match (demoOrder 9 2 SideLong 101 2 8) demoBook = Inr (fs, cs, t', b') \<and>
     filledVolume fs + ro_Remaining t' = 2 \<and>
     3 = filledVolume fs + volumeOf cs + volumeOf (flat (levelsOf b' False))"
proof -
  obtain fs cs t' b' where m: "Match (demoOrder 9 2 SideLong 101 2 8) demoBook = Inr (fs, cs, t', b')"
    using book.match_total [OF wf_demoBook] by blast
  have "ro_Direction (demoOrder 9 2 SideLong 101 2 8) = Buy" "ro_Remaining (demoOrder 9 2 SideLong 101 2 8) = 2"
    "volumeOf (flat (levelsOf demoBook False)) = 3"
    unfolding demoBook_sides by (simp_all add: demoOrder_def DirectionOf_def)
  with Match_conserves_volume [OF wf_demoBook m] m show ?thesis by auto
qed

text \<open>Every fill is sound: a positive volume at the maker's own price, inside the taker's limit,
  against an order of another user that was resting on the opposite side; an order cancelled by
  self-trade protection belongs to the taker's user.\<close>
theorem Match_fills_sound:
  assumes "wf_book b" "Match t b = Inr (fs, cs, t', b')"
  shows "(\<forall>f\<in>set fs. 0 < fl_Volume f \<and> fl_Price f = ro_Price (fl_MakerOrder f) \<and> \<not> beyondLimit t (fl_Price f) \<and>
            ro_UID (fl_MakerOrder f) \<noteq> ro_UID t \<and> 0 \<le> ro_Remaining (fl_MakerOrder f) \<and>
            ro_OrderID (fl_MakerOrder f) \<in> ro_OrderID ` set (flat (levelsOf b (ro_Direction t \<noteq> Buy)))) \<and>
         (\<forall>c\<in>set cs. ro_UID c = ro_UID t \<and> c \<in> set (flat (levelsOf b (ro_Direction t \<noteq> Buy))))"
  using book.match_fill [OF assms] book.match_cancelled [OF assms] by auto

lemma Match_fills_sound_witness:
  "\<exists>f c t' b'. Match (demoOrder 9 1 SideLong 0 2 8) demoBook = Inr ([f], [c], t', b') \<and>
     0 < fl_Volume f \<and> ro_UID (fl_MakerOrder f) \<noteq> 1 \<and> ro_UID c = 1"
proof -
  have "case Match (demoOrder 9 1 SideLong 0 2 8) demoBook of Inr (fs, cs, t', b') \<Rightarrow> length fs = 1 \<and> length cs = 1 | Inl e \<Rightarrow> False"
    by code_simp
  then obtain f c t' b' where m: "Match (demoOrder 9 1 SideLong 0 2 8) demoBook = Inr ([f], [c], t', b')"
    by (auto simp: length_Suc_conv split: sum.splits)
  with Match_fills_sound [OF wf_demoBook m] show ?thesis by (auto simp: demoOrder_def)
qed

text \<open>C2. Submitting a limit order never leaves a crossed book: after Match and Rest of the remainder
  the best bid is still below the best ask, and the book is well-formed.\<close>
theorem Match_then_Rest_uncrossed:
  assumes "wf_book b" "uncrossed (flat (levelsOf b True)) (flat (levelsOf b False))"
    and "ro_Price t \<noteq> 0" "\<not> Contains b (ro_OrderID t)"
    and "Match t b = Inr (fs, cs, t', b')" "0 < ro_Remaining t'"
  shows "wf_book (snd (Rest t' b')) \<and>
    uncrossed (flat (levelsOf (snd (Rest t' b')) True)) (flat (levelsOf (snd (Rest t' b')) False))"
  using book.match_then_rest_uncrossed [OF assms] by simp

lemma Match_then_Rest_uncrossed_witness:
  "\<exists>fs cs t' b'. Match (demoOrder 9 9 SideLong 100 3 8) demoBook = Inr (fs, cs, t', b') \<and> ro_Remaining t' = 2 \<and>
     uncrossed (flat (levelsOf (snd (Rest t' b')) True)) (flat (levelsOf (snd (Rest t' b')) False))"
proof -
  obtain fs cs t' b' where m: "Match (demoOrder 9 9 SideLong 100 3 8) demoBook = Inr (fs, cs, t', b')"
    using book.match_total [OF wf_demoBook] by blast
  have "case Match (demoOrder 9 9 SideLong 100 3 8) demoBook of Inr (fs, cs, t', b') \<Rightarrow> ro_Remaining t' = 2 | Inl e \<Rightarrow> False"
    by code_simp
  hence r: "ro_Remaining t' = 2" by (simp add: m)
  have "uncrossed (flat (levelsOf demoBook True)) (flat (levelsOf demoBook False))"
    by (simp add: demoBook_sides uncrossed_def demoOrder_def)
  moreover have "ro_Price (demoOrder 9 9 SideLong 100 3 8) \<noteq> 0" "\<not> Contains demoBook (ro_OrderID (demoOrder 9 9 SideLong 100 3 8))"
    by (simp_all add: demoOrder_def demoBook_Contains)
  ultimately show ?thesis
    using Match_then_Rest_uncrossed [OF wf_demoBook _ _ _ m] m r by auto
qed

section \<open>Resting and cancelling\<close>

text \<open>Rest puts a new order at its price-time place among the orders of its side and touches
  nothing else; a second Rest with an id that is already on the book changes nothing.\<close>
theorem Rest_price_time:
  assumes "wf_book b" "0 < ro_Remaining q"
  shows "wf_book (snd (Rest q b)) \<and>
    (if Contains b (ro_OrderID q) then Rest q b = (False, b)
     else fst (Rest q b) \<and> Contains (snd (Rest q b)) (ro_OrderID q) \<and>
       flat (levelsOf (snd (Rest q b)) (ro_Direction q = Buy)) =
         absInsert (ro_Direction q = Buy) q (flat (levelsOf b (ro_Direction q = Buy))) \<and>
       flat (levelsOf (snd (Rest q b)) (ro_Direction q \<noteq> Buy)) = flat (levelsOf b (ro_Direction q \<noteq> Buy)))"
proof (cases "Contains b (ro_OrderID q)")
  case True
  with assms(1) book.rest_again show ?thesis by simp
next
  case False
  note r = book.rest_law [OF assms(1) False assms(2)]
  hence "Contains (snd (Rest q b)) (ro_OrderID q)"
    using book.has_law [of "snd (Rest q b)" "ro_OrderID q"] by (metis imageI insertI1 set_absInsert)
  with r False show ?thesis by simp
qed

lemma Rest_price_time_witness:
  "wf_book (snd (Rest (demoOrder 8 8 SideShort 100 4 1) demoBook)) \<and>
   map ro_OrderID (flat (levelsOf (snd (Rest (demoOrder 8 8 SideShort 100 4 1) demoBook)) False)) = [8, 1, 2]"
proof -
  have "0 < ro_Remaining (demoOrder 8 8 SideShort 100 4 1)" "\<not> Contains demoBook (ro_OrderID (demoOrder 8 8 SideShort 100 4 1))"
    by (simp_all add: demoOrder_def demoBook_Contains)
  with Rest_price_time [OF wf_demoBook this(1)] show ?thesis
    by (simp add: demoBook_sides demoOrder_def DirectionOf_def absInsert_def before_def ahead_def)
qed

text \<open>Cancel of a resting order returns its remaining volume and removes exactly that order from
  the book; cancelling an id that is not resting changes nothing.\<close>
theorem Cancel_exact:
  assumes "wf_book b"
  shows "(\<forall>q\<in>set (bookOrders b). fst (Cancel b (ro_OrderID q)) = (ro_Remaining q, True)) \<and>
    (\<not> Contains b i \<longrightarrow> Cancel b i = ((0, False), b)) \<and>
    wf_book (snd (Cancel b i)) \<and> \<not> Contains (snd (Cancel b i)) i \<and>
    flat (levelsOf (snd (Cancel b i)) s) = filter (\<lambda>x. ro_OrderID x \<noteq> i) (flat (levelsOf b s))"
proof -
  have all: "\<forall>q\<in>set (bookOrders b). fst (Cancel b (ro_OrderID q)) = (ro_Remaining q, True)"
    using Cancel_correct(1) [OF assms] by blast
  have after: "wf_book (snd (Cancel b i)) \<and> flat (levelsOf (snd (Cancel b i)) s) = filter (\<lambda>x. ro_OrderID x \<noteq> i) (flat (levelsOf b s))" for s
  proof (cases "Contains b i")
    case True
    with Contains_iff [OF assms] obtain q where "q \<in> set (bookOrders b)" "i = ro_OrderID q" by auto
    with Cancel_correct(2,3) [OF assms] show ?thesis by simp
  next
    case False
    with book.has_law [OF assms, of i] have "i \<notin> ro_OrderID ` set (flat (levelsOf b s))" by blast
    with Cancel_absent [OF assms False] assms show ?thesis by (simp add: filter_id_notin)
  qed
  hence "\<not> Contains (snd (Cancel b i)) i" using book.has_law [of "snd (Cancel b i)" i] by auto
  with all after Cancel_absent [OF assms] show ?thesis by blast
qed

lemma Cancel_exact_witness:
  "fst (Cancel demoBook 2) = (2, True) \<and>
   flat (levelsOf (snd (Cancel demoBook 2)) False) = [demoOrder 1 1 SideShort 100 1 5]"
proof -
  have "demoOrder 2 2 SideShort 101 2 6 \<in> set (bookOrders demoBook)"
    using bookOrders_sides [of demoBook True] by (simp add: demoBook_sides)
  with Cancel_exact [OF wf_demoBook, of 2 False]
  have "fst (Cancel demoBook (ro_OrderID (demoOrder 2 2 SideShort 101 2 6))) = (ro_Remaining (demoOrder 2 2 SideShort 101 2 6), True)"
    "flat (levelsOf (snd (Cancel demoBook 2)) False) = filter (\<lambda>x. ro_OrderID x \<noteq> 2) (flat (levelsOf demoBook False))"
    by blast+
  thus ?thesis unfolding demoBook_sides by (simp add: demoOrder_def)
qed

section \<open>Depth\<close>

lemma snapshotLevels_take:
  "snapshotLevels levels m = map (\<lambda>pl. \<lparr> snap_Price = pl_price pl, snap_Volume = pl_totalVolume pl, snap_Count = pl_count pl \<rparr>)
     (if 0 < m then take (nat m) levels else levels)"
proof -
  let ?g = "\<lambda>pl. \<lparr> snap_Price = pl_price pl, snap_Volume = pl_totalVolume pl, snap_Count = pl_count pl \<rparr>"
  have "map (\<lambda>i. ?g (levels ! i)) [0..<n] = map ?g (take n levels)" if "n \<le> length levels" for n
    using that by (induction n) (simp_all add: take_Suc_conv_app_nth)
  from this [of "nat m"] this [of "length levels"] show ?thesis
    by (cases "0 < m \<and> nat m < length levels") (auto simp: snapshotLevels_def Let_def)
qed

lemma level_orders:
  assumes "wf_side buy levels" "pl \<in> set levels"
  shows "filter (\<lambda>q. ro_Price q = pl_price pl) (flat levels) = pl_queue pl"
proof -
  obtain pre post where lv: "levels = pre @ pl # post" using split_list [OF assms(2)] by blast
  have "ro_Price q \<noteq> pl_price pl" if "q \<in> set (flat (pre @ post))" for q
  proof -
    from assms(1) lv have "wf_side buy (pre @ post)" by (auto simp: wf_side_append wf_side_Cons)
    from wf_side_order [OF this that] obtain p where "p \<in> set (pre @ post)" "ro_Price q = pl_price p" by auto
    with assms(1) lv have "ahead buy (ro_Price q) (pl_price pl) \<or> ahead buy (pl_price pl) (ro_Price q)"
      by (auto simp: wf_side_append wf_side_Cons)
    thus ?thesis by (metis ahead_irrefl)
  qed
  hence "filter (\<lambda>q. ro_Price q = pl_price pl) (flat pre) = []" "filter (\<lambda>q. ro_Price q = pl_price pl) (flat post) = []"
    by (auto simp: filter_empty_conv)
  moreover have "filter (\<lambda>q. ro_Price q = pl_price pl) (pl_queue pl) = pl_queue pl"
    using assms lv by (auto simp: filter_id_conv wf_side_append wf_side_Cons wf_level_def)
  ultimately show ?thesis by (simp add: lv)
qed

lemma snapshot_side:
  assumes "wf_side buy levels" "x \<in> set (snapshotLevels levels m)"
  shows "snap_Volume x = volumeOf (filter (\<lambda>q. ro_Price q = snap_Price x) (flat levels)) \<and>
    snap_Count x = int (length (filter (\<lambda>q. ro_Price q = snap_Price x) (flat levels))) \<and> 0 < snap_Count x"
proof -
  obtain pl where pl: "pl \<in> set levels" "x = \<lparr> snap_Price = pl_price pl, snap_Volume = pl_totalVolume pl, snap_Count = pl_count pl \<rparr>"
    using assms(2) by (auto simp: snapshotLevels_take split: if_splits dest: in_set_takeD)
  from assms(1) pl(1) have "wf_level buy pl" by (simp add: wf_side_def)
  with level_orders [OF assms(1) pl(1)] pl(2) show ?thesis by (auto simp: wf_level_def volumeOf_def)
qed

lemma snapshot_sorted:
  assumes "wf_side buy levels"
  shows "sorted_wrt (ahead buy) (map snap_Price (snapshotLevels levels m))"
proof -
  have "sorted_wrt (ahead buy) (map pl_price levels)"
    using assms by (simp add: wf_side_def sorted_levels_def sorted_wrt_map)
  moreover have "map snap_Price (snapshotLevels levels m) = (if 0 < m then take (nat m) (map pl_price levels) else map pl_price levels)"
    by (simp add: snapshotLevels_take comp_def take_map)
  ultimately show ?thesis by (simp add: sorted_wrt_take)
qed

lemma snapshot_prices:
  assumes "wf_side buy ls" "\<not> 0 < m"
  shows "snap_Price ` set (snapshotLevels ls m) = ro_Price ` set (flat ls)"
proof -
  have "snap_Price ` set (snapshotLevels ls m) = pl_price ` set ls"
    using assms(2) by (simp add: snapshotLevels_take image_image)
  also have "\<dots> = ro_Price ` set (flat ls)"
  proof (intro equalityI subsetI)
    fix p assume "p \<in> pl_price ` set ls"
    then obtain pl where pl: "pl \<in> set ls" "p = pl_price pl" by auto
    with assms(1) have "wf_level buy pl" by (simp add: wf_side_def)
    then obtain q where "q \<in> set (pl_queue pl)" "ro_Price q = p"
      using pl(2) by (cases "pl_queue pl") (auto simp: wf_level_def)
    with pl(1) show "p \<in> ro_Price ` set (flat ls)" by (force simp: in_flat)
  qed (use wf_side_order [OF assms(1)] in force)
  finally show ?thesis .
qed

lemma snapshot_correct:
  assumes "wf_side buy ls"
  shows "sorted_wrt (ahead buy) (map snap_Price (snapshotLevels ls m)) \<and>
    (if 0 < m then length (snapshotLevels ls m) \<le> nat m else snap_Price ` set (snapshotLevels ls m) = ro_Price ` set (flat ls)) \<and>
    (\<forall>x\<in>set (snapshotLevels ls m). snap_Volume x = volumeOf (filter (\<lambda>q. ro_Price q = snap_Price x) (flat ls)) \<and>
       snap_Count x = int (length (filter (\<lambda>q. ro_Price q = snap_Price x) (flat ls))) \<and> 0 < snap_Count x)"
proof (intro conjI ballI)
  show "if 0 < m then length (snapshotLevels ls m) \<le> nat m else snap_Price ` set (snapshotLevels ls m) = ro_Price ` set (flat ls)"
    using snapshot_prices [OF assms, of m] by (simp add: snapshotLevels_take)
qed (use snapshot_side [OF assms] snapshot_sorted [OF assms] in blast)+

text \<open>The depth snapshot of either side lists distinct prices from best to worst, at most
  maxLevels of them and all when maxLevels is not positive, each with the total remaining volume and
  the number of the orders resting at that price.\<close>
theorem Depth_aggregates:
  assumes "wf_book b"
  shows "\<forall>(buy, side) \<in> {(True, ds_Bids (Depth b m)), (False, ds_Asks (Depth b m))}.
    sorted_wrt (ahead buy) (map snap_Price side) \<and>
    (if 0 < m then length side \<le> nat m
     else snap_Price ` set side = ro_Price ` set (flat (levelsOf b buy))) \<and>
    (\<forall>x\<in>set side. snap_Volume x = volumeOf (filter (\<lambda>q. ro_Price q = snap_Price x) (flat (levelsOf b buy))) \<and>
       snap_Count x = int (length (filter (\<lambda>q. ro_Price q = snap_Price x) (flat (levelsOf b buy)))) \<and> 0 < snap_Count x)"
  using assms snapshot_correct [of True "bk_bids b" m] snapshot_correct [of False "bk_asks b" m]
  by (auto simp: Depth_def wf_book_def levelsOf_def)

lemma Depth_aggregates_witness:
  "map snap_Price (ds_Asks (Depth demoBook 0)) = [100, 101] \<and>
   snap_Volume (hd (ds_Asks (Depth demoBook 0))) = volumeOf (filter (\<lambda>q. ro_Price q = 100) (flat (levelsOf demoBook False)))"
proof -
  have p: "map snap_Price (ds_Asks (Depth demoBook 0)) = [100, 101]" by code_simp
  then obtain x xs where x: "ds_Asks (Depth demoBook 0) = x # xs" "snap_Price x = 100" by auto
  with Depth_aggregates [OF wf_demoBook, of 0] p show ?thesis by auto
qed

section \<open>Impact price\<close>

lemma fits_eq:
  assumes "fits s x" "fits s y" "\<bar>x - y\<bar> < 1 / 10 ^ s"
  shows "x = y"
proof -
  obtain k l where k: "x * 10 ^ s = of_int k" "y * 10 ^ s = of_int l" using assms(1,2) by (auto simp: fits_iff)
  have "\<bar>x - y\<bar> * 10 ^ s < 1" using assms(3) by (simp add: field_simps)
  hence "\<bar>x * 10 ^ s - y * 10 ^ s\<bar> < 1" by (simp add: abs_mult left_diff_distrib [symmetric])
  hence "\<bar>of_int (k - l) :: dec\<bar> < 1" by (simp add: k)
  hence "k = l" by linarith
  with k show ?thesis by (metis mult_right_cancel power_not_zero zero_neq_numeral)
qed

lemma impact_exact:
  assumes "decimal_lib L" "fits 16 p" "0 < p" "0 < N" "p * p + p \<le> N * 10 ^ 16"
  shows "lib_DivRound L N p 32 > 0" and "lib_DivRound L N (lib_DivRound L N p 32) 16 = p"
proof -
  define q where "q = lib_DivRound L N p 32"
  define e :: dec where "e = 1 / (2 * 10 ^ 32)"
  have near: "\<bar>q - N / p\<bar> \<le> e"
    using decimal_lib.divround_near [OF assms(1), of p N 32] assms(3) unfolding q_def e_def by blast
  have pq: "\<bar>p * q - N\<bar> \<le> p * e"
  proof -
    have "p * q - N = p * (q - N / p)" using assms(3) by (simp add: field_simps)
    thus ?thesis using near assms(3) by (simp add: abs_mult)
  qed
  have big: "p * p * (2 * 10 ^ 16) * e + p * e < N"
    using assms(3,5) by (simp add: e_def field_simps)
  moreover have "0 < p * p * (2 * 10 ^ 16) * e" using assms(3) by (simp add: e_def)
  ultimately have "p * e < N" by linarith
  with pq have "0 < p * q" by linarith
  with assms(3) have qpos: "0 < q" by (simp add: zero_less_mult_iff)
  thus "lib_DivRound L N p 32 > 0" by (simp add: q_def)
  have "p * (\<bar>N - p * q\<bar> * (2 * 10 ^ 16)) \<le> p * (p * e * (2 * 10 ^ 16))"
    using pq assms(3) by (simp add: abs_minus_commute)
  also have "\<dots> < N - p * e" using big by (simp add: algebra_simps)
  also have "\<dots> \<le> p * q" using pq by linarith
  finally have "\<bar>N - p * q\<bar> * (2 * 10 ^ 16) < q" using assms(3) by simp
  hence "\<bar>N - p * q\<bar> / q < 1 / (2 * 10 ^ 16)" using qpos by (simp add: field_simps)
  moreover have "N / q - p = (N - p * q) / q" using qpos by (simp add: field_simps)
  ultimately have close: "\<bar>N / q - p\<bar> < 1 / (2 * 10 ^ 16)" using qpos by (simp add: abs_divide)
  have "\<bar>lib_DivRound L N q 16 - N / q\<bar> \<le> 1 / (2 * 10 ^ 16)"
    using decimal_lib.divround_near [OF assms(1), of q N 16] qpos by blast
  with close have "\<bar>lib_DivRound L N q 16 - p\<bar> < 1 / 10 ^ 16" by linarith
  with decimal_lib.divround_fits [OF assms(1), of q 16 N] qpos assms(2)
  have "lib_DivRound L N q 16 = p" by (intro fits_eq) auto
  thus "lib_DivRound L N (lib_DivRound L N p 32) 16 = p" by (simp add: q_def)
qed

text \<open>When the best level alone can absorb the impact notional, the impact price is exactly the
  price of that level, for every price of at most 16 decimals that is small against the notional; a
  side that cannot absorb the notional has no impact price.\<close>
theorem impactPrice_single_level:
  assumes "decimal_lib L" "wf_book b" "0 < notional"
  shows "(flat (bk_asks b) \<noteq> [] \<and> (let p = pl_price (hd (bk_asks b)) in
            fits 16 p \<and> 0 < p \<and> p * p + p \<le> notional * 10 ^ 16 \<and> notional \<le> p * pl_totalVolume (hd (bk_asks b)))
          \<longrightarrow> impactPrice L (bk_asks b) notional = Inr (pl_price (hd (bk_asks b)), True)) \<and>
         (sum_list (map (\<lambda>pl. pl_price pl * pl_totalVolume pl) (bk_asks b)) < notional \<and> (\<forall>pl\<in>set (bk_asks b). 0 < pl_price pl)
          \<longrightarrow> impactPrice L (bk_asks b) notional = Inr (0, False))"
proof (intro conjI impI)
  assume a: "flat (bk_asks b) \<noteq> [] \<and> (let p = pl_price (hd (bk_asks b)) in
            fits 16 p \<and> 0 < p \<and> p * p + p \<le> notional * 10 ^ 16 \<and> notional \<le> p * pl_totalVolume (hd (bk_asks b)))"
  then obtain pl ls where lv: "bk_asks b = pl # ls" by (cases "bk_asks b") auto
  with a impact_exact [OF assms(1), of "pl_price pl" notional] assms(3)
  show "impactPrice L (bk_asks b) notional = Inr (pl_price (hd (bk_asks b)), True)"
    by (auto simp: impactPrice_def sdivround_def Let_def)
next
  assume a: "sum_list (map (\<lambda>pl. pl_price pl * pl_totalVolume pl) (bk_asks b)) < notional \<and> (\<forall>pl\<in>set (bk_asks b). 0 < pl_price pl)"
  have vol: "0 \<le> pl_totalVolume pl" if "pl \<in> set (bk_asks b)" for pl
  proof -
    have "wf_level False pl" using assms(2) that by (simp add: wf_book_def wf_side_def)
    thus ?thesis by (auto simp: wf_level_def intro!: sum_list_nonneg) (force intro: less_imp_le)
  qed
  have "impactLoop L n0 r q ls = Inr (0, False)"
    if "sum_list (map (\<lambda>pl. pl_price pl * pl_totalVolume pl) ls) < r" "\<forall>pl\<in>set ls. 0 < pl_price pl \<and> 0 \<le> pl_totalVolume pl"
    for n0 r q ls
    using that
  proof (induction ls arbitrary: r q)
    case (Cons pl ls)
    have "0 \<le> sum_list (map (\<lambda>pl. pl_price pl * pl_totalVolume pl) ls)"
      using Cons.prems(2) by (intro sum_list_nonneg) auto
    with Cons.prems(1) have "\<not> r \<le> pl_price pl * pl_totalVolume pl" by simp
    with Cons.IH [of "r - pl_price pl * pl_totalVolume pl"] Cons.prems show ?case by (simp add: Let_def)
  qed simp
  with a vol assms(3) show "impactPrice L (bk_asks b) notional = Inr (0, False)"
    by (simp add: impactPrice_def)
qed

lemma impactPrice_single_level_witness:
  "impactPrice std_lib (bk_asks demoBook) 70 = Inr (100, True) \<and>
   impactPrice std_lib (bk_asks demoBook) 1000 = Inr (0, False)"
proof -
  have asks: "bk_asks demoBook = [\<lparr> pl_price = 100, pl_queue = [demoOrder 1 1 SideShort 100 1 5], pl_totalVolume = 1, pl_count = 1 \<rparr>,
     \<lparr> pl_price = 101, pl_queue = [demoOrder 2 2 SideShort 101 2 6], pl_totalVolume = 2, pl_count = 1 \<rparr>]"
    by code_simp
  have "fits 16 100" by (simp add: fits_def)
  with impactPrice_single_level [OF std_decimal_lib wf_demoBook, of 70]
    impactPrice_single_level [OF std_decimal_lib wf_demoBook, of 1000]
  show ?thesis by (simp add: asks Let_def)
qed

end
