(* ===== verification/MarkPrice.thy ===== *)
theory MarkPrice
  imports Model
begin

text \<open>
  The mark price service, src/internal/service/markprice.go, for one symbol. \<open>markCache\<close> is the part
  of the Redis cache (src/internal/cache/cache.go) the service keeps for the symbol: the mark, the
  index price with its time, the last trade price and the pending index jump; a key that is absent
  or does not hold a number is \<open>None\<close>. The window of basis samples is the service's own state. Times
  and durations are in milliseconds; the clock is an argument. The lock per symbol makes
  UpdateFromTrade and Refresh atomic.
\<close>

record MarkPriceConfig =
  cfg_MaxIndexAge :: int
  cfg_MaxDeviation :: dec
  cfg_BasisWindow :: int
  cfg_RequireIndex :: bool
  cfg_IndexMaxJump :: dec
  cfg_IndexJumpConfirm :: int

definition DefaultMarkPriceConfig :: MarkPriceConfig where
  "DefaultMarkPriceConfig =
     \<lparr> cfg_MaxIndexAge = 30 * 1000, cfg_MaxDeviation = 1 / 100, cfg_BasisWindow = 60 * 1000,
       cfg_RequireIndex = False, cfg_IndexMaxJump = 0, cfg_IndexJumpConfirm = 3 * 1000 \<rparr>"

definition indexJumpTolerance :: dec where
  "indexJumpTolerance = 1 / 100"

record IndexJump =
  ij_Target :: dec
  ij_FirstTs :: int
  ij_LastTs :: int

record markCache =
  mc_mark :: "dec option"
  mc_index :: "(dec \<times> int) option"
  mc_last :: "dec option"
  mc_jump :: "IndexJump option"

datatype MarkState = MarkMissing | MarkFresh | MarkStale

section \<open>Reading prices\<close>

definition Get :: "markCache \<Rightarrow> dec option" where
  "Get c = mc_mark c"

definition readIndex :: "markCache \<Rightarrow> (dec \<times> int) option" where
  "readIndex c = (case mc_index c of None \<Rightarrow> None | Some (d, ts) \<Rightarrow> if d \<le> 0 then None else Some (d, ts))"

definition readLast :: "markCache \<Rightarrow> dec option" where
  "readLast c = (case mc_last c of None \<Rightarrow> None | Some d \<Rightarrow> if d \<le> 0 then None else Some d)"

definition indexStale :: "MarkPriceConfig \<Rightarrow> int \<Rightarrow> int \<Rightarrow> bool" where
  "indexStale cfg now ts \<longleftrightarrow> cfg_MaxIndexAge cfg < now - ts"

definition Lookup :: "MarkPriceConfig \<Rightarrow> int \<Rightarrow> markCache \<Rightarrow> dec \<times> MarkState" where
  "Lookup cfg now c =
     (case Get c of
        None \<Rightarrow> (0, MarkMissing)
      | Some mark \<Rightarrow>
          (case readIndex c of
             None \<Rightarrow> if cfg_RequireIndex cfg then (mark, MarkStale) else (mark, MarkFresh)
           | Some (_, ts) \<Rightarrow> if indexStale cfg now ts then (mark, MarkStale) else (mark, MarkFresh)))"

definition GetFresh :: "MarkPriceConfig \<Rightarrow> int \<Rightarrow> markCache \<Rightarrow> dec option" where
  "GetFresh cfg now c = (let (mark, state) = Lookup cfg now c in if state \<noteq> MarkFresh then None else Some mark)"

definition GetIndexPrice :: "markCache \<Rightarrow> dec option" where
  "GetIndexPrice c = map_option fst (readIndex c)"

definition GetFreshIndex :: "MarkPriceConfig \<Rightarrow> int \<Rightarrow> markCache \<Rightarrow> dec option" where
  "GetFreshIndex cfg now c =
     (case readIndex c of None \<Rightarrow> None | Some (p, ts) \<Rightarrow> if indexStale cfg now ts then None else Some p)"

section \<open>Pushing the index price\<close>

definition SetIndexPrice :: "int \<Rightarrow> dec \<Rightarrow> markCache \<Rightarrow> markCache" where
  "SetIndexPrice now price c = c\<lparr>mc_index := Some (price, now)\<rparr>"

text \<open>The decision of one push: accept, the pending jump to remember, and whether the push continues
  the pending price.\<close>

definition withinRatio :: "dec_lib \<Rightarrow> dec \<Rightarrow> dec \<Rightarrow> dec \<Rightarrow> bool res" where
  "withinRatio L price ref limit =
     (case sdiv L \<bar>price - ref\<bar> ref of Inl e \<Rightarrow> Inl e | Inr d \<Rightarrow> Inr (d \<le> limit))"

definition continuesPending :: "dec_lib \<Rightarrow> int \<Rightarrow> int \<Rightarrow> dec \<Rightarrow> IndexJump option \<Rightarrow> bool" where
  "continuesPending L maxAge now price pending =
     (case pending of
        None \<Rightarrow> False
      | Some j \<Rightarrow> now - ij_LastTs j \<le> maxAge \<and> 0 < ij_Target j \<and>
                  lib_Div L \<bar>price - ij_Target j\<bar> (ij_Target j) \<le> indexJumpTolerance)"

definition decideIndexPush ::
  "dec_lib \<Rightarrow> MarkPriceConfig \<Rightarrow> int \<Rightarrow> dec \<Rightarrow> (dec \<times> int) option \<Rightarrow> IndexJump option \<Rightarrow>
   (bool \<times> IndexJump option \<times> bool) res" where
  "decideIndexPush L cfg now price cur pending =
     (let maxAge = cfg_MaxIndexAge cfg;
          decide =
            (let continued = continuesPending L maxAge now price pending;
                 nxt = (case (continued, pending) of
                           (True, Some j) \<Rightarrow> j\<lparr>ij_LastTs := now\<rparr>
                         | _ \<Rightarrow> \<lparr> ij_Target = price, ij_FirstTs = now, ij_LastTs = now \<rparr>)
             in if cfg_IndexJumpConfirm cfg \<le> now - ij_FirstTs nxt then Inr (True, None, continued)
                else Inr (False, Some nxt, continued))
      in if cfg_IndexMaxJump cfg \<le> 0 then Inr (True, None, False)
         else (case cur of
                 None \<Rightarrow> Inr (True, None, False)
               | Some (curP, curTs) \<Rightarrow>
                   if maxAge < now - curTs then Inr (True, None, False)
                   else (case withinRatio L price curP (cfg_IndexMaxJump cfg) of
                           Inl e \<Rightarrow> Inl e
                         | Inr near \<Rightarrow> if near then Inr (True, None, False) else decide)))"

definition PushIndexPrice ::
  "dec_lib \<Rightarrow> MarkPriceConfig \<Rightarrow> int \<Rightarrow> dec \<Rightarrow> markCache \<Rightarrow> (bool \<times> markCache) res" where
  "PushIndexPrice L cfg now price c =
     (if cfg_IndexMaxJump cfg \<le> 0 then Inr (True, SetIndexPrice now price c)
      else
        (case decideIndexPush L cfg now price (readIndex c) (mc_jump c) of
           Inl e \<Rightarrow> Inl e
         | Inr (accept, nxt, continued) \<Rightarrow>
             if \<not> accept then Inr (False, c\<lparr>mc_jump := nxt\<rparr>)
             else
               let c' = SetIndexPrice now price c in
               Inr (True, if mc_jump c \<noteq> None then c'\<lparr>mc_jump := None\<rparr> else c')))"

section \<open>Computing the mark\<close>

definition median3 :: "dec \<Rightarrow> dec \<Rightarrow> dec \<Rightarrow> dec" where
  "median3 a b c = sort [a, b, c] ! 1"

definition clampDecimal :: "dec \<Rightarrow> dec \<Rightarrow> dec \<Rightarrow> dec" where
  "clampDecimal x lo hi = (if x < lo then lo else if hi < x then hi else x)"

definition computeMark :: "dec \<Rightarrow> dec \<Rightarrow> dec option \<Rightarrow> dec \<Rightarrow> dec" where
  "computeMark index basis lastPx maxDev =
     (let basis' = (if 0 < maxDev then clampDecimal basis (- maxDev) maxDev else basis);
          adjusted = index * (1 + basis');
          mark = (case lastPx of None \<Rightarrow> adjusted | Some l \<Rightarrow> median3 index adjusted l)
      in if 0 < maxDev then clampDecimal mark (index * (1 - maxDev)) (index * (1 + maxDev)) else mark)"

definition basisSample :: "dec_lib \<Rightarrow> dec \<Rightarrow> dec \<Rightarrow> dec \<Rightarrow> dec \<Rightarrow> dec option res" where
  "basisSample L index bid ask maxDev =
     (if index \<le> 0 \<or> bid \<le> 0 \<or> ask \<le> 0 \<or> ask < bid then Inr None
      else
        let mid = lib_Div L (bid + ask) 2 in
        (case (if 0 < maxDev then (case sdiv L (ask - bid) mid of Inl e \<Rightarrow> Inl e | Inr w \<Rightarrow> Inr (maxDev * 2 < w))
               else Inr False) of
           Inl e \<Rightarrow> Inl e
         | Inr wide \<Rightarrow>
             if wide then Inr None
             else
               let sample = lib_Div L (mid - index) index in
               Inr (Some (if 0 < maxDev then clampDecimal sample (- maxDev) maxDev else sample))))"

record basisPoint =
  bp_ts :: int
  bp_ratio :: dec

type_synonym basisWindow = "basisPoint list"

definition basis_add :: "basisWindow \<Rightarrow> int \<Rightarrow> dec \<Rightarrow> basisWindow" where
  "basis_add w now ratio = w @ [\<lparr> bp_ts = now, bp_ratio = ratio \<rparr>]"

definition basis_average :: "dec_lib \<Rightarrow> basisWindow \<Rightarrow> int \<Rightarrow> int \<Rightarrow> dec \<times> basisWindow" where
  "basis_average L w now window =
     (let w' = dropWhile (\<lambda>p. bp_ts p < now - window) w in
      if w' = [] then (0, w')
      else (lib_Div L (foldl (\<lambda>s p. s + bp_ratio p) 0 w') (of_nat (length w')), w'))"

text \<open>\<open>recompute\<close> returns the window, the cache and the mark passed to \<open>onChange\<close>, if any.\<close>

definition recompute ::
  "dec_lib \<Rightarrow> MarkPriceConfig \<Rightarrow> int \<Rightarrow> dec \<Rightarrow> dec \<Rightarrow> basisWindow \<Rightarrow> markCache \<Rightarrow>
   (basisWindow \<times> markCache \<times> dec option) res" where
  "recompute L cfg now bestBid bestAsk w c =
     (let store = (\<lambda>w' mark.
            if Get c = Some mark then (w', c, None) else (w', c\<lparr>mc_mark := Some mark\<rparr>, Some mark)) in
      case readIndex c of
        None \<Rightarrow>
          if cfg_RequireIndex cfg then Inr (w, c, None)
          else (case readLast c of None \<Rightarrow> Inr (w, c, None) | Some lastPx \<Rightarrow> Inr (store w lastPx))
      | Some (index, ts) \<Rightarrow>
          if indexStale cfg now ts then Inr (w, c, None)
          else
            (case basisSample L index bestBid bestAsk (cfg_MaxDeviation cfg) of
               Inl e \<Rightarrow> Inl e
             | Inr sample \<Rightarrow>
                 let w1 = (case sample of None \<Rightarrow> w | Some s \<Rightarrow> basis_add w now s);
                     (avg, w2) = basis_average L w1 now (cfg_BasisWindow cfg)
                 in Inr (store w2 (computeMark index avg (readLast c) (cfg_MaxDeviation cfg)))))"

definition UpdateFromTrade ::
  "dec_lib \<Rightarrow> MarkPriceConfig \<Rightarrow> int \<Rightarrow> dec \<Rightarrow> basisWindow \<Rightarrow> markCache \<Rightarrow>
   (basisWindow \<times> markCache \<times> dec option) res" where
  "UpdateFromTrade L cfg now price w c = recompute L cfg now 0 0 w (c\<lparr>mc_last := Some price\<rparr>)"

definition Refresh ::
  "dec_lib \<Rightarrow> MarkPriceConfig \<Rightarrow> int \<Rightarrow> dec \<Rightarrow> dec \<Rightarrow> basisWindow \<Rightarrow> markCache \<Rightarrow>
   (basisWindow \<times> markCache \<times> dec option) res" where
  "Refresh L cfg now bestBid bestAsk w c = recompute L cfg now bestBid bestAsk w c"

section \<open>Medians, clamps and averages\<close>

lemma median3_between:
  "min a b \<le> median3 a b c \<and> median3 a b c \<le> max a b"
  by (auto simp: median3_def insort_key_def min_def max_def)

lemma median3_perm: "median3 a b c = median3 b a c" "median3 a b c = median3 a c b"
  by (auto simp: median3_def insort_key_def)

lemma clampDecimal_bounds: "lo \<le> hi \<Longrightarrow> lo \<le> clampDecimal x lo hi \<and> clampDecimal x lo hi \<le> hi"
  by (auto simp: clampDecimal_def)

lemma clampDecimal_id: "lo \<le> x \<Longrightarrow> x \<le> hi \<Longrightarrow> clampDecimal x lo hi = x"
  by (auto simp: clampDecimal_def)

lemma clampDecimal_mono: "lo \<le> hi \<Longrightarrow> x \<le> y \<Longrightarrow> clampDecimal x lo hi \<le> clampDecimal y lo hi"
  by (auto simp: clampDecimal_def)

lemma sum_bounds:
  fixes f :: "'a \<Rightarrow> dec"
  assumes "\<forall>x\<in>set xs. - m \<le> f x \<and> f x \<le> m"
  shows "- (m * of_nat (length xs)) \<le> sum_list (map f xs)" "sum_list (map f xs) \<le> m * of_nat (length xs)"
  using assms by (induction xs) (auto simp: algebra_simps)

lemma foldl_sum: "foldl (\<lambda>s p. s + f p) (a :: dec) xs = a + sum_list (map f xs)"
  by (induction xs arbitrary: a) (simp_all add: add.assoc)

definition basis_within :: "dec \<Rightarrow> basisWindow \<Rightarrow> bool" where
  "basis_within m w \<longleftrightarrow> (\<forall>p\<in>set w. - m \<le> bp_ratio p \<and> bp_ratio p \<le> m)"

lemma basis_average_window: "snd (basis_average L w now window) = dropWhile (\<lambda>p. bp_ts p < now - window) w"
  by (simp add: basis_average_def Let_def)

lemma basis_average_within:
  assumes "decimal_lib L" "fits 16 m" "0 \<le> m" "basis_within m w"
  shows "- m \<le> fst (basis_average L w now window) \<and> fst (basis_average L w now window) \<le> m"
    and "basis_within m (snd (basis_average L w now window))"
proof -
  define w' where "w' = dropWhile (\<lambda>p. bp_ts p < now - window) w"
  have w': "basis_within m w'" using assms(4) unfolding basis_within_def w'_def by (meson set_dropWhileD)
  thus "basis_within m (snd (basis_average L w now window))" by (simp add: basis_average_window w'_def)
  have fst_eq: "fst (basis_average L w now window) =
      (if w' = [] then 0 else lib_Div L (sum_list (map bp_ratio w')) (of_nat (length w')))"
    by (simp add: basis_average_def Let_def w'_def [symmetric] foldl_sum)
  show "- m \<le> fst (basis_average L w now window) \<and> fst (basis_average L w now window) \<le> m"
  proof (cases "w' = []")
    case False
    hence pos: "(0::dec) < of_nat (length w')" by simp
    have "- m \<le> lib_Div L (sum_list (map bp_ratio w')) (of_nat (length w'))"
      by (rule decimal_lib.div_ge_fits [OF assms(1) pos])
        (use assms(2) sum_bounds(1) [of w' m bp_ratio] w' in \<open>auto simp: basis_within_def\<close>)
    moreover have "lib_Div L (sum_list (map bp_ratio w')) (of_nat (length w')) \<le> m"
      by (rule decimal_lib.div_le_fits [OF assms(1) pos])
        (use assms(2) sum_bounds(2) [of w' m bp_ratio] w' in \<open>auto simp: basis_within_def\<close>)
    ultimately show ?thesis using False by (simp add: fst_eq)
  qed (use assms(3) in \<open>simp add: fst_eq\<close>)
qed

lemma basisSample_within:
  "basisSample L index bid ask m = Inr (Some s) \<Longrightarrow> 0 < m \<Longrightarrow> - m \<le> s \<and> s \<le> m"
  by (auto simp: basisSample_def Let_def clampDecimal_bounds split: if_splits sum.splits)

text \<open>Without the outer clamp: the mark is the median (or the adjusted index).\<close>

definition rawMark :: "dec \<Rightarrow> dec \<Rightarrow> dec option \<Rightarrow> dec" where
  "rawMark index basis lastPx = (case lastPx of None \<Rightarrow> index * (1 + basis) | Some l \<Rightarrow> median3 index (index * (1 + basis)) l)"

lemma rawMark_between:
  "min index (index * (1 + basis)) \<le> rawMark index basis lastPx \<and>
   rawMark index basis lastPx \<le> max index (index * (1 + basis))"
  using median3_between [of index "index * (1 + basis)"] by (cases lastPx) (auto simp: rawMark_def)

lemma rawMark_band:
  assumes "0 \<le> index" "- m \<le> basis" "basis \<le> m" "0 \<le> m"
  shows "index * (1 - m) \<le> rawMark index basis lastPx \<and> rawMark index basis lastPx \<le> index * (1 + m)"
proof -
  have a: "index * (1 - m) \<le> index * (1 + basis)" "index * (1 + basis) \<le> index * (1 + m)"
    using assms by (simp_all add: mult_left_mono)
  have b: "index * (1 - m) \<le> index * 1" "index * 1 \<le> index * (1 + m)"
    using assms by (intro mult_left_mono; simp)+
  have "index * (1 - m) \<le> min index (index * (1 + basis))" "max index (index * (1 + basis)) \<le> index * (1 + m)"
    using a b by simp_all
  with rawMark_between [of index basis lastPx] show ?thesis by linarith
qed

lemma computeMark_raw:
  assumes "0 \<le> index" "0 < m"
  shows "computeMark index basis lastPx m = rawMark index (clampDecimal basis (- m) m) lastPx"
proof -
  have "- m \<le> clampDecimal basis (- m) m" "clampDecimal basis (- m) m \<le> m"
    using clampDecimal_bounds [of "- m" m basis] assms(2) by simp_all
  from rawMark_band [OF assms(1) this, of lastPx] assms(2) show ?thesis
    by (cases lastPx) (simp_all add: computeMark_def Let_def rawMark_def clampDecimal_id)
qed

section \<open>Properties\<close>

text \<open>Manipulation resistance of the mark: whatever the last trade price is, the mark lies between
  the index price and the index price moved by the (clamped) average basis, so it never leaves the band of
  MaxDeviation around the index; the outer clamp of the source never changes the result.\<close>
theorem computeMark_band:
  assumes "0 < index" "0 < maxDev"
  shows "index * (1 - maxDev) \<le> computeMark index basis lastPx maxDev \<and>
    computeMark index basis lastPx maxDev \<le> index * (1 + maxDev) \<and>
    min index (index * (1 + clampDecimal basis (- maxDev) maxDev)) \<le> computeMark index basis lastPx maxDev \<and>
    computeMark index basis lastPx maxDev \<le> max index (index * (1 + clampDecimal basis (- maxDev) maxDev)) \<and>
    computeMark index basis lastPx maxDev = rawMark index (clampDecimal basis (- maxDev) maxDev) lastPx"
proof -
  have b: "- maxDev \<le> clampDecimal basis (- maxDev) maxDev" "clampDecimal basis (- maxDev) maxDev \<le> maxDev"
    using clampDecimal_bounds [of "- maxDev" maxDev basis] assms(2) by simp_all
  have i: "0 \<le> index" "0 \<le> maxDev" using assms by simp_all
  show ?thesis
    using rawMark_band [OF i(1) b i(2), of lastPx] rawMark_between [of index "clampDecimal basis (- maxDev) maxDev" lastPx]
    by (simp add: computeMark_raw [OF i(1) assms(2)])
qed

lemma computeMark_band_witness:
  "computeMark 100 (1/200) (Some 250) (1/100) = 100.5 \<and> computeMark 100 (1/200) (Some 250) (1/100) \<le> 101"
  using computeMark_band [of 100 "1/100" "1/200" "Some 250"]
  by (simp add: rawMark_def median3_def clampDecimal_def)

text \<open>While the index price is fresh, every recomputation (on a trade, whatever its price, or on the
  ticker) stores a mark inside the MaxDeviation band around the index and keeps every sample of the basis
  window inside that band.\<close>
theorem recompute_mark_band:
  assumes lib: "decimal_lib L" "fits 16 (cfg_MaxDeviation cfg)" and m: "0 < cfg_MaxDeviation cfg"
    and w: "basis_within (cfg_MaxDeviation cfg) w"
    and index: "readIndex c = Some (index, ts)" "\<not> indexStale cfg now ts"
    and r: "recompute L cfg now bid ask w c = Inr (w', c', pushed)"
  shows "basis_within (cfg_MaxDeviation cfg) w' \<and> readIndex c' = Some (index, ts) \<and>
    (\<exists>mark. GetFresh cfg now c' = Some mark \<and>
       index * (1 - cfg_MaxDeviation cfg) \<le> mark \<and> mark \<le> index * (1 + cfg_MaxDeviation cfg) \<and>
       pushed = (if Get c = Some mark then None else Some mark))"
proof -
  let ?m = "cfg_MaxDeviation cfg"
  obtain sample where s: "basisSample L index bid ask ?m = Inr sample"
    using r index by (auto simp: recompute_def Let_def split: sum.splits)
  define w1 where "w1 = (case sample of None \<Rightarrow> w | Some s \<Rightarrow> basis_add w now s)"
  obtain avg w2 where a: "basis_average L w1 now (cfg_BasisWindow cfg) = (avg, w2)" by fastforce
  define mark where "mark = computeMark index avg (readLast c) ?m"
  have eq: "w' = w2" "c' = (if Get c = Some mark then c else c\<lparr>mc_mark := Some mark\<rparr>)"
    "pushed = (if Get c = Some mark then None else Some mark)"
    using r index s a by (auto simp: recompute_def Let_def w1_def [symmetric] mark_def [symmetric] split: if_splits)
  have "basis_within ?m w1"
    using w basisSample_within [of L index bid ask ?m] s m
    by (cases sample) (auto simp: w1_def basis_within_def basis_add_def)
  from basis_average_within(2) [OF lib(1,2) _ this, of now "cfg_BasisWindow cfg"] m a
  have "basis_within ?m w2" by simp
  moreover have "0 < index" using index(1) by (auto simp: readIndex_def split: option.splits prod.splits if_splits)
  from computeMark_band [OF this m, of avg "readLast c"]
  have "index * (1 - ?m) \<le> mark" "mark \<le> index * (1 + ?m)" by (simp_all add: mark_def)
  moreover have idx: "readIndex c' = Some (index, ts)" using index(1) by (simp add: eq(2) readIndex_def)
  moreover have "GetFresh cfg now c' = Some mark"
  proof -
    have "Get c' = Some mark" by (simp add: eq(2) Get_def)
    thus ?thesis using idx index(2) by (simp add: GetFresh_def Lookup_def)
  qed
  ultimately show ?thesis using eq by auto
qed

lemma basis_within_Nil [simp]: "basis_within m []"
  by (simp add: basis_within_def)

definition demoCache :: markCache where
  "demoCache = \<lparr> mc_mark = None, mc_index = Some (100, 0), mc_last = None, mc_jump = None \<rparr>"

lemma recompute_mark_band_witness:
  "UpdateFromTrade std_lib DefaultMarkPriceConfig 1000 999999 [] demoCache =
      Inr ([], demoCache\<lparr>mc_last := Some 999999, mc_mark := Some 100\<rparr>, Some 100) \<and>
    (\<exists>mark. GetFresh DefaultMarkPriceConfig 1000 (demoCache\<lparr>mc_last := Some 999999, mc_mark := Some 100\<rparr>) = Some mark \<and>
       99 \<le> mark \<and> mark \<le> 101)"
proof -
  let ?c = demoCache
  have m: "cfg_MaxDeviation DefaultMarkPriceConfig = 1/100" by (simp add: DefaultMarkPriceConfig_def)
  have idx: "readIndex (?c\<lparr>mc_last := Some 999999\<rparr>) = Some (100, 0)" "\<not> indexStale DefaultMarkPriceConfig 1000 0"
    by (simp_all add: demoCache_def readIndex_def indexStale_def DefaultMarkPriceConfig_def)
  have f: "fits 16 (1/100)" by (simp add: fits_def)
  have r: "recompute std_lib DefaultMarkPriceConfig 1000 0 0 [] (?c\<lparr>mc_last := Some 999999\<rparr>) =
      Inr ([], ?c\<lparr>mc_last := Some 999999, mc_mark := Some 100\<rparr>, Some 100)"
    unfolding demoCache_def by code_simp
  have "\<exists>mark. GetFresh DefaultMarkPriceConfig 1000 (?c\<lparr>mc_last := Some 999999, mc_mark := Some 100\<rparr>) = Some mark \<and>
       99 \<le> mark \<and> mark \<le> 101"
    using recompute_mark_band [OF std_decimal_lib _ _ _ idx r] f m by auto
  with r show ?thesis by (simp only: UpdateFromTrade_def)
qed

text \<open>A mark handed out for risk decisions is never based on a dead feed: GetFresh yields a price
  only if a mark is stored and the index price is at most MaxIndexAge old, or, when no index is
  required, was never fed; and while the index is stale no recomputation changes the mark.\<close>
theorem GetFresh_only_fresh:
  "(GetFresh cfg now c = Some mark \<longleftrightarrow>
     mc_mark c = Some mark \<and>
     (case readIndex c of None \<Rightarrow> \<not> cfg_RequireIndex cfg | Some (_, ts) \<Rightarrow> now - ts \<le> cfg_MaxIndexAge cfg)) \<and>
   (case readIndex c of Some (_, ts) \<Rightarrow> (now - ts \<le> cfg_MaxIndexAge cfg \<or> recompute L cfg now bid ask w c = Inr (w, c, None))
      | None \<Rightarrow> True)"
  by (auto simp: GetFresh_def Lookup_def Get_def indexStale_def recompute_def Let_def
      split: option.splits prod.splits if_splits)

section \<open>The jump protection over a history of pushes\<close>

fun pushAll :: "dec_lib \<Rightarrow> MarkPriceConfig \<Rightarrow> markCache \<Rightarrow> (int \<times> dec) list \<Rightarrow> markCache res" where
  "pushAll L cfg c [] = Inr c"
| "pushAll L cfg c ((now, price) # pushes) =
     (case PushIndexPrice L cfg now price c of
        Inl e \<Rightarrow> Inl e
      | Inr (_, c') \<Rightarrow> pushAll L cfg c' pushes)"

lemma pushAll_snoc:
  "pushAll L cfg c (xs @ [(now, price)]) =
     (case pushAll L cfg c xs of Inl e \<Rightarrow> Inl e
      | Inr c' \<Rightarrow> map_sum id snd (PushIndexPrice L cfg now price c'))"
  by (induction xs arbitrary: c) (auto split: sum.splits)

text \<open>A price counts towards the confirmation of a target when the protection cannot tell it apart.\<close>

definition sameTarget :: "dec_lib \<Rightarrow> dec \<Rightarrow> dec \<Rightarrow> bool" where
  "sameTarget L target price \<longleftrightarrow>
     price = target \<or> (0 < target \<and> lib_Div L \<bar>price - target\<bar> target \<le> indexJumpTolerance)"

text \<open>The pending jump summarises the last pushes: an unbroken run of pushes of its target that began
  at its first time.\<close>

definition pendingRun :: "dec_lib \<Rightarrow> (int \<times> dec) list \<Rightarrow> IndexJump \<Rightarrow> bool" where
  "pendingRun L run j \<longleftrightarrow>
     run \<noteq> [] \<and> hd run = (ij_FirstTs j, ij_Target j) \<and> fst (last run) = ij_LastTs j \<and>
     (\<forall>(t, p)\<in>set run. sameTarget L (ij_Target j) p)"

lemma PushIndexPrice_cases:
  assumes "PushIndexPrice L cfg now price c = Inr (accepted, c')" "0 < cfg_IndexMaxJump cfg"
  obtains (direct) "accepted" "c' = c\<lparr>mc_index := Some (price, now), mc_jump := None\<rparr>"
      "(case readIndex c of None \<Rightarrow> True
        | Some (cur, ts) \<Rightarrow> cfg_MaxIndexAge cfg < now - ts \<or> lib_Div L \<bar>price - cur\<bar> cur \<le> cfg_IndexMaxJump cfg)"
  | (confirmed) j where "accepted" "c' = c\<lparr>mc_index := Some (price, now), mc_jump := None\<rparr>"
      "mc_jump c = Some j" "sameTarget L (ij_Target j) price" "cfg_IndexJumpConfirm cfg \<le> now - ij_FirstTs j"
  | (unconfirmed) "accepted" "c' = c\<lparr>mc_index := Some (price, now), mc_jump := None\<rparr>" "cfg_IndexJumpConfirm cfg \<le> 0"
  | (continued) j where "\<not> accepted" "c' = c\<lparr>mc_jump := Some (j\<lparr>ij_LastTs := now\<rparr>)\<rparr>"
      "mc_jump c = Some j" "sameTarget L (ij_Target j) price"
  | (started) "\<not> accepted" "c' = c\<lparr>mc_jump := Some \<lparr> ij_Target = price, ij_FirstTs = now, ij_LastTs = now \<rparr>\<rparr>"
proof -
  obtain acc nxt cont where d: "decideIndexPush L cfg now price (readIndex c) (mc_jump c) = Inr (acc, nxt, cont)"
    using assms by (auto simp: PushIndexPrice_def split: sum.splits)
  have c': "accepted = acc"
    "c' = (if acc then c\<lparr>mc_index := Some (price, now), mc_jump := None\<rparr> else c\<lparr>mc_jump := nxt\<rparr>)"
    using assms d by (auto simp: PushIndexPrice_def SetIndexPrice_def Let_def split: if_splits)
  let ?near = "case readIndex c of None \<Rightarrow> True
    | Some (cur, ts) \<Rightarrow> cfg_MaxIndexAge cfg < now - ts \<or> lib_Div L \<bar>price - cur\<bar> cur \<le> cfg_IndexMaxJump cfg"
  let ?cont = "continuesPending L (cfg_MaxIndexAge cfg) now price (mc_jump c)"
  have pos: "0 < cur" if "readIndex c = Some (cur, ts)" for cur ts
    using that by (auto simp: readIndex_def split: option.splits prod.splits if_splits)
  show ?thesis
  proof (cases ?near)
    case True
    have acc using d assms(2) True pos
      by (auto simp: decideIndexPush_def Let_def withinRatio_def split: option.splits prod.splits if_splits sum.splits)
    with c' True show ?thesis by (intro direct) auto
  next
    case False
    then obtain cur ts where cur: "readIndex c = Some (cur, ts)" by (auto split: option.splits)
    with False pos have far: "\<not> cfg_MaxIndexAge cfg < now - ts" "withinRatio L price cur (cfg_IndexMaxJump cfg) = Inr False"
      by (auto simp: withinRatio_def)
    show ?thesis
    proof (cases ?cont)
      case True
      then obtain j where j: "mc_jump c = Some j" "sameTarget L (ij_Target j) price"
        by (auto simp: continuesPending_def sameTarget_def split: option.splits)
      have "(acc, nxt) = (if cfg_IndexJumpConfirm cfg \<le> now - ij_FirstTs j then (True, None) else (False, Some (j\<lparr>ij_LastTs := now\<rparr>)))"
        using d assms(2) cur far True j(1) by (auto simp: decideIndexPush_def Let_def split: if_splits)
      with c' j show ?thesis by (cases "cfg_IndexJumpConfirm cfg \<le> now - ij_FirstTs j") (auto intro: confirmed continued)
    next
      case notcont: False
      have "(acc, nxt) = (if cfg_IndexJumpConfirm cfg \<le> 0 then (True, None)
          else (False, Some \<lparr> ij_Target = price, ij_FirstTs = now, ij_LastTs = now \<rparr>))"
        using d assms(2) cur far notcont by (auto simp: decideIndexPush_def Let_def split: if_splits)
      with c' show ?thesis by (cases "cfg_IndexJumpConfirm cfg \<le> 0") (auto intro: unconfirmed started)
    qed
  qed
qed

lemma pendingRun_history:
  assumes "pushAll L cfg c xs = Inr c'" "mc_jump c = None" "0 < cfg_IndexMaxJump cfg" "mc_jump c' = Some j"
  shows "\<exists>before run. xs = before @ run \<and> pendingRun L run j"
  using assms(1,4)
proof (induction xs arbitrary: c' j rule: rev_induct)
  case Nil
  with assms(2) show ?case by simp
next
  case (snoc x xs)
  obtain now price where x: "x = (now, price)" by fastforce
  from snoc.prems(1) obtain c1 accepted where c1: "pushAll L cfg c xs = Inr c1"
    and p: "PushIndexPrice L cfg now price c1 = Inr (accepted, c')"
    by (auto simp: x pushAll_snoc map_sum_def split: sum.splits)
  from p assms(3) show ?case
  proof (cases rule: PushIndexPrice_cases)
    case (continued j1)
    with snoc.prems(2) have j: "j = j1\<lparr>ij_LastTs := now\<rparr>" by simp
    from snoc.IH [OF c1 continued(3)] obtain before run where "xs = before @ run" "pendingRun L run j1" by blast
    with continued(4) j x show ?thesis
      by (intro exI [of _ before] exI [of _ "run @ [x]"]) (auto simp: pendingRun_def)
  next
    case started
    with snoc.prems(2) have "j = \<lparr> ij_Target = price, ij_FirstTs = now, ij_LastTs = now \<rparr>" by simp
    with x show ?thesis by (intro exI [of _ xs] exI [of _ "[x]"]) (auto simp: pendingRun_def sameTarget_def)
  qed (use snoc.prems(2) in auto)
qed

text \<open>C3. A large index move needs a sustained run of pushes: whatever was pushed before, a push that
  moves a fresh index price by more than IndexMaxJump is accepted only if the pushes just before it form
  an unbroken run at the same price level (1\% tolerance) that began at least IndexJumpConfirm earlier.\<close>
theorem index_jump_needs_confirmation:
  assumes hist: "pushAll L cfg c xs = Inr c1" "mc_jump c = None"
    and cfg: "0 < cfg_IndexMaxJump cfg" "0 < cfg_IndexJumpConfirm cfg"
    and cur: "readIndex c1 = Some (cur, ts)" "now - ts \<le> cfg_MaxIndexAge cfg"
    and far: "cfg_IndexMaxJump cfg < lib_Div L \<bar>price - cur\<bar> cur"
    and acc: "PushIndexPrice L cfg now price c1 = Inr (True, c2)"
  shows "\<exists>before run target. xs = before @ run \<and> run \<noteq> [] \<and>
    fst (hd run) \<le> now - cfg_IndexJumpConfirm cfg \<and> sameTarget L target price \<and>
    (\<forall>(t, p)\<in>set run. sameTarget L target p)"
  using acc cfg(1)
proof (cases rule: PushIndexPrice_cases)
  case (confirmed j)
  from pendingRun_history [OF hist(1,2) cfg(1) confirmed(3)] obtain before run where
    "xs = before @ run" "pendingRun L run j" by blast
  with confirmed(4,5) show ?thesis unfolding pendingRun_def
    by (intro exI [of _ before] exI [of _ run] exI [of _ "ij_Target j"]) auto
qed (use cur far cfg in auto)

definition demoPushes :: "(int \<times> dec) list" where
  "demoPushes = [(0, 100), (1000, 120), (2000, 120.5)]"

lemma index_jump_needs_confirmation_witness:
  "\<exists>before run target. demoPushes = before @ run \<and> run \<noteq> [] \<and> fst (hd run) \<le> 1000 \<and> sameTarget std_lib target 120"
proof -
  let ?cfg = "DefaultMarkPriceConfig\<lparr>cfg_IndexMaxJump := 1/20\<rparr>"
  let ?c1 = "demoCache\<lparr>mc_jump := Some \<lparr> ij_Target = 120, ij_FirstTs = 1000, ij_LastTs = 2000 \<rparr>\<rparr>"
  have h: "pushAll std_lib ?cfg (demoCache\<lparr>mc_index := None\<rparr>) demoPushes = Inr ?c1" by code_simp
  have a: "PushIndexPrice std_lib ?cfg 4000 120 ?c1 = Inr (True, demoCache\<lparr>mc_index := Some (120, 4000)\<rparr>)" by code_simp
  have far: "cfg_IndexMaxJump ?cfg < lib_Div std_lib \<bar>120 - 100\<bar> 100" by code_simp
  have cur: "readIndex ?c1 = Some (100, 0)" "4000 - 0 \<le> cfg_MaxIndexAge ?cfg" by code_simp+
  have k: "0 < cfg_IndexMaxJump ?cfg" "0 < cfg_IndexJumpConfirm ?cfg" by code_simp+
  have "mc_jump (demoCache\<lparr>mc_index := None\<rparr>) = None" "cfg_IndexJumpConfirm ?cfg = 3000" by code_simp+
  with index_jump_needs_confirmation [OF h _ k cur far a] show ?thesis by auto
qed

end
