(* ===== verification/Accounts.thy ===== *)
theory Accounts
  imports Model
begin

text \<open>
  The account table and its repository, src/internal/repo/account_repo.go. Every SQL statement of the
  repository is one atomic function on the table (a list of rows); a value written to a
  \<open>DECIMAL(26,16)\<close> column goes through \<open>col L\<close>. Statements that change a row return whether
  they affected one. A failing transaction returns the tables it started from. Failures of the
  connection itself are not modelled, except the deadlock victims ApplyFundOp retries.
\<close>

definition col :: "dec_lib \<Rightarrow> dec \<Rightarrow> dec" where
  "col L x = lib_Col L 16 x"

text \<open>Prices go to \<open>DECIMAL(18,8)\<close> columns.\<close>

definition price_col :: "dec_lib \<Rightarrow> dec \<Rightarrow> dec" where
  "price_col L x = lib_Col L 8 x"

lemma col_fit: "decimal_lib L \<Longrightarrow> fits 16 x \<Longrightarrow> col L x = x"
  by (simp add: col_def decimal_lib.col_id)

section \<open>Finding and creating accounts\<close>

definition FindByUID :: "Account list \<Rightarrow> uid \<Rightarrow> Account option" where
  "FindByUID rows u = sql_first (\<lambda>a. acc_UID a = u) rows"

definition FindByID :: "Account list \<Rightarrow> nat \<Rightarrow> Account option" where
  "FindByID rows i = sql_first (\<lambda>a. acc_ID a = i) rows"

text \<open>\<open>INSERT IGNORE\<close> with the column defaults of sql/schema.sql and the next AUTO_INCREMENT id.\<close>

definition newAccount :: "Account list \<Rightarrow> uid \<Rightarrow> Account" where
  "newAccount rows u =
     \<lparr> acc_ID = Suc (fold max (map acc_ID rows) 0), acc_UID = u, acc_IsInsured = False, acc_Round = 1,
       acc_Credit = 0, acc_Balance = 0, acc_FrozenMargin = 0, acc_FrozenCredit = 0, acc_Version = 0,
       acc_Status = AccountStatusActive, acc_StatusReason = [], acc_StatusTime = 0 \<rparr>"

definition insertIgnore :: "Account list \<Rightarrow> uid \<Rightarrow> bool \<times> Account list" where
  "insertIgnore rows u =
     (case FindByUID rows u of Some _ \<Rightarrow> (False, rows) | None \<Rightarrow> (True, rows @ [newAccount rows u]))"

definition GetOrCreate :: "Account list \<Rightarrow> uid \<Rightarrow> Account option \<times> Account list" where
  "GetOrCreate rows u =
     (case FindByUID rows u of
        Some a \<Rightarrow> (Some a, rows)
      | None \<Rightarrow> let rows' = snd (insertIgnore rows u) in (FindByUID rows' u, rows'))"

definition CreateIfAbsent :: "Account list \<Rightarrow> uid \<Rightarrow> (Account option \<times> bool) \<times> Account list" where
  "CreateIfAbsent rows u =
     (let (created, rows') = insertIgnore rows u in ((FindByUID rows' u, created), rows'))"

definition FindFreshFreeMargin :: "Account list \<Rightarrow> nat \<Rightarrow> (dec \<times> dec) res" where
  "FindFreshFreeMargin rows i =
     (case FindByID rows i of
        None \<Rightarrow> Inl ErrNoRows
      | Some a \<Rightarrow> Inr (acc_Balance a - acc_FrozenMargin a, acc_Credit a - acc_FrozenCredit a))"

definition FindFreshMarginSnapshot :: "Account list \<Rightarrow> nat \<Rightarrow> (dec \<times> dec \<times> dec \<times> dec) res" where
  "FindFreshMarginSnapshot rows i =
     (case FindByID rows i of
        None \<Rightarrow> Inl ErrNoRows
      | Some a \<Rightarrow> Inr (acc_Balance a, acc_Credit a, acc_FrozenMargin a, acc_FrozenCredit a))"

section \<open>Locking and releasing margin\<close>

definition FreezeFromBalance :: "dec_lib \<Rightarrow> nat \<Rightarrow> dec \<Rightarrow> Account list \<Rightarrow> bool \<times> Account list" where
  "FreezeFromBalance L i amount =
     sql_exec (\<lambda>a. acc_ID a = i \<and> amount \<le> acc_Balance a - acc_FrozenMargin a)
              (\<lambda>a. a\<lparr> acc_FrozenMargin := col L (acc_FrozenMargin a + amount) \<rparr>)"

text \<open>The two SET clauses run from left to right and share the session variables \<open>avail\<close> and
  \<open>credit\<close>, which the following SELECT returns.\<close>

definition spillGuard :: "nat \<Rightarrow> dec \<Rightarrow> Account \<Rightarrow> bool" where
  "spillGuard i amount a \<longleftrightarrow>
     acc_ID a = i \<and> acc_Balance a - acc_FrozenMargin a < amount \<and>
     amount \<le> max (acc_Balance a - acc_FrozenMargin a) 0 + (acc_Credit a - acc_FrozenCredit a)"

definition FreezeSpillToCredit :: "dec_lib \<Rightarrow> nat \<Rightarrow> dec \<Rightarrow> Account list \<Rightarrow> (dec \<times> dec) option \<times> Account list" where
  "FreezeSpillToCredit L i amount rows =
     (case sql_first (spillGuard i amount) rows of
        None \<Rightarrow> (None, rows)
      | Some a0 \<Rightarrow>
          let avail = (\<lambda>a. max (acc_Balance a - acc_FrozenMargin a) 0);
              rows' = sql_update (spillGuard i amount)
                (\<lambda>a. let v = avail a; a1 = a\<lparr> acc_FrozenMargin := col L (acc_FrozenMargin a + v) \<rparr> in
                     a1\<lparr> acc_FrozenCredit := col L (acc_FrozenCredit a1 + (amount - v)) \<rparr>) rows
          in (Some (avail a0, amount - avail a0), rows'))"

definition FreezeForceIntoNegative ::
  "dec_lib \<Rightarrow> nat \<Rightarrow> dec \<Rightarrow> dec \<Rightarrow> dec \<Rightarrow> dec \<Rightarrow> dec \<Rightarrow> Account list \<Rightarrow> bool \<times> Account list" where
  "FreezeForceIntoNegative L i amount eBalance eCredit eFrozenMargin eFrozenCredit =
     sql_exec (\<lambda>a. acc_ID a = i \<and> (acc_Balance a = eBalance \<and> acc_Credit a = eCredit \<and>
                   acc_FrozenMargin a = eFrozenMargin \<and> acc_FrozenCredit a = eFrozenCredit))
              (\<lambda>a. a\<lparr> acc_FrozenMargin := col L (acc_FrozenMargin a + amount) \<rparr>)"

definition AdjustFrozenMargin :: "dec_lib \<Rightarrow> nat \<Rightarrow> dec \<Rightarrow> dec \<Rightarrow> Account list \<Rightarrow> bool \<times> Account list" where
  "AdjustFrozenMargin L i availableAmount creditAmount =
     sql_exec (\<lambda>a. acc_ID a = i \<and> (availableAmount \<le> acc_FrozenMargin a \<and> creditAmount \<le> acc_FrozenCredit a))
              (\<lambda>a. a\<lparr> acc_FrozenMargin := col L (acc_FrozenMargin a - availableAmount),
                      acc_FrozenCredit := col L (acc_FrozenCredit a - creditAmount) \<rparr>)"

definition FreezeUnconditional :: "dec_lib \<Rightarrow> nat \<Rightarrow> dec \<Rightarrow> Account list \<Rightarrow> Account list" where
  "FreezeUnconditional L i amount =
     sql_update (\<lambda>a. acc_ID a = i) (\<lambda>a. a\<lparr> acc_FrozenMargin := col L (acc_FrozenMargin a + amount) \<rparr>)"

section \<open>Changing balance and credit\<close>

definition SettleToBalance :: "dec_lib \<Rightarrow> nat \<Rightarrow> dec \<Rightarrow> Account list \<Rightarrow> Account list" where
  "SettleToBalance L i amount =
     sql_update (\<lambda>a. acc_ID a = i) (\<lambda>a. a\<lparr> acc_Balance := col L (acc_Balance a + amount) \<rparr>)"

definition SettleToCredit :: "dec_lib \<Rightarrow> nat \<Rightarrow> dec \<Rightarrow> Account list \<Rightarrow> Account list" where
  "SettleToCredit L i amount =
     sql_update (\<lambda>a. acc_ID a = i) (\<lambda>a. a\<lparr> acc_Credit := col L (acc_Credit a + amount) \<rparr>)"

text \<open>The joined snapshot makes both SET clauses read the row as it was.\<close>

definition absorbedByCredit :: "Account \<Rightarrow> dec \<Rightarrow> dec" where
  "absorbedByCredit snap loss = min (acc_Credit snap) (max (loss - max (acc_Balance snap) 0) 0)"

definition deductWithCreditFallback :: "dec_lib \<Rightarrow> nat \<Rightarrow> dec \<Rightarrow> Account list \<Rightarrow> Account list" where
  "deductWithCreditFallback L i loss =
     sql_update (\<lambda>a. acc_ID a = i)
       (\<lambda>a. a\<lparr> acc_Balance := col L (acc_Balance a - loss + absorbedByCredit a loss),
               acc_Credit := col L (acc_Credit a - absorbedByCredit a loss) \<rparr>)"

definition SettlePnl :: "dec_lib \<Rightarrow> nat \<Rightarrow> dec \<Rightarrow> Account list \<Rightarrow> Account list" where
  "SettlePnl L i amount rows =
     (if 0 \<le> amount then SettleToBalance L i amount rows
      else deductWithCreditFallback L i (- amount) rows)"

definition DeductFee :: "dec_lib \<Rightarrow> nat \<Rightarrow> dec \<Rightarrow> Account list \<Rightarrow> Account list" where
  "DeductFee L i fee rows = (if fee \<le> 0 then rows else deductWithCreditFallback L i fee rows)"

definition SetInsured :: "nat \<Rightarrow> bool \<Rightarrow> Account list \<Rightarrow> Account list" where
  "SetInsured i insured = sql_update (\<lambda>a. acc_ID a = i) (\<lambda>a. a\<lparr> acc_IsInsured := insured \<rparr>)"

text \<open>Returns the cleared credit and balance, or \<open>None\<close> when the round has already moved on.\<close>

definition CloseRoundIfRound :: "dec_lib \<Rightarrow> nat \<Rightarrow> nat \<Rightarrow> Account list \<Rightarrow> (dec \<times> dec) option \<times> Account list" where
  "CloseRoundIfRound L i round' rows =
     (let p = (\<lambda>a. acc_ID a = i \<and> acc_Round a = round') in
      case sql_first p rows of
        None \<Rightarrow> (None, rows)
      | Some a0 \<Rightarrow>
          (Some (acc_Credit a0, acc_Balance a0),
           sql_update p (\<lambda>a. a\<lparr> acc_Credit := col L (acc_Credit a - acc_Credit a),
                                acc_Balance := col L (acc_Balance a - acc_Balance a),
                                acc_IsInsured := False, acc_Round := acc_Round a + 1 \<rparr>) rows))"

section \<open>Partner fund operations\<close>

datatype FundOpKind = FundOpDeposit | FundOpWithdraw | FundOpGrantCredit

record FundOp =
  fop_AccountID :: nat
  fop_UID :: uid
  fop_Kind :: FundOpKind
  fop_Amount :: dec
  fop_TxType :: TxType
  fop_RequestID :: string
  fop_RequestHash :: string
  fop_Now :: int

type_synonym FundState = "Account list \<times> Transaction list"

text \<open>The unique key (uid, request_id) of member_transactions.\<close>

definition requestRow :: "Transaction list \<Rightarrow> uid \<Rightarrow> string \<Rightarrow> Transaction option" where
  "requestRow txs u rid = sql_first (\<lambda>t. tx_UID t = u \<and> tx_RequestID t = Some rid) txs"

definition fundUpdate :: "dec_lib \<Rightarrow> FundOp \<Rightarrow> Account list \<Rightarrow> bool \<times> Account list" where
  "fundUpdate L op =
     (case fop_Kind op of
        FundOpDeposit \<Rightarrow>
          sql_exec (\<lambda>a. acc_ID a = fop_AccountID op \<and> True)
            (\<lambda>a. a\<lparr> acc_Balance := col L (acc_Balance a + fop_Amount op) \<rparr>)
      | FundOpWithdraw \<Rightarrow>
          sql_exec (\<lambda>a. acc_ID a = fop_AccountID op \<and> fop_Amount op \<le> acc_Balance a - acc_FrozenMargin a)
            (\<lambda>a. a\<lparr> acc_Balance := col L (acc_Balance a - fop_Amount op) \<rparr>)
      | FundOpGrantCredit \<Rightarrow>
          sql_exec (\<lambda>a. acc_ID a = fop_AccountID op \<and> True)
            (\<lambda>a. a\<lparr> acc_Credit := col L (acc_Credit a + fop_Amount op) \<rparr>))"

text \<open>One transaction: \<open>replayed\<close>, or the error with the tables rolled back.\<close>

definition applyFundOpOnce :: "dec_lib \<Rightarrow> FundOp \<Rightarrow> FundState \<Rightarrow> bool res \<times> FundState" where
  "applyFundOpOnce L op st =
     (let (accounts, txs) = st in
      case FindByID accounts (fop_AccountID op) of
        None \<Rightarrow> (Inl ErrNoRows, st)
      | Some _ \<Rightarrow>
          (case requestRow txs (fop_UID op) (fop_RequestID op) of
             Some stored \<Rightarrow>
               (case tx_RequestHash stored of
                  Some h \<Rightarrow> if h \<noteq> fop_RequestHash op then (Inl ErrIdempotencyConflict, st) else (Inr True, st)
                | None \<Rightarrow> (Inr True, st))
           | None \<Rightarrow>
               let ledgerAmount = (if fop_Kind op = FundOpWithdraw then - fop_Amount op else fop_Amount op);
                   txs' = txs @ [\<lparr> tx_UID = fop_UID op, tx_Symbol = ''USDT'', tx_Amount = col L ledgerAmount,
                                   tx_Type = fop_TxType op, tx_CreateTime = fop_Now op,
                                   tx_RequestID = Some (fop_RequestID op),
                                   tx_RequestHash = Some (fop_RequestHash op) \<rparr>];
                   (ok, accounts') = fundUpdate L op accounts
               in if \<not> ok then (Inl ErrInsufficientBalance, st) else (Inr False, (accounts', txs'))))"

text \<open>\<open>victim n\<close>: the database picks attempt n as a deadlock victim and rolls it back.\<close>

function ApplyFundOp_loop ::
  "dec_lib \<Rightarrow> (nat \<Rightarrow> bool) \<Rightarrow> FundOp \<Rightarrow> nat \<Rightarrow> FundState \<Rightarrow> bool res \<times> FundState" where
  "ApplyFundOp_loop L victim op attempt st =
     (if victim attempt
      then (if attempt < 3 then ApplyFundOp_loop L victim op (attempt + 1) st else (Inl ErrDeadlock, st))
      else applyFundOpOnce L op st)"
  by pat_completeness auto
termination by (relation "measure (\<lambda>(L, victim, op, attempt, st). 3 - attempt)") auto

declare ApplyFundOp_loop.simps [simp del]

definition ApplyFundOp :: "dec_lib \<Rightarrow> (nat \<Rightarrow> bool) \<Rightarrow> FundOp \<Rightarrow> FundState \<Rightarrow> bool res \<times> FundState" where
  "ApplyFundOp L victim op st = ApplyFundOp_loop L victim op 1 st"

section \<open>Status\<close>

record StatusHistory =
  sh_UID :: uid
  sh_From :: AccountStatus
  sh_To :: AccountStatus
  sh_Reason :: string
  sh_Operator :: string
  sh_CreateTime :: int

definition FindStatus :: "Account list \<Rightarrow> uid \<Rightarrow> AccountStatus option" where
  "FindStatus rows u = map_option acc_Status (FindByUID rows u)"

definition SetStatus ::
  "uid \<Rightarrow> AccountStatus \<Rightarrow> string \<Rightarrow> string \<Rightarrow> int \<Rightarrow> Account list \<times> StatusHistory list \<Rightarrow>
   (AccountStatus \<times> bool) res \<times> (Account list \<times> StatusHistory list)" where
  "SetStatus u to reason operator now st =
     (let (rows, hist) = st in
      case FindStatus rows u of
        None \<Rightarrow> (Inl ErrAccountNotFound, st)
      | Some from \<Rightarrow>
          if from = to then (Inr (from, False), st)
          else (Inr (from, True),
                (sql_update (\<lambda>a. acc_UID a = u)
                   (\<lambda>a. a\<lparr> acc_Status := to, acc_StatusReason := reason, acc_StatusTime := now \<rparr>) rows,
                 hist @ [\<lparr> sh_UID = u, sh_From = from, sh_To = to, sh_Reason = reason,
                           sh_Operator = operator, sh_CreateTime = now \<rparr>])))"

section \<open>Rows after a statement\<close>

definition freeBalance :: "Account \<Rightarrow> dec" where
  "freeBalance a = acc_Balance a - acc_FrozenMargin a"

definition freeCredit :: "Account \<Rightarrow> dec" where
  "freeCredit a = acc_Credit a - acc_FrozenCredit a"

text \<open>The keys of the table, and money columns with at most 16 digits.\<close>

definition fits_row :: "Account \<Rightarrow> bool" where
  "fits_row a \<longleftrightarrow> fits 16 (acc_Balance a) \<and> fits 16 (acc_Credit a) \<and> fits 16 (acc_FrozenMargin a) \<and> fits 16 (acc_FrozenCredit a)"

definition wf_accounts :: "Account list \<Rightarrow> bool" where
  "wf_accounts rows \<longleftrightarrow>
     distinct (map acc_ID rows) \<and> distinct (map acc_UID rows) \<and> (\<forall>a\<in>set rows. fits_row a)"

lemma wf_accountsD:
  "wf_accounts rows \<Longrightarrow> FindByID rows i = Some a \<Longrightarrow>
   fits 16 (acc_Balance a) \<and> fits 16 (acc_Credit a) \<and> fits 16 (acc_FrozenMargin a) \<and> fits 16 (acc_FrozenCredit a) \<and>
   acc_ID a = i \<and> a \<in> set rows"
  by (auto simp: wf_accounts_def fits_row_def FindByID_def dest: sql_first_Some)

lemma FindByID_in: "wf_accounts rows \<Longrightarrow> a \<in> set rows \<Longrightarrow> FindByID rows (acc_ID a) = Some a"
  unfolding FindByID_def wf_accounts_def by (rule sql_first_key) auto

lemma FindByUID_in: "wf_accounts rows \<Longrightarrow> a \<in> set rows \<Longrightarrow> FindByUID rows (acc_UID a) = Some a"
  unfolding FindByUID_def wf_accounts_def by (rule sql_first_key) auto

lemma FindByUID_Some: "FindByUID rows u = Some a \<Longrightarrow> a \<in> set rows \<and> acc_UID a = u"
  by (auto simp: FindByUID_def dest: sql_first_Some)

lemma FindByID_Some: "FindByID rows i = Some a \<Longrightarrow> a \<in> set rows \<and> acc_ID a = i"
  by (auto simp: FindByID_def dest: sql_first_Some)

lemma FindByUID_ID: "wf_accounts rows \<Longrightarrow> FindByUID rows u = Some a \<Longrightarrow> FindByID rows (acc_ID a) = Some a"
  using FindByUID_Some FindByID_in by blast

lemma FindByID_update:
  "(\<And>a. acc_ID (f a) = acc_ID a) \<Longrightarrow> FindByID (sql_update p f rows) j = map_option (\<lambda>a. if p a then f a else a) (FindByID rows j)"
  unfolding FindByID_def by (rule sql_first_update) simp

lemma FindByUID_update:
  "(\<And>a. acc_UID (f a) = acc_UID a) \<Longrightarrow> FindByUID (sql_update p f rows) u = map_option (\<lambda>a. if p a then f a else a) (FindByUID rows u)"
  unfolding FindByUID_def by (rule sql_first_update) simp

lemma sql_exec_account_ok:
  assumes "wf_accounts rows"
  shows "(\<exists>a\<in>set rows. acc_ID a = i \<and> g a) \<longleftrightarrow> (case FindByID rows i of None \<Rightarrow> False | Some a \<Rightarrow> g a)"
  using sql_exec_key_ok [of acc_ID rows i g id] assms by (simp add: FindByID_def wf_accounts_def)

lemma wf_accounts_update:
  assumes "wf_accounts rows" "\<And>a. acc_ID (f a) = acc_ID a" "\<And>a. acc_UID (f a) = acc_UID a"
    and "\<And>a. fits_row a \<Longrightarrow> p a \<Longrightarrow> fits_row (f a)"
  shows "wf_accounts (sql_update p f rows)"
  using assms by (auto simp: wf_accounts_def map_sql_update sql_update_def comp_def if_distrib cong: if_cong)

named_theorems account_defs \<open>the statements of the repository\<close>

lemmas [account_defs] = FreezeFromBalance_def FreezeForceIntoNegative_def AdjustFrozenMargin_def
  FreezeUnconditional_def SettleToBalance_def SettleToCredit_def deductWithCreditFallback_def

text \<open>Every statement keeps the table well-formed.\<close>

lemma wf_statements:
  assumes "decimal_lib L" "wf_accounts rows"
  shows "wf_accounts (snd (FreezeFromBalance L i amount rows))"
    and "wf_accounts (snd (FreezeForceIntoNegative L i amount b c fm fc rows))"
    and "wf_accounts (snd (AdjustFrozenMargin L i amount c rows))"
    and "wf_accounts (FreezeUnconditional L i amount rows)"
    and "wf_accounts (SettleToBalance L i amount rows)"
    and "wf_accounts (SettleToCredit L i amount rows)"
    and "wf_accounts (deductWithCreditFallback L i amount rows)"
    and "wf_accounts (snd (FreezeSpillToCredit L i amount rows))"
  using assms(2) decimal_lib.col_fits [OF assms(1)]
  by (auto simp: account_defs col_def fits_row_def FreezeSpillToCredit_def Let_def split: option.splits
      intro!: wf_accounts_update)

end
