(* ===== verification/Positions.thy ===== *)
theory Positions
  imports Accounts
begin

text \<open>
  The position table and its repository (src/internal/repo/position_repo.go), the margin tiers
  (src/internal/repo/risk_limit_repo.go) and the position service (src/internal/service/position.go).
  ApplyOpenFill and ApplyCloseFill are optimistic loops: their one round is \<open>openAttempt\<close> and
  \<open>closeAttempt\<close>, given the table the round read and the table its write met; the loops are
  \<open>cas_loop\<close> of Prelude. \<open>marks\<close> is the mark price lookup of MarkPrice for every symbol.
\<close>

type_synonym Marks = "symbol \<Rightarrow> dec option"

section \<open>Queries\<close>

definition posKey :: "Position \<Rightarrow> uid \<times> symbol \<times> Side" where
  "posKey p = (pos_UID p, pos_Symbol p, pos_Side p)"

definition Find :: "Position list \<Rightarrow> uid \<Rightarrow> symbol \<Rightarrow> Side \<Rightarrow> Position option" where
  "Find rows u s sd = sql_first (\<lambda>p. posKey p = (u, s, sd)) rows"

definition positionsOfUID :: "Position list \<Rightarrow> uid \<Rightarrow> Position list" where
  "positionsOfUID rows u = filter (\<lambda>p. pos_UID p = u \<and> 0 < pos_Volume p) rows"

definition FindAllOpenUIDs :: "Position list \<Rightarrow> uid list" where
  "FindAllOpenUIDs rows = remdups (map pos_UID (filter (\<lambda>p. 0 < pos_Volume p) rows))"

definition FindOpenUIDsBySymbol :: "Position list \<Rightarrow> symbol \<Rightarrow> uid list" where
  "FindOpenUIDsBySymbol rows s = remdups (map pos_UID (filter (\<lambda>p. pos_Symbol p = s \<and> 0 < pos_Volume p) rows))"

definition FindOpenBySymbol :: "Position list \<Rightarrow> symbol \<Rightarrow> Position list" where
  "FindOpenBySymbol rows s = filter (\<lambda>p. pos_Symbol p = s \<and> 0 < pos_Volume p) rows"

section \<open>Opening fills\<close>

definition openRow :: "dec_lib \<Rightarrow> nat \<Rightarrow> uid \<Rightarrow> symbol \<Rightarrow> Side \<Rightarrow> dec \<Rightarrow> dec \<Rightarrow> dec \<Rightarrow> dec \<Rightarrow> nat \<Rightarrow> int \<Rightarrow> Position" where
  "openRow L i u s sd dealVolume dealPrice addedMargin addedCreditMargin leverage updateTime =
     \<lparr> pos_ID = i, pos_UID = u, pos_Symbol = s, pos_Side = sd, pos_Volume = col L dealVolume,
       pos_AvgEntryPrice = price_col L dealPrice, pos_PositionMargin = col L addedMargin,
       pos_CreditMargin = col L addedCreditMargin, pos_Leverage = leverage,
       pos_Status = PositionStatusNormal, pos_Version = 0, pos_UpdateTime = updateTime \<rparr>"

definition openAttempt ::
  "dec_lib \<Rightarrow> uid \<Rightarrow> symbol \<Rightarrow> Side \<Rightarrow> dec \<Rightarrow> dec \<Rightarrow> dec \<Rightarrow> dec \<Rightarrow> nat \<Rightarrow> int \<Rightarrow>
   Position list \<Rightarrow> Position list \<Rightarrow> (unit res \<times> Position list) option" where
  "openAttempt L u s sd dealVolume dealPrice addedMargin addedCreditMargin leverage updateTime seen rows =
     (case Find seen u s sd of
        None \<Rightarrow>
          if Find rows u s sd = None then
            Some (Inr (), rows @ [openRow L (Suc (fold max (map pos_ID rows) 0)) u s sd dealVolume dealPrice
                                    addedMargin addedCreditMargin leverage updateTime])
          else None
      | Some existing \<Rightarrow>
          let newVolume = pos_Volume existing + dealVolume in
          (case sdiv L (pos_AvgEntryPrice existing * pos_Volume existing + dealPrice * dealVolume) newVolume of
             Inl e \<Rightarrow> Some (Inl e, rows)
           | Inr newAvgEntry \<Rightarrow>
               let newMargin = pos_PositionMargin existing + addedMargin;
                   newCreditMargin = pos_CreditMargin existing + addedCreditMargin;
                   (ok, rows') = sql_exec
                     (\<lambda>p. pos_ID p = pos_ID existing \<and> (pos_Volume p = pos_Volume existing \<and>
                          pos_PositionMargin p = pos_PositionMargin existing \<and>
                          pos_CreditMargin p = pos_CreditMargin existing))
                     (\<lambda>p. p\<lparr> pos_Volume := col L newVolume, pos_AvgEntryPrice := price_col L newAvgEntry,
                             pos_PositionMargin := col L newMargin, pos_CreditMargin := col L newCreditMargin,
                             pos_Leverage := leverage, pos_Status := PositionStatusNormal,
                             pos_UpdateTime := updateTime \<rparr>) rows
               in if ok then Some (Inr (), rows') else None))"

definition ApplyOpenFill_loop where
  "ApplyOpenFill_loop L fuel env u s sd dealVolume dealPrice addedMargin addedCreditMargin leverage updateTime =
     cas_loop fuel env (openAttempt L u s sd dealVolume dealPrice addedMargin addedCreditMargin leverage updateTime)"

text \<open>The loop with no other session in between: its first round succeeds.\<close>

definition ApplyOpenFill ::
  "dec_lib \<Rightarrow> uid \<Rightarrow> symbol \<Rightarrow> Side \<Rightarrow> dec \<Rightarrow> dec \<Rightarrow> dec \<Rightarrow> dec \<Rightarrow> nat \<Rightarrow> int \<Rightarrow>
   Position list \<Rightarrow> unit res \<times> Position list" where
  "ApplyOpenFill L u s sd dealVolume dealPrice addedMargin addedCreditMargin leverage updateTime rows =
     the (openAttempt L u s sd dealVolume dealPrice addedMargin addedCreditMargin leverage updateTime rows rows)"

section \<open>Closing fills\<close>

record CloseFill =
  cf_RealizedPnl :: dec
  cf_ReleasedMargin :: dec
  cf_ReleasedCreditMargin :: dec
  cf_CloseVolume :: dec

definition noCloseFill :: CloseFill where
  "noCloseFill = \<lparr> cf_RealizedPnl = 0, cf_ReleasedMargin = 0, cf_ReleasedCreditMargin = 0, cf_CloseVolume = 0 \<rparr>"

text \<open>What one round computes from the row it read: the result, and the row to write.\<close>

definition closeFillOf :: "dec_lib \<Rightarrow> Side \<Rightarrow> dec \<Rightarrow> dec \<Rightarrow> Position \<Rightarrow> CloseFill" where
  "closeFillOf L sd dealVolume dealPrice p =
     (let closeVolume = min dealVolume (pos_Volume p);
          priceDiff = (if sd = SideLong then dealPrice - pos_AvgEntryPrice p else pos_AvgEntryPrice p - dealPrice)
      in \<lparr> cf_RealizedPnl = priceDiff * closeVolume,
           cf_ReleasedMargin = (if 0 < pos_Volume p then lib_Div L (pos_PositionMargin p * closeVolume) (pos_Volume p) else 0),
           cf_ReleasedCreditMargin = (if 0 < pos_Volume p then lib_Div L (pos_CreditMargin p * closeVolume) (pos_Volume p) else 0),
           cf_CloseVolume = closeVolume \<rparr>)"

definition closedRow :: "dec_lib \<Rightarrow> CloseFill \<Rightarrow> int \<Rightarrow> Position \<Rightarrow> Position \<Rightarrow> Position" where
  "closedRow L r updateTime p q =
     (let newVolume = pos_Volume p - cf_CloseVolume r;
          newMargin = pos_PositionMargin p - cf_ReleasedMargin r;
          newCreditMargin = pos_CreditMargin p - cf_ReleasedCreditMargin r in
      if newVolume \<le> 0 then
        q\<lparr> pos_Volume := 0, pos_PositionMargin := 0, pos_CreditMargin := 0,
           pos_Status := PositionStatusClosed, pos_UpdateTime := updateTime \<rparr>
      else
        q\<lparr> pos_Volume := col L newVolume, pos_PositionMargin := col L newMargin,
           pos_CreditMargin := col L newCreditMargin, pos_Status := pos_Status p,
           pos_UpdateTime := updateTime \<rparr>)"

definition closeAttempt ::
  "dec_lib \<Rightarrow> uid \<Rightarrow> symbol \<Rightarrow> Side \<Rightarrow> dec \<Rightarrow> dec \<Rightarrow> int \<Rightarrow>
   Position list \<Rightarrow> Position list \<Rightarrow> (CloseFill \<times> Position list) option" where
  "closeAttempt L u s sd dealVolume dealPrice updateTime seen rows =
     (case Find seen u s sd of
        None \<Rightarrow> Some (noCloseFill, rows)
      | Some p \<Rightarrow>
          if pos_Volume p \<le> 0 then Some (noCloseFill, rows)
          else
            let r = closeFillOf L sd dealVolume dealPrice p;
                (ok, rows') = sql_exec
                  (\<lambda>q. pos_ID q = pos_ID p \<and> (pos_Volume q = pos_Volume p \<and>
                       pos_PositionMargin q = pos_PositionMargin p \<and> pos_CreditMargin q = pos_CreditMargin p \<and>
                       pos_Status q = pos_Status p))
                  (closedRow L r updateTime p) rows
            in if ok then Some (r, rows') else None)"

definition ApplyCloseFill_loop where
  "ApplyCloseFill_loop L fuel env u s sd dealVolume dealPrice updateTime =
     cas_loop fuel env (closeAttempt L u s sd dealVolume dealPrice updateTime)"

definition ApplyCloseFill ::
  "dec_lib \<Rightarrow> uid \<Rightarrow> symbol \<Rightarrow> Side \<Rightarrow> dec \<Rightarrow> dec \<Rightarrow> int \<Rightarrow> Position list \<Rightarrow> CloseFill \<times> Position list" where
  "ApplyCloseFill L u s sd dealVolume dealPrice updateTime rows =
     the (closeAttempt L u s sd dealVolume dealPrice updateTime rows rows)"

section \<open>Leverage and status\<close>

definition UpdateLeverage ::
  "dec_lib \<Rightarrow> nat \<Rightarrow> dec \<Rightarrow> dec \<Rightarrow> nat \<Rightarrow> dec \<Rightarrow> int \<Rightarrow> Position list \<Rightarrow> bool \<times> Position list" where
  "UpdateLeverage L i newMargin newCreditMargin newLeverage expectedVolume updateTime =
     sql_exec (\<lambda>p. pos_ID p = i \<and> pos_Volume p = expectedVolume)
       (\<lambda>p. p\<lparr> pos_PositionMargin := col L newMargin, pos_CreditMargin := col L newCreditMargin,
               pos_Leverage := newLeverage, pos_UpdateTime := updateTime \<rparr>)"

definition MarkLiquidating :: "nat \<Rightarrow> Position list \<Rightarrow> bool \<times> Position list" where
  "MarkLiquidating i =
     sql_exec (\<lambda>p. pos_ID p = i \<and> pos_Status p = PositionStatusNormal)
       (\<lambda>p. p\<lparr> pos_Status := PositionStatusLiquidating \<rparr>)"

definition ClearLiquidating :: "nat \<Rightarrow> Position list \<Rightarrow> Position list" where
  "ClearLiquidating i =
     sql_update (\<lambda>p. pos_ID p = i \<and> pos_Status p = PositionStatusLiquidating)
       (\<lambda>p. p\<lparr> pos_Status := PositionStatusNormal \<rparr>)"

section \<open>Margin tiers\<close>

text \<open>\<open>ORDER BY tier ASC\<close>; (symbol, tier) is a unique key.\<close>

definition tiersBySymbol :: "RiskLimitTier list \<Rightarrow> symbol \<Rightarrow> RiskLimitTier list" where
  "tiersBySymbol rows s = sort_key tier_Tier (filter (\<lambda>t. tier_Symbol t = s) rows)"

definition tierPairOK :: "RiskLimitTier \<Rightarrow> RiskLimitTier \<Rightarrow> bool" where
  "tierPairOK prev cur \<longleftrightarrow>
     \<not> (tier_MaxNotional prev \<le> 0 \<or> (0 < tier_MaxNotional cur \<and> tier_MaxNotional cur \<le> tier_MaxNotional prev))"

fun tiersMonotone :: "RiskLimitTier list \<Rightarrow> bool" where
  "tiersMonotone (prev # cur # tiers) = (tierPairOK prev cur \<and> tiersMonotone (cur # tiers))"
| "tiersMonotone _ = True"

definition TierFor :: "RiskLimitTier list \<Rightarrow> symbol \<Rightarrow> dec \<Rightarrow> RiskLimitTier option" where
  "TierFor rows s notional =
     (let tiers = tiersBySymbol rows s in
      if tiers = [] then None
      else if \<not> tiersMonotone tiers then None
      else find (\<lambda>t. tier_MaxNotional t \<le> 0 \<or> notional \<le> tier_MaxNotional t) tiers)"

section \<open>Position service\<close>

definition LossRatioUninsured :: dec where
  "LossRatioUninsured = 1"

definition LossRatioInsured :: dec where
  "LossRatioInsured = 8 / 10"

definition lossRatioFor :: "bool \<Rightarrow> dec" where
  "lossRatioFor insured = (if insured then LossRatioInsured else LossRatioUninsured)"

record PositionView =
  pv_Position :: Position
  pv_MarkPrice :: dec
  pv_UnrealizedPnl :: dec
  pv_Roe :: dec
  pv_NotionalValue :: dec
  pv_LiquidationPrice :: dec

definition viewOf :: "dec_lib \<Rightarrow> Marks \<Rightarrow> dec \<Rightarrow> dec \<Rightarrow> Position \<Rightarrow> PositionView" where
  "viewOf L marks lossRatio equityBase p =
     (let v = \<lparr> pv_Position = p, pv_MarkPrice = 0, pv_UnrealizedPnl = 0, pv_Roe = 0, pv_NotionalValue = 0,
               pv_LiquidationPrice = 0 \<rparr> in
      case marks (pos_Symbol p) of
        None \<Rightarrow> v
      | Some mark \<Rightarrow>
          v\<lparr> pv_MarkPrice := mark, pv_UnrealizedPnl := UnrealizedPnl p mark,
             pv_NotionalValue := pos_Volume p * mark,
             pv_Roe := (if 0 < pos_PositionMargin p then lib_Div L (UnrealizedPnl p mark) (pos_PositionMargin p) else 0),
             pv_LiquidationPrice := LiquidationPrice L p lossRatio equityBase \<rparr>)"

definition Views :: "dec_lib \<Rightarrow> Marks \<Rightarrow> uid \<Rightarrow> bool \<Rightarrow> dec \<Rightarrow> Position list \<Rightarrow> PositionView list" where
  "Views L marks u insured equityBase rows =
     map (viewOf L marks (lossRatioFor insured) equityBase) (positionsOfUID rows u)"

definition TotalUnrealizedPnlOf :: "Marks \<Rightarrow> Position list \<Rightarrow> dec" where
  "TotalUnrealizedPnlOf marks positions =
     foldl (\<lambda>acc p. if pos_Volume p \<le> 0 then acc
                    else (case marks (pos_Symbol p) of None \<Rightarrow> acc | Some mark \<Rightarrow> acc + UnrealizedPnl p mark))
       0 positions"

definition TotalUnrealizedPnl :: "Marks \<Rightarrow> uid \<Rightarrow> Position list \<Rightarrow> dec" where
  "TotalUnrealizedPnl marks u rows = TotalUnrealizedPnlOf marks (positionsOfUID rows u)"

definition sumPositionMargin :: "Position list \<Rightarrow> dec" where
  "sumPositionMargin positions =
     foldl (\<lambda>acc p. if 0 < pos_Volume p then acc + pos_PositionMargin p else acc) 0 positions"

definition TotalPositionMargin :: "uid \<Rightarrow> Position list \<Rightarrow> dec" where
  "TotalPositionMargin u rows = sumPositionMargin (positionsOfUID rows u)"

end
