(* ===== verification/AccountService.thy ===== *)
theory AccountService
  imports Accounts
begin

text \<open>
  The account service, src/internal/service/account.go, over the account table. Between two
  statements of FreezeMargin other sessions may change the table: \<open>env n\<close> is what they do before its
  n-th statement. The unrealized profit of the user's positions, read once by FreezeMargin, is the
  argument \<open>totalUnrealized\<close> (see Positions). \<open>fingerprint\<close> is the SHA-256 request fingerprint of
  src/internal/service/idempotency.go over the printed arguments.
\<close>

definition UID :: uid where
  "UID = 9000000"

record FreezeResult =
  frz_FromAvailable :: dec
  frz_FromCredit :: dec

definition freezeForced ::
  "dec_lib \<Rightarrow> (nat \<Rightarrow> Account list \<Rightarrow> Account list) \<Rightarrow> dec \<Rightarrow> nat \<Rightarrow> dec \<Rightarrow> Account list \<Rightarrow>
   FreezeResult res \<times> Account list" where
  "freezeForced L env totalUnrealized i amount rows3 =
     (let rows4 = env 3 rows3 in
      case FindFreshMarginSnapshot rows4 i of
        Inl e \<Rightarrow> (Inl e, rows4)
      | Inr (b, c, fm, fc) \<Rightarrow>
          if amount \<le> b - fm + (c - fc) + totalUnrealized then
            let (ok, rows5) = FreezeForceIntoNegative L i amount b c fm fc (env 4 rows4) in
            if ok then (Inr \<lparr> frz_FromAvailable = amount, frz_FromCredit = 0 \<rparr>, rows5)
            else (Inl ErrInsufficientMargin, rows5)
          else (Inl ErrInsufficientMargin, rows4))"

definition freezeLevels ::
  "dec_lib \<Rightarrow> (nat \<Rightarrow> Account list \<Rightarrow> Account list) \<Rightarrow> dec \<Rightarrow> nat \<Rightarrow> dec \<Rightarrow> Account list \<Rightarrow>
   FreezeResult res \<times> Account list" where
  "freezeLevels L env totalUnrealized i amount rows0 =
     (let (ok, rows1) = FreezeFromBalance L i amount (env 0 rows0) in
      if ok then (Inr \<lparr> frz_FromAvailable = amount, frz_FromCredit = 0 \<rparr>, rows1)
      else
        let rows2 = env 1 rows1 in
        case FindFreshFreeMargin rows2 i of
          Inl e \<Rightarrow> (Inl e, rows2)
        | Inr (freshFreeBalance, freshFreeCredit) \<Rightarrow>
            if amount \<le> freshFreeBalance + freshFreeCredit then
              (case FreezeSpillToCredit L i amount (env 2 rows2) of
                 (Some (fromAvailable, fromCredit), rows3) \<Rightarrow>
                   (Inr \<lparr> frz_FromAvailable = fromAvailable, frz_FromCredit = fromCredit \<rparr>, rows3)
               | (None, rows3) \<Rightarrow> freezeForced L env totalUnrealized i amount rows3)
            else freezeForced L env totalUnrealized i amount rows2)"

definition FreezeMargin ::
  "dec_lib \<Rightarrow> (nat \<Rightarrow> Account list \<Rightarrow> Account list) \<Rightarrow> dec \<Rightarrow> uid \<Rightarrow> dec \<Rightarrow> Account list \<Rightarrow>
   FreezeResult res \<times> Account list" where
  "FreezeMargin L env totalUnrealized u amount rows =
     (let (acc, rows0) = GetOrCreate rows u in
      case acc of
        None \<Rightarrow> (Inl PanicNilPointer, rows0)
      | Some account \<Rightarrow>
          if u = UID then
            (Inr \<lparr> frz_FromAvailable = amount, frz_FromCredit = 0 \<rparr>,
             FreezeUnconditional L (acc_ID account) amount (env 0 rows0))
          else
            let freeBalance = acc_Balance account - acc_FrozenMargin account;
                freeCredit = acc_Credit account - acc_FrozenCredit account in
            if totalUnrealized < 0 \<and> freeBalance + freeCredit + totalUnrealized < amount
            then (Inl ErrInsufficientMargin, rows0)
            else freezeLevels L env totalUnrealized (acc_ID account) amount rows0)"

text \<open>The remaining operations first find (or create) the account, then run one statement.\<close>

definition withAccount :: "uid \<Rightarrow> (Account \<Rightarrow> Account list \<Rightarrow> 'a res \<times> Account list) \<Rightarrow> Account list \<Rightarrow> 'a res \<times> Account list" where
  "withAccount u k rows =
     (let (acc, rows0) = GetOrCreate rows u in
      case acc of None \<Rightarrow> (Inl PanicNilPointer, rows0) | Some account \<Rightarrow> k account rows0)"

definition UnfreezeMargin :: "dec_lib \<Rightarrow> uid \<Rightarrow> dec \<Rightarrow> dec \<Rightarrow> Account list \<Rightarrow> unit res \<times> Account list" where
  "UnfreezeMargin L u availableAmount creditAmount =
     withAccount u (\<lambda>account rows.
       let (ok, rows') = AdjustFrozenMargin L (acc_ID account) availableAmount creditAmount rows in
       if \<not> ok then (Inl ErrFrozenMarginShort, rows') else (Inr (), rows'))"

definition svcSettleToBalance :: "dec_lib \<Rightarrow> uid \<Rightarrow> dec \<Rightarrow> Account list \<Rightarrow> unit res \<times> Account list" where
  "svcSettleToBalance L u amount =
     withAccount u (\<lambda>account rows. (Inr (), SettleToBalance L (acc_ID account) amount rows))"

definition svcSettleToCredit :: "dec_lib \<Rightarrow> uid \<Rightarrow> dec \<Rightarrow> Account list \<Rightarrow> unit res \<times> Account list" where
  "svcSettleToCredit L u amount =
     withAccount u (\<lambda>account rows. (Inr (), SettleToCredit L (acc_ID account) amount rows))"

definition svcSettlePnl :: "dec_lib \<Rightarrow> uid \<Rightarrow> dec \<Rightarrow> Account list \<Rightarrow> unit res \<times> Account list" where
  "svcSettlePnl L u amount =
     withAccount u (\<lambda>account rows. (Inr (), SettlePnl L (acc_ID account) amount rows))"

definition svcDeductFee :: "dec_lib \<Rightarrow> uid \<Rightarrow> dec \<Rightarrow> Account list \<Rightarrow> unit res \<times> Account list" where
  "svcDeductFee L u fee rows =
     (if fee \<le> 0 then (Inr (), rows)
      else withAccount u (\<lambda>account rows. (Inr (), DeductFee L (acc_ID account) fee rows)) rows)"

definition svcFindFreshFreeMargin :: "uid \<Rightarrow> Account list \<Rightarrow> (dec \<times> dec) res \<times> Account list" where
  "svcFindFreshFreeMargin u =
     withAccount u (\<lambda>account rows. (FindFreshFreeMargin rows (acc_ID account), rows))"

definition IsFrozen :: "Account list \<Rightarrow> uid \<Rightarrow> bool" where
  "IsFrozen rows u \<longleftrightarrow> FindStatus rows u = Some AccountStatusFrozen"

definition AdjustBalance ::
  "dec_lib \<Rightarrow> (string list \<Rightarrow> string) \<Rightarrow> (dec \<Rightarrow> string) \<Rightarrow> (nat \<Rightarrow> string) \<Rightarrow> (nat \<Rightarrow> bool) \<Rightarrow> int \<Rightarrow>
   uid \<Rightarrow> dec \<Rightarrow> string \<Rightarrow> FundState \<Rightarrow> bool res \<times> FundState" where
  "AdjustBalance L fingerprint show_dec show_nat victim now u amount requestID st =
     (if amount = 0 then (Inl ErrInvalidArgument, st)
      else
        (case FindByUID (fst st) u of
           None \<Rightarrow> (Inl ErrAccountNotFound, st)
         | Some acc \<Rightarrow>
             ApplyFundOp L victim
               \<lparr> fop_AccountID = acc_ID acc, fop_UID = u,
                 fop_Kind = (if amount < 0 then FundOpWithdraw else FundOpDeposit),
                 fop_Amount = \<bar>amount\<bar>, fop_TxType = TxDeposit, fop_RequestID = requestID,
                 fop_RequestHash = fingerprint [''balance'', show_nat u, show_dec amount], fop_Now = now \<rparr> st))"

definition GrantCredit ::
  "dec_lib \<Rightarrow> (string list \<Rightarrow> string) \<Rightarrow> (dec \<Rightarrow> string) \<Rightarrow> (nat \<Rightarrow> string) \<Rightarrow> (nat \<Rightarrow> bool) \<Rightarrow> int \<Rightarrow>
   uid \<Rightarrow> dec \<Rightarrow> string \<Rightarrow> FundState \<Rightarrow> bool res \<times> FundState" where
  "GrantCredit L fingerprint show_dec show_nat victim now u amount requestID st =
     (if amount \<le> 0 then (Inl ErrInvalidArgument, st)
      else
        (case FindByUID (fst st) u of
           None \<Rightarrow> (Inl ErrAccountNotFound, st)
         | Some account \<Rightarrow>
             if \<not> acc_IsInsured account then (Inl ErrAccountNotInsured, st)
             else
               ApplyFundOp L victim
                 \<lparr> fop_AccountID = acc_ID account, fop_UID = u, fop_Kind = FundOpGrantCredit,
                   fop_Amount = amount, fop_TxType = TxCreditGrant, fop_RequestID = requestID,
                   fop_RequestHash = fingerprint [''credit'', show_nat u, show_dec amount], fop_Now = now \<rparr> st))"

definition svcSetInsured :: "uid \<Rightarrow> bool \<Rightarrow> Account list \<Rightarrow> unit res \<times> Account list" where
  "svcSetInsured u insured rows =
     (case FindByUID rows u of
        None \<Rightarrow> (Inl ErrAccountNotFound, rows)
      | Some account \<Rightarrow> (Inr (), SetInsured (acc_ID account) insured rows))"

text \<open>TxRepo.Insert (src/internal/repo/tx_repo.go).\<close>

definition txInsert :: "dec_lib \<Rightarrow> uid \<Rightarrow> symbol \<Rightarrow> TxType \<Rightarrow> dec \<Rightarrow> int \<Rightarrow> Transaction list \<Rightarrow> Transaction list" where
  "txInsert L u s ty amount now txs =
     txs @ [\<lparr> tx_UID = u, tx_Symbol = s, tx_Amount = col L amount, tx_Type = ty, tx_CreateTime = now,
              tx_RequestID = None, tx_RequestHash = None \<rparr>]"

definition acctCloseRound :: "dec_lib \<Rightarrow> int \<Rightarrow> uid \<Rightarrow> nat \<Rightarrow> FundState \<Rightarrow> bool res \<times> FundState" where
  "acctCloseRound L now u round' st =
     (let (rows, txs) = st; (acc, rows0) = GetOrCreate rows u in
      case acc of
        None \<Rightarrow> (Inl PanicNilPointer, (rows0, txs))
      | Some account \<Rightarrow>
          (case CloseRoundIfRound L (acc_ID account) round' rows0 of
             (None, rows1) \<Rightarrow> (Inr False, (rows1, txs))
           | (Some (clearedCredit, clearedBalance), rows1) \<Rightarrow>
               let txs1 = (if 0 < clearedCredit then txInsert L u ''USDT'' TxRoundClose (- clearedCredit) now txs else txs);
                   txs2 = (if clearedBalance \<noteq> 0 then txInsert L u ''USDT'' TxRoundClose (- clearedBalance) now txs1 else txs1)
               in (Inr True, (rows1, txs2))))"

definition Equity :: "Account \<Rightarrow> dec \<Rightarrow> dec" where
  "Equity acc totalUnrealized = acc_Balance acc + acc_Credit acc + totalUnrealized"

record AccountView =
  av_UID :: uid
  av_IsInsured :: bool
  av_Status :: AccountStatus
  av_Round :: nat
  av_Credit :: dec
  av_Balance :: dec
  av_FrozenMargin :: dec
  av_FrozenCredit :: dec
  av_PositionMargin :: dec
  av_TotalUnrealizedPnl :: dec
  av_Equity :: dec

definition View :: "dec \<Rightarrow> dec \<Rightarrow> uid \<Rightarrow> Account list \<Rightarrow> AccountView option \<times> Account list" where
  "View totalPnl positionMargin u rows =
     (let (acc, rows0) = GetOrCreate rows u in
      (map_option (\<lambda>acc. \<lparr> av_UID = u, av_IsInsured = acc_IsInsured acc, av_Status = acc_Status acc,
          av_Round = acc_Round acc, av_Credit = acc_Credit acc, av_Balance = acc_Balance acc,
          av_FrozenMargin = acc_FrozenMargin acc, av_FrozenCredit = acc_FrozenCredit acc,
          av_PositionMargin = positionMargin, av_TotalUnrealizedPnl = totalPnl,
          av_Equity = Equity acc totalPnl \<rparr>) acc, rows0))"

end
