(* ===== verification/AccountProps.thy ===== *)
theory AccountProps
  imports AccountService
begin

text \<open>
  Correctness of the account component: what locking margin guarantees under interference of other
  sessions and when it succeeds without interference, the order in which losses consume balance and
  credit, idempotency and ledger consistency of partner fund operations, the once-only round close
  and the status history.
\<close>

section \<open>Finding or creating an account\<close>

lemma fold_max_start: "(a::'a::linorder) \<le> fold max xs a"
  by (induction xs arbitrary: a) (auto intro: order_trans [OF max.cobounded2])

lemma fold_max_ge: "(x::'a::linorder) \<in> set xs \<Longrightarrow> x \<le> fold max xs a"
  by (induction xs arbitrary: a) (auto intro: order_trans [OF max.cobounded1 fold_max_start])

lemma newAccount_fresh: "acc_ID (newAccount rows u) \<notin> acc_ID ` set rows"
  using fold_max_ge [of _ "map acc_ID rows" 0] by (fastforce simp: newAccount_def)

lemma GetOrCreate_wf:
  assumes "wf_accounts rows"
  obtains a rows' where "GetOrCreate rows u = (Some a, rows')" "wf_accounts rows'" "FindByUID rows' u = Some a"
    "FindByUID rows u \<noteq> None \<Longrightarrow> rows' = rows" "acc_UID a = u" "a \<in> set rows'"
    "FindByUID rows u = None \<Longrightarrow> a = newAccount rows u \<and> rows' = rows @ [a]"
proof (cases "FindByUID rows u")
  case None
  hence nu: "u \<notin> acc_UID ` set rows" by (auto simp: FindByUID_def sql_first_None)
  have wf: "wf_accounts (rows @ [newAccount rows u])"
    using assms nu newAccount_fresh [of rows u] by (auto simp: wf_accounts_def fits_row_def newAccount_def)
  have "FindByUID (rows @ [newAccount rows u]) u = Some (newAccount rows u)"
    using FindByUID_in [OF wf, of "newAccount rows u"] by (simp add: newAccount_def)
  thus ?thesis using None wf
    by (intro that [of "newAccount rows u" "rows @ [newAccount rows u]"])
      (simp_all add: GetOrCreate_def insertIgnore_def newAccount_def)
next
  case (Some a)
  thus ?thesis using assms FindByUID_Some [OF Some] by (intro that [of a rows]) (auto simp: GetOrCreate_def)
qed

lemma GetOrCreate_Some [simp]: "FindByUID rows u = Some a \<Longrightarrow> GetOrCreate rows u = (Some a, rows)"
  by (simp add: GetOrCreate_def)

section \<open>Locking margin\<close>

text \<open>The effect a successful lock has on its account: only the two frozen columns grow, by the two
  parts of the result.\<close>

definition lockedFrom :: "Account list \<Rightarrow> Account list \<Rightarrow> nat \<Rightarrow> FreezeResult \<Rightarrow> bool" where
  "lockedFrom before after i r \<longleftrightarrow>
     (\<exists>a. FindByID before i = Some a \<and>
        FindByID after i = Some (a\<lparr> acc_FrozenMargin := acc_FrozenMargin a + frz_FromAvailable r,
                                    acc_FrozenCredit := acc_FrozenCredit a + frz_FromCredit r \<rparr>)) \<and>
     (\<forall>j. j \<noteq> i \<longrightarrow> FindByID after j = FindByID before j)"

text \<open>An UPDATE by id with a guard, seen through FindByID.\<close>

lemma FindByID_at:
  assumes "\<And>a. acc_ID (f a) = acc_ID a" "FindByID rows i = Some a"
  shows "FindByID (sql_update (\<lambda>a. acc_ID a = i \<and> g a) f rows) i = Some (if g a then f a else a)"
    and "j \<noteq> i \<Longrightarrow> FindByID (sql_update (\<lambda>a. acc_ID a = i \<and> g a) f rows) j = FindByID rows j"
  using FindByID_Some [OF assms(2)] assms(2)
  by (simp_all add: FindByID_update [OF assms(1)]) (cases "FindByID rows j"; auto dest: FindByID_Some)

lemma lockedFrom_exec:
  assumes "FindByID rows i = Some a" "g a"
    and "\<And>a. acc_ID (f a) = acc_ID a"
    and "f a = a\<lparr> acc_FrozenMargin := acc_FrozenMargin a + frz_FromAvailable r,
                  acc_FrozenCredit := acc_FrozenCredit a + frz_FromCredit r \<rparr>"
  shows "lockedFrom rows (sql_update (\<lambda>a. acc_ID a = i \<and> g a) f rows) i r"
  using FindByID_at [where g = g, OF assms(3,1)] assms unfolding lockedFrom_def by auto

lemma FreezeFromBalance_correct:
  assumes "decimal_lib L" "wf_accounts rows" "fits 16 amount" "FindByID rows i = Some a"
  shows "fst (FreezeFromBalance L i amount rows) \<longleftrightarrow> amount \<le> freeBalance a"
    and "fst (FreezeFromBalance L i amount rows) \<Longrightarrow>
      lockedFrom rows (snd (FreezeFromBalance L i amount rows)) i \<lparr> frz_FromAvailable = amount, frz_FromCredit = 0 \<rparr>"
    and "\<not> fst (FreezeFromBalance L i amount rows) \<Longrightarrow> snd (FreezeFromBalance L i amount rows) = rows"
proof -
  note w = wf_accountsD [OF assms(2,4)]
  show ok: "fst (FreezeFromBalance L i amount rows) \<longleftrightarrow> amount \<le> freeBalance a"
    using sql_exec_account_ok [OF assms(2), of i "\<lambda>a. amount \<le> acc_Balance a - acc_FrozenMargin a"] assms(4)
    by (simp add: FreezeFromBalance_def freeBalance_def)
  show "fst (FreezeFromBalance L i amount rows) \<Longrightarrow>
      lockedFrom rows (snd (FreezeFromBalance L i amount rows)) i \<lparr> frz_FromAvailable = amount, frz_FromCredit = 0 \<rparr>"
    unfolding ok unfolding FreezeFromBalance_def sql_exec_snd
    by (rule lockedFrom_exec [OF assms(4)])
      (use w assms col_fit [OF assms(1), of "acc_FrozenMargin a + amount"] in \<open>auto simp: freeBalance_def fits_add\<close>)
  show "\<not> fst (FreezeFromBalance L i amount rows) \<Longrightarrow> snd (FreezeFromBalance L i amount rows) = rows"
    by (auto simp: FreezeFromBalance_def intro!: sql_update_none)
qed

lemma FreezeForceIntoNegative_correct:
  assumes "decimal_lib L" "wf_accounts rows" "fits 16 amount"
  shows "fst (FreezeForceIntoNegative L i amount b c fm fc rows) \<Longrightarrow>
      lockedFrom rows (snd (FreezeForceIntoNegative L i amount b c fm fc rows)) i \<lparr> frz_FromAvailable = amount, frz_FromCredit = 0 \<rparr>"
    and "\<not> fst (FreezeForceIntoNegative L i amount b c fm fc rows) \<Longrightarrow> snd (FreezeForceIntoNegative L i amount b c fm fc rows) = rows"
    and "FindByID rows i = Some a \<Longrightarrow> fst (FreezeForceIntoNegative L i amount b c fm fc rows) \<longleftrightarrow>
      acc_Balance a = b \<and> acc_Credit a = c \<and> acc_FrozenMargin a = fm \<and> acc_FrozenCredit a = fc"
proof -
  let ?g = "\<lambda>a. acc_Balance a = b \<and> acc_Credit a = c \<and> acc_FrozenMargin a = fm \<and> acc_FrozenCredit a = fc"
  have ok: "fst (FreezeForceIntoNegative L i amount b c fm fc rows) \<longleftrightarrow> (case FindByID rows i of None \<Rightarrow> False | Some a \<Rightarrow> ?g a)"
    using sql_exec_account_ok [OF assms(2), of i ?g] by (simp add: FreezeForceIntoNegative_def)
  thus "FindByID rows i = Some a \<Longrightarrow> fst (FreezeForceIntoNegative L i amount b c fm fc rows) \<longleftrightarrow> ?g a" by simp
  show "fst (FreezeForceIntoNegative L i amount b c fm fc rows) \<Longrightarrow>
      lockedFrom rows (snd (FreezeForceIntoNegative L i amount b c fm fc rows)) i \<lparr> frz_FromAvailable = amount, frz_FromCredit = 0 \<rparr>"
  proof -
    assume "fst (FreezeForceIntoNegative L i amount b c fm fc rows)"
    then obtain a where a: "FindByID rows i = Some a" "?g a" using ok by (auto split: option.splits)
    have "fits 16 (acc_FrozenMargin a + amount)" using wf_accountsD [OF assms(2) a(1)] assms(3) by auto
    from col_fit [OF assms(1) this] a show ?thesis
      unfolding FreezeForceIntoNegative_def sql_exec_snd by (intro lockedFrom_exec [OF a(1)]) auto
  qed
  show "\<not> fst (FreezeForceIntoNegative L i amount b c fm fc rows) \<Longrightarrow> snd (FreezeForceIntoNegative L i amount b c fm fc rows) = rows"
    by (auto simp: FreezeForceIntoNegative_def intro!: sql_update_none)
qed

lemma spillGuard_alt:
  "spillGuard i amount = (\<lambda>a. acc_ID a = i \<and> (freeBalance a < amount \<and> amount \<le> max (freeBalance a) 0 + freeCredit a))"
  by (auto simp: spillGuard_def freeBalance_def freeCredit_def fun_eq_iff)

lemma FreezeSpillToCredit_correct:
  assumes "decimal_lib L" "wf_accounts rows" "fits 16 amount" "FindByID rows i = Some a"
  shows "fst (FreezeSpillToCredit L i amount rows) =
      (if freeBalance a < amount \<and> amount \<le> max (freeBalance a) 0 + freeCredit a
       then Some (max (freeBalance a) 0, amount - max (freeBalance a) 0) else None)"
    and "fst (FreezeSpillToCredit L i amount rows) = Some (v, c) \<Longrightarrow>
      lockedFrom rows (snd (FreezeSpillToCredit L i amount rows)) i \<lparr> frz_FromAvailable = v, frz_FromCredit = c \<rparr>"
    and "fst (FreezeSpillToCredit L i amount rows) = None \<Longrightarrow> snd (FreezeSpillToCredit L i amount rows) = rows"
proof -
  note w = wf_accountsD [OF assms(2,4)]
  let ?g = "\<lambda>a. freeBalance a < amount \<and> amount \<le> max (freeBalance a) 0 + freeCredit a"
  have first: "sql_first (spillGuard i amount) rows = (if ?g a then Some a else None)"
  proof (cases "?g a")
    case True
    have "distinct (map acc_ID rows)" using assms(2) by (simp add: wf_accounts_def)
    hence "sql_first (spillGuard i amount) rows = Some a"
      using w True by (intro sql_first_unique) (auto simp: spillGuard_alt intro: unique_key_eq)
    with True show ?thesis by simp
  next
    case False
    have "q = a" if "q \<in> set rows" "acc_ID q = i" for q
      using that w assms(2) by (auto simp: wf_accounts_def intro: unique_key_eq)
    with False show ?thesis by (auto simp: sql_first_None spillGuard_alt)
  qed
  show ok: "fst (FreezeSpillToCredit L i amount rows) =
      (if ?g a then Some (max (freeBalance a) 0, amount - max (freeBalance a) 0) else None)"
    by (simp add: FreezeSpillToCredit_def first Let_def freeBalance_def)
  show "fst (FreezeSpillToCredit L i amount rows) = None \<Longrightarrow> snd (FreezeSpillToCredit L i amount rows) = rows"
  proof -
    assume "fst (FreezeSpillToCredit L i amount rows) = None"
    hence "sql_first (spillGuard i amount) rows = None" using ok first by (simp only: split: if_splits) simp_all
    thus ?thesis by (simp add: FreezeSpillToCredit_def)
  qed
  show "fst (FreezeSpillToCredit L i amount rows) = Some (v, c) \<Longrightarrow>
      lockedFrom rows (snd (FreezeSpillToCredit L i amount rows)) i \<lparr> frz_FromAvailable = v, frz_FromCredit = c \<rparr>"
  proof -
    assume "fst (FreezeSpillToCredit L i amount rows) = Some (v, c)"
    with ok have g: "?g a" and vc: "v = max (freeBalance a) 0" "c = amount - max (freeBalance a) 0"
      by (auto split: if_splits)
    have "fits 16 (acc_FrozenMargin a + v)" "fits 16 (acc_FrozenCredit a + c)"
      using w assms(3) by (auto simp: vc freeBalance_def intro!: fits_add fits_diff fits_max)
    with col_fit [OF assms(1)] have "col L (acc_FrozenMargin a + v) = acc_FrozenMargin a + v"
      "col L (acc_FrozenCredit a + c) = acc_FrozenCredit a + c" by blast+
    with g vc show ?thesis
      unfolding FreezeSpillToCredit_def first using assms(4)
      by (simp add: Let_def spillGuard_alt freeBalance_def [symmetric], intro lockedFrom_exec [OF assms(4)])
        (auto simp: freeBalance_def)
  qed
qed

text \<open>What other sessions may do between two statements: anything that keeps the table well-formed
  and the accounts in it.\<close>

definition interference_ok :: "(nat \<Rightarrow> Account list \<Rightarrow> Account list) \<Rightarrow> bool" where
  "interference_ok env \<longleftrightarrow>
     (\<forall>n t. wf_accounts t \<longrightarrow> wf_accounts (env n t) \<and>
        (\<forall>i a. FindByID t i = Some a \<longrightarrow> (\<exists>a'. FindByID (env n t) i = Some a' \<and> acc_UID a' = acc_UID a)))"

lemma interference_okD:
  "interference_ok env \<Longrightarrow> wf_accounts t \<Longrightarrow> wf_accounts (env n t)"
  "interference_ok env \<Longrightarrow> wf_accounts t \<Longrightarrow> FindByID t i = Some a \<Longrightarrow>
   \<exists>a'. FindByID (env n t) i = Some a' \<and> acc_UID a' = acc_UID a"
  unfolding interference_ok_def by blast+

lemma interference_quiet: "interference_ok (\<lambda>_ t. t)"
  by (simp add: interference_ok_def)

text \<open>The last statement of a successful FreezeMargin ran on a well-formed table \<open>before\<close> that holds
  the user's account, and is all it changed.\<close>

definition lockedOnce :: "uid \<Rightarrow> nat \<Rightarrow> dec \<Rightarrow> FreezeResult \<Rightarrow> Account list \<Rightarrow> bool" where
  "lockedOnce u i amount r rows' \<longleftrightarrow>
     (\<exists>before a. wf_accounts before \<and> FindByID before i = Some a \<and> acc_UID a = u \<and> lockedFrom before rows' i r \<and>
        frz_FromAvailable r + frz_FromCredit r = amount \<and>
        (0 \<le> amount \<longrightarrow> 0 \<le> frz_FromAvailable r \<and> 0 \<le> frz_FromCredit r))"

lemma freezeForced_correct:
  assumes "decimal_lib L" "interference_ok env" "fits 16 amount"
    and "wf_accounts rows" "FindByID rows i = Some a" "acc_UID a = u"
    and "freezeForced L env tu i amount rows = (Inr r, rows')"
  shows "lockedOnce u i amount r rows'"
proof -
  define rows4 where "rows4 = env 3 rows"
  obtain a4 where r4: "wf_accounts rows4" "FindByID rows4 i = Some a4" "acc_UID a4 = u"
    using interference_okD [OF assms(2,4)] assms(5,6) unfolding rows4_def by metis
  obtain a5 where r5: "wf_accounts (env 4 rows4)" "FindByID (env 4 rows4) i = Some a5" "acc_UID a5 = u"
    using interference_okD [OF assms(2) r4(1)] r4(2,3) by metis
  define frz where "frz = FreezeForceIntoNegative L i amount (acc_Balance a4) (acc_Credit a4)
     (acc_FrozenMargin a4) (acc_FrozenCredit a4) (env 4 rows4)"
  have "fst frz" "rows' = snd frz" "r = \<lparr> frz_FromAvailable = amount, frz_FromCredit = 0 \<rparr>"
    using assms(7) r4(2) unfolding freezeForced_def rows4_def [symmetric] frz_def
    by (auto simp: FindFreshMarginSnapshot_def Let_def split: if_splits prod.splits)
  with FreezeForceIntoNegative_correct(1) [OF assms(1) r5(1) assms(3)] r5
  show ?thesis unfolding lockedOnce_def frz_def by auto
qed

lemma freezeLevels_correct:
  assumes "decimal_lib L" "interference_ok env" "fits 16 amount"
    and "wf_accounts rows" "FindByID rows i = Some a" "acc_UID a = u"
    and "freezeLevels L env tu i amount rows = (Inr r, rows')"
  shows "lockedOnce u i amount r rows'"
proof -
  define rows0 where "rows0 = env 0 rows"
  obtain a0 where r0: "wf_accounts rows0" "FindByID rows0 i = Some a0" "acc_UID a0 = u"
    using interference_okD [OF assms(2,4)] assms(5,6) unfolding rows0_def by metis
  note first = FreezeFromBalance_correct [OF assms(1) r0(1) assms(3) r0(2)]
  show ?thesis
  proof (cases "fst (FreezeFromBalance L i amount rows0)")
    case True
    with assms(7) have "rows' = snd (FreezeFromBalance L i amount rows0)" "r = \<lparr> frz_FromAvailable = amount, frz_FromCredit = 0 \<rparr>"
      by (auto simp: freezeLevels_def rows0_def [symmetric] Let_def split: prod.splits)
    with True first(2) r0 show ?thesis unfolding lockedOnce_def by auto
  next
    case False
    define rows2 where "rows2 = env 1 rows0"
    obtain a2 where r2: "wf_accounts rows2" "FindByID rows2 i = Some a2" "acc_UID a2 = u"
      using interference_okD [OF assms(2) r0(1)] r0(2,3) unfolding rows2_def by metis
    have lv: "(if amount \<le> acc_Balance a2 - acc_FrozenMargin a2 + (acc_Credit a2 - acc_FrozenCredit a2) then
           (case FreezeSpillToCredit L i amount (env 2 rows2) of
              (Some (fa, fc), rows3) \<Rightarrow> (Inr \<lparr> frz_FromAvailable = fa, frz_FromCredit = fc \<rparr>, rows3)
            | (None, rows3) \<Rightarrow> freezeForced L env tu i amount rows3)
         else freezeForced L env tu i amount rows2) = (Inr r, rows')"
    proof -
      have "FreezeFromBalance L i amount rows0 = (False, rows0)" using False first(3) by (metis (full_types) prod.collapse)
      with assms(7) r2(2) show ?thesis
        by (simp add: freezeLevels_def rows0_def [symmetric] rows2_def Let_def FindFreshFreeMargin_def split: if_splits)
    qed
    obtain a3 where r3: "wf_accounts (env 2 rows2)" "FindByID (env 2 rows2) i = Some a3" "acc_UID a3 = u"
      using interference_okD [OF assms(2) r2(1)] r2(2,3) by metis
    note spill = FreezeSpillToCredit_correct [OF assms(1) r3(1) assms(3) r3(2)]
    show ?thesis
    proof (cases "fst (FreezeSpillToCredit L i amount (env 2 rows2))")
      case None
      with spill(3) have "FreezeSpillToCredit L i amount (env 2 rows2) = (None, env 2 rows2)"
        by (metis prod.collapse)
      with lv have "freezeForced L env tu i amount (env 2 rows2) = (Inr r, rows') \<or> freezeForced L env tu i amount rows2 = (Inr r, rows')"
        by (auto split: if_splits)
      with freezeForced_correct [OF assms(1-3)] r2 r3 show ?thesis by blast
    next
      case (Some vc)
      obtain v c where vc: "vc = (v, c)" by fastforce
      with Some spill(1) have g: "freeBalance a3 < amount" "v = max (freeBalance a3) 0" "c = amount - v"
        by (auto split: if_splits)
      from lv Some vc consider "r = \<lparr> frz_FromAvailable = v, frz_FromCredit = c \<rparr>" "rows' = snd (FreezeSpillToCredit L i amount (env 2 rows2))"
        | "freezeForced L env tu i amount rows2 = (Inr r, rows')"
        by (auto split: if_splits prod.splits)
      thus ?thesis
      proof cases
        case 1
        with spill(2) [of v c] Some vc g r3 show ?thesis unfolding lockedOnce_def by auto
      next
        case 2
        with freezeForced_correct [OF assms(1-3)] r2 show ?thesis by blast
      qed
    qed
  qed
qed


text \<open>Without interference FreezeMargin accepts exactly the amounts the buying-power rule allows
  and otherwise refuses without touching the table: the system account always; with a floating loss
  only up to free balance plus free credit less the loss; without one up to the free balance, or up to
  free balance plus free credit plus the floating profit.\<close>
theorem FreezeMargin_accepts_iff:
  assumes "decimal_lib L" "fits 16 amount" "wf_accounts rows" "FindByUID rows u = Some a"
  shows "((\<exists>r rows'. FreezeMargin L (\<lambda>_ t. t) tu u amount rows = (Inr r, rows')) \<longleftrightarrow>
      u = UID \<or>
      (if tu < 0 then amount \<le> freeBalance a + freeCredit a + tu
       else amount \<le> freeBalance a \<or> amount \<le> freeBalance a + freeCredit a + tu)) \<and>
    ((\<exists>r rows'. FreezeMargin L (\<lambda>_ t. t) tu u amount rows = (Inr r, rows')) \<or>
     FreezeMargin L (\<lambda>_ t. t) tu u amount rows = (Inl ErrInsufficientMargin, rows))"
proof -
  have byid: "FindByID rows (acc_ID a) = Some a" by (rule FindByUID_ID [OF assms(3,4)])
  note frz = FreezeFromBalance_correct [OF assms(1,3,2) byid]
  note spill = FreezeSpillToCredit_correct [OF assms(1,3,2) byid]
  note force = FreezeForceIntoNegative_correct(2,3) [OF assms(1,3,2)]
  have "(\<exists>r rows'. FreezeMargin L (\<lambda>_ t. t) tu u amount rows = (Inr r, rows')) \<and>
      (u = UID \<or> (if tu < 0 then amount \<le> freeBalance a + freeCredit a + tu
       else amount \<le> freeBalance a \<or> amount \<le> freeBalance a + freeCredit a + tu)) \<or>
      FreezeMargin L (\<lambda>_ t. t) tu u amount rows = (Inl ErrInsufficientMargin, rows) \<and>
      \<not> (u = UID \<or> (if tu < 0 then amount \<le> freeBalance a + freeCredit a + tu
       else amount \<le> freeBalance a \<or> amount \<le> freeBalance a + freeCredit a + tu))"
    (is "?ok \<and> ?rule \<or> ?no \<and> \<not> ?rule")
  proof (cases "u = UID \<or> amount \<le> freeBalance a \<and> \<not> (tu < 0 \<and> freeBalance a + freeCredit a + tu < amount)")
    case True
    hence "?rule" by (auto split: if_splits)
    moreover have ?ok
      using True assms(4) frz(1) by (auto simp: FreezeMargin_def freezeLevels_def Let_def freeBalance_def freeCredit_def split: prod.splits)
    ultimately show ?thesis by blast
  next
    case False
    show ?thesis
    proof (cases "tu < 0 \<and> freeBalance a + freeCredit a + tu < amount")
      case True
      with False have "\<not> ?rule" by auto
      moreover have ?no using True False assms(4) by (simp add: FreezeMargin_def Let_def freeBalance_def freeCredit_def)
      ultimately show ?thesis by blast
    next
      case nl: False
      with False have short: "freeBalance a < amount" "u \<noteq> UID" by auto
      with frz(1,3) have f: "FreezeFromBalance L (acc_ID a) amount rows = (False, rows)" by (metis (full_types) not_le prod.collapse)
      have levels: "FreezeMargin L (\<lambda>_ t. t) tu u amount rows =
          (if amount \<le> freeBalance a + freeCredit a then
             (case FreezeSpillToCredit L (acc_ID a) amount rows of
                (Some (fa, fc), rows3) \<Rightarrow> (Inr \<lparr> frz_FromAvailable = fa, frz_FromCredit = fc \<rparr>, rows3)
              | (None, rows3) \<Rightarrow> freezeForced L (\<lambda>_ t. t) tu (acc_ID a) amount rows3)
           else freezeForced L (\<lambda>_ t. t) tu (acc_ID a) amount rows)"
        using short nl assms(4) byid f
        by (auto simp: FreezeMargin_def freezeLevels_def Let_def FindFreshFreeMargin_def freeBalance_def freeCredit_def)
      show ?thesis
      proof (cases "amount \<le> freeBalance a + freeCredit a")
        case True
        hence "amount \<le> max (freeBalance a) 0 + freeCredit a" by simp
        with spill(1) short obtain v c where "fst (FreezeSpillToCredit L (acc_ID a) amount rows) = Some (v, c)" by simp
        with True levels have ?ok by (auto split: prod.splits)
        moreover have ?rule using True nl by auto
        ultimately show ?thesis by blast
      next
        case far: False
        have forced: "freezeForced L (\<lambda>_ t. t) tu (acc_ID a) amount rows =
          (if amount \<le> freeBalance a + freeCredit a + tu then
             (Inr \<lparr> frz_FromAvailable = amount, frz_FromCredit = 0 \<rparr>,
              snd (FreezeForceIntoNegative L (acc_ID a) amount (acc_Balance a) (acc_Credit a) (acc_FrozenMargin a) (acc_FrozenCredit a) rows))
           else (Inl ErrInsufficientMargin, rows))"
          using byid force(2) [OF byid, of "acc_Balance a" "acc_Credit a" "acc_FrozenMargin a" "acc_FrozenCredit a"]
          by (auto simp: freezeForced_def Let_def FindFreshMarginSnapshot_def freeBalance_def freeCredit_def split: prod.splits)
        with far levels short nl show ?thesis by (auto split: if_splits)
      qed
    qed
  qed
  thus ?thesis by auto
qed

definition demoAccounts :: "Account list" where
  "demoAccounts =
     [\<lparr> acc_ID = 1, acc_UID = 7, acc_IsInsured = True, acc_Round = 1, acc_Credit = 50, acc_Balance = 100,
        acc_FrozenMargin = 80, acc_FrozenCredit = 0, acc_Version = 0, acc_Status = AccountStatusActive,
        acc_StatusReason = [], acc_StatusTime = 0 \<rparr>]"

lemma wf_demoAccounts: "wf_accounts demoAccounts"
  by (simp add: wf_accounts_def demoAccounts_def fits_row_def)


lemma FreezeMargin_accepts_iff_witness:
  "(\<exists>r rows'. FreezeMargin std_lib (\<lambda>_ t. t) 5 7 75 demoAccounts = (Inr r, rows')) \<and>
   FreezeMargin std_lib (\<lambda>_ t. t) (- 10) 7 65 demoAccounts = (Inl ErrInsufficientMargin, demoAccounts)"
proof -
  define a where "a = hd demoAccounts"
  have a: "FindByUID demoAccounts 7 = Some a" "freeBalance a = 20" "freeCredit a = 50"
    by (simp_all add: a_def demoAccounts_def FindByUID_def sql_first_def freeBalance_def freeCredit_def)
  have "(7::uid) \<noteq> UID" by (simp add: UID_def)
  with FreezeMargin_accepts_iff [OF std_decimal_lib _ wf_demoAccounts a(1), of 75 5]
    FreezeMargin_accepts_iff [OF std_decimal_lib _ wf_demoAccounts a(1), of 65 "- 10"] a(2,3)
  show ?thesis by auto
qed

section \<open>Profit, loss and fees\<close>

lemma update_at:
  assumes "FindByID rows i = Some a" "\<And>a. acc_ID (f a) = acc_ID a"
  shows "FindByID (sql_update (\<lambda>a. acc_ID a = i) f rows) i = Some (f a)"
    and "j \<noteq> i \<Longrightarrow> FindByID (sql_update (\<lambda>a. acc_ID a = i) f rows) j = FindByID rows j"
  using FindByID_at [where g = "\<lambda>_. True", OF assms(2,1)] by simp_all

lemma absorbed_bounds:
  "0 \<le> acc_Credit a \<Longrightarrow> 0 \<le> absorbedByCredit a loss \<and> absorbedByCredit a loss \<le> acc_Credit a"
  by (auto simp: absorbedByCredit_def)

lemma deduct_row:
  assumes "decimal_lib L" "wf_accounts rows" "FindByID rows i = Some a" "fits 16 loss"
  shows "FindByID (deductWithCreditFallback L i loss rows) i =
    Some (a\<lparr> acc_Balance := acc_Balance a - loss + absorbedByCredit a loss,
             acc_Credit := acc_Credit a - absorbedByCredit a loss \<rparr>)"
proof -
  note w = wf_accountsD [OF assms(2,3)]
  have f: "fits 16 (absorbedByCredit a loss)"
    using w assms(4) by (auto simp: absorbedByCredit_def intro!: fits_min fits_max fits_diff)
  with w assms(4) have "fits 16 (acc_Balance a - loss + absorbedByCredit a loss)" "fits 16 (acc_Credit a - absorbedByCredit a loss)"
    by (auto intro!: fits_add fits_diff)
  with col_fit [OF assms(1)] show ?thesis
    by (simp add: deductWithCreditFallback_def update_at(1) [OF assms(3)])
qed

text \<open>Realized profit and loss: the user's total of balance and credit changes by exactly the
  amount; a profit goes to the balance only; a loss takes credit only after the positive balance is
  used up, never more than there is, and the balance goes below zero (or further below) only when the
  credit is gone; nothing else of the account changes.\<close>
theorem SettlePnl_order:
  assumes "decimal_lib L" "wf_accounts rows" "FindByID rows i = Some a" "fits 16 amount" "0 \<le> acc_Credit a"
  shows "\<exists>b c. FindByID (SettlePnl L i amount rows) i = Some (a\<lparr> acc_Balance := b, acc_Credit := c \<rparr>) \<and>
    b + c = acc_Balance a + acc_Credit a + amount \<and>
    0 \<le> c \<and> c \<le> acc_Credit a \<and>
    (c < acc_Credit a \<longrightarrow> amount < 0 \<and> b \<le> 0 \<and> acc_Balance a < - amount) \<and>
    (b < min (acc_Balance a) 0 \<longrightarrow> c = 0)"
proof (cases "0 \<le> amount")
  case True
  have "fits 16 (acc_Balance a + amount)" using wf_accountsD [OF assms(2,3)] assms(4) by auto
  from col_fit [OF assms(1) this] True
  have "FindByID (SettlePnl L i amount rows) i = Some (a\<lparr> acc_Balance := acc_Balance a + amount, acc_Credit := acc_Credit a \<rparr>)"
    by (simp add: SettlePnl_def SettleToBalance_def update_at(1) [OF assms(3)])
  with True assms(5) show ?thesis by (intro exI [of _ "acc_Balance a + amount"] exI [of _ "acc_Credit a"]) auto
next
  case False
  let ?x = "absorbedByCredit a (- amount)"
  have "FindByID (SettlePnl L i amount rows) i =
      Some (a\<lparr> acc_Balance := acc_Balance a + amount + ?x, acc_Credit := acc_Credit a - ?x \<rparr>)"
    using deduct_row [OF assms(1-3) fits_uminus [OF assms(4)]] False by (simp add: SettlePnl_def)
  moreover have "acc_Credit a - ?x < acc_Credit a \<longrightarrow> acc_Balance a + amount + ?x \<le> 0 \<and> acc_Balance a < - amount"
    by (auto simp: absorbedByCredit_def min_def max_def split: if_splits)
  moreover have "acc_Balance a + amount + ?x < min (acc_Balance a) 0 \<longrightarrow> acc_Credit a - ?x = 0"
    by (auto simp: absorbedByCredit_def min_def max_def split: if_splits)
  ultimately show ?thesis using absorbed_bounds [OF assms(5), of "- amount"] False
    by (intro exI [of _ "acc_Balance a + amount + ?x"] exI [of _ "acc_Credit a - ?x"]) auto
qed

lemma SettlePnl_order_witness:
  "\<exists>a'. FindByID (SettlePnl std_lib 1 (- 120) demoAccounts) 1 = Some a' \<and> acc_Balance a' + acc_Credit a' = 30 \<and> 0 \<le> acc_Credit a'"
proof -
  define a where "a = hd demoAccounts"
  have a: "FindByID demoAccounts 1 = Some a" "acc_Balance a = 100" "acc_Credit a = 50"
    by (simp_all add: a_def demoAccounts_def FindByID_def sql_first_def)
  have "fits 16 (- 120)" using fits_uminus [of 16 120] by simp
  with SettlePnl_order [OF std_decimal_lib wf_demoAccounts a(1) this] a(2,3) show ?thesis by auto
qed

section \<open>Partner fund operations\<close>

lemma fund_loop_result:
  "ApplyFundOp_loop L victim op n st = applyFundOpOnce L op st \<or> ApplyFundOp_loop L victim op n st = (Inl ErrDeadlock, st)"
  by (induction L victim op n st rule: ApplyFundOp_loop.induct) (subst (1 2) ApplyFundOp_loop.simps, auto)

lemma fund_no_victim: "\<not> victim 1 \<Longrightarrow> ApplyFundOp L victim op st = applyFundOpOnce L op st"
  unfolding ApplyFundOp_def by (subst ApplyFundOp_loop.simps) simp

definition ledgerRow :: "dec_lib \<Rightarrow> FundOp \<Rightarrow> Transaction" where
  "ledgerRow L op = \<lparr> tx_UID = fop_UID op, tx_Symbol = ''USDT'',
     tx_Amount = col L (if fop_Kind op = FundOpWithdraw then - fop_Amount op else fop_Amount op),
     tx_Type = fop_TxType op, tx_CreateTime = fop_Now op,
     tx_RequestID = Some (fop_RequestID op), tx_RequestHash = Some (fop_RequestHash op) \<rparr>"

text \<open>An operation takes effect, or it changes nothing.\<close>

lemma ApplyFundOp_cases:
  assumes "ApplyFundOp L victim op st = (r, st')"
  obtains (effect) "r = Inr False" "requestRow (snd st) (fop_UID op) (fop_RequestID op) = None"
      "fst (fundUpdate L op (fst st))" "st' = (snd (fundUpdate L op (fst st)), snd st @ [ledgerRow L op])"
  | (unchanged) "r \<noteq> Inr False" "st' = st"
proof -
  obtain accounts txs where st: "st = (accounts, txs)" by fastforce
  have "ApplyFundOp L victim op st = applyFundOpOnce L op st \<or> ApplyFundOp L victim op st = (Inl ErrDeadlock, st)"
    unfolding ApplyFundOp_def by (rule fund_loop_result)
  moreover have "(r = Inr False \<and> requestRow txs (fop_UID op) (fop_RequestID op) = None \<and> fst (fundUpdate L op accounts) \<and>
       st' = (snd (fundUpdate L op accounts), txs @ [ledgerRow L op])) \<or> (r \<noteq> Inr False \<and> st' = st)"
    if "applyFundOpOnce L op st = (r, st')"
    using that unfolding st applyFundOpOnce_def ledgerRow_def [symmetric]
    by (auto simp: Let_def ledgerRow_def split: option.splits prod.splits if_splits)
  ultimately have "(r = Inr False \<and> requestRow txs (fop_UID op) (fop_RequestID op) = None \<and> fst (fundUpdate L op accounts) \<and>
       st' = (snd (fundUpdate L op accounts), txs @ [ledgerRow L op])) \<or> (r \<noteq> Inr False \<and> st' = st)"
    using assms by auto
  thus ?thesis
  proof
    assume "r = Inr False \<and> requestRow txs (fop_UID op) (fop_RequestID op) = None \<and> fst (fundUpdate L op accounts) \<and>
       st' = (snd (fundUpdate L op accounts), txs @ [ledgerRow L op])"
    thus ?thesis by (intro effect) (simp_all add: st)
  next
    assume "r \<noteq> Inr False \<and> st' = st"
    with unchanged show ?thesis by blast
  qed
qed

fun fundOps :: "dec_lib \<Rightarrow> ((nat \<Rightarrow> bool) \<times> FundOp) list \<Rightarrow> FundState \<Rightarrow> FundState" where
  "fundOps L [] st = st"
| "fundOps L ((victim, op) # ops) st = fundOps L ops (snd (ApplyFundOp L victim op st))"

definition uniqueRequests :: "Transaction list \<Rightarrow> bool" where
  "uniqueRequests txs \<longleftrightarrow>
     distinct (map (\<lambda>t. (tx_UID t, tx_RequestID t)) (filter (\<lambda>t. tx_RequestID t \<noteq> None) txs))"

lemma requestRow_append:
  "requestRow (txs @ ts) u rid = (case requestRow txs u rid of None \<Rightarrow> requestRow ts u rid | Some t \<Rightarrow> Some t)"
  by (induction txs) (auto simp: requestRow_def sql_first_def)

lemma fundUpdate_ids: "map acc_ID (snd (fundUpdate L op rows)) = map acc_ID rows"
  by (simp add: fundUpdate_def map_sql_update split: FundOpKind.splits)

lemma FindByID_None_iff: "FindByID rows i = None \<longleftrightarrow> i \<notin> acc_ID ` set rows"
  by (auto simp: FindByID_def sql_first_None)

lemma fundOps_keeps:
  "requestRow (snd st) u rid = Some t \<Longrightarrow> requestRow (snd (fundOps L ops st)) u rid = Some t"
  "acc_ID ` set (fst (fundOps L ops st)) = acc_ID ` set (fst st)"
proof (induction L ops st rule: fundOps.induct)
  case (2 L victim op ops st)
  obtain r st' where a: "ApplyFundOp L victim op st = (r, st')" by (cases "ApplyFundOp L victim op st")
  from a have "(requestRow (snd st) u rid = Some t \<longrightarrow> requestRow (snd st') u rid = Some t) \<and> acc_ID ` set (fst st') = acc_ID ` set (fst st)"
  proof (cases rule: ApplyFundOp_cases)
    case effect
    have "acc_ID ` set (fst st') = acc_ID ` set (fst st)"
      using fundUpdate_ids [of L op "fst st"] by (metis effect(4) fst_conv list.set_map)
    with effect(4) show ?thesis by (simp add: requestRow_append)
  qed simp
  with 2 a show "requestRow (snd st) u rid = Some t \<Longrightarrow> requestRow (snd (fundOps L ((victim, op) # ops) st)) u rid = Some t"
    "acc_ID ` set (fst (fundOps L ((victim, op) # ops) st)) = acc_ID ` set (fst st)" by simp_all
qed simp_all

text \<open>C5. Fund operations are idempotent per (uid, request id): once one has taken effect, then after
  any further operations a repeat with the same fingerprint reports a replay and one with another
  fingerprint a conflict, and neither changes an account or the ledger; an operation that reports
  anything but a first success has changed nothing.\<close>
theorem fund_op_idempotent:
  assumes "ApplyFundOp L victim op st = (r, st1)"
    and "fop_UID op' = fop_UID op" "fop_RequestID op' = fop_RequestID op" "fop_AccountID op' = fop_AccountID op"
    and "\<not> victim' 1"
  shows "if r = Inr False
    then ApplyFundOp L victim' op' (fundOps L ops st1) =
      (if fop_RequestHash op' = fop_RequestHash op then Inr True else Inl ErrIdempotencyConflict, fundOps L ops st1)
    else st1 = st"
  using assms(1)
proof (cases rule: ApplyFundOp_cases)
  case effect
  have "requestRow (snd st1) (fop_UID op) (fop_RequestID op) = Some (ledgerRow L op)"
    using effect(2) by (simp add: effect(4) requestRow_append) (simp add: requestRow_def sql_first_def ledgerRow_def)
  hence stored: "requestRow (snd (fundOps L ops st1)) (fop_UID op) (fop_RequestID op) = Some (ledgerRow L op)"
    by (rule fundOps_keeps(1))
  obtain accounts txs where st2: "fundOps L ops st1 = (accounts, txs)" by fastforce
  have "fop_AccountID op \<in> acc_ID ` set (fst st)"
    using effect(3) by (auto simp: fundUpdate_def intro: rev_image_eqI split: FundOpKind.splits)
  moreover have "acc_ID ` set (fst st1) = acc_ID ` set (fst st)"
    using fundUpdate_ids [of L op "fst st"] by (metis effect(4) fst_conv list.set_map)
  ultimately have "fop_AccountID op \<in> acc_ID ` set accounts"
    using fundOps_keeps(2) [of L ops st1] st2 by simp
  then obtain a where "FindByID accounts (fop_AccountID op) = Some a"
    using FindByID_None_iff [of accounts "fop_AccountID op"] by (cases "FindByID accounts (fop_AccountID op)") auto
  with stored assms(2-5) effect(1) st2 show ?thesis
    by (simp add: fund_no_victim applyFundOpOnce_def Let_def) (simp add: ledgerRow_def)
qed simp

definition demoOp :: FundOp where
  "demoOp = \<lparr> fop_AccountID = 1, fop_UID = 7, fop_Kind = FundOpWithdraw, fop_Amount = 15, fop_TxType = TxDeposit,
     fop_RequestID = ''r1'', fop_RequestHash = ''h1'', fop_Now = 5 \<rparr>"

lemma demoOp_applies: "fst (ApplyFundOp std_lib (\<lambda>n. n = 1) demoOp (demoAccounts, [])) = Inr False"
proof -
  have "applyFundOpOnce std_lib demoOp (demoAccounts, []) = (Inr False,
     ([(hd demoAccounts)\<lparr>acc_Balance := 85\<rparr>], [ledgerRow std_lib demoOp]))" by code_simp
  thus ?thesis unfolding ApplyFundOp_def
    by (subst ApplyFundOp_loop.simps, subst ApplyFundOp_loop.simps) simp
qed

lemma fund_op_idempotent_witness:
  "\<exists>st1. ApplyFundOp std_lib (\<lambda>n. n = 1) demoOp (demoAccounts, []) = (Inr False, st1) \<and>
     ApplyFundOp std_lib (\<lambda>_. False) (demoOp\<lparr>fop_Now := 9\<rparr>) st1 = (Inr True, st1) \<and>
     ApplyFundOp std_lib (\<lambda>_. False) (demoOp\<lparr>fop_RequestHash := ''h2''\<rparr>) st1 = (Inl ErrIdempotencyConflict, st1)"
proof -
  obtain st1 where a: "ApplyFundOp std_lib (\<lambda>n. n = 1) demoOp (demoAccounts, []) = (Inr False, st1)"
    using demoOp_applies by (metis prod.collapse)
  from fund_op_idempotent [OF a, of "demoOp\<lparr>fop_Now := 9\<rparr>" "\<lambda>_. False" "[]"]
    fund_op_idempotent [OF a, of "demoOp\<lparr>fop_RequestHash := ''h2''\<rparr>" "\<lambda>_. False" "[]"] a
  show ?thesis by (simp add: demoOp_def)
qed

text \<open>What the ledger says happened to one user's money.\<close>

definition ledgerTotal :: "uid \<Rightarrow> Transaction list \<Rightarrow> dec" where
  "ledgerTotal u txs = sum_list (map tx_Amount (filter (\<lambda>t. tx_UID t = u) txs))"

lemma ledgerTotal_append [simp]: "ledgerTotal u (xs @ ys) = ledgerTotal u xs + ledgerTotal u ys"
  by (simp add: ledgerTotal_def)

lemma uniqueRequests_append:
  assumes "uniqueRequests txs" "requestRow txs (fop_UID op) (fop_RequestID op) = None"
  shows "uniqueRequests (txs @ [ledgerRow L op])"
  using assms by (auto simp: uniqueRequests_def requestRow_def sql_first_None ledgerRow_def)

lemma wf_fundUpdate:
  "decimal_lib L \<Longrightarrow> wf_accounts rows \<Longrightarrow> wf_accounts (snd (fundUpdate L op rows))"
  using decimal_lib.col_fits [of L]
  by (auto simp: fundUpdate_def col_def fits_row_def split: FundOpKind.splits intro!: wf_accounts_update)

text \<open>Effect of one statement on the account it names.\<close>

lemma fundUpdate_row:
  assumes "decimal_lib L" "wf_accounts rows" "FindByID rows (fop_AccountID op) = Some a" "fits 16 (fop_Amount op)"
    and "fst (fundUpdate L op rows)"
  obtains a' where "FindByID (snd (fundUpdate L op rows)) (fop_AccountID op) = Some a'"
    "acc_Balance a' + acc_Credit a' = acc_Balance a + acc_Credit a + tx_Amount (ledgerRow L op)"
    "acc_FrozenMargin a' = acc_FrozenMargin a" "acc_UID a' = acc_UID a"
    "0 \<le> fop_Amount op \<Longrightarrow> 0 \<le> freeBalance a \<Longrightarrow> 0 \<le> freeBalance a'"
proof -
  note w = wf_accountsD [OF assms(2,3)]
  note c = col_fit [OF assms(1)]
  have f: "col L (acc_Balance a + fop_Amount op) = acc_Balance a + fop_Amount op"
    "col L (acc_Balance a - fop_Amount op) = acc_Balance a - fop_Amount op"
    "col L (acc_Credit a + fop_Amount op) = acc_Credit a + fop_Amount op"
    "col L (fop_Amount op) = fop_Amount op" "col L (- fop_Amount op) = - fop_Amount op"
    using w assms(4) by (auto intro!: c fits_add fits_diff fits_uminus)
  show ?thesis
  proof (cases "fop_Kind op")
    case FundOpDeposit
    with that [of "a\<lparr>acc_Balance := acc_Balance a + fop_Amount op\<rparr>"] show ?thesis
      using FindByID_at(1) [where g = "\<lambda>_. True", OF _ assms(3)] f
      by (simp add: fundUpdate_def ledgerRow_def freeBalance_def)
  next
    case FundOpWithdraw
    have "fop_Amount op \<le> acc_Balance a - acc_FrozenMargin a"
      using assms(5) sql_exec_account_ok [OF assms(2), of "fop_AccountID op" "\<lambda>a. fop_Amount op \<le> acc_Balance a - acc_FrozenMargin a"] assms(3)
      by (simp add: fundUpdate_def FundOpWithdraw)
    with that [of "a\<lparr>acc_Balance := acc_Balance a - fop_Amount op\<rparr>"] show ?thesis
      using FindByID_at(1) [where g = "\<lambda>a. fop_Amount op \<le> acc_Balance a - acc_FrozenMargin a", OF _ assms(3)] f FundOpWithdraw
      by (simp add: fundUpdate_def ledgerRow_def freeBalance_def)
  next
    case FundOpGrantCredit
    with that [of "a\<lparr>acc_Credit := acc_Credit a + fop_Amount op\<rparr>"] show ?thesis
      using FindByID_at(1) [where g = "\<lambda>_. True", OF _ assms(3)] f
      by (simp add: fundUpdate_def ledgerRow_def freeBalance_def)
  qed
qed

lemma fundUpdate_other:
  "j \<noteq> fop_AccountID op \<Longrightarrow> FindByID (snd (fundUpdate L op rows)) j = FindByID rows j"
  by (cases "FindByID rows j")
    (auto simp: fundUpdate_def FindByID_update dest: FindByID_Some split: FundOpKind.splits)

text \<open>The ledger explains the money: over any sequence of partner fund operations, with any deadlock
  victims, the total of a user's balance and credit changes by exactly the ledger rows written for the
  user, request ids stay unique, and no withdrawal touches money locked as margin.\<close>
theorem fund_ops_ledger:
  assumes "decimal_lib L" "wf_accounts (fst st)" "uniqueRequests (snd st)"
    and "FindByID (fst st) i = Some a"
    and "\<forall>(v, op)\<in>set ops. fits 16 (fop_Amount op) \<and> 0 \<le> fop_Amount op \<and> (fop_AccountID op = i \<longleftrightarrow> fop_UID op = acc_UID a)"
  shows "\<exists>a'. FindByID (fst (fundOps L ops st)) i = Some a' \<and>
    acc_Balance a' + acc_Credit a' - (acc_Balance a + acc_Credit a) =
      ledgerTotal (acc_UID a) (snd (fundOps L ops st)) - ledgerTotal (acc_UID a) (snd st) \<and>
    (0 \<le> freeBalance a \<longrightarrow> 0 \<le> freeBalance a') \<and> uniqueRequests (snd (fundOps L ops st))"
  using assms(2-5)
proof (induction ops arbitrary: st a)
  case Nil
  thus ?case by auto
next
  case (Cons vo ops)
  obtain v op where vo: "vo = (v, op)" by fastforce
  obtain r st1 where r: "ApplyFundOp L v op st = (r, st1)" by (cases "ApplyFundOp L v op st")
  from r show ?case
  proof (cases rule: ApplyFundOp_cases)
    case unchanged
    with Cons.IH [OF Cons.prems(1-3)] Cons.prems(4) r show ?thesis by (simp add: vo)
  next
    case effect
    have ops: "fits 16 (fop_Amount op)" "0 \<le> fop_Amount op" "fop_AccountID op = i \<longleftrightarrow> fop_UID op = acc_UID a"
      using Cons.prems(4) by (auto simp: vo)
    have wf1: "wf_accounts (fst st1)" using wf_fundUpdate [OF assms(1) Cons.prems(1)] by (simp add: effect(4))
    have u1: "uniqueRequests (snd st1)" using uniqueRequests_append [OF Cons.prems(2) effect(2)] by (simp add: effect(4))
    obtain a1 where a1: "FindByID (fst st1) i = Some a1" "acc_UID a1 = acc_UID a"
      "acc_Balance a1 + acc_Credit a1 - (acc_Balance a + acc_Credit a) = ledgerTotal (acc_UID a) [ledgerRow L op]"
      "0 \<le> freeBalance a \<longrightarrow> 0 \<le> freeBalance a1"
    proof (cases "fop_AccountID op = i")
      case True
      from fundUpdate_row [OF assms(1) Cons.prems(1) _ ops(1) effect(3), of a] Cons.prems(3) True
      obtain a1 where "FindByID (snd (fundUpdate L op (fst st))) i = Some a1"
        "acc_Balance a1 + acc_Credit a1 = acc_Balance a + acc_Credit a + tx_Amount (ledgerRow L op)"
        "acc_UID a1 = acc_UID a" "0 \<le> freeBalance a \<longrightarrow> 0 \<le> freeBalance a1"
        using ops(2) by metis
      with that [of a1] True ops(3) show ?thesis by (simp add: effect(4) ledgerTotal_def) (simp add: ledgerRow_def)
    next
      case False
      with that [of a] ops(3) Cons.prems(3) fundUpdate_other [of i op L "fst st"] show ?thesis
        by (simp add: effect(4) ledgerTotal_def ledgerRow_def)
    qed
    have "\<forall>(v, op)\<in>set ops. fits 16 (fop_Amount op) \<and> 0 \<le> fop_Amount op \<and> (fop_AccountID op = i \<longleftrightarrow> fop_UID op = acc_UID a1)"
      using Cons.prems(4) a1(2) by simp
    from Cons.IH [OF wf1 u1 a1(1) this] obtain a' where a': "FindByID (fst (fundOps L ops st1)) i = Some a'"
      "acc_Balance a' + acc_Credit a' - (acc_Balance a1 + acc_Credit a1) =
         ledgerTotal (acc_UID a1) (snd (fundOps L ops st1)) - ledgerTotal (acc_UID a1) (snd st1)"
      "0 \<le> freeBalance a1 \<longrightarrow> 0 \<le> freeBalance a'" "uniqueRequests (snd (fundOps L ops st1))" by blast
    have "ledgerTotal (acc_UID a) (snd st1) = ledgerTotal (acc_UID a) (snd st) + ledgerTotal (acc_UID a) [ledgerRow L op]"
      by (simp add: effect(4))
    with a' a1 r show ?thesis by (intro exI [of _ a']) (simp add: vo)
  qed
qed

lemma fund_ops_ledger_witness:
  "\<exists>a'. FindByID (fst (fundOps std_lib [(\<lambda>_. False, demoOp), (\<lambda>_. False, demoOp)] (demoAccounts, []))) 1 = Some a' \<and>
     acc_Balance a' + acc_Credit a' - 150 = ledgerTotal 7 (snd (fundOps std_lib [(\<lambda>_. False, demoOp), (\<lambda>_. False, demoOp)] (demoAccounts, [])))"
proof -
  have a: "FindByID (fst (demoAccounts, [])) 1 = Some (hd demoAccounts)" "acc_Balance (hd demoAccounts) = 100"
    "acc_Credit (hd demoAccounts) = 50" "acc_UID (hd demoAccounts) = 7"
    by (simp_all add: demoAccounts_def FindByID_def sql_first_def)
  have u: "uniqueRequests (snd (demoAccounts, []))" "wf_accounts (fst (demoAccounts, []))"
    using wf_demoAccounts by (simp_all add: uniqueRequests_def)
  from fund_ops_ledger [OF std_decimal_lib u(2,1) a(1), of "[(\<lambda>_. False, demoOp), (\<lambda>_. False, demoOp)]"] a
  show ?thesis by (auto simp: demoOp_def ledgerTotal_def)
qed

section \<open>Closing a round and the status history\<close>

lemma sql_first_id_guard:
  assumes "wf_accounts rows" "FindByID rows i = Some a"
  shows "sql_first (\<lambda>a. acc_ID a = i \<and> g a) rows = (if g a then Some a else None)"
proof (cases "g a")
  case True
  have "sql_first (\<lambda>a. acc_ID a = i \<and> g a) rows = Some a"
    using FindByID_Some [OF assms(2)] assms(1) True
    by (intro sql_first_unique) (auto simp: wf_accounts_def intro: unique_key_eq)
  with True show ?thesis by simp
next
  case False
  have "\<not> (acc_ID q = i \<and> g q)" if "q \<in> set rows" for q
    using that False FindByID_in [OF assms(1) that] assms(2) by auto
  with False show ?thesis by (simp add: sql_first_None)
qed

lemma CloseRoundIfRound_row:
  assumes "decimal_lib L" "wf_accounts rows" "FindByID rows i = Some a"
  shows "CloseRoundIfRound L i rd rows =
    (if acc_Round a = rd then
       (Some (acc_Credit a, acc_Balance a),
        sql_update (\<lambda>a. acc_ID a = i \<and> acc_Round a = rd)
          (\<lambda>a. a\<lparr> acc_Credit := 0, acc_Balance := 0, acc_IsInsured := False, acc_Round := acc_Round a + 1 \<rparr>) rows)
     else (None, rows))"
  using sql_first_id_guard [OF assms(2,3), of "\<lambda>a. acc_Round a = rd"] col_fit [OF assms(1), of 0]
  by (simp add: CloseRoundIfRound_def Let_def)

text \<open>A round is closed exactly once: the first call for the current round clears balance and
  credit, resets the insurance flag, advances the round by one and writes ledger rows that take out
  exactly what was cleared; every later call for that round, and every call for another round, reports
  false and changes nothing.\<close>
theorem CloseRound_once:
  assumes "decimal_lib L" "wf_accounts rows" "FindByUID rows u = Some a" "0 \<le> acc_Credit a"
  shows "if acc_Round a = rd then
     (\<exists>rows1 txs1. acctCloseRound L now u rd (rows, txs) = (Inr True, (rows1, txs1)) \<and>
        FindByUID rows1 u = Some (a\<lparr> acc_Credit := 0, acc_Balance := 0, acc_IsInsured := False, acc_Round := rd + 1 \<rparr>) \<and>
        ledgerTotal u txs1 = ledgerTotal u txs - (acc_Balance a + acc_Credit a) \<and>
        acctCloseRound L later u rd (rows1, txs1) = (Inr False, (rows1, txs1)))
   else acctCloseRound L now u rd (rows, txs) = (Inr False, (rows, txs))"
proof -
  have id: "FindByID rows (acc_ID a) = Some a" by (rule FindByUID_ID [OF assms(2,3)])
  have uid: "acc_UID a = u" using FindByUID_Some [OF assms(3)] by simp
  note w = wf_accountsD [OF assms(2) id]
  note row = CloseRoundIfRound_row [OF assms(1,2) id, of rd]
  show ?thesis
  proof (cases "acc_Round a = rd")
    case False
    with row assms(3) show ?thesis by (simp add: acctCloseRound_def)
  next
    case True
    define f where "f = (\<lambda>a. a\<lparr> acc_Credit := 0, acc_Balance := 0, acc_IsInsured := False, acc_Round := acc_Round a + 1 \<rparr> :: Account)"
    define rows1 where "rows1 = sql_update (\<lambda>q. acc_ID q = acc_ID a \<and> acc_Round q = rd) f rows"
    define txs1 where "txs1 = (let t = (if 0 < acc_Credit a then txInsert L u ''USDT'' TxRoundClose (- acc_Credit a) now txs else txs) in
       if acc_Balance a \<noteq> 0 then txInsert L u ''USDT'' TxRoundClose (- acc_Balance a) now t else t)"
    have run: "acctCloseRound L now u rd (rows, txs) = (Inr True, (rows1, txs1))"
      using row True assms(3) by (simp add: acctCloseRound_def rows1_def f_def txs1_def Let_def)
    have wf1: "wf_accounts (rows1)"
      unfolding rows1_def by (rule wf_accounts_update [OF assms(2)]) (simp_all add: f_def fits_row_def)
    have new: "FindByUID (rows1) u = Some (f a)"
      unfolding rows1_def by (subst FindByUID_update) (simp_all add: f_def assms(3) True)
    have ledger: "ledgerTotal u txs1 = ledgerTotal u txs - (acc_Balance a + acc_Credit a)"
    proof -
      have "col L (- acc_Credit a) = - acc_Credit a" "col L (- acc_Balance a) = - acc_Balance a"
        using w by (auto intro!: col_fit [OF assms(1)])
      thus ?thesis using assms(4) by (auto simp: txs1_def Let_def txInsert_def) (simp_all add: ledgerTotal_def)
    qed
    have id1: "FindByID (rows1) (acc_ID (f a)) = Some (f a)" by (rule FindByUID_ID [OF wf1 new])
    have "acctCloseRound L later u rd (rows1, txs1) = (Inr False, (rows1, txs1))"
      using CloseRoundIfRound_row [OF assms(1) wf1 id1, of rd] new True by (simp add: acctCloseRound_def f_def)
    with run new ledger True show ?thesis by (simp add: f_def)
  qed
qed

lemma CloseRound_once_witness:
  "\<exists>rows1 txs1. acctCloseRound std_lib 5 7 1 (demoAccounts, []) = (Inr True, (rows1, txs1)) \<and>
     ledgerTotal 7 txs1 = - 150 \<and> acctCloseRound std_lib 6 7 1 (rows1, txs1) = (Inr False, (rows1, txs1))"
proof -
  have a: "FindByUID demoAccounts 7 = Some (hd demoAccounts)" "0 \<le> acc_Credit (hd demoAccounts)"
    "acc_Round (hd demoAccounts) = 1" "acc_Balance (hd demoAccounts) + acc_Credit (hd demoAccounts) = 150" "ledgerTotal 7 [] = 0"
    by (simp_all add: demoAccounts_def FindByUID_def sql_first_def ledgerTotal_def)
  from CloseRound_once [OF std_decimal_lib wf_demoAccounts a(1,2), of 1 5 "[]" 6] a(3-5)
  show ?thesis by auto
qed

text \<open>The history of one user is a chain of real changes that ends in the current status.\<close>

definition chain :: "AccountStatus \<Rightarrow> StatusHistory list \<Rightarrow> AccountStatus \<Rightarrow> bool" where
  "chain start hs finish \<longleftrightarrow>
     (\<forall>h\<in>set hs. sh_From h \<noteq> sh_To h) \<and>
     (\<forall>n < length hs. sh_From (hs ! n) = (if n = 0 then start else sh_To (hs ! (n - 1)))) \<and>
     finish = (if hs = [] then start else sh_To (last hs))"

lemma chain_snoc:
  assumes "chain start hs mid" "sh_From h = mid" "sh_From h \<noteq> sh_To h"
  shows "chain start (hs @ [h]) (sh_To h)"
  using assms unfolding chain_def by (auto simp: nth_append last_conv_nth less_Suc_eq)

lemma SetStatus_chain:
  assumes "FindByUID rows u = Some a" "chain start (filter (\<lambda>h. sh_UID h = u) hist) (acc_Status a)"
    and "SetStatus u to reason operator now (rows, hist) = (Inr (from, changed), (rows', hist'))"
  shows "from = acc_Status a \<and> changed = (from \<noteq> to) \<and> FindStatus rows' u = Some to \<and>
    chain start (filter (\<lambda>h. sh_UID h = u) hist') to"
proof (cases "acc_Status a = to")
  case True
  with assms show ?thesis by (simp add: SetStatus_def FindStatus_def)
next
  case False
  have "acc_UID a = u" using FindByUID_Some [OF assms(1)] by simp
  with False assms chain_snoc [OF assms(2), of "\<lparr> sh_UID = u, sh_From = acc_Status a, sh_To = to, sh_Reason = reason,
                           sh_Operator = operator, sh_CreateTime = now \<rparr>"]
  show ?thesis by (auto simp: SetStatus_def FindStatus_def FindByUID_update)
qed

end
