(* ===== verification/PositionProps.thy ===== *)
theory PositionProps
  imports Positions AccountProps
begin

text \<open>
  Correctness of the position component: the optimistic loops are linearizable against the
  interference their WHERE clause can see, what an opening and a closing fill do to a position and its
  locked margin, the life cycle of a position's status, the choice of the margin tier and the
  liquidation price.
\<close>

section \<open>The table and its keys\<close>

definition wf_positions :: "Position list \<Rightarrow> bool" where
  "wf_positions rows \<longleftrightarrow> distinct (map pos_ID rows) \<and> distinct (map posKey rows)"

text \<open>What the WHERE clause of an opening or closing round cannot see stays put: a row keeps its key,
  and with equal volume and margins it has the same entry price.\<close>

definition visibleChange :: "Position list \<Rightarrow> Position list \<Rightarrow> bool" where
  "visibleChange s s' \<longleftrightarrow>
     (\<forall>p\<in>set s. \<forall>q\<in>set s'. pos_ID p = pos_ID q \<longrightarrow>
        posKey p = posKey q \<and>
        (pos_Volume p = pos_Volume q \<and> pos_PositionMargin p = pos_PositionMargin q \<and>
         pos_CreditMargin p = pos_CreditMargin q \<longrightarrow> pos_AvgEntryPrice p = pos_AvgEntryPrice q))"

lemma Find_Some: "Find rows u s sd = Some p \<Longrightarrow> p \<in> set rows \<and> posKey p = (u, s, sd)"
  by (auto simp: Find_def dest: sql_first_Some)

lemma Find_in: "wf_positions rows \<Longrightarrow> p \<in> set rows \<Longrightarrow> posKey p = (u, s, sd) \<Longrightarrow> Find rows u s sd = Some p"
  unfolding Find_def wf_positions_def by (rule sql_first_key) auto

lemma position_id_eq: "wf_positions rows \<Longrightarrow> p \<in> set rows \<Longrightarrow> q \<in> set rows \<Longrightarrow> pos_ID p = pos_ID q \<Longrightarrow> p = q"
  unfolding wf_positions_def by (auto intro: unique_key_eq)

text \<open>The row a matching write met is the row another read of that table finds.\<close>

lemma cas_row:
  assumes "wf_positions s'" "visibleChange s s'" "Find s u sy sd = Some p" "q \<in> set s'" "pos_ID q = pos_ID p"
  shows "Find s' u sy sd = Some q"
  using assms Find_Some [OF assms(3)] unfolding visibleChange_def by (intro Find_in) force+

lemma openAttempt_sound:
  assumes "wf_positions s" "wf_positions s'" "visibleChange s s'"
    and "openAttempt L u sy sd v p m c lev t s s' = Some (r, s'')"
  shows "openAttempt L u sy sd v p m c lev t s' s' = Some (r, s'') \<or>
    (s'' = s' \<and> openAttempt L u sy sd v p m c lev t s s = Some (r, s))"
proof (cases "Find s u sy sd")
  case None
  with assms(4) show ?thesis by (auto simp: openAttempt_def split: if_splits)
next
  case (Some e)
  show ?thesis
  proof (cases "pos_Volume e + v = 0")
    case True
    with Some assms(4) show ?thesis by (simp add: openAttempt_def)
  next
    case False
    with Some assms(4) obtain q where q: "q \<in> set s'" "pos_ID q = pos_ID e" "pos_Volume q = pos_Volume e"
      "pos_PositionMargin q = pos_PositionMargin e" "pos_CreditMargin q = pos_CreditMargin e"
      by (auto simp: openAttempt_def sql_exec_eq Let_def split: if_splits)
    moreover have "pos_AvgEntryPrice q = pos_AvgEntryPrice e"
      using assms(3) Find_Some [OF Some] q unfolding visibleChange_def by metis
    ultimately show ?thesis
      using False Some assms(4) cas_row [OF assms(2,3) Some q(1,2)] by (simp add: openAttempt_def)
  qed
qed

lemma openAttempt_progress: "openAttempt L u sy sd v p m c lev t s s \<noteq> None"
proof (cases "Find s u sy sd")
  case (Some e)
  with Find_Some [OF Some] show ?thesis
    by (cases "pos_Volume e + v = 0") (auto simp: openAttempt_def sql_exec_eq Let_def)
qed (simp add: openAttempt_def)

lemma closeAttempt_sound:
  assumes "wf_positions s" "wf_positions s'" "visibleChange s s'"
    and "closeAttempt L u sy sd v p t s s' = Some (r, s'')"
  shows "closeAttempt L u sy sd v p t s' s' = Some (r, s'') \<or>
    (s'' = s' \<and> closeAttempt L u sy sd v p t s s = Some (r, s))"
proof (cases "Find s u sy sd")
  case None
  with assms(4) show ?thesis by (auto simp: closeAttempt_def)
next
  case (Some e)
  show ?thesis
  proof (cases "pos_Volume e \<le> 0")
    case True
    with Some assms(4) show ?thesis by (simp add: closeAttempt_def)
  next
    case False
    with Some assms(4) obtain q where q: "q \<in> set s'" "pos_ID q = pos_ID e" "pos_Volume q = pos_Volume e"
      "pos_PositionMargin q = pos_PositionMargin e" "pos_CreditMargin q = pos_CreditMargin e" "pos_Status q = pos_Status e"
      by (auto simp: closeAttempt_def sql_exec_eq Let_def split: if_splits)
    have avg: "pos_AvgEntryPrice q = pos_AvgEntryPrice e"
      using assms(3) Find_Some [OF Some] q unfolding visibleChange_def by metis
    have f: "closeFillOf L sd v p q = closeFillOf L sd v p e"
      unfolding closeFillOf_def q(3) q(4) q(5) avg ..
    have g: "closedRow L x t q = closedRow L x t e" for x
      by (rule ext) (simp add: closedRow_def q)
    show ?thesis
      using False Some assms(4) cas_row [OF assms(2,3) Some q(1,2)] q
      by (simp add: closeAttempt_def f g)
  qed
qed

lemma closeAttempt_progress: "closeAttempt L u sy sd v p t s s \<noteq> None"
proof (cases "Find s u sy sd")
  case (Some e)
  with Find_Some [OF Some] show ?thesis by (auto simp: closeAttempt_def sql_exec_eq Let_def)
qed (simp add: closeAttempt_def)

interpretation open_fill: optimistic "openAttempt L u sy sd v p m c lev t" wf_positions visibleChange
  for L u sy sd v p m c lev t
  by unfold_locales (use openAttempt_sound in blast, rule openAttempt_progress)

interpretation close_fill: optimistic "closeAttempt L u sy sd v p t" wf_positions visibleChange
  for L u sy sd v p t
  by unfold_locales (use closeAttempt_sound in blast, rule closeAttempt_progress)

section \<open>What the operations do to the table\<close>

lemma ApplyCloseFill_cases:
  "ApplyCloseFill L u sy sd v p t s =
     (case Find s u sy sd of
        None \<Rightarrow> (noCloseFill, s)
      | Some q \<Rightarrow>
          if pos_Volume q \<le> 0 then (noCloseFill, s)
          else (closeFillOf L sd v p q,
                sql_update (\<lambda>x. pos_ID x = pos_ID q \<and> (pos_Volume x = pos_Volume q \<and>
                       pos_PositionMargin x = pos_PositionMargin q \<and> pos_CreditMargin x = pos_CreditMargin q \<and>
                       pos_Status x = pos_Status q)) (closedRow L (closeFillOf L sd v p q) t q) s))"
proof (cases "Find s u sy sd")
  case (Some q)
  with Find_Some [OF Some] show ?thesis
    by (auto simp: ApplyCloseFill_def closeAttempt_def sql_exec_eq Let_def)
qed (simp add: ApplyCloseFill_def closeAttempt_def)

lemma closedRow_keeps [simp]:
  "pos_ID (closedRow L r t q x) = pos_ID x" "posKey (closedRow L r t q x) = posKey x"
  "pos_AvgEntryPrice (closedRow L r t q x) = pos_AvgEntryPrice x"
  "pos_Leverage (closedRow L r t q x) = pos_Leverage x"
  by (simp_all add: closedRow_def posKey_def Let_def)

lemma ApplyCloseFill_wf:
  "wf_positions s \<Longrightarrow> wf_positions (snd (ApplyCloseFill L u sy sd v p t s))"
  by (auto simp: ApplyCloseFill_cases wf_positions_def map_sql_update split: option.splits)

lemma visibleChange_refl: "wf_positions s \<Longrightarrow> visibleChange s s"
  unfolding visibleChange_def by (metis position_id_eq)

lemma visibleChange_append:
  assumes "wf_positions s" "pos_ID r \<notin> pos_ID ` set s"
  shows "visibleChange s (s @ [r])"
  unfolding visibleChange_def
proof (intro ballI impI)
  fix x y assume x: "x \<in> set s" and y: "y \<in> set (s @ [r])" and i: "pos_ID x = pos_ID y"
  with assms(2) have "y \<in> set s" by (auto simp: rev_image_eqI)
  with position_id_eq [OF assms(1) x] i have "x = y" by simp
  thus "posKey x = posKey y \<and> (pos_Volume x = pos_Volume y \<and> pos_PositionMargin x = pos_PositionMargin y \<and>
      pos_CreditMargin x = pos_CreditMargin y \<longrightarrow> pos_AvgEntryPrice x = pos_AvgEntryPrice y)" by simp
qed

lemma visibleChange_update:
  assumes "wf_positions s"
    and "\<And>x. x \<in> set s \<Longrightarrow> g x \<Longrightarrow> pos_ID (f x) = pos_ID x \<and> posKey (f x) = posKey x \<and>
      (pos_Volume (f x) \<noteq> pos_Volume x \<or> pos_AvgEntryPrice (f x) = pos_AvgEntryPrice x)"
  shows "visibleChange s (sql_update g f s)"
  unfolding visibleChange_def
proof (intro ballI impI)
  fix x y assume x: "x \<in> set s" and y: "y \<in> set (sql_update g f s)" and i: "pos_ID x = pos_ID y"
  from y obtain z where z: "z \<in> set s" "y = (if g z then f z else z)" by (auto simp: sql_update_def)
  note f = assms(2) [OF z(1)]
  from i z(2) f have "pos_ID x = pos_ID z" by (cases "g z") auto
  with position_id_eq [OF assms(1) x z(1)] have "x = z" by simp
  with z(2) f show "posKey x = posKey y \<and> (pos_Volume x = pos_Volume y \<and> pos_PositionMargin x = pos_PositionMargin y \<and>
      pos_CreditMargin x = pos_CreditMargin y \<longrightarrow> pos_AvgEntryPrice x = pos_AvgEntryPrice y)"
    by (cases "g z") auto
qed

text \<open>A closing fill of another session is interference the loop detects.\<close>

lemma ApplyCloseFill_visible: "wf_positions s \<Longrightarrow> visibleChange s (snd (ApplyCloseFill L u sy sd v p t s))"
  by (auto simp: ApplyCloseFill_cases visibleChange_refl intro!: visibleChange_update split: option.splits)

lemma ApplyOpenFill_cases:
  "ApplyOpenFill L u sy sd v p m c lev t s =
     (case Find s u sy sd of
        None \<Rightarrow> (Inr (), s @ [openRow L (Suc (fold max (map pos_ID s) 0)) u sy sd v p m c lev t])
      | Some q \<Rightarrow>
          if pos_Volume q + v = 0 then (Inl PanicDivisionByZero, s)
          else (Inr (), sql_update (\<lambda>x. pos_ID x = pos_ID q \<and> (pos_Volume x = pos_Volume q \<and>
                          pos_PositionMargin x = pos_PositionMargin q \<and> pos_CreditMargin x = pos_CreditMargin q))
                  (\<lambda>x. x\<lparr> pos_Volume := col L (pos_Volume q + v),
                     pos_AvgEntryPrice := price_col L (lib_Div L (pos_AvgEntryPrice q * pos_Volume q + p * v) (pos_Volume q + v)),
                     pos_PositionMargin := col L (pos_PositionMargin q + m),
                     pos_CreditMargin := col L (pos_CreditMargin q + c),
                     pos_Leverage := lev, pos_Status := PositionStatusNormal, pos_UpdateTime := t \<rparr>) s))"
proof (cases "Find s u sy sd")
  case (Some q)
  with Find_Some [OF Some] show ?thesis
    by (auto simp: ApplyOpenFill_def openAttempt_def sql_exec_eq Let_def)
qed (simp add: ApplyOpenFill_def openAttempt_def)

lemma new_position_id: "Suc (fold max (map pos_ID s) 0) \<notin> pos_ID ` set s"
  using fold_max_ge [of _ "map pos_ID s" 0] by fastforce

lemma ApplyOpenFill_wf:
  assumes "wf_positions s"
  shows "wf_positions (snd (ApplyOpenFill L u sy sd v p m c lev t s))"
proof (cases "Find s u sy sd")
  case None
  hence "(u, sy, sd) \<notin> posKey ` set s" by (auto simp: Find_def sql_first_None)
  with None assms new_position_id [of s] show ?thesis
    by (auto simp: ApplyOpenFill_cases wf_positions_def openRow_def posKey_def)
next
  case (Some q)
  with assms show ?thesis by (auto simp: ApplyOpenFill_cases wf_positions_def map_sql_update posKey_def)
qed

text \<open>So is an opening fill of positive volume.\<close>

lemma ApplyOpenFill_visible:
  assumes "wf_positions s" "decimal_lib L" "fits 16 v" "0 < v" "\<forall>q\<in>set s. fits 16 (pos_Volume q)"
  shows "visibleChange s (snd (ApplyOpenFill L u sy sd v p m c lev t s))"
proof (cases "Find s u sy sd")
  case None
  have "visibleChange s (s @ [openRow L (Suc (fold max (map pos_ID s) 0)) u sy sd v p m c lev t])"
    by (rule visibleChange_append [OF assms(1)]) (use new_position_id [of s] in \<open>simp add: openRow_def\<close>)
  with None show ?thesis by (simp add: ApplyOpenFill_cases)
next
  case (Some q)
  hence "fits 16 (pos_Volume q)" using Find_Some assms(5) by blast
  with assms(2-4) have grown: "col L (pos_Volume q + v) \<noteq> pos_Volume q" by (simp add: col_fit fits_add)
  show ?thesis
  proof (cases "pos_Volume q + v = 0")
    case True
    with Some visibleChange_refl [OF assms(1)] show ?thesis by (simp add: ApplyOpenFill_cases)
  next
    case False
    with Some grown show ?thesis
      by (auto simp: ApplyOpenFill_cases posKey_def intro!: visibleChange_update [OF assms(1)])
  qed
qed

section \<open>Properties\<close>


definition demoPosition :: Position where
  "demoPosition =
     \<lparr> pos_ID = 4, pos_UID = 1, pos_Symbol = ''BTCUSDT'', pos_Side = SideLong, pos_Volume = 3,
       pos_AvgEntryPrice = 100, pos_PositionMargin = 30, pos_CreditMargin = 6, pos_Leverage = 10,
       pos_Status = PositionStatusNormal, pos_Version = 0, pos_UpdateTime = 0 \<rparr>"

lemma wf_demoPosition: "wf_positions [demoPosition]"
  by (simp add: wf_positions_def)

text \<open>Another session closes one contract during the first round; this one then closes the remaining
  two in its second round.\<close>

definition demoInterference :: "nat \<Rightarrow> Position list \<Rightarrow> Position list" where
  "demoInterference n s = (if n = 1 then snd (ApplyCloseFill std_lib 1 ''BTCUSDT'' SideLong 1 110 7 s) else s)"

lemma demoInterference_ok:
  "wf_positions s \<Longrightarrow> wf_positions (demoInterference n s) \<and> visibleChange s (demoInterference n s)"
  by (auto simp: demoInterference_def ApplyCloseFill_wf ApplyCloseFill_visible visibleChange_refl)


text \<open>What the row of a matching key is after an UPDATE by primary key of that row.\<close>

lemma Find_update:
  assumes "wf_positions s" "Find s u sy sd = Some q" "g q" "\<And>x. g x \<Longrightarrow> pos_ID x = pos_ID q"
    "\<And>x. posKey (f x) = posKey x"
  shows "Find (sql_update g f s) u sy sd = Some (f q)"
    and "\<And>x. x \<in> set s \<Longrightarrow> pos_ID x \<noteq> pos_ID q \<Longrightarrow> x \<in> set (sql_update g f s)"
proof -
  show "Find (sql_update g f s) u sy sd = Some (f q)"
    using assms(2,3) unfolding Find_def by (subst sql_first_update) (simp_all add: assms(5))
  show "\<And>x. x \<in> set s \<Longrightarrow> pos_ID x \<noteq> pos_ID q \<Longrightarrow> x \<in> set (sql_update g f s)"
    using assms(4) unfolding sql_update_def by (auto simp: image_iff)
qed

text \<open>A position whose stored amounts fit their columns and whose credit part is within its margin.\<close>

definition okPosition :: "Position \<Rightarrow> bool" where
  "okPosition q \<longleftrightarrow> fits 16 (pos_Volume q) \<and> fits 16 (pos_PositionMargin q) \<and> fits 16 (pos_CreditMargin q) \<and>
     fits 8 (pos_AvgEntryPrice q) \<and> 0 \<le> pos_Volume q \<and> 0 \<le> pos_CreditMargin q \<and>
     pos_CreditMargin q \<le> pos_PositionMargin q"

lemma close_fill_at:
  assumes "wf_positions s" "Find s u sy sd = Some q" "0 < pos_Volume q"
  shows "fst (ApplyCloseFill L u sy sd v p t s) = closeFillOf L sd v p q"
    and "Find (snd (ApplyCloseFill L u sy sd v p t s)) u sy sd = Some (closedRow L (closeFillOf L sd v p q) t q q)"
    and "set s - {q} \<subseteq> set (snd (ApplyCloseFill L u sy sd v p t s))"
proof -
  define g where "g = (\<lambda>x :: Position. pos_ID x = pos_ID q \<and> (pos_Volume x = pos_Volume q \<and>
      pos_PositionMargin x = pos_PositionMargin q \<and> pos_CreditMargin x = pos_CreditMargin q \<and> pos_Status x = pos_Status q))"
  define f where "f = closedRow L (closeFillOf L sd v p q) t q"
  have run: "ApplyCloseFill L u sy sd v p t s = (closeFillOf L sd v p q, sql_update g f s)"
    using assms(2,3) by (simp add: ApplyCloseFill_cases g_def f_def)
  note row = Find_update [OF assms(1,2), of g f]
  show "fst (ApplyCloseFill L u sy sd v p t s) = closeFillOf L sd v p q" by (simp add: run)
  show "Find (snd (ApplyCloseFill L u sy sd v p t s)) u sy sd = Some (closedRow L (closeFillOf L sd v p q) t q q)"
    unfolding run snd_conv f_def [symmetric] by (rule row(1)) (simp_all add: g_def f_def)
  show "set s - {q} \<subseteq> set (snd (ApplyCloseFill L u sy sd v p t s))"
  proof
    fix x assume x: "x \<in> set s - {q}"
    hence "pos_ID x \<noteq> pos_ID q" using position_id_eq [OF assms(1), of x q] Find_Some [OF assms(2)] by blast
    with x show "x \<in> set (snd (ApplyCloseFill L u sy sd v p t s))"
      unfolding run snd_conv by (intro row(2)) (simp_all add: g_def f_def)
  qed
qed

text \<open>The amounts a closing fill computes from an ordered row, and the row it leaves.\<close>

lemma close_fill_amounts:
  fixes p :: dec and t :: int
  assumes "decimal_lib L" "okPosition q" "0 < pos_Volume q" "0 < v" "fits 16 v" "pos_Side q = sd"
  defines "r \<equiv> closeFillOf L sd v p q"
  defines "q' \<equiv> closedRow L r t q q"
  shows "cf_CloseVolume r = min v (pos_Volume q)" "pos_Volume q' = pos_Volume q - cf_CloseVolume r"
    "cf_RealizedPnl r + UnrealizedPnl q' p = UnrealizedPnl q p"
    "pos_PositionMargin q' + cf_ReleasedMargin r = pos_PositionMargin q"
    "pos_CreditMargin q' + cf_ReleasedCreditMargin r = pos_CreditMargin q"
    "0 \<le> cf_ReleasedCreditMargin r" "cf_ReleasedCreditMargin r \<le> cf_ReleasedMargin r"
    "pos_Status q' = (if v < pos_Volume q then pos_Status q else PositionStatusClosed)"
    "fits 16 (cf_ReleasedMargin r)" "fits 16 (cf_ReleasedCreditMargin r)"
proof -
  let ?x = "min v (pos_Volume q)" and ?M = "pos_PositionMargin q" and ?C = "pos_CreditMargin q" and ?V = "pos_Volume q"
  let ?m = "lib_Div L (?M * ?x) ?V" and ?c = "lib_Div L (?C * ?x) ?V"
  have f: "cf_CloseVolume r = ?x" "cf_ReleasedMargin r = ?m" "cf_ReleasedCreditMargin r = ?c"
    "cf_RealizedPnl r = (if sd = SideLong then p - pos_AvgEntryPrice q else pos_AvgEntryPrice q - p) * ?x"
    using assms(3) by (simp_all add: r_def closeFillOf_def Let_def)
  have b: "0 \<le> ?c \<and> ?c \<le> ?m \<and> ?m \<le> ?M \<and> fits 16 ?c \<and> fits 16 ?m"
    using assms(2-4) by (intro decimal_lib.share_bounds [OF assms(1)]) (auto simp: okPosition_def)
  have q': "q' = (if v < ?V then q\<lparr> pos_Volume := ?V - v, pos_PositionMargin := ?M - ?m, pos_CreditMargin := ?C - ?c, pos_UpdateTime := t \<rparr>
      else q\<lparr> pos_Volume := 0, pos_PositionMargin := 0, pos_CreditMargin := 0, pos_Status := PositionStatusClosed, pos_UpdateTime := t \<rparr>)"
  proof (cases "v < ?V")
    case True
    have "fits 16 (?V - v)" "fits 16 (?M - ?m)" "fits 16 (?C - ?c)"
      using b assms(2-5) True by (auto simp: okPosition_def min_def intro: fits_diff)
    with True f col_fit [OF assms(1)] show ?thesis by (simp add: q'_def closedRow_def Let_def)
  qed (use f in \<open>simp add: q'_def closedRow_def Let_def min_def\<close>)
  have full: "?m = ?M" "?c = ?C" if "\<not> v < ?V"
    using decimal_lib.div_self [OF assms(1)] assms(2,3) that by (simp_all add: okPosition_def min_def)
  show "cf_CloseVolume r = ?x" "0 \<le> cf_ReleasedCreditMargin r" "cf_ReleasedCreditMargin r \<le> cf_ReleasedMargin r"
    "fits 16 (cf_ReleasedMargin r)" "fits 16 (cf_ReleasedCreditMargin r)" using f b by simp_all
  show "pos_Volume q' = ?V - cf_CloseVolume r" "pos_Status q' = (if v < ?V then pos_Status q else PositionStatusClosed)"
    "pos_PositionMargin q' + cf_ReleasedMargin r = ?M" "pos_CreditMargin q' + cf_ReleasedCreditMargin r = ?C"
    using f b full by (simp_all add: q')
  show "cf_RealizedPnl r + UnrealizedPnl q' p = UnrealizedPnl q p"
    using f assms(6) by (auto simp: q' UnrealizedPnl_def min_def algebra_simps)
qed

text \<open>A closing fill settles exactly. It closes the smaller of the deal and the position; the realized
  profit or loss is what the closed part was worth at the deal price, so realized plus remaining
  unrealized equals the unrealized result before; the margin that stays and the margin released add
  up to the margin before, digit for digit, and so do their credit parts, with the released credit
  part within the released margin; entry price and leverage stay; a partial close keeps the status, a
  full close releases everything and ends in status closed; no other position is touched.\<close>

theorem ApplyCloseFill_settles:
  assumes "decimal_lib L" "wf_positions s" "Find s u sy sd = Some q" "okPosition q" "0 < pos_Volume q" "0 < v" "fits 16 v"
    and "ApplyCloseFill L u sy sd v p t s = (r, s')"
  shows "\<exists>q'. Find s' u sy sd = Some q' \<and> cf_CloseVolume r = min v (pos_Volume q) \<and>
    pos_Volume q' = pos_Volume q - cf_CloseVolume r \<and>
    cf_RealizedPnl r + UnrealizedPnl q' p = UnrealizedPnl q p \<and>
    pos_PositionMargin q' + cf_ReleasedMargin r = pos_PositionMargin q \<and>
    pos_CreditMargin q' + cf_ReleasedCreditMargin r = pos_CreditMargin q \<and>
    0 \<le> cf_ReleasedCreditMargin r \<and> cf_ReleasedCreditMargin r \<le> cf_ReleasedMargin r \<and>
    pos_AvgEntryPrice q' = pos_AvgEntryPrice q \<and> pos_Leverage q' = pos_Leverage q \<and>
    pos_Status q' = (if v < pos_Volume q then pos_Status q else PositionStatusClosed) \<and>
    set s - {q} \<subseteq> set s'"
proof -
  have r: "r = closeFillOf L sd v p q" and s': "s' = snd (ApplyCloseFill L u sy sd v p t s)"
    using close_fill_at(1) [OF assms(2,3,5)] assms(8) by (metis fst_conv, simp)
  have sd: "pos_Side q = sd" using Find_Some [OF assms(3)] by (simp add: posKey_def)
  show ?thesis
    using close_fill_at(2,3) [OF assms(2,3,5), of L v p t] close_fill_amounts [OF assms(1,4,5,6,7) sd]
    unfolding r s' by (intro exI [of _ "closedRow L (closeFillOf L sd v p q) t q q"]) simp
qed

lemma ApplyCloseFill_settles_witness:
  "\<exists>r s' q'. ApplyCloseFill std_lib 1 ''BTCUSDT'' SideLong 2 110 9 [demoPosition] = (r, s') \<and>
     cf_CloseVolume r = 2 \<and> Find s' 1 ''BTCUSDT'' SideLong = Some q' \<and> pos_Volume q' = 1 \<and>
     cf_RealizedPnl r + UnrealizedPnl q' 110 = 30 \<and> pos_Status q' = PositionStatusNormal"
proof -
  have d: "Find [demoPosition] 1 ''BTCUSDT'' SideLong = Some demoPosition" "okPosition demoPosition" "0 < pos_Volume demoPosition"
    "min 2 (pos_Volume demoPosition) = 2" "pos_Volume demoPosition = 3" "pos_Status demoPosition = PositionStatusNormal"
    "UnrealizedPnl demoPosition 110 = 30"
    by (simp_all add: demoPosition_def Find_def sql_first_def posKey_def okPosition_def UnrealizedPnl_def)
  obtain r s' where rs: "ApplyCloseFill std_lib 1 ''BTCUSDT'' SideLong 2 110 9 [demoPosition] = (r, s')" by force
  from ApplyCloseFill_settles [OF std_decimal_lib wf_demoPosition d(1-3) _ _ rs] d rs show ?thesis by auto
qed

text \<open>The price of a position after a deal: the weighted average, rounded at 16 and then at 8 digits.\<close>

lemma mixed_price:
  assumes "decimal_lib L" "0 \<le> V" "0 < v" "fits 8 A" "fits 8 p"
  defines "d \<equiv> lib_Div L (A * V + p * v) (V + v)"
  shows "fits 8 (price_col L d) \<and> min A p \<le> price_col L d \<and> price_col L d \<le> max A p \<and> (V = 0 \<longrightarrow> price_col L d = p) \<and>
    \<bar>price_col L d * (V + v) - (A * V + p * v)\<bar> \<le> (1 / (2 * 10 ^ 16) + 1 / (2 * 10 ^ 8)) * (V + v)"
proof -
  have f16: "fits 16 A" "fits 16 p" using assms(4,5) by (auto intro: fits_mono)
  have pos: "0 < V + v" using assms by simp
  have lo: "min A p * (V + v) \<le> A * V + p * v"
    using assms(2,3) by (auto simp: distrib_left intro!: add_mono mult_right_mono)
  have hi: "A * V + p * v \<le> max A p * (V + v)"
    using assms(2,3) by (auto simp: distrib_left intro!: add_mono mult_right_mono)
  have "min A p \<le> d" unfolding d_def by (rule decimal_lib.div_ge_fits [OF assms(1) pos _ lo]) (use f16 in auto)
  moreover have "d \<le> max A p" unfolding d_def by (rule decimal_lib.div_le_fits [OF assms(1) pos _ hi]) (use f16 in auto)
  ultimately have "price_col L (min A p) \<le> price_col L d" "price_col L d \<le> price_col L (max A p)"
    by (auto simp: price_col_def intro: decimal_lib.col_mono [OF assms(1)])
  moreover have "price_col L (min A p) = min A p" "price_col L (max A p) = max A p"
    using assms(4,5) by (auto simp: price_col_def intro!: decimal_lib.col_id [OF assms(1)])
  moreover have "V = 0 \<longrightarrow> price_col L d = p"
    using decimal_lib.div_self [OF assms(1), of v p] f16 assms(3,5) decimal_lib.col_id [OF assms(1), of 8 p]
    by (auto simp: d_def price_col_def)
  moreover have "\<bar>price_col L d * (V + v) - (A * V + p * v)\<bar> \<le> (1 / (2 * 10 ^ 16) + 1 / (2 * 10 ^ 8)) * (V + v)"
  proof -
    let ?e = "(A * V + p * v) / (V + v)"
    have "\<bar>price_col L d - d\<bar> \<le> 1 / (2 * 10 ^ 8)" unfolding price_col_def by (rule decimal_lib.col_near [OF assms(1)])
    moreover have "\<bar>d - ?e\<bar> \<le> 1 / (2 * 10 ^ 16)"
      unfolding d_def by (rule decimal_lib.div_near [OF assms(1)]) (use pos in simp)
    ultimately have "\<bar>price_col L d - ?e\<bar> \<le> 1 / (2 * 10 ^ 16) + 1 / (2 * 10 ^ 8)" by linarith
    hence "\<bar>price_col L d - ?e\<bar> * (V + v) \<le> (1 / (2 * 10 ^ 16) + 1 / (2 * 10 ^ 8)) * (V + v)"
      using pos by (intro mult_right_mono) simp_all
    moreover have "\<bar>price_col L d - ?e\<bar> * (V + v) = \<bar>price_col L d * (V + v) - (A * V + p * v)\<bar>"
      using pos by (simp add: abs_mult_pos' field_simps flip: abs_mult)
    ultimately show ?thesis by simp
  qed
  ultimately show ?thesis using decimal_lib.col_fits [OF assms(1)] by (simp add: price_col_def)
qed

lemma open_fill_at:
  fixes lev :: nat and t :: int
  assumes "decimal_lib L" "wf_positions s" "Find s u sy sd = Some q" "okPosition q" "0 < v" "fits 16 v"
    and "fits 16 m" "fits 16 c" "0 \<le> c" "c \<le> m" "fits 8 p"
  defines "q' \<equiv> q\<lparr> pos_Volume := pos_Volume q + v,
      pos_AvgEntryPrice := price_col L (lib_Div L (pos_AvgEntryPrice q * pos_Volume q + p * v) (pos_Volume q + v)),
      pos_PositionMargin := pos_PositionMargin q + m, pos_CreditMargin := pos_CreditMargin q + c,
      pos_Leverage := lev, pos_Status := PositionStatusNormal, pos_UpdateTime := t \<rparr>"
  shows "fst (ApplyOpenFill L u sy sd v p m c lev t s) = Inr ()"
    and "Find (snd (ApplyOpenFill L u sy sd v p m c lev t s)) u sy sd = Some q'" and "okPosition q'"
proof -
  let ?V = "pos_Volume q" and ?A = "pos_AvgEntryPrice q"
  let ?d = "lib_Div L (?A * ?V + p * v) (?V + v)"
  have q: "0 \<le> ?V" "fits 16 ?V" "fits 16 (pos_PositionMargin q)" "fits 16 (pos_CreditMargin q)" "fits 8 ?A"
    "0 \<le> pos_CreditMargin q" "pos_CreditMargin q \<le> pos_PositionMargin q"
    using assms(4) by (simp_all add: okPosition_def)
  have pos: "0 < ?V + v" using q assms(5) by simp
  have cols: "col L (?V + v) = ?V + v" "col L (pos_PositionMargin q + m) = pos_PositionMargin q + m"
    "col L (pos_CreditMargin q + c) = pos_CreditMargin q + c"
    using q assms(6-8) by (auto intro!: col_fit [OF assms(1)] fits_add)
  define g where "g = (\<lambda>x :: Position. pos_ID x = pos_ID q \<and> (pos_Volume x = ?V \<and>
      pos_PositionMargin x = pos_PositionMargin q \<and> pos_CreditMargin x = pos_CreditMargin q))"
  define f where "f = (\<lambda>x. x\<lparr> pos_Volume := col L (?V + v), pos_AvgEntryPrice := price_col L ?d,
      pos_PositionMargin := col L (pos_PositionMargin q + m), pos_CreditMargin := col L (pos_CreditMargin q + c),
      pos_Leverage := lev, pos_Status := PositionStatusNormal, pos_UpdateTime := t \<rparr> :: Position)"
  have run: "ApplyOpenFill L u sy sd v p m c lev t s = (Inr (), sql_update g f s)"
    using assms(3) pos by (simp add: ApplyOpenFill_cases g_def f_def)
  have "Find (sql_update g f s) u sy sd = Some (f q)"
    by (rule Find_update(1) [OF assms(2,3)]) (simp_all add: g_def f_def posKey_def)
  thus "Find (snd (ApplyOpenFill L u sy sd v p m c lev t s)) u sy sd = Some q'"
    by (simp add: run f_def q'_def cols)
  show "fst (ApplyOpenFill L u sy sd v p m c lev t s) = Inr ()" by (simp add: run)
  show "okPosition q'"
    using q pos mixed_price [OF assms(1) q(1) assms(5) q(5) assms(11)] assms(6-10) by (simp add: okPosition_def q'_def fits_add)
qed

text \<open>An opening fill on an existing row (open or closed) adds exactly the deal's volume, margin and
  credit part; the new entry price lies between the old one and the deal price, is the deal price when
  the row was empty, and keeps the cost of the position up to the rounding of one division and one
  column; the position is then open, with the deal's leverage, and its amounts are in order again.\<close>

theorem ApplyOpenFill_adds:
  assumes "decimal_lib L" "wf_positions s" "Find s u sy sd = Some q" "okPosition q" "0 < v" "fits 16 v"
    and "fits 16 m" "fits 16 c" "0 \<le> c" "c \<le> m" "fits 8 p"
  shows "\<exists>s' q'. ApplyOpenFill L u sy sd v p m c lev t s = (Inr (), s') \<and> Find s' u sy sd = Some q' \<and>
    okPosition q' \<and> pos_Volume q' = pos_Volume q + v \<and>
    pos_PositionMargin q' = pos_PositionMargin q + m \<and> pos_CreditMargin q' = pos_CreditMargin q + c \<and>
    min (pos_AvgEntryPrice q) p \<le> pos_AvgEntryPrice q' \<and> pos_AvgEntryPrice q' \<le> max (pos_AvgEntryPrice q) p \<and>
    (pos_Volume q = 0 \<longrightarrow> pos_AvgEntryPrice q' = p) \<and>
    \<bar>pos_AvgEntryPrice q' * pos_Volume q' - (pos_AvgEntryPrice q * pos_Volume q + p * v)\<bar>
      \<le> (1 / (2 * 10 ^ 16) + 1 / (2 * 10 ^ 8)) * pos_Volume q' \<and>
    pos_Status q' = PositionStatusNormal \<and> pos_Leverage q' = lev"
proof -
  have q: "0 \<le> pos_Volume q" "fits 8 (pos_AvgEntryPrice q)" using assms(4) by (simp_all add: okPosition_def)
  define q' where "q' = q\<lparr> pos_Volume := pos_Volume q + v,
      pos_AvgEntryPrice := price_col L (lib_Div L (pos_AvgEntryPrice q * pos_Volume q + p * v) (pos_Volume q + v)),
      pos_PositionMargin := pos_PositionMargin q + m, pos_CreditMargin := pos_CreditMargin q + c,
      pos_Leverage := lev, pos_Status := PositionStatusNormal, pos_UpdateTime := t \<rparr>"
  note at = open_fill_at [OF assms, where lev = lev and t = t, folded q'_def]
  have "ApplyOpenFill L u sy sd v p m c lev t s = (Inr (), snd (ApplyOpenFill L u sy sd v p m c lev t s))"
    using at(1) by (simp add: prod_eq_iff)
  with at(2,3) mixed_price [OF assms(1) q(1) assms(5) q(2) assms(11)] show ?thesis
    by (intro exI [of _ "snd (ApplyOpenFill L u sy sd v p m c lev t s)"] exI [of _ q'] conjI) (simp_all add: q'_def)
qed

lemma ApplyOpenFill_adds_witness:
  "\<exists>s' q'. ApplyOpenFill std_lib 1 ''BTCUSDT'' SideLong 1 104 10 0 20 9 [demoPosition] = (Inr (), s') \<and>
     Find s' 1 ''BTCUSDT'' SideLong = Some q' \<and> pos_Volume q' = 4 \<and> pos_PositionMargin q' = 40 \<and>
     100 \<le> pos_AvgEntryPrice q' \<and> pos_AvgEntryPrice q' \<le> 104"
proof -
  have d: "Find [demoPosition] 1 ''BTCUSDT'' SideLong = Some demoPosition" "okPosition demoPosition"
    "pos_Volume demoPosition = 3" "pos_PositionMargin demoPosition = 30" "pos_AvgEntryPrice demoPosition = 100"
    by (simp_all add: demoPosition_def Find_def sql_first_def posKey_def okPosition_def)
  from ApplyOpenFill_adds [OF std_decimal_lib wf_demoPosition d(1,2), of 1 10 0 104 20 9] d(3-5)
  show ?thesis by auto
qed

section \<open>The life cycle of a position's status\<close>

text \<open>Every write the repository offers, as one labelled step of the table.\<close>

datatype PositionOp =
    OpenFillOp uid symbol Side dec dec dec dec nat int
  | CloseFillOp uid symbol Side dec dec int
  | LeverageOp nat dec dec nat dec int
  | MarkOp nat
  | ClearOp nat

fun positionStep :: "dec_lib \<Rightarrow> PositionOp \<Rightarrow> Position list \<Rightarrow> Position list" where
  "positionStep L (OpenFillOp u sy sd v p m c lev t) s = snd (ApplyOpenFill L u sy sd v p m c lev t s)"
| "positionStep L (CloseFillOp u sy sd v p t) s = snd (ApplyCloseFill L u sy sd v p t s)"
| "positionStep L (LeverageOp i m c lev v t) s = snd (UpdateLeverage L i m c lev v t s)"
| "positionStep L (MarkOp i) s = snd (MarkLiquidating i s)"
| "positionStep L (ClearOp i) s = ClearLiquidating i s"

inductive position_run :: "dec_lib \<Rightarrow> Position list \<Rightarrow> PositionOp list \<Rightarrow> Position list \<Rightarrow> bool" for L where
  run_none: "position_run L s [] s"
| run_step: "position_run L (positionStep L a s) ops s' \<Longrightarrow> position_run L s (a # ops) s'"

inductive_cases position_runE: "position_run L s (a # ops) s'"

text \<open>The operations that may reopen the position with row id i and key k: an opening fill on its key
  and the explicit clearing of its mark.\<close>

fun reopens :: "nat \<Rightarrow> uid \<times> symbol \<times> Side \<Rightarrow> PositionOp \<Rightarrow> bool" where
  "reopens i k (OpenFillOp u sy sd _ _ _ _ _ _) = (k = (u, sy, sd))"
| "reopens i k (ClearOp j) = (i = j)"
| "reopens i k _ = False"

text \<open>Row i exists with key k and its position is being liquidated or closed.\<close>

definition underLiquidation :: "nat \<Rightarrow> uid \<times> symbol \<times> Side \<Rightarrow> Position list \<Rightarrow> bool" where
  "underLiquidation i k s \<longleftrightarrow> (\<exists>q\<in>set s. pos_ID q = i) \<and>
     (\<forall>q\<in>set s. pos_ID q = i \<longrightarrow> posKey q = k \<and> pos_Status q \<noteq> PositionStatusNormal)"

lemma underLiquidation_update:
  assumes "underLiquidation i k s" "\<And>x. pos_ID (f x) = pos_ID x \<and> posKey (f x) = posKey x"
    "\<And>x. x \<in> set s \<Longrightarrow> g x \<Longrightarrow> pos_ID x = i \<Longrightarrow> pos_Status (f x) \<noteq> PositionStatusNormal"
  shows "underLiquidation i k (sql_update g f s)"
  unfolding underLiquidation_def
proof (intro conjI ballI impI)
  from assms(1) obtain q where "q \<in> set s" "pos_ID q = i" unfolding underLiquidation_def by blast
  with sql_update_key_ex [of pos_ID f q s g] assms(2)
  show "\<exists>q\<in>set (sql_update g f s). pos_ID q = i" by simp
next
  fix y assume y: "y \<in> set (sql_update g f s)" and i: "pos_ID y = i"
  from y obtain x where x: "x \<in> set s" "y = (if g x then f x else x)" by (auto simp: sql_update_def)
  with i assms(2) have xi: "pos_ID x = i" by (auto split: if_splits)
  with assms(1) x(1) have "posKey x = k" "pos_Status x \<noteq> PositionStatusNormal" unfolding underLiquidation_def by blast+
  with x xi assms(2) assms(3) [OF x(1)] show "posKey y = k" "pos_Status y \<noteq> PositionStatusNormal" by auto
qed

lemma underLiquidation_mark:
  assumes "wf_positions s" "q \<in> set s" "pos_ID q = i" "\<And>x. pos_ID (f x) = pos_ID x \<and> posKey (f x) = posKey x"
    "pos_Status (if g q then f q else q) \<noteq> PositionStatusNormal"
  shows "underLiquidation i (posKey q) (sql_update g f s)"
  unfolding underLiquidation_def
proof (intro conjI ballI impI)
  from sql_update_key_ex [of pos_ID f q s g] assms(2-4)
  show "\<exists>q\<in>set (sql_update g f s). pos_ID q = i" by simp
next
  fix y assume y: "y \<in> set (sql_update g f s)" and i: "pos_ID y = i"
  from y obtain x where x: "x \<in> set s" "y = (if g x then f x else x)" by (auto simp: sql_update_def)
  with i assms(4) have "pos_ID x = i" by (auto split: if_splits)
  with position_id_eq [OF assms(1) x(1) assms(2)] assms(3) have "x = q" by simp
  with x assms(4,5) show "posKey y = posKey q" "pos_Status y \<noteq> PositionStatusNormal" by auto
qed

lemma underLiquidation_status: "underLiquidation i k s \<Longrightarrow> x \<in> set s \<Longrightarrow> pos_ID x = i \<Longrightarrow> pos_Status x \<noteq> PositionStatusNormal"
  unfolding underLiquidation_def by blast

lemma wf_positions_update:
  "wf_positions s \<Longrightarrow> (\<And>x. pos_ID (f x) = pos_ID x \<and> posKey (f x) = posKey x) \<Longrightarrow> wf_positions (sql_update g f s)"
  by (simp add: wf_positions_def map_sql_update)

lemma positionStep_wf: "wf_positions s \<Longrightarrow> wf_positions (positionStep L a s)"
  by (cases a)
    (simp_all add: ApplyOpenFill_wf ApplyCloseFill_wf UpdateLeverage_def MarkLiquidating_def ClearLiquidating_def
      wf_positions_update posKey_def)

lemma positionStep_underLiquidation:
  assumes "wf_positions s" "underLiquidation i k s" "\<not> reopens i k a"
  shows "underLiquidation i k (positionStep L a s)"
proof (cases a)
  case (OpenFillOp u sy sd v p m c lev t)
  show ?thesis
  proof (cases "Find s u sy sd")
    case None
    have "Suc (fold max (map pos_ID s) 0) \<noteq> i"
      using new_position_id [of s] assms(2) unfolding underLiquidation_def by force
    with None OpenFillOp assms(2) show ?thesis
      unfolding underLiquidation_def by (auto simp: ApplyOpenFill_cases openRow_def)
  next
    case (Some q)
    have "pos_ID q \<noteq> i" using Find_Some [OF Some] assms(2,3) OpenFillOp unfolding underLiquidation_def by auto
    with Some OpenFillOp assms(2) show ?thesis
      by (auto simp: ApplyOpenFill_cases posKey_def intro!: underLiquidation_update)
  qed
next
  case (CloseFillOp u sy sd v p t)
  have "pos_Status (closedRow L r t q x) \<noteq> PositionStatusNormal"
    if "x \<in> set s" "pos_ID x = i" "pos_Status x = pos_Status q" for r q x
    using that assms(2) unfolding underLiquidation_def by (auto simp: closedRow_def Let_def)
  with CloseFillOp assms(2) show ?thesis
    by (auto simp: ApplyCloseFill_cases intro!: underLiquidation_update split: option.splits)
next
  case (LeverageOp j m c lev v t)
  with assms(2) show ?thesis
    by (auto simp: UpdateLeverage_def posKey_def dest: underLiquidation_status intro!: underLiquidation_update)
next
  case (MarkOp j)
  with assms(2) show ?thesis by (auto simp: MarkLiquidating_def posKey_def intro!: underLiquidation_update)
next
  case (ClearOp j)
  with assms(2,3) show ?thesis by (auto simp: ClearLiquidating_def posKey_def intro!: underLiquidation_update)
qed

lemma position_run_underLiquidation:
  "position_run L s ops s' \<Longrightarrow> wf_positions s \<Longrightarrow> underLiquidation i k s \<Longrightarrow> \<forall>a\<in>set ops. \<not> reopens i k a \<Longrightarrow>
   underLiquidation i k s'"
  by (induction rule: position_run.induct) (auto simp: positionStep_wf positionStep_underLiquidation)

text \<open>The liquidation guard is exclusive. Once MarkLiquidating has succeeded on a position, it cannot
  succeed on it again after any sequence of fills, leverage changes and marks, whatever they do to the
  table, as long as the mark is not cleared and no opening fill lands on that position; in particular
  the partial closes of a liquidation in clips never release the guard.\<close>

theorem MarkLiquidating_exclusive:
  assumes "wf_positions s" "MarkLiquidating i s = (True, s1)" "position_run L s1 ops s2"
    and "q \<in> set s" "pos_ID q = i" "\<forall>a\<in>set ops. \<not> reopens i (posKey q) a"
  shows "MarkLiquidating i s2 = (False, s2)"
proof -
  have s1: "s1 = sql_update (\<lambda>p. pos_ID p = i \<and> pos_Status p = PositionStatusNormal) (\<lambda>p. p\<lparr> pos_Status := PositionStatusLiquidating \<rparr>) s"
    using assms(2) by (simp add: MarkLiquidating_def sql_exec_eq)
  have "underLiquidation i (posKey q) s1"
    unfolding s1 by (rule underLiquidation_mark [OF assms(1,4,5)]) (use assms(5) in \<open>auto simp: posKey_def\<close>)
  moreover have "wf_positions s1" using positionStep_wf [OF assms(1), of L "MarkOp i"] assms(2) by simp
  ultimately have "underLiquidation i (posKey q) s2" using position_run_underLiquidation [OF assms(3)] assms(6) by blast
  hence no: "\<not> (\<exists>r\<in>set s2. pos_ID r = i \<and> pos_Status r = PositionStatusNormal)" unfolding underLiquidation_def by blast
  hence "sql_update (\<lambda>p. pos_ID p = i \<and> pos_Status p = PositionStatusNormal)
      (\<lambda>p. p\<lparr> pos_Status := PositionStatusLiquidating \<rparr>) s2 = s2"
    by (intro sql_update_none) blast
  with no show ?thesis by (simp add: MarkLiquidating_def sql_exec_eq)
qed

lemma MarkLiquidating_exclusive_witness:
  "MarkLiquidating 4 (snd (ApplyCloseFill std_lib 1 ''BTCUSDT'' SideLong 1 90 8 (snd (MarkLiquidating 4 [demoPosition])))) =
     (False, snd (ApplyCloseFill std_lib 1 ''BTCUSDT'' SideLong 1 90 8 (snd (MarkLiquidating 4 [demoPosition]))))"
proof -
  let ?s1 = "snd (MarkLiquidating 4 [demoPosition])"
  have m: "MarkLiquidating 4 [demoPosition] = (True, ?s1)"
    by (simp add: MarkLiquidating_def sql_exec_eq demoPosition_def)
  have "position_run std_lib ?s1 [CloseFillOp 1 ''BTCUSDT'' SideLong 1 90 8] (snd (ApplyCloseFill std_lib 1 ''BTCUSDT'' SideLong 1 90 8 ?s1))"
    by (rule run_step) (simp add: run_none)
  from MarkLiquidating_exclusive [OF wf_demoPosition m this, of demoPosition] show ?thesis
    by (simp add: demoPosition_def)
qed

section \<open>Margin tiers and the liquidation price\<close>

lemma tiersMonotone_nth:
  "tiersMonotone ts \<Longrightarrow> Suc k < length ts \<Longrightarrow> tierPairOK (ts ! k) (ts ! Suc k)"
proof (induction ts arbitrary: k rule: tiersMonotone.induct)
  case (1 prev cur tiers)
  thus ?case by (cases k) auto
qed auto

text \<open>In a monotone list every limit but the last is positive and below all later limits; a later limit
  that is not positive stands for no limit.\<close>

lemma tiersMonotone_less:
  assumes "tiersMonotone ts" "i < j" "j < length ts"
  shows "0 < tier_MaxNotional (ts ! i) \<and> (0 < tier_MaxNotional (ts ! j) \<longrightarrow> tier_MaxNotional (ts ! i) < tier_MaxNotional (ts ! j))"
  using assms(2,3)
proof (induction j)
  case (Suc j)
  from tiersMonotone_nth [OF assms(1) Suc.prems(2)]
  have pair: "0 < tier_MaxNotional (ts ! j)"
    "0 < tier_MaxNotional (ts ! Suc j) \<longrightarrow> tier_MaxNotional (ts ! j) < tier_MaxNotional (ts ! Suc j)"
    by (auto simp: tierPairOK_def)
  show ?case
  proof (cases "i = j")
    case False
    with Suc have "0 < tier_MaxNotional (ts ! i) \<and> tier_MaxNotional (ts ! i) < tier_MaxNotional (ts ! j)" using pair(1) by auto
    with pair show ?thesis by auto
  qed (use pair in auto)
qed simp

text \<open>\<open>covers\<close>: the tier has no limit or its limit is at least the notional.\<close>

definition covers :: "RiskLimitTier \<Rightarrow> dec \<Rightarrow> bool" where
  "covers t notional \<longleftrightarrow> tier_MaxNotional t \<le> 0 \<or> notional \<le> tier_MaxNotional t"

lemma find_covers: "find (\<lambda>t. tier_MaxNotional t \<le> 0 \<or> n \<le> tier_MaxNotional t) ts = Some t \<longleftrightarrow>
    (\<exists>k<length ts. ts ! k = t \<and> covers t n \<and> (\<forall>j<k. \<not> covers (ts ! j) n))"
  unfolding find_Some_iff covers_def by auto

text \<open>The tier of a notional value is the tightest one that covers it, whatever the order of the
  configuration rows: it belongs to the symbol and covers the value, and every other tier of the symbol
  that covers the value has no limit or a larger one. A larger notional never gets a tighter tier. No
  tier is answered exactly when none is configured, the limits are not increasing with the tier number,
  or the value exceeds every limit.\<close>

theorem TierFor_tightest:
  shows "(\<forall>t. TierFor rows s n = Some t \<longrightarrow> t \<in> set rows \<and> tier_Symbol t = s \<and> covers t n \<and>
      (\<forall>t'\<in>set rows. tier_Symbol t' = s \<and> covers t' n \<and> t' \<noteq> t \<longrightarrow>
         0 < tier_MaxNotional t \<and> (0 < tier_MaxNotional t' \<longrightarrow> tier_MaxNotional t < tier_MaxNotional t'))) \<and>
    (TierFor rows s n = None \<longleftrightarrow> \<not> tiersMonotone (tiersBySymbol rows s) \<or>
       (\<forall>t\<in>set rows. tier_Symbol t = s \<longrightarrow> \<not> covers t n))"
proof -
  let ?ts = "tiersBySymbol rows s"
  have set: "set ?ts = {t \<in> set rows. tier_Symbol t = s}" by (auto simp: tiersBySymbol_def)
  have some: "t \<in> set rows \<and> tier_Symbol t = s \<and> covers t n \<and>
      (\<forall>t'\<in>set rows. tier_Symbol t' = s \<and> covers t' n \<and> t' \<noteq> t \<longrightarrow>
         0 < tier_MaxNotional t \<and> (0 < tier_MaxNotional t' \<longrightarrow> tier_MaxNotional t < tier_MaxNotional t'))"
    if t: "TierFor rows s n = Some t" for t
  proof -
    from t have mono: "tiersMonotone ?ts" by (auto simp: TierFor_def Let_def split: if_splits)
    from t obtain k where k: "k < length ?ts" "?ts ! k = t" "covers t n" "\<forall>j<k. \<not> covers (?ts ! j) n"
      by (auto simp: TierFor_def Let_def find_covers split: if_splits)
    hence "t \<in> set ?ts" by auto
    moreover have "0 < tier_MaxNotional t \<and> (0 < tier_MaxNotional t' \<longrightarrow> tier_MaxNotional t < tier_MaxNotional t')"
      if t': "t' \<in> set ?ts" "covers t' n" "t' \<noteq> t" for t'
    proof -
      obtain j where j: "j < length ?ts" "?ts ! j = t'" using t'(1) by (auto simp: in_set_conv_nth)
      with k t'(2,3) have "k < j" by (metis linorder_neqE_nat)
      from tiersMonotone_less [OF mono this j(1)] k(2) j(2) show ?thesis by simp
    qed
    ultimately show ?thesis using k(3) set by auto
  qed
  have "find (\<lambda>t. tier_MaxNotional t \<le> 0 \<or> n \<le> tier_MaxNotional t) ?ts = None \<longleftrightarrow> (\<forall>t\<in>set ?ts. \<not> covers t n)"
    by (auto simp: find_None_iff covers_def)
  hence "TierFor rows s n = None \<longleftrightarrow> \<not> tiersMonotone ?ts \<or> (\<forall>t\<in>set ?ts. \<not> covers t n)"
    by (auto simp: TierFor_def Let_def)
  with some show ?thesis unfolding set by auto
qed

definition demoTiers :: "RiskLimitTier list" where
  "demoTiers = map (\<lambda>(i, n, m, l). \<lparr> tier_ID = i, tier_Symbol = ''BTCUSDT'', tier_Tier = n, tier_MaxNotional = m,
      tier_MaintenanceMarginRate = 1 / 100, tier_MaintenanceAmount = 0, tier_MaxLeverage = l \<rparr>)
     [(1, 3, 0, 20), (2, 1, 1000, 100), (3, 2, 5000, 50)]"

lemma TierFor_tightest_witness:
  "map_option tier_MaxLeverage (TierFor demoTiers ''BTCUSDT'' 1000) = Some 100 \<and>
   map_option tier_MaxLeverage (TierFor demoTiers ''BTCUSDT'' 1001) = Some 50 \<and>
   map_option tier_MaxLeverage (TierFor demoTiers ''BTCUSDT'' 9000) = Some 20 \<and>
   TierFor demoTiers ''ETHUSDT'' 1 = None"
proof -
  have "\<not> covers t 1" if "t \<in> set demoTiers" "tier_Symbol t = ''ETHUSDT''" for t
    using that by (auto simp: demoTiers_def)
  with TierFor_tightest [of demoTiers "''ETHUSDT''" 1] have "TierFor demoTiers ''ETHUSDT'' 1 = None" by blast
  moreover have "map_option tier_MaxLeverage (TierFor demoTiers ''BTCUSDT'' 1000) = Some 100" by code_simp
  moreover have "map_option tier_MaxLeverage (TierFor demoTiers ''BTCUSDT'' 1001) = Some 50" by code_simp
  moreover have "map_option tier_MaxLeverage (TierFor demoTiers ''BTCUSDT'' 9000) = Some 20" by code_simp
  ultimately show ?thesis by simp
qed

text \<open>The liquidation price is where the loss of the position uses up the allowed share of the equity:
  at a positive liquidation price the unrealized result is minus that amount, up to the rounding of one
  division times the volume; while the allowed loss is positive the price lies on the losing side of the
  entry price; and for a long position it is never negative.\<close>

theorem LiquidationPrice_threshold:
  assumes "decimal_lib L" "0 < pos_Volume q" "0 \<le> lossRatio * equityBase" "0 \<le> pos_AvgEntryPrice q"
  defines "lp \<equiv> LiquidationPrice L q lossRatio equityBase"
  shows "0 \<le> lp \<and>
    (0 < lp \<longrightarrow> \<bar>UnrealizedPnl q lp + lossRatio * equityBase\<bar> \<le> pos_Volume q / (2 * 10 ^ 16)) \<and>
    (pos_Side q = SideLong \<longrightarrow> lp \<le> pos_AvgEntryPrice q) \<and>
    (pos_Side q = SideShort \<longrightarrow> pos_AvgEntryPrice q \<le> lp)"
proof -
  let ?V = "pos_Volume q" and ?E = "lossRatio * equityBase"
  let ?b = "lib_Div L ?E ?V"
  have b: "0 \<le> ?b" using decimal_lib.div_nonneg [OF assms(1) assms(3) assms(2)] .
  have "\<bar>?b - ?E / ?V\<bar> \<le> 1 / (2 * 10 ^ 16)" using decimal_lib.div_near [OF assms(1)] assms(2) by simp
  hence "\<bar>?b - ?E / ?V\<bar> * ?V \<le> 1 / (2 * 10 ^ 16) * ?V" using assms(2) by (intro mult_right_mono) simp_all
  moreover have "\<bar>?b - ?E / ?V\<bar> * ?V = \<bar>?b * ?V - ?E\<bar>"
    using assms(2) by (simp add: abs_mult_pos' field_simps flip: abs_mult)
  ultimately have near: "\<bar>?b * ?V - ?E\<bar> \<le> ?V / (2 * 10 ^ 16)" by simp
  show ?thesis
  proof (cases "pos_Side q")
    case SideLong
    hence lp: "lp = max 0 (pos_AvgEntryPrice q - ?b)" using assms(2) by (simp add: lp_def LiquidationPrice_def Let_def)
    have "UnrealizedPnl q lp + ?E = ?E - ?b * ?V" if "0 < lp"
      using that SideLong lp by (simp add: UnrealizedPnl_def max_def split: if_splits)
    with near lp b assms(4) SideLong show ?thesis by (auto simp: abs_minus_commute)
  next
    case SideShort
    hence lp: "lp = pos_AvgEntryPrice q + ?b" using assms(2) by (simp add: lp_def LiquidationPrice_def Let_def)
    have "UnrealizedPnl q lp + ?E = ?E - ?b * ?V" using SideShort lp by (simp add: UnrealizedPnl_def algebra_simps)
    with near lp b assms(4) SideShort show ?thesis by (simp add: abs_minus_commute)
  qed
qed

lemma LiquidationPrice_threshold_witness:
  "LiquidationPrice std_lib demoPosition LossRatioInsured 150 = 60 \<and> UnrealizedPnl demoPosition 60 = - 120 \<and>
   \<bar>UnrealizedPnl demoPosition 60 + LossRatioInsured * 150\<bar> \<le> pos_Volume demoPosition / (2 * 10 ^ 16)"
proof -
  have d: "LiquidationPrice std_lib demoPosition LossRatioInsured 150 = 60" by code_simp
  have "0 < pos_Volume demoPosition" "0 \<le> LossRatioInsured * 150" "0 \<le> pos_AvgEntryPrice demoPosition"
    by (simp_all add: demoPosition_def LossRatioInsured_def)
  from LiquidationPrice_threshold [OF std_decimal_lib this] d show ?thesis
    by (simp add: UnrealizedPnl_def demoPosition_def)
qed

end
