(* ===== verification/Orders.thy ===== *)
theory Orders
  imports Accounts
begin

text \<open>
  The tables of orders, conditional orders, trades and contracts with their repositories
  (src/internal/repo/order_repo.go, conditional_order_repo.go, trade_repo.go, coin_repo.go and the
  query of tx_repo.go). ApplyFill is an optimistic loop: \<open>fillAttempt\<close> is one round of it. An empty
  symbol in a query means every symbol. Limits are natural numbers; \<open>before = 0\<close> means no cursor.
\<close>

section \<open>Ordered queries\<close>

text \<open>\<open>SELECT ... WHERE p ORDER BY key DESC\<close> for a unique key.\<close>

definition newest_first :: "('r \<Rightarrow> nat) \<Rightarrow> ('r \<Rightarrow> bool) \<Rightarrow> 'r list \<Rightarrow> 'r list" where
  "newest_first key p rows = rev (sort_key key (filter p rows))"

text \<open>The page that follows the cursor \<open>before\<close>: \<open>AND key < before ORDER BY key DESC LIMIT limit\<close>.\<close>

definition page :: "('r \<Rightarrow> nat) \<Rightarrow> ('r \<Rightarrow> bool) \<Rightarrow> 'r list \<Rightarrow> nat \<Rightarrow> nat \<Rightarrow> 'r list" where
  "page key p rows limit before = take limit (newest_first key (\<lambda>r. p r \<and> (0 < before \<longrightarrow> key r < before)) rows)"

section \<open>Orders\<close>

text \<open>An insert stores every amount in its column.\<close>

definition storedOrder :: "dec_lib \<Rightarrow> Order \<Rightarrow> Order" where
  "storedOrder L o' = o'\<lparr> ord_Price := price_col L (ord_Price o'), ord_Amount := col L (ord_Amount o'),
     ord_TradedAmount := col L (ord_TradedAmount o'), ord_AvgDealPrice := price_col L (ord_AvgDealPrice o'),
     ord_FrozenMargin := col L (ord_FrozenMargin o'), ord_FrozenCredit := col L (ord_FrozenCredit o') \<rparr>"

definition ordFindByOrderID :: "Order list \<Rightarrow> nat \<Rightarrow> Order option" where
  "ordFindByOrderID rows i = sql_first (\<lambda>o'. ord_OrderID o' = i) rows"

definition ordFindByOrderIDs :: "Order list \<Rightarrow> nat list \<Rightarrow> Order list" where
  "ordFindByOrderIDs rows is = filter (\<lambda>o'. ord_OrderID o' \<in> set is) rows"

definition ordFindByRequestID :: "Order list \<Rightarrow> uid \<Rightarrow> string \<Rightarrow> Order option" where
  "ordFindByRequestID rows u rid = sql_first (\<lambda>o'. ord_UID o' = u \<and> ord_RequestID o' = Some rid) rows"

text \<open>The primary key \<open>order_id\<close> and the unique key (uid, request_id) refuse a second row; NULL request
  ids do not collide.\<close>

definition ordInsert :: "dec_lib \<Rightarrow> Order \<Rightarrow> Order list \<Rightarrow> unit res \<times> Order list" where
  "ordInsert L o' rows =
     (if ordFindByOrderID rows (ord_OrderID o') \<noteq> None \<or>
         (case ord_RequestID o' of None \<Rightarrow> False | Some rid \<Rightarrow> ordFindByRequestID rows (ord_UID o') rid \<noteq> None)
      then (Inl ErrDuplicateKey, rows)
      else (Inr (), rows @ [storedOrder L o']))"

definition ordFindActiveByUID :: "Order list \<Rightarrow> uid \<Rightarrow> symbol \<Rightarrow> Order list" where
  "ordFindActiveByUID rows u s =
     newest_first ord_OrderID (\<lambda>o'. ord_UID o' = u \<and> (s = [] \<or> ord_Symbol o' = s) \<and> ActiveOrderStatuses (ord_Status o')) rows"

text \<open>\<open>ORDER BY create_time ASC, order_id ASC\<close>.\<close>

definition FindActiveLimitOrders :: "Order list \<Rightarrow> Order list" where
  "FindActiveLimitOrders rows =
     sort_key (\<lambda>o'. ord_CreateTime o')
       (sort_key ord_OrderID (filter (\<lambda>o'. ActiveOrderStatuses (ord_Status o') \<and> ord_Type o' = OrderTypeLimit) rows))"

definition ordFindHistoryByUID :: "Order list \<Rightarrow> uid \<Rightarrow> nat \<Rightarrow> nat \<Rightarrow> Order list" where
  "ordFindHistoryByUID rows u = page ord_OrderID (\<lambda>o'. ord_UID o' = u) rows"

definition FindLiquidationsByUID :: "Order list \<Rightarrow> uid \<Rightarrow> nat \<Rightarrow> nat \<Rightarrow> Order list" where
  "FindLiquidationsByUID rows u = page ord_OrderID (\<lambda>o'. ord_UID o' = u \<and> ord_Liquidation o') rows"

definition fillAttempt ::
  "dec_lib \<Rightarrow> nat \<Rightarrow> dec \<Rightarrow> dec \<Rightarrow> OrderStatus \<Rightarrow> int \<Rightarrow> Order list \<Rightarrow> Order list \<Rightarrow> (unit \<times> Order list) option" where
  "fillAttempt L i dealVolume dealPrice newStatus updateTime seen rows =
     (case ordFindByOrderID seen i of
        None \<Rightarrow> Some ((), rows)
      | Some o' \<Rightarrow>
          let newTraded = ord_TradedAmount o' + dealVolume;
              newAvgDeal = (if 0 < newTraded
                            then lib_Div L (ord_AvgDealPrice o' * ord_TradedAmount o' + dealPrice * dealVolume) newTraded
                            else ord_AvgDealPrice o');
              (ok, rows') = sql_exec
                (\<lambda>r. ord_OrderID r = i \<and> (ord_TradedAmount r = ord_TradedAmount o' \<and> ord_AvgDealPrice r = ord_AvgDealPrice o'))
                (\<lambda>r. r\<lparr> ord_TradedAmount := col L newTraded, ord_AvgDealPrice := price_col L newAvgDeal,
                        ord_Status := newStatus, ord_UpdateTime := updateTime \<rparr>) rows
          in if ok then Some ((), rows') else None)"

definition ApplyFill_loop where
  "ApplyFill_loop L fuel env i dealVolume dealPrice newStatus updateTime =
     cas_loop fuel env (fillAttempt L i dealVolume dealPrice newStatus updateTime)"

text \<open>The loop with no other session in between.\<close>

definition ApplyFill :: "dec_lib \<Rightarrow> nat \<Rightarrow> dec \<Rightarrow> dec \<Rightarrow> OrderStatus \<Rightarrow> int \<Rightarrow> Order list \<Rightarrow> Order list" where
  "ApplyFill L i dealVolume dealPrice newStatus updateTime rows =
     snd (the (fillAttempt L i dealVolume dealPrice newStatus updateTime rows rows))"

definition ordMarkCanceled :: "nat \<Rightarrow> int \<Rightarrow> Order list \<Rightarrow> bool \<times> Order list" where
  "ordMarkCanceled i updateTime =
     sql_exec (\<lambda>o'. ord_OrderID o' = i \<and> ActiveOrderStatuses (ord_Status o'))
       (\<lambda>o'. o'\<lparr> ord_Status := OrderStatusCanceled, ord_UpdateTime := updateTime \<rparr>)"

section \<open>Conditional orders\<close>

definition coFindByOrderID :: "ConditionalOrder list \<Rightarrow> nat \<Rightarrow> ConditionalOrder option" where
  "coFindByOrderID rows i = sql_first (\<lambda>c. co_OrderID c = i) rows"

definition coFindByRequestID :: "ConditionalOrder list \<Rightarrow> uid \<Rightarrow> string \<Rightarrow> ConditionalOrder option" where
  "coFindByRequestID rows u rid = sql_first (\<lambda>c. co_UID c = u \<and> co_RequestID c = Some rid) rows"

definition storedConditional :: "dec_lib \<Rightarrow> ConditionalOrder \<Rightarrow> ConditionalOrder" where
  "storedConditional L c = c\<lparr> co_TriggerPrice := price_col L (co_TriggerPrice c), co_Price := price_col L (co_Price c),
     co_Amount := col L (co_Amount c), co_FrozenMargin := col L (co_FrozenMargin c), co_FrozenCredit := col L (co_FrozenCredit c) \<rparr>"

definition coInsert :: "dec_lib \<Rightarrow> ConditionalOrder \<Rightarrow> ConditionalOrder list \<Rightarrow> unit res \<times> ConditionalOrder list" where
  "coInsert L c rows =
     (if coFindByOrderID rows (co_OrderID c) \<noteq> None \<or>
         (case co_RequestID c of None \<Rightarrow> False | Some rid \<Rightarrow> coFindByRequestID rows (co_UID c) rid \<noteq> None)
      then (Inl ErrDuplicateKey, rows)
      else (Inr (), rows @ [storedConditional L c]))"

definition coFindActiveByUID :: "ConditionalOrder list \<Rightarrow> uid \<Rightarrow> symbol \<Rightarrow> ConditionalOrder list" where
  "coFindActiveByUID rows u s =
     newest_first co_OrderID (\<lambda>c. co_UID c = u \<and> (s = [] \<or> co_Symbol c = s) \<and> co_Status c = ConditionalStatusPending) rows"

definition coFindHistoryByUID :: "ConditionalOrder list \<Rightarrow> uid \<Rightarrow> nat \<Rightarrow> nat \<Rightarrow> ConditionalOrder list" where
  "coFindHistoryByUID rows u = page co_OrderID (\<lambda>c. co_UID c = u) rows"

definition FindAllPending :: "ConditionalOrder list \<Rightarrow> ConditionalOrder list" where
  "FindAllPending rows = filter (\<lambda>c. co_Status c = ConditionalStatusPending) rows"

definition coTransition :: "ConditionalOrderStatus \<Rightarrow> ConditionalOrderStatus \<Rightarrow> nat \<Rightarrow> int \<Rightarrow>
   ConditionalOrder list \<Rightarrow> bool \<times> ConditionalOrder list" where
  "coTransition src dst i updateTime =
     sql_exec (\<lambda>c. co_OrderID c = i \<and> co_Status c = src) (\<lambda>c. c\<lparr> co_Status := dst, co_UpdateTime := updateTime \<rparr>)"

definition MarkTriggered :: "nat \<Rightarrow> int \<Rightarrow> ConditionalOrder list \<Rightarrow> bool \<times> ConditionalOrder list" where
  "MarkTriggered = coTransition ConditionalStatusPending ConditionalStatusTriggered"

definition coMarkCanceled :: "nat \<Rightarrow> int \<Rightarrow> ConditionalOrder list \<Rightarrow> bool \<times> ConditionalOrder list" where
  "coMarkCanceled = coTransition ConditionalStatusPending ConditionalStatusCanceled"

definition MarkCanceledFromTriggered :: "nat \<Rightarrow> int \<Rightarrow> ConditionalOrder list \<Rightarrow> bool \<times> ConditionalOrder list" where
  "MarkCanceledFromTriggered = coTransition ConditionalStatusTriggered ConditionalStatusCanceled"

section \<open>Trades, contracts and the ledger\<close>

definition tradeInsert :: "dec_lib \<Rightarrow> Trade \<Rightarrow> Trade list \<Rightarrow> unit res \<times> Trade list" where
  "tradeInsert L t rows =
     (if tr_TradeID t \<in> set (map tr_TradeID rows) then (Inl ErrDuplicateKey, rows)
      else (Inr (), rows @ [t\<lparr> tr_Price := price_col L (tr_Price t), tr_Volume := col L (tr_Volume t) \<rparr>]))"

definition tradesByUID :: "Trade list \<Rightarrow> uid \<Rightarrow> nat \<Rightarrow> nat \<Rightarrow> Trade list" where
  "tradesByUID rows u = page tr_TradeID (\<lambda>t. tr_BuyUID t = u \<or> tr_SellUID t = u) rows"

definition tradesBySymbol :: "Trade list \<Rightarrow> symbol \<Rightarrow> nat \<Rightarrow> nat \<Rightarrow> Trade list" where
  "tradesBySymbol rows s = page tr_TradeID (\<lambda>t. tr_Symbol t = s) rows"

definition coinBySymbol :: "Coin list \<Rightarrow> symbol \<Rightarrow> Coin option" where
  "coinBySymbol coins s = sql_first (\<lambda>c. coin_Symbol c = s) coins"

definition FindAllEnabled :: "Coin list \<Rightarrow> Coin list" where
  "FindAllEnabled coins = filter coin_Enable coins"

text \<open>The AUTO_INCREMENT id of a ledger row is its position in the table, from 1.\<close>

definition txFindByUID :: "Transaction list \<Rightarrow> uid \<Rightarrow> TxType option \<Rightarrow> nat \<Rightarrow> nat \<Rightarrow> (nat \<times> Transaction) list" where
  "txFindByUID rows u ty =
     page fst (\<lambda>(i, t). tx_UID t = u \<and> (case ty of None \<Rightarrow> True | Some y \<Rightarrow> tx_Type t = y))
       (zip [1..<Suc (length rows)] rows)"

end
