(* ===== verification/OrderProps.thy ===== *)
theory OrderProps
  imports Orders PositionProps
begin

text \<open>
  Correctness of the order tables: the cursor pages of every history query, the optimistic loop that
  applies a fill to an order, and the life cycle of a conditional order.
\<close>

section \<open>Cursor pages\<close>

text \<open>A client that follows the cursor: the next page starts below the key of the last row it got.\<close>

fun walk :: "('r \<Rightarrow> nat) \<Rightarrow> (nat \<Rightarrow> nat \<Rightarrow> 'r list) \<Rightarrow> nat \<Rightarrow> nat \<Rightarrow> nat \<Rightarrow> 'r list" where
  "walk key fetch limit 0 before = []"
| "walk key fetch limit (Suc n) before =
     (let p = fetch limit before in if p = [] then [] else p @ walk key fetch limit n (key (last p)))"

text \<open>What a history query on a table in order promises: the first rows below the cursor of one list whose
  positive keys strictly decrease.\<close>

locale history =
  fixes key :: "'r \<Rightarrow> nat" and ok :: "'t \<Rightarrow> bool" and fetch :: "'t \<Rightarrow> nat \<Rightarrow> nat \<Rightarrow> 'r list" and rows :: "'t \<Rightarrow> 'r list"
  assumes fetch_page: "ok t \<Longrightarrow> fetch t limit before = take limit (filter (\<lambda>r. 0 < before \<longrightarrow> key r < before) (rows t))"
    and decreasing: "ok t \<Longrightarrow> sorted_wrt (\<lambda>r q. key q < key r) (rows t)"
    and positive: "ok t \<Longrightarrow> r \<in> set (rows t) \<Longrightarrow> 0 < key r"
begin

definition below :: "'t \<Rightarrow> nat \<Rightarrow> 'r list" where
  "below t before = filter (\<lambda>r. 0 < before \<longrightarrow> key r < before) (rows t)"

lemma below_decreasing: "ok t \<Longrightarrow> sorted_wrt (\<lambda>r q. key q < key r) (below t b)"
  unfolding below_def by (intro sorted_wrt_filter decreasing)

lemma filter_decreasing:
  assumes "sorted_wrt (\<lambda>r q. key q < key r) xs" "k < length xs"
  shows "filter (\<lambda>r. key r < key (xs ! k)) xs = drop (Suc k) xs"
  using assms
proof (induction xs arbitrary: k)
  case (Cons x xs)
  show ?case
  proof (cases k)
    case 0
    with Cons.prems show ?thesis by (auto simp: filter_id_conv)
  next
    case (Suc j)
    with Cons have "filter (\<lambda>r. key r < key (xs ! j)) xs = drop (Suc j) xs" "key (xs ! j) < key x" by auto
    with Suc show ?thesis by simp
  qed
qed simp

lemma below_next:
  assumes "ok t" "k < length (below t b)"
  shows "below t (key (below t b ! k)) = drop (Suc k) (below t b)"
proof -
  have x: "below t b ! k \<in> set (below t b)" using assms(2) by simp
  hence "0 < key (below t b ! k)" using positive [OF assms(1)] by (auto simp: below_def)
  moreover have "0 < b \<longrightarrow> key (below t b ! k) < b" using x by (auto simp: below_def)
  ultimately have "below t (key (below t b ! k)) = filter (\<lambda>r. key r < key (below t b ! k)) (below t b)"
    unfolding below_def by (auto intro!: filter_cong)
  thus ?thesis using filter_decreasing [OF below_decreasing [OF assms(1)] assms(2)] by simp
qed

lemma walk_below:
  assumes "ok t" "0 < limit" "length (below t b) < n"
  shows "walk key (fetch t) limit n b = below t b"
  using assms(3)
proof (induction n arbitrary: b)
  case (Suc n)
  define p where "p = take limit (below t b)"
  have f: "fetch t limit b = p" by (simp add: p_def fetch_page [OF assms(1)] below_def)
  show ?case
  proof (cases "below t b = []")
    case True
    with f show ?thesis by (simp add: p_def)
  next
    case False
    let ?k = "length p - 1"
    have ne: "p \<noteq> []" using False assms(2) by (simp add: p_def)
    have "0 < length (below t b)" using False by simp
    moreover have len: "length p = min (length (below t b)) limit" by (simp add: p_def)
    ultimately have k: "?k < length (below t b)" "Suc ?k = length p" using assms(2) by linarith+
    have "?k < limit" using k len by linarith
    with ne have "last p = below t b ! ?k" by (simp add: last_conv_nth p_def)
    hence rest: "below t (key (last p)) = drop (length p) (below t b)" using below_next [OF assms(1) k(1)] k(2) by simp
    have "length (below t (key (last p))) < n" unfolding rest length_drop using Suc.prems k by linarith
    from Suc.IH [OF this] rest have "walk key (fetch t) limit n (key (last p)) = drop (length p) (below t b)" by simp
    moreover have "p @ drop (length p) (below t b) = below t b"
      using append_take_drop_id [of "length p" "below t b"] len by (simp add: p_def min_def split: if_splits)
    ultimately show ?thesis using f ne by (simp add: Let_def)
  qed
qed simp

lemma walk_all: "ok t \<Longrightarrow> 0 < limit \<Longrightarrow> length (rows t) < n \<Longrightarrow> walk key (fetch t) limit n 0 = rows t"
  using walk_below [of t limit 0 n] by (simp add: below_def)

end

lemma newest_first_decreasing:
  assumes "distinct (map key rows)"
  shows "sorted_wrt (\<lambda>r q. key q < key r) (newest_first key p rows)"
proof -
  have "sorted (map key (sort_key key (filter p rows)))" by simp
  moreover have "distinct (map key (sort_key key (filter p rows)))"
    using assms by (simp add: distinct_map inj_on_def)
  ultimately have "sorted_wrt (\<lambda>r q. key r < key q) (sort_key key (filter p rows))"
    by (simp add: strict_sorted_iff flip: sorted_wrt_map)
  thus ?thesis by (simp add: newest_first_def sorted_wrt_rev)
qed

lemma newest_first_filter:
  "newest_first key (\<lambda>r. p r \<and> q r) rows = filter q (newest_first key p rows)"
  by (simp add: newest_first_def filter_sort [symmetric] rev_filter conj_commute flip: filter_filter)

text \<open>Every history query of the program is such a page of its table.\<close>

definition wf_keys :: "('r \<Rightarrow> nat) \<Rightarrow> 'r list \<Rightarrow> bool" where
  "wf_keys key rows \<longleftrightarrow> distinct (map key rows) \<and> (\<forall>r\<in>set rows. 0 < key r)"

lemma page_history: "history key (wf_keys key) (page key p) (newest_first key p)"
proof
  show "page key p t limit before = take limit (filter (\<lambda>r. 0 < before \<longrightarrow> key r < before) (newest_first key p t))"
    for t limit before by (simp add: page_def newest_first_filter)
qed (auto simp: wf_keys_def newest_first_decreasing, simp add: newest_first_def)

interpretation order_history: history ord_OrderID "wf_keys ord_OrderID" "\<lambda>t. ordFindHistoryByUID t u"
    "newest_first ord_OrderID (\<lambda>r. ord_UID r = u)" for u
  unfolding ordFindHistoryByUID_def by (rule page_history)

interpretation liquidation_history: history ord_OrderID "wf_keys ord_OrderID" "\<lambda>t. FindLiquidationsByUID t u"
    "newest_first ord_OrderID (\<lambda>r. ord_UID r = u \<and> ord_Liquidation r)" for u
  unfolding FindLiquidationsByUID_def by (rule page_history)

interpretation conditional_history: history co_OrderID "wf_keys co_OrderID" "\<lambda>t. coFindHistoryByUID t u"
    "newest_first co_OrderID (\<lambda>c. co_UID c = u)" for u
  unfolding coFindHistoryByUID_def by (rule page_history)

interpretation trade_history: history tr_TradeID "wf_keys tr_TradeID" "\<lambda>t. tradesByUID t u"
    "newest_first tr_TradeID (\<lambda>t. tr_BuyUID t = u \<or> tr_SellUID t = u)" for u
  unfolding tradesByUID_def by (rule page_history)

interpretation symbol_trades: history tr_TradeID "wf_keys tr_TradeID" "\<lambda>t. tradesBySymbol t s"
    "newest_first tr_TradeID (\<lambda>t. tr_Symbol t = s)" for s
  unfolding tradesBySymbol_def by (rule page_history)

lemma newest_first_length: "length (newest_first key p rows) \<le> length rows"
  by (simp add: newest_first_def)

text \<open>Paging through a history with the cursor of the last row seen delivers exactly the matching rows,
  newest first, each once, whatever positive page size is asked for: the orders of a user, the
  liquidation orders, the conditional orders, and the trades of a user and of a symbol.\<close>

theorem history_pages_complete:
  assumes "0 < limit" "wf_keys ord_OrderID orders" "wf_keys co_OrderID conds" "wf_keys tr_TradeID trades"
    and "length orders < n" "length conds < n" "length trades < n"
  shows "walk ord_OrderID (ordFindHistoryByUID orders u) limit n 0 = newest_first ord_OrderID (\<lambda>r. ord_UID r = u) orders \<and>
    walk ord_OrderID (FindLiquidationsByUID orders u) limit n 0 =
      newest_first ord_OrderID (\<lambda>r. ord_UID r = u \<and> ord_Liquidation r) orders \<and>
    walk co_OrderID (coFindHistoryByUID conds u) limit n 0 = newest_first co_OrderID (\<lambda>c. co_UID c = u) conds \<and>
    walk tr_TradeID (tradesByUID trades u) limit n 0 = newest_first tr_TradeID (\<lambda>t. tr_BuyUID t = u \<or> tr_SellUID t = u) trades \<and>
    walk tr_TradeID (tradesBySymbol trades s) limit n 0 = newest_first tr_TradeID (\<lambda>t. tr_Symbol t = s) trades"
  using assms
  by (intro conjI order_history.walk_all liquidation_history.walk_all conditional_history.walk_all
      trade_history.walk_all symbol_trades.walk_all) (auto intro: le_less_trans [OF newest_first_length])

definition demoOrder :: Order where
  "demoOrder =
     \<lparr> ord_OrderID = 11, ord_UID = 1, ord_Symbol = ''BTCUSDT'', ord_Side = SideLong, ord_Action = ActionOpen,
       ord_Type = OrderTypeLimit, ord_Price = 100, ord_Amount = 4, ord_TradedAmount = 0, ord_AvgDealPrice = 0,
       ord_FrozenMargin = 30, ord_FrozenCredit = 10, ord_Leverage = 10, ord_ReduceOnly = False,
       ord_Liquidation = False, ord_Status = OrderStatusOpen, ord_CreateTime = 5, ord_UpdateTime = 5,
       ord_RequestID = None, ord_RequestHash = None \<rparr>"

definition demoHistory :: "Order list" where
  "demoHistory = map (\<lambda>(i, u). demoOrder\<lparr> ord_OrderID := i, ord_UID := u \<rparr>) [(13, 1), (11, 1), (15, 2), (17, 1)]"

lemma history_pages_complete_witness:
  "map ord_OrderID (walk ord_OrderID (ordFindHistoryByUID demoHistory 1) 2 5 0) = [17, 13, 11] \<and>
   map ord_OrderID (newest_first ord_OrderID (\<lambda>r. ord_UID r = 1) demoHistory) = [17, 13, 11]"
proof -
  have "wf_keys ord_OrderID demoHistory" "wf_keys co_OrderID []" "wf_keys tr_TradeID []" "length demoHistory < 5"
    by (simp_all add: wf_keys_def demoHistory_def)
  from history_pages_complete [OF _ this(1-4), of 2 1 "[]"]
  have "walk ord_OrderID (ordFindHistoryByUID demoHistory 1) 2 5 0 = newest_first ord_OrderID (\<lambda>r. ord_UID r = 1) demoHistory"
    by simp
  moreover have "map ord_OrderID (newest_first ord_OrderID (\<lambda>r. ord_UID r = 1) demoHistory) = [17, 13, 11]" by code_simp
  ultimately show ?thesis by simp
qed

section \<open>Applying a fill to an order\<close>

definition wf_orders :: "Order list \<Rightarrow> bool" where
  "wf_orders rows \<longleftrightarrow> distinct (map ord_OrderID rows) \<and>
     (\<forall>r\<in>set rows. fits 16 (ord_TradedAmount r) \<and> 0 \<le> ord_TradedAmount r \<and> fits 8 (ord_AvgDealPrice r))"

lemma ordFind_Some: "ordFindByOrderID rows i = Some r \<Longrightarrow> r \<in> set rows \<and> ord_OrderID r = i"
  by (auto simp: ordFindByOrderID_def dest: sql_first_Some)

lemma ordFind_in: "wf_orders rows \<Longrightarrow> r \<in> set rows \<Longrightarrow> ordFindByOrderID rows (ord_OrderID r) = Some r"
  unfolding ordFindByOrderID_def wf_orders_def by (rule sql_first_key) auto

text \<open>The order as one round of ApplyFill writes it.\<close>

definition filledRow :: "dec_lib \<Rightarrow> dec \<Rightarrow> dec \<Rightarrow> OrderStatus \<Rightarrow> int \<Rightarrow> Order \<Rightarrow> Order" where
  "filledRow L v p st t r =
     (let newTraded = ord_TradedAmount r + v in
      r\<lparr> ord_TradedAmount := col L newTraded,
         ord_AvgDealPrice := price_col L (if 0 < newTraded
           then lib_Div L (ord_AvgDealPrice r * ord_TradedAmount r + p * v) newTraded else ord_AvgDealPrice r),
         ord_Status := st, ord_UpdateTime := t \<rparr>)"

lemma fillAttempt_sound:
  assumes "wf_orders s'" "fillAttempt L i v p st t s s' = Some (r, s'')"
  shows "fillAttempt L i v p st t s' s' = Some (r, s'') \<or> (s'' = s' \<and> fillAttempt L i v p st t s s = Some (r, s))"
proof (cases "ordFindByOrderID s i")
  case None
  with assms(2) show ?thesis by (simp add: fillAttempt_def)
next
  case (Some e)
  with assms(2) obtain q where q: "q \<in> set s'" "ord_OrderID q = i" "ord_TradedAmount q = ord_TradedAmount e"
      "ord_AvgDealPrice q = ord_AvgDealPrice e"
    by (auto simp: fillAttempt_def sql_exec_eq Let_def split: if_splits)
  with ordFind_in [OF assms(1) q(1)] Some have "fillAttempt L i v p st t s' s' = fillAttempt L i v p st t s s'"
    by (simp add: fillAttempt_def Let_def)
  with assms(2) show ?thesis by simp
qed

lemma fillAttempt_progress: "fillAttempt L i v p st t s s \<noteq> None"
proof (cases "ordFindByOrderID s i")
  case (Some e)
  with ordFind_Some [OF Some] show ?thesis by (auto simp: fillAttempt_def sql_exec_eq Let_def)
qed (simp add: fillAttempt_def)

text \<open>The WHERE clause names every field the round computes from, so any interference is harmless.\<close>

interpretation fill: optimistic "fillAttempt L i v p st t" wf_orders "\<lambda>_ _. True" for L i v p st t
  by unfold_locales (use fillAttempt_sound in blast, rule fillAttempt_progress)

text \<open>What one applied deal makes of an order: its volume is added, its average price is the
  volume-weighted average (between the two prices, the deal's price for the first deal), the status is
  the one asked for, everything else stays.\<close>

definition filledBy :: "dec \<Rightarrow> dec \<Rightarrow> OrderStatus \<Rightarrow> Order \<Rightarrow> Order \<Rightarrow> bool" where
  "filledBy v p st q q' \<longleftrightarrow> ord_TradedAmount q' = ord_TradedAmount q + v \<and> ord_Status q' = st \<and>
     min (ord_AvgDealPrice q) p \<le> ord_AvgDealPrice q' \<and> ord_AvgDealPrice q' \<le> max (ord_AvgDealPrice q) p \<and>
     (ord_TradedAmount q = 0 \<longrightarrow> ord_AvgDealPrice q' = p) \<and>
     q' = q\<lparr> ord_TradedAmount := ord_TradedAmount q', ord_AvgDealPrice := ord_AvgDealPrice q',
             ord_Status := st, ord_UpdateTime := ord_UpdateTime q' \<rparr>"

lemma filledRow_filledBy:
  assumes "decimal_lib L" "0 < v" "fits 16 v" "fits 8 p" "fits 16 (ord_TradedAmount q)" "0 \<le> ord_TradedAmount q" "fits 8 (ord_AvgDealPrice q)"
  shows "filledBy v p st q (filledRow L v p st t q)" "fits 8 (ord_AvgDealPrice (filledRow L v p st t q))"
proof -
  have "0 < ord_TradedAmount q + v" using assms by simp
  with mixed_price [OF assms(1,6,2,7,4)] col_fit [OF assms(1) fits_add [OF assms(5,3)]]
  show "filledBy v p st q (filledRow L v p st t q)" "fits 8 (ord_AvgDealPrice (filledRow L v p st t q))"
    by (simp_all add: filledBy_def filledRow_def Let_def)
qed

lemma ApplyFill_rows:
  assumes "wf_orders s"
  shows "ApplyFill L i v p st t s = sql_update (\<lambda>r. ord_OrderID r = i) (filledRow L v p st t) s"
proof (cases "ordFindByOrderID s i")
  case None
  hence "\<forall>r\<in>set s. ord_OrderID r \<noteq> i" by (simp add: ordFindByOrderID_def sql_first_None)
  hence "sql_update (\<lambda>r. ord_OrderID r = i) (filledRow L v p st t) s = s" by (intro sql_update_none) blast
  with None show ?thesis by (simp add: ApplyFill_def fillAttempt_def)
next
  case (Some e)
  have e: "e \<in> set s" "ord_OrderID e = i" using ordFind_Some [OF Some] by auto
  have only: "r = e" if "r \<in> set s" "ord_OrderID r = i" for r
    using that e assms unfolding wf_orders_def by (auto dest: unique_key_eq)
  from Some e have "ApplyFill L i v p st t s = sql_update (\<lambda>r. ord_OrderID r = i \<and> (ord_TradedAmount r = ord_TradedAmount e \<and>
      ord_AvgDealPrice r = ord_AvgDealPrice e)) (\<lambda>r. r\<lparr> ord_TradedAmount := ord_TradedAmount (filledRow L v p st t e),
        ord_AvgDealPrice := ord_AvgDealPrice (filledRow L v p st t e), ord_Status := st, ord_UpdateTime := t \<rparr>) s"
    by (auto simp: ApplyFill_def fillAttempt_def sql_exec_eq filledRow_def Let_def)
  also have "\<dots> = sql_update (\<lambda>r. ord_OrderID r = i) (filledRow L v p st t) s"
    unfolding sql_update_def by (intro map_cong refl) (auto dest: only simp: filledRow_def Let_def)
  finally show ?thesis .
qed

lemma filledRow_id [simp]: "ord_OrderID (filledRow L v p st t r) = ord_OrderID r"
  by (simp add: filledRow_def Let_def)

lemma ordFind_ApplyFill:
  assumes "wf_orders s"
  shows "ordFindByOrderID (ApplyFill L i v p st t s) j =
    map_option (\<lambda>r. if ord_OrderID r = i then filledRow L v p st t r else r) (ordFindByOrderID s j)"
  unfolding ApplyFill_rows [OF assms] ordFindByOrderID_def by (rule sql_first_update) simp

lemma wf_ApplyFill:
  assumes "decimal_lib L" "wf_orders s" "0 < v" "fits 16 v" "fits 8 p"
  shows "wf_orders (ApplyFill L i v p st t s)"
proof -
  have "fits 16 (ord_TradedAmount (filledRow L v p st t r)) \<and> 0 \<le> ord_TradedAmount (filledRow L v p st t r) \<and>
      fits 8 (ord_AvgDealPrice (filledRow L v p st t r))" if "r \<in> set s" for r
    using filledRow_filledBy [OF assms(1,3-5), of r] that assms(2-4) unfolding wf_orders_def filledBy_def by (auto intro: fits_add)
  with assms(2) show ?thesis
    unfolding ApplyFill_rows [OF assms(2)] wf_orders_def by (auto simp: map_sql_update) (auto simp: sql_update_def split: if_splits)
qed



section \<open>The life cycle of a conditional order\<close>

text \<open>The writes to the table of conditional orders: a scan that triggers, a user or a round close that
  cancels, the rollback of a failed trigger, and inserts. A run records whether each of them affected
  a row.\<close>

datatype ConditionalOp =
    TriggerOp nat int
  | CancelOp nat int
  | RollbackOp nat int
  | InsertOp ConditionalOrder

fun conditionalStep :: "dec_lib \<Rightarrow> ConditionalOp \<Rightarrow> ConditionalOrder list \<Rightarrow> bool \<times> ConditionalOrder list" where
  "conditionalStep L (TriggerOp i t) s = MarkTriggered i t s"
| "conditionalStep L (CancelOp i t) s = coMarkCanceled i t s"
| "conditionalStep L (RollbackOp i t) s = MarkCanceledFromTriggered i t s"
| "conditionalStep L (InsertOp c) s = (case coInsert L c s of (r, s') \<Rightarrow> (r = Inr (), s'))"

inductive conditional_run ::
  "dec_lib \<Rightarrow> ConditionalOrder list \<Rightarrow> (ConditionalOp \<times> bool) list \<Rightarrow> ConditionalOrder list \<Rightarrow> bool" for L where
  cr_none: "conditional_run L s [] s"
| cr_step: "conditionalStep L a s = (ok, s1) \<Longrightarrow> conditional_run L s1 tr s2 \<Longrightarrow> conditional_run L s ((a, ok) # tr) s2"

text \<open>How often an operation on order i succeeded in a run.\<close>

fun triggerWin :: "nat \<Rightarrow> ConditionalOp \<times> bool \<Rightarrow> bool" where
  "triggerWin i (TriggerOp j _, ok) = (ok \<and> j = i)"
| "triggerWin i _ = False"

fun cancelWin :: "nat \<Rightarrow> ConditionalOp \<times> bool \<Rightarrow> bool" where
  "cancelWin i (CancelOp j _, ok) = (ok \<and> j = i)"
| "cancelWin i _ = False"

fun rollbackWin :: "nat \<Rightarrow> ConditionalOp \<times> bool \<Rightarrow> bool" where
  "rollbackWin i (RollbackOp j _, ok) = (ok \<and> j = i)"
| "rollbackWin i _ = False"

definition wins :: "('a \<Rightarrow> bool) \<Rightarrow> 'a list \<Rightarrow> nat" where
  "wins p tr = length (filter p tr)"

lemma wins_simps [simp]: "wins p [] = 0" "wins p (a # tr) = (if p a then Suc (wins p tr) else wins p tr)"
  by (simp_all add: wins_def)

lemma coTransition_at:
  "coFindByOrderID (snd (coTransition src dst i t s)) j =
     map_option (\<lambda>c. if co_OrderID c = i \<and> co_Status c = src then c\<lparr> co_Status := dst, co_UpdateTime := t \<rparr> else c)
       (coFindByOrderID s j)"
  unfolding coTransition_def coFindByOrderID_def sql_exec_snd by (rule sql_first_update) simp

lemma coTransition_ok:
  assumes "distinct (map co_OrderID s)"
  shows "fst (coTransition src dst i t s) \<longleftrightarrow> (\<exists>c. coFindByOrderID s i = Some c \<and> co_Status c = src)"
  using sql_exec_key_ok [OF assms, of i "\<lambda>c. co_Status c = src"]
  unfolding coTransition_def coFindByOrderID_def by (auto split: option.splits)

lemma conditionalStep_ids:
  assumes "distinct (map co_OrderID s)" "conditionalStep L a s = (ok, s')"
  shows "distinct (map co_OrderID s')"
proof (cases a)
  case (InsertOp c)
  have "coFindByOrderID s (co_OrderID c) = None \<Longrightarrow> co_OrderID c \<notin> co_OrderID ` set s"
    by (auto simp: coFindByOrderID_def sql_first_None)
  with assms InsertOp show ?thesis by (auto simp: coInsert_def storedConditional_def split: if_splits)
qed (use assms in \<open>auto simp: MarkTriggered_def coMarkCanceled_def MarkCanceledFromTriggered_def coTransition_def sql_exec_eq map_sql_update\<close>)

lemma coFind_id: "coFindByOrderID s i = Some c \<Longrightarrow> co_OrderID c = i"
  by (auto simp: coFindByOrderID_def dest: sql_first_Some)

text \<open>What one step makes of an order that is in the table.\<close>

definition nextStatus :: "nat \<Rightarrow> ConditionalOp \<Rightarrow> ConditionalOrderStatus \<Rightarrow> ConditionalOrderStatus" where
  "nextStatus i a st = (case a of
       TriggerOp j _ \<Rightarrow> if j = i \<and> st = ConditionalStatusPending then ConditionalStatusTriggered else st
     | CancelOp j _ \<Rightarrow> if j = i \<and> st = ConditionalStatusPending then ConditionalStatusCanceled else st
     | RollbackOp j _ \<Rightarrow> if j = i \<and> st = ConditionalStatusTriggered then ConditionalStatusCanceled else st
     | InsertOp _ \<Rightarrow> st)"

lemma conditionalStep_row:
  assumes "distinct (map co_OrderID s)" "coFindByOrderID s i = Some c" "conditionalStep L a s = (ok, s')"
  shows "\<exists>t. coFindByOrderID s' i = Some (c\<lparr> co_Status := nextStatus i a (co_Status c), co_UpdateTime := t \<rparr>)"
    and "triggerWin i (a, ok) \<longleftrightarrow> (\<exists>t. a = TriggerOp i t) \<and> co_Status c = ConditionalStatusPending"
    and "cancelWin i (a, ok) \<longleftrightarrow> (\<exists>t. a = CancelOp i t) \<and> co_Status c = ConditionalStatusPending"
    and "rollbackWin i (a, ok) \<longleftrightarrow> (\<exists>t. a = RollbackOp i t) \<and> co_Status c = ConditionalStatusTriggered"
proof -
  note defs = MarkTriggered_def coMarkCanceled_def MarkCanceledFromTriggered_def
  have s': "s' = snd (conditionalStep L a s)" and ok: "ok = fst (conditionalStep L a s)" using assms(3) by simp_all
  have moved: "\<exists>t. coFindByOrderID (snd (coTransition src dst j x s)) i =
      Some (c\<lparr> co_Status := (if j = i \<and> co_Status c = src then dst else co_Status c), co_UpdateTime := t \<rparr>)" for src dst j x
    using coFind_id [OF assms(2)]
    by (intro exI [of _ "if j = i \<and> co_Status c = src then x else co_UpdateTime c"]) (auto simp: coTransition_at assms(2))
  show "\<exists>t. coFindByOrderID s' i = Some (c\<lparr> co_Status := nextStatus i a (co_Status c), co_UpdateTime := t \<rparr>)"
  proof (cases a)
    case (InsertOp d)
    have "coFindByOrderID (s @ [x]) i = Some c" for x
      using assms(2) by (simp add: coFindByOrderID_def sql_first_append)
    with InsertOp assms(2) have "coFindByOrderID s' i = Some c" by (auto simp: s' coInsert_def split: if_splits)
    thus ?thesis by (intro exI [of _ "co_UpdateTime c"]) (simp add: InsertOp nextStatus_def)
  qed (simp_all add: s' defs nextStatus_def moved)
  show "triggerWin i (a, ok) \<longleftrightarrow> (\<exists>t. a = TriggerOp i t) \<and> co_Status c = ConditionalStatusPending"
    "cancelWin i (a, ok) \<longleftrightarrow> (\<exists>t. a = CancelOp i t) \<and> co_Status c = ConditionalStatusPending"
    "rollbackWin i (a, ok) \<longleftrightarrow> (\<exists>t. a = RollbackOp i t) \<and> co_Status c = ConditionalStatusTriggered"
    using assms(2) by (cases a; auto simp: ok defs coTransition_ok [OF assms(1)])+
qed

text \<open>The wins of a run, by the status the order starts in.\<close>

definition fate :: "ConditionalOrderStatus \<Rightarrow> nat \<Rightarrow> nat \<Rightarrow> nat \<Rightarrow> ConditionalOrderStatus \<Rightarrow> bool" where
  "fate st t c r st' = (case st of
       ConditionalStatusPending \<Rightarrow> t + c \<le> 1 \<and> r \<le> t \<and>
         st' = (if t + c = 0 then ConditionalStatusPending
                else if t = 1 \<and> r = 0 then ConditionalStatusTriggered else ConditionalStatusCanceled)
     | ConditionalStatusTriggered \<Rightarrow> t = 0 \<and> c = 0 \<and> r \<le> 1 \<and>
         st' = (if r = 0 then ConditionalStatusTriggered else ConditionalStatusCanceled)
     | ConditionalStatusCanceled \<Rightarrow> t = 0 \<and> c = 0 \<and> r = 0 \<and> st' = ConditionalStatusCanceled)"

lemma conditional_run_fate:
  "conditional_run L s tr s' \<Longrightarrow> distinct (map co_OrderID s) \<Longrightarrow> coFindByOrderID s i = Some c \<Longrightarrow>
   \<exists>c'. coFindByOrderID s' i = Some c' \<and>
     fate (co_Status c) (wins (triggerWin i) tr) (wins (cancelWin i) tr) (wins (rollbackWin i) tr) (co_Status c') \<and>
     c' = c\<lparr> co_Status := co_Status c', co_UpdateTime := co_UpdateTime c' \<rparr>"
proof (induction arbitrary: c rule: conditional_run.induct)
  case (cr_none s)
  thus ?case by (auto simp: fate_def split: ConditionalOrderStatus.split)
next
  case (cr_step a s ok s1 tr s2)
  note row = conditionalStep_row [OF cr_step.prems(1,2) cr_step.hyps(1)]
  from row(1) obtain t where
    f: "coFindByOrderID s1 i = Some (c\<lparr> co_Status := nextStatus i a (co_Status c), co_UpdateTime := t \<rparr>)" by blast
  from cr_step.IH [OF conditionalStep_ids [OF cr_step.prems(1) cr_step.hyps(1)] f] obtain c' where
    c': "coFindByOrderID s2 i = Some c'" and
    fate: "fate (nextStatus i a (co_Status c)) (wins (triggerWin i) tr) (wins (cancelWin i) tr) (wins (rollbackWin i) tr) (co_Status c')" and
    rest: "c' = c\<lparr> co_Status := co_Status c', co_UpdateTime := co_UpdateTime c' \<rparr>" by auto
  have "fate (co_Status c) (wins (triggerWin i) ((a, ok) # tr)) (wins (cancelWin i) ((a, ok) # tr))
      (wins (rollbackWin i) ((a, ok) # tr)) (co_Status c')"
    using fate unfolding wins_simps row(2-4)
    by (cases a; cases "co_Status c") (auto simp: fate_def nextStatus_def split: if_splits)
  with c' rest show ?case by blast
qed

text \<open>C8. A pending conditional order is settled once. In any run of triggers, cancellations, rollbacks and
  inserts by any number of sessions, the scan and the cancellations win at most once between them: an
  order that was cancelled is never triggered and one that was triggered is never cancelled as pending;
  a rollback succeeds at most once and only after the trigger won; the status at the end tells which of
  them happened, and nothing else of the order changes.\<close>

theorem conditional_settled_once:
  assumes "conditional_run L s tr s'" "distinct (map co_OrderID s)" "coFindByOrderID s i = Some c"
    and "co_Status c = ConditionalStatusPending"
  shows "wins (triggerWin i) tr + wins (cancelWin i) tr \<le> 1 \<and> wins (rollbackWin i) tr \<le> wins (triggerWin i) tr \<and>
    (\<exists>c'. coFindByOrderID s' i = Some c' \<and>
      co_Status c' = (if wins (triggerWin i) tr + wins (cancelWin i) tr = 0 then ConditionalStatusPending
        else if wins (triggerWin i) tr = 1 \<and> wins (rollbackWin i) tr = 0 then ConditionalStatusTriggered
        else ConditionalStatusCanceled) \<and>
      c' = c\<lparr> co_Status := co_Status c', co_UpdateTime := co_UpdateTime c' \<rparr>)"
  using conditional_run_fate [OF assms(1-3)] assms(4) by (auto simp: fate_def)

definition demoConditional :: ConditionalOrder where
  "demoConditional =
     \<lparr> co_OrderID = 21, co_UID = 1, co_Symbol = ''BTCUSDT'', co_Side = SideLong, co_Action = ActionOpen,
       co_TriggerPrice = 90, co_TriggerDirection = TriggerLTE, co_Type = OrderTypeMarket, co_Price = 0,
       co_Amount = 2, co_Leverage = 10, co_ReduceOnly = False, co_FrozenMargin = 18, co_FrozenCredit = 0,
       co_Status = ConditionalStatusPending, co_CreateTime = 1, co_UpdateTime = 1,
       co_RequestID = None, co_RequestHash = None \<rparr>"

lemma conditional_settled_once_witness:
  "conditional_run std_lib [demoConditional] [(TriggerOp 21 5, True), (CancelOp 21 6, False), (RollbackOp 21 7, True)]
     [demoConditional\<lparr> co_Status := ConditionalStatusCanceled, co_UpdateTime := 7 \<rparr>] \<and>
   wins (triggerWin 21) [(TriggerOp 21 5, True), (CancelOp 21 6, False), (RollbackOp 21 7, True)] +
     wins (cancelWin 21) [(TriggerOp 21 5, True), (CancelOp 21 6, False), (RollbackOp 21 7, True)] \<le> 1"
proof -
  have run: "conditional_run std_lib [demoConditional] [(TriggerOp 21 5, True), (CancelOp 21 6, False), (RollbackOp 21 7, True)]
     [demoConditional\<lparr> co_Status := ConditionalStatusCanceled, co_UpdateTime := 7 \<rparr>]"
    by (auto simp: MarkTriggered_def coMarkCanceled_def MarkCanceledFromTriggered_def coTransition_def sql_exec_eq
        demoConditional_def intro!: conditional_run.intros)
  have "distinct (map co_OrderID [demoConditional])" "coFindByOrderID [demoConditional] 21 = Some demoConditional"
    "co_Status demoConditional = ConditionalStatusPending"
    by (simp_all add: demoConditional_def coFindByOrderID_def sql_first_def)
  from run conditional_settled_once [OF run this] show ?thesis by blast
qed

end
