(* ===== verification/Settlement.thy ===== *)
theory Settlement
  imports AccountService Positions Orders
begin

text \<open>
  Settlement of one side of a trade, src/internal/service/settlement.go, on the three tables it writes:
  accounts, positions and the ledger. Every early return keeps the writes made before it, as in the
  source, where the calls are separate statements and not one transaction. \<open>coins\<close> is the contract
  table; a symbol without a contract row is a nil pointer that is dereferenced when the fee rate is read.
\<close>

record Money =
  mny_accounts :: "Account list"
  mny_positions :: "Position list"
  mny_txs :: "Transaction list"

definition onAccounts :: "(Account list \<Rightarrow> 'a res \<times> Account list) \<Rightarrow> 'z Money_scheme \<Rightarrow> 'a res \<times> 'z Money_scheme" where
  "onAccounts f s = (case f (mny_accounts s) of (r, rows) \<Rightarrow> (r, s\<lparr> mny_accounts := rows \<rparr>))"

definition onPositions :: "(Position list \<Rightarrow> 'a res \<times> Position list) \<Rightarrow> 'z Money_scheme \<Rightarrow> 'a res \<times> 'z Money_scheme" where
  "onPositions f s = (case f (mny_positions s) of (r, rows) \<Rightarrow> (r, s\<lparr> mny_positions := rows \<rparr>))"

definition onFunds :: "(FundState \<Rightarrow> 'a res \<times> FundState) \<Rightarrow> 'z Money_scheme \<Rightarrow> 'a res \<times> 'z Money_scheme" where
  "onFunds f s = (case f (mny_accounts s, mny_txs s) of (r, (rows, txs)) \<Rightarrow> (r, s\<lparr> mny_accounts := rows, mny_txs := txs \<rparr>))"

definition bookTx :: "dec_lib \<Rightarrow> uid \<Rightarrow> symbol \<Rightarrow> TxType \<Rightarrow> dec \<Rightarrow> int \<Rightarrow> 'z Money_scheme \<Rightarrow> unit res \<times> 'z Money_scheme" where
  "bookTx L u sy ty amount now s = (Inr (), s\<lparr> mny_txs := txInsert L u sy ty amount now (mny_txs s) \<rparr>)"

lemma onAccounts_eq: "onAccounts f s = (fst (f (mny_accounts s)), s\<lparr> mny_accounts := snd (f (mny_accounts s)) \<rparr>)"
  by (simp add: onAccounts_def case_prod_beta)

lemma onPositions_eq: "onPositions f s = (fst (f (mny_positions s)), s\<lparr> mny_positions := snd (f (mny_positions s)) \<rparr>)"
  by (simp add: onPositions_def case_prod_beta)

lemma onFunds_eq: "onFunds f s = (fst (f (mny_accounts s, mny_txs s)),
    s\<lparr> mny_accounts := fst (snd (f (mny_accounts s, mny_txs s))), mny_txs := snd (snd (f (mny_accounts s, mny_txs s))) \<rparr>)"
  by (simp add: onFunds_def case_prod_beta)

record FillResult =
  flr_RealizedPnl :: dec
  flr_Fee :: dec
  flr_CloseVolume :: dec

text \<open>The margin a deal really needs, split by the balance and credit parts the order had locked for it.\<close>

definition properSplit :: "dec_lib \<Rightarrow> dec \<Rightarrow> dec \<Rightarrow> dec \<Rightarrow> dec \<times> dec" where
  "properSplit L properMargin filledFromAvailable filledFromCredit =
     (let filledMargin = filledFromAvailable + filledFromCredit in
      if 0 < filledMargin then
        let properFromAvailable = lib_Div L (properMargin * filledFromAvailable) filledMargin
        in (properFromAvailable, properMargin - properFromAvailable)
      else (properMargin, 0))"

definition settleOpen :: "dec_lib \<Rightarrow> Order \<Rightarrow> dec \<Rightarrow> dec \<Rightarrow> int \<Rightarrow> 'z Money_scheme \<Rightarrow> unit res \<times> 'z Money_scheme" where
  "settleOpen L o' dealVolume dealPrice now s =
     (case ProportionalFrozen L o' dealVolume of
        Inl e \<Rightarrow> (Inl e, s)
      | Inr (filledFromAvailable, filledFromCredit) \<Rightarrow>
          (case sdiv L (dealVolume * dealPrice) (of_nat (ord_Leverage o')) of
             Inl e \<Rightarrow> (Inl e, s)
           | Inr properMargin \<Rightarrow>
               let (properFromAvailable, properFromCredit) = properSplit L properMargin filledFromAvailable filledFromCredit in
               andThen
                 (onPositions (ApplyOpenFill L (ord_UID o') (ord_Symbol o') (ord_Side o') dealVolume dealPrice
                    properMargin properFromCredit (ord_Leverage o') now))
                 (\<lambda>_. onAccounts (UnfreezeMargin L (ord_UID o') (filledFromAvailable - properFromAvailable)
                                   (filledFromCredit - properFromCredit))) s))"

definition settleClose :: "dec_lib \<Rightarrow> Order \<Rightarrow> dec \<Rightarrow> dec \<Rightarrow> int \<Rightarrow> 'z Money_scheme \<Rightarrow> CloseFill res \<times> 'z Money_scheme" where
  "settleClose L o' dealVolume dealPrice now =
     andThen
       (onPositions (\<lambda>rows. case ApplyCloseFill L (ord_UID o') (ord_Symbol o') (ord_Side o') dealVolume dealPrice now rows of
                               (r, rows') \<Rightarrow> (Inr r, rows')))
       (\<lambda>r. andThen
         (onAccounts (UnfreezeMargin L (ord_UID o') (cf_ReleasedMargin r - cf_ReleasedCreditMargin r) (cf_ReleasedCreditMargin r)))
         (\<lambda>_. andThen (onAccounts (svcSettlePnl L (ord_UID o') (cf_RealizedPnl r)))
         (\<lambda>_. andThen (bookTx L (ord_UID o') (ord_Symbol o') TxRealizedPnl (cf_RealizedPnl r) now)
         (\<lambda>_ s. (Inr r, s)))))"

definition settleFee ::
  "dec_lib \<Rightarrow> Coin option \<Rightarrow> Order \<Rightarrow> dec \<Rightarrow> bool \<Rightarrow> int \<Rightarrow> dec \<Rightarrow> dec \<Rightarrow> 'z Money_scheme \<Rightarrow> FillResult res \<times> 'z Money_scheme" where
  "settleFee L coin o' dealPrice isMaker now realizedPnl closeVolume s =
     (case coin of
        None \<Rightarrow> (Inl PanicNilPointer, s)
      | Some c \<Rightarrow>
          let feeRate = (if isMaker then coin_MakerFee c else coin_TakerFee c);
              fee = closeVolume * dealPrice * feeRate in
          andThen (onAccounts (svcDeductFee L (ord_UID o') fee))
            (\<lambda>_. andThen (bookTx L (ord_UID o') (ord_Symbol o') TxFee (- fee) now)
            (\<lambda>_ s. (Inr \<lparr> flr_RealizedPnl = realizedPnl, flr_Fee = fee, flr_CloseVolume = closeVolume \<rparr>, s))) s)"

definition SettleFill ::
  "dec_lib \<Rightarrow> Coin list \<Rightarrow> Order \<Rightarrow> dec \<Rightarrow> dec \<Rightarrow> bool \<Rightarrow> int \<Rightarrow> 'z Money_scheme \<Rightarrow> FillResult res \<times> 'z Money_scheme" where
  "SettleFill L coins o' dealVolume dealPrice isMaker now =
     (let coin = coinBySymbol coins (ord_Symbol o') in
      if ord_Action o' = ActionOpen then
        andThen (settleOpen L o' dealVolume dealPrice now)
          (\<lambda>_. settleFee L coin o' dealPrice isMaker now 0 dealVolume)
      else
        andThen (settleClose L o' dealVolume dealPrice now)
          (\<lambda>r. settleFee L coin o' dealPrice isMaker now (cf_RealizedPnl r) (cf_CloseVolume r)))"

end
