(* ===== verification/SettlementProps.thy ===== *)
theory SettlementProps
  imports Settlement PositionProps AccountProps
begin

text \<open>
  Correctness of settlement: what one fill does to the locked margin, the money and the ledger of its
  user, and where a settlement that stops half-way leaves the books.
\<close>

section \<open>Account operations as moves of one user's row\<close>

text \<open>The operation found row a of user u and left row a' there; the table is in order and no other
  user's row changed.\<close>

definition movesTo :: "uid \<Rightarrow> Account \<Rightarrow> Account \<Rightarrow> Account list \<Rightarrow> Account list \<Rightarrow> bool" where
  "movesTo u a a' rows rows' \<longleftrightarrow> FindByUID rows u = Some a \<and> FindByUID rows' u = Some a' \<and>
     wf_accounts rows' \<and> (\<forall>w. w \<noteq> u \<longrightarrow> FindByUID rows' w = FindByUID rows w)"

lemma movesTo_trans: "movesTo u a b s t \<Longrightarrow> movesTo u b c t r \<Longrightarrow> movesTo u a c s r"
  by (simp add: movesTo_def)

lemma movesTo_refl: "wf_accounts rows \<Longrightarrow> FindByUID rows u = Some a \<Longrightarrow> movesTo u a a rows rows"
  by (simp add: movesTo_def)

lemma account_fits:
  "wf_accounts rows \<Longrightarrow> FindByUID rows u = Some a \<Longrightarrow>
   fits 16 (acc_Balance a) \<and> fits 16 (acc_Credit a) \<and> fits 16 (acc_FrozenMargin a) \<and> fits 16 (acc_FrozenCredit a)"
  by (auto simp: wf_accounts_def fits_row_def dest: FindByUID_Some)

lemma statement_moves:
  assumes "wf_accounts rows" "FindByUID rows u = Some a" "g a"
    and "\<And>x. acc_ID (f x) = acc_ID x" "\<And>x. acc_UID (f x) = acc_UID x" "\<And>x. fits_row x \<Longrightarrow> fits_row (f x)"
  shows "movesTo u a (f a) rows (sql_update (\<lambda>x. acc_ID x = acc_ID a \<and> g x) f rows)"
proof -
  have "FindByUID (sql_update (\<lambda>x. acc_ID x = acc_ID a \<and> g x) f rows) w = FindByUID rows w" if w: "w \<noteq> u" for w
  proof (cases "FindByUID rows w")
    case (Some b)
    have "acc_ID b \<noteq> acc_ID a"
      using FindByUID_Some [OF Some] FindByUID_Some [OF assms(2)] w assms(1) unfolding wf_accounts_def
      by (auto dest: unique_key_eq)
    with Some show ?thesis by (simp add: FindByUID_update assms(5))
  qed (simp add: FindByUID_update assms(5))
  with assms show ?thesis by (auto simp: movesTo_def FindByUID_update intro: wf_accounts_update)
qed

lemma withAccount_Some: "FindByUID rows u = Some a \<Longrightarrow> withAccount u k rows = k a rows"
  by (simp add: withAccount_def)

lemma UnfreezeMargin_moves:
  assumes "decimal_lib L" "wf_accounts rows" "FindByUID rows u = Some a" "fits 16 x" "fits 16 y"
    and "x \<le> acc_FrozenMargin a" "y \<le> acc_FrozenCredit a"
  shows "fst (UnfreezeMargin L u x y rows) = Inr ()"
    and "movesTo u a (a\<lparr> acc_FrozenMargin := acc_FrozenMargin a - x, acc_FrozenCredit := acc_FrozenCredit a - y \<rparr>)
      rows (snd (UnfreezeMargin L u x y rows))"
proof -
  let ?g = "\<lambda>b. x \<le> acc_FrozenMargin b \<and> y \<le> acc_FrozenCredit b"
  let ?f = "\<lambda>b. b\<lparr> acc_FrozenMargin := col L (acc_FrozenMargin b - x), acc_FrozenCredit := col L (acc_FrozenCredit b - y) \<rparr>"
  have "FindByUID rows u = Some a \<Longrightarrow> \<exists>b\<in>set rows. acc_ID b = acc_ID a \<and> ?g b"
    using FindByUID_Some [OF assms(3)] assms(6,7) by blast
  hence run: "UnfreezeMargin L u x y rows = (Inr (), sql_update (\<lambda>b. acc_ID b = acc_ID a \<and> ?g b) ?f rows)"
    using assms(3) by (auto simp: UnfreezeMargin_def withAccount_Some AdjustFrozenMargin_def sql_exec_eq)
  show "fst (UnfreezeMargin L u x y rows) = Inr ()" by (simp add: run)
  have "movesTo u a (?f a) rows (sql_update (\<lambda>b. acc_ID b = acc_ID a \<and> ?g b) ?f rows)"
    by (rule statement_moves [OF assms(2,3)])
      (use assms(6,7) decimal_lib.col_fits [OF assms(1)] in \<open>auto simp: fits_row_def col_def\<close>)
  moreover have "fits 16 (acc_FrozenMargin a - x)" "fits 16 (acc_FrozenCredit a - y)"
    using account_fits [OF assms(2,3)] assms(4,5) by auto
  ultimately show "movesTo u a (a\<lparr> acc_FrozenMargin := acc_FrozenMargin a - x, acc_FrozenCredit := acc_FrozenCredit a - y \<rparr>)
      rows (snd (UnfreezeMargin L u x y rows))"
    by (simp add: run col_fit [OF assms(1)])
qed

text \<open>Too little is locked: nothing changes.\<close>

lemma UnfreezeMargin_short:
  assumes "wf_accounts rows" "FindByUID rows u = Some a" "acc_FrozenMargin a < x \<or> acc_FrozenCredit a < y"
  shows "UnfreezeMargin L u x y rows = (Inl ErrFrozenMarginShort, rows)"
proof -
  have no: "\<not> (acc_ID b = acc_ID a \<and> (x \<le> acc_FrozenMargin b \<and> y \<le> acc_FrozenCredit b))" if "b \<in> set rows" for b
    using that FindByUID_Some [OF assms(2)] assms(1,3) unfolding wf_accounts_def by (auto dest: unique_key_eq)
  hence "sql_update (\<lambda>b. acc_ID b = acc_ID a \<and> (x \<le> acc_FrozenMargin b \<and> y \<le> acc_FrozenCredit b)) f rows = rows" for f
    by (intro sql_update_none) blast
  with no assms(2) show ?thesis by (auto simp: UnfreezeMargin_def withAccount_Some AdjustFrozenMargin_def sql_exec_eq)
qed

text \<open>Money moves: balance and credit change by the amount, up to the rounding of the columns; what is
  locked does not change.\<close>

definition moneyMove :: "uid \<Rightarrow> Account \<Rightarrow> dec \<Rightarrow> dec \<Rightarrow> Account list \<Rightarrow> Account list \<Rightarrow> bool" where
  "moneyMove u a amount err rows rows' \<longleftrightarrow>
     (\<exists>b c. movesTo u a (a\<lparr> acc_Balance := b, acc_Credit := c \<rparr>) rows rows' \<and>
        \<bar>b + c - (acc_Balance a + acc_Credit a + amount)\<bar> \<le> err)"

lemma col_half: "decimal_lib L \<Longrightarrow> \<bar>col L x - x\<bar> \<le> 1 / (2 * 10 ^ 16)"
  unfolding col_def by (rule decimal_lib.col_near)

lemma SettleToBalance_money:
  assumes "decimal_lib L" "wf_accounts rows" "FindByUID rows u = Some a"
  shows "moneyMove u a amount (1 / (2 * 10 ^ 16)) rows (SettleToBalance L (acc_ID a) amount rows)"
proof -
  let ?f = "\<lambda>b. b\<lparr> acc_Balance := col L (acc_Balance b + amount) \<rparr>"
  have "movesTo u a (?f a) rows (sql_update (\<lambda>b. acc_ID b = acc_ID a \<and> True) ?f rows)"
    by (rule statement_moves [OF assms(2,3)])
      (use decimal_lib.col_fits [OF assms(1)] in \<open>auto simp: fits_row_def col_def\<close>)
  hence "movesTo u a (a\<lparr> acc_Balance := col L (acc_Balance a + amount), acc_Credit := acc_Credit a \<rparr>) rows
      (SettleToBalance L (acc_ID a) amount rows)"
    by (simp add: SettleToBalance_def)
  moreover have "\<bar>col L (acc_Balance a + amount) + acc_Credit a - (acc_Balance a + acc_Credit a + amount)\<bar> \<le> 1 / (2 * 10 ^ 16)"
    using col_half [OF assms(1), of "acc_Balance a + amount"] by (simp add: algebra_simps)
  ultimately show ?thesis unfolding moneyMove_def by blast
qed

lemma deduct_money:
  assumes "decimal_lib L" "wf_accounts rows" "FindByUID rows u = Some a"
  shows "moneyMove u a (- loss) (1 / 10 ^ 16) rows (deductWithCreditFallback L (acc_ID a) loss rows)"
proof -
  let ?x = "absorbedByCredit a loss"
  let ?b = "col L (acc_Balance a - loss + ?x)" and ?c = "col L (acc_Credit a - ?x)"
  let ?f = "\<lambda>b. b\<lparr> acc_Balance := col L (acc_Balance b - loss + absorbedByCredit b loss),
                   acc_Credit := col L (acc_Credit b - absorbedByCredit b loss) \<rparr>"
  have "movesTo u a (?f a) rows (sql_update (\<lambda>b. acc_ID b = acc_ID a \<and> True) ?f rows)"
    by (rule statement_moves [OF assms(2,3)])
      (use decimal_lib.col_fits [OF assms(1)] in \<open>auto simp: fits_row_def col_def\<close>)
  hence "movesTo u a (a\<lparr> acc_Balance := ?b, acc_Credit := ?c \<rparr>) rows (deductWithCreditFallback L (acc_ID a) loss rows)"
    by (simp add: deductWithCreditFallback_def)
  moreover have "\<bar>?b + ?c - (acc_Balance a + acc_Credit a + - loss)\<bar> \<le> 1 / 10 ^ 16"
    using col_half [OF assms(1), of "acc_Balance a - loss + ?x"] col_half [OF assms(1), of "acc_Credit a - ?x"]
    by linarith
  ultimately show ?thesis unfolding moneyMove_def by blast
qed

lemma moneyMove_weaken: "moneyMove u a x e s t \<Longrightarrow> e \<le> e' \<Longrightarrow> moneyMove u a x e' s t"
  unfolding moneyMove_def by force

lemma svcSettlePnl_money:
  assumes "decimal_lib L" "wf_accounts rows" "FindByUID rows u = Some a"
  shows "fst (svcSettlePnl L u amount rows) = Inr ()"
    and "moneyMove u a amount (1 / 10 ^ 16) rows (snd (svcSettlePnl L u amount rows))"
  using moneyMove_weaken [OF SettleToBalance_money [OF assms], of "1 / 10 ^ 16" amount]
    deduct_money [OF assms, of "- amount"] assms(3)
  by (auto simp: svcSettlePnl_def withAccount_Some SettlePnl_def)

lemma svcDeductFee_money:
  assumes "decimal_lib L" "wf_accounts rows" "FindByUID rows u = Some a" "0 \<le> fee"
  shows "fst (svcDeductFee L u fee rows) = Inr ()"
    and "moneyMove u a (- fee) (1 / 10 ^ 16) rows (snd (svcDeductFee L u fee rows))"
proof -
  show "fst (svcDeductFee L u fee rows) = Inr ()"
    using assms(3) by (simp add: svcDeductFee_def withAccount_Some)
  have "moneyMove u a 0 (1 / 10 ^ 16) rows rows"
    using movesTo_refl [OF assms(2,3)] unfolding moneyMove_def
    by (intro exI [of _ "acc_Balance a"] exI [of _ "acc_Credit a"]) simp
  with deduct_money [OF assms(1-3), of fee] assms(3,4)
  show "moneyMove u a (- fee) (1 / 10 ^ 16) rows (snd (svcDeductFee L u fee rows))"
    by (cases "fee = 0") (simp_all add: svcDeductFee_def withAccount_Some DeductFee_def)
qed

text \<open>A ledger row is its amount up to the rounding of its column.\<close>

lemma ledger_txInsert:
  "ledgerTotal w (txInsert L u sy ty amount now txs) = ledgerTotal w txs + (if w = u then col L amount else 0)"
  by (simp add: txInsert_def ledgerTotal_def)

section \<open>Opening fills\<close>

text \<open>What a position holds locked of its user's balance and credit.\<close>

definition heldBy :: "Position list \<Rightarrow> uid \<Rightarrow> symbol \<Rightarrow> Side \<Rightarrow> dec \<times> dec" where
  "heldBy rows u sy sd =
     (case Find rows u sy sd of None \<Rightarrow> (0, 0) | Some q \<Rightarrow> (pos_PositionMargin q - pos_CreditMargin q, pos_CreditMargin q))"

definition okHeld :: "Position list \<Rightarrow> uid \<Rightarrow> symbol \<Rightarrow> Side \<Rightarrow> bool" where
  "okHeld rows u sy sd \<longleftrightarrow> (case Find rows u sy sd of None \<Rightarrow> True | Some q \<Rightarrow> okPosition q)"

text \<open>An order that may be filled by v: positive terms, locked amounts that fit their columns.\<close>

definition fillable :: "Order \<Rightarrow> dec \<Rightarrow> dec \<Rightarrow> bool" where
  "fillable o' v p \<longleftrightarrow> 0 < v \<and> v \<le> ord_Amount o' \<and> fits 16 v \<and> 0 < p \<and> fits 8 p \<and> 0 < ord_Leverage o' \<and>
     0 \<le> ord_FrozenMargin o' \<and> 0 \<le> ord_FrozenCredit o' \<and> fits 16 (ord_FrozenMargin o') \<and> fits 16 (ord_FrozenCredit o')"

lemma properSplit_parts:
  assumes "decimal_lib L" "0 \<le> pm" "fits 16 pm" "0 \<le> fa" "0 \<le> fc"
  obtains pa pc where "properSplit L pm fa fc = (pa, pc)" "pa + pc = pm" "0 \<le> pa" "0 \<le> pc" "fits 16 pa" "fits 16 pc"
proof (cases "0 < fa + fc")
  case True
  let ?pa = "lib_Div L (pm * fa) (fa + fc)"
  have "0 \<le> ?pa" using assms True by (intro decimal_lib.div_nonneg) simp_all
  moreover have "?pa \<le> pm" using assms True by (intro decimal_lib.div_le_fits) (simp_all add: mult_left_mono)
  moreover have "fits 16 ?pa" using True by (intro decimal_lib.div_fits [OF assms(1)]) simp
  ultimately show ?thesis using True assms(3) that [of ?pa "pm - ?pa"] by (auto simp: properSplit_def Let_def)
next
  case False
  with assms that [of pm 0] show ?thesis by (simp add: properSplit_def)
qed

lemma open_fill_held:
  assumes "decimal_lib L" "wf_positions rows" "okHeld rows u sy sd" "0 < v" "fits 16 v" "fits 16 m" "fits 16 c" "0 \<le> c" "c \<le> m" "fits 8 p"
  obtains q' where "fst (ApplyOpenFill L u sy sd v p m c lev t rows) = Inr ()"
    "Find (snd (ApplyOpenFill L u sy sd v p m c lev t rows)) u sy sd = Some q'" "okPosition q'"
    "pos_PositionMargin q' - pos_CreditMargin q' = fst (heldBy rows u sy sd) + (m - c)"
    "pos_CreditMargin q' = snd (heldBy rows u sy sd) + c"
proof (cases "Find rows u sy sd")
  case None
  let ?r = "openRow L (Suc (fold max (map pos_ID rows) 0)) u sy sd v p m c lev t"
  have cols: "col L v = v" "col L m = m" "col L c = c" "price_col L p = p"
    using assms by (simp_all add: col_fit price_col_def decimal_lib.col_id)
  have run: "ApplyOpenFill L u sy sd v p m c lev t rows = (Inr (), rows @ [?r])" using None by (simp add: ApplyOpenFill_cases)
  have "Find (rows @ [?r]) u sy sd = Some ?r"
    using None by (simp add: Find_def sql_first_append) (simp add: sql_first_def openRow_def posKey_def)
  moreover have "okPosition ?r" using assms cols by (simp add: okPosition_def openRow_def)
  ultimately show ?thesis using that [of ?r] run None cols by (simp add: heldBy_def openRow_def)
next
  case (Some q)
  with assms(3) have "okPosition q" by (simp add: okHeld_def)
  note at = open_fill_at [OF assms(1,2) Some this assms(4-10), where lev = lev and t = t]
  from that [OF at] Some show ?thesis by (simp add: heldBy_def)
qed

lemma settleOpen_moves:
  fixes s :: "'z Money_scheme"
  assumes "decimal_lib L" "wf_accounts (mny_accounts s)" "wf_positions (mny_positions s)" "fillable o' v p"
    and "FindByUID (mny_accounts s) (ord_UID o') = Some a"
    and "ord_FrozenMargin o' \<le> acc_FrozenMargin a" "ord_FrozenCredit o' \<le> acc_FrozenCredit a"
    and "okHeld (mny_positions s) (ord_UID o') (ord_Symbol o') (ord_Side o')"
  obtains s' q' x y fa fc where "settleOpen L o' v p t s = (Inr (), s')" "mny_txs s' = mny_txs s"
    "movesTo (ord_UID o') a (a\<lparr> acc_FrozenMargin := x, acc_FrozenCredit := y \<rparr>) (mny_accounts s) (mny_accounts s')"
    "Find (mny_positions s') (ord_UID o') (ord_Symbol o') (ord_Side o') = Some q'" "okPosition q'"
    "ProportionalFrozen L o' v = Inr (fa, fc)"
    "x - (pos_PositionMargin q' - pos_CreditMargin q') =
       acc_FrozenMargin a - fst (heldBy (mny_positions s) (ord_UID o') (ord_Symbol o') (ord_Side o')) - fa"
    "y - pos_CreditMargin q' = acc_FrozenCredit a - snd (heldBy (mny_positions s) (ord_UID o') (ord_Symbol o') (ord_Side o')) - fc"
proof -
  let ?u = "ord_UID o'" and ?sy = "ord_Symbol o'" and ?sd = "ord_Side o'" and ?A = "ord_Amount o'"
  have o: "0 < v" "v \<le> ?A" "fits 16 v" "0 < p" "fits 8 p" "0 < ord_Leverage o'" "0 \<le> ord_FrozenMargin o'" "0 \<le> ord_FrozenCredit o'"
    "fits 16 (ord_FrozenMargin o')" "fits 16 (ord_FrozenCredit o')" using assms(4) by (simp_all add: fillable_def)
  define fa where "fa = lib_Div L (ord_FrozenMargin o' * v) ?A"
  define fc where "fc = lib_Div L (ord_FrozenCredit o' * v) ?A"
  have f: "ProportionalFrozen L o' v = Inr (fa, fc)" using o by (simp add: ProportionalFrozen_Inr fa_def fc_def)
  have fa: "0 \<le> fa" "fa \<le> ord_FrozenMargin o'" "fits 16 fa"
    using decimal_lib.share_bounds [OF assms(1), of ?A v "ord_FrozenMargin o'" "ord_FrozenMargin o'"] o by (simp_all add: fa_def)
  have fc: "0 \<le> fc" "fc \<le> ord_FrozenCredit o'" "fits 16 fc"
    using decimal_lib.share_bounds [OF assms(1), of ?A v "ord_FrozenCredit o'" "ord_FrozenCredit o'"] o by (simp_all add: fc_def)
  define pm where "pm = lib_Div L (v * p) (of_nat (ord_Leverage o'))"
  have pm: "sdiv L (v * p) (of_nat (ord_Leverage o')) = Inr pm" "0 \<le> pm" "fits 16 pm"
    using o by (auto simp: pm_def sdiv_def intro!: decimal_lib.div_nonneg [OF assms(1)] decimal_lib.div_fits [OF assms(1)])
  obtain pa pc where split: "properSplit L pm fa fc = (pa, pc)" and
    p: "pa + pc = pm" "0 \<le> pa" "0 \<le> pc" "fits 16 pa" "fits 16 pc"
    using properSplit_parts [OF assms(1) pm(2,3) fa(1) fc(1)] by metis
  have "pc \<le> pm" "pm - pc = pa" using p by simp_all
  from open_fill_held [OF assms(1,3,8) o(1,3) pm(3) p(5,3) this(1) o(5)] obtain q' where
    q': "fst (ApplyOpenFill L ?u ?sy ?sd v p pm pc (ord_Leverage o') t (mny_positions s)) = Inr ()"
      "Find (snd (ApplyOpenFill L ?u ?sy ?sd v p pm pc (ord_Leverage o') t (mny_positions s))) ?u ?sy ?sd = Some q'" "okPosition q'"
      "pos_PositionMargin q' - pos_CreditMargin q' = fst (heldBy (mny_positions s) ?u ?sy ?sd) + (pm - pc)"
      "pos_CreditMargin q' = snd (heldBy (mny_positions s) ?u ?sy ?sd) + pc" by metis
  note un = UnfreezeMargin_moves [OF assms(1,2,5), of "fa - pa" "fc - pc"]
  have g: "fits 16 (fa - pa)" "fits 16 (fc - pc)" "fa - pa \<le> acc_FrozenMargin a" "fc - pc \<le> acc_FrozenCredit a"
    using fa fc p assms(6,7) by auto
  define s' where "s' = s\<lparr> mny_positions := snd (ApplyOpenFill L ?u ?sy ?sd v p pm pc (ord_Leverage o') t (mny_positions s)),
      mny_accounts := snd (UnfreezeMargin L ?u (fa - pa) (fc - pc) (mny_accounts s)) \<rparr>"
  have "settleOpen L o' v p t s = (Inr (), s')"
    using q'(1) un(1) [OF g] f pm(1) split
    by (simp add: settleOpen_def andThen_def onPositions_eq onAccounts_eq s'_def)
  with un(2) [OF g] q' f \<open>pm - pc = pa\<close> show ?thesis
    by (intro that [where s' = s' and x = "acc_FrozenMargin a - (fa - pa)" and y = "acc_FrozenCredit a - (fc - pc)"
          and q' = q' and fa = fa and fc = fc])
      (simp_all add: s'_def algebra_simps)
qed

lemma settleFee_books:
  fixes s :: "'z Money_scheme"
  assumes "decimal_lib L" "wf_accounts (mny_accounts s)" "FindByUID (mny_accounts s) (ord_UID o') = Some a"
    and "0 \<le> cv * p * (if isMaker then coin_MakerFee c else coin_TakerFee c)"
  obtains s' where "settleFee L (Some c) o' p isMaker t pnl cv s =
      (Inr \<lparr> flr_RealizedPnl = pnl, flr_Fee = cv * p * (if isMaker then coin_MakerFee c else coin_TakerFee c), flr_CloseVolume = cv \<rparr>, s')"
    "mny_positions s' = mny_positions s"
    "moneyMove (ord_UID o') a (- (cv * p * (if isMaker then coin_MakerFee c else coin_TakerFee c))) (1 / 10 ^ 16)
       (mny_accounts s) (mny_accounts s')"
    "ledgerTotal (ord_UID o') (mny_txs s') = ledgerTotal (ord_UID o') (mny_txs s) +
       col L (- (cv * p * (if isMaker then coin_MakerFee c else coin_TakerFee c)))"
proof -
  define fee where "fee = cv * p * (if isMaker then coin_MakerFee c else coin_TakerFee c)"
  note d = svcDeductFee_money [OF assms, folded fee_def]
  let ?fee = fee
  let ?s = "s\<lparr> mny_accounts := snd (svcDeductFee L (ord_UID o') ?fee (mny_accounts s)),
      mny_txs := txInsert L (ord_UID o') (ord_Symbol o') TxFee (- ?fee) t (mny_txs s) \<rparr>"
  have "settleFee L (Some c) o' p isMaker t pnl cv s =
      (Inr \<lparr> flr_RealizedPnl = pnl, flr_Fee = ?fee, flr_CloseVolume = cv \<rparr>, ?s)"
    using d(1) by (simp add: settleFee_def Let_def andThen_def onAccounts_eq bookTx_def flip: fee_def)
  with d(2) show ?thesis by (intro that [of ?s, folded fee_def]) (simp_all add: ledger_txInsert)
qed

text \<open>C9. An opening fill keeps the locks in step. For an order whose locked amounts are still locked in the
  account, the fill succeeds; afterwards the account's locked balance less what the position holds of
  it has dropped by exactly the order's share of this deal, and likewise for credit, whatever the deal
  price was; the position is in order; balance plus credit changed by minus the fee and the ledger says
  so, each up to the rounding of its columns; no other user's account changed.\<close>

theorem SettleFill_open_books:
  fixes s :: "'z Money_scheme" and isMaker :: bool
  assumes "decimal_lib L" "wf_accounts (mny_accounts s)" "wf_positions (mny_positions s)" "fillable o' v p" "ord_Action o' = ActionOpen"
    and "FindByUID (mny_accounts s) (ord_UID o') = Some a"
    and "ord_FrozenMargin o' \<le> acc_FrozenMargin a" "ord_FrozenCredit o' \<le> acc_FrozenCredit a"
    and "okHeld (mny_positions s) (ord_UID o') (ord_Symbol o') (ord_Side o')"
    and "coinBySymbol coins (ord_Symbol o') = Some c" "0 \<le> coin_MakerFee c" "0 \<le> coin_TakerFee c"
  defines "fee \<equiv> v * p * (if isMaker then coin_MakerFee c else coin_TakerFee c)"
  shows "\<exists>r s' a' q' fa fc. SettleFill L coins o' v p isMaker t s = (Inr r, s') \<and>
    movesTo (ord_UID o') a a' (mny_accounts s) (mny_accounts s') \<and>
    Find (mny_positions s') (ord_UID o') (ord_Symbol o') (ord_Side o') = Some q' \<and> okPosition q' \<and>
    ProportionalFrozen L o' v = Inr (fa, fc) \<and>
    acc_FrozenMargin a' - (pos_PositionMargin q' - pos_CreditMargin q') =
      acc_FrozenMargin a - fst (heldBy (mny_positions s) (ord_UID o') (ord_Symbol o') (ord_Side o')) - fa \<and>
    acc_FrozenCredit a' - pos_CreditMargin q' =
      acc_FrozenCredit a - snd (heldBy (mny_positions s) (ord_UID o') (ord_Symbol o') (ord_Side o')) - fc \<and>
    \<bar>(acc_Balance a' + acc_Credit a') - (acc_Balance a + acc_Credit a) + fee\<bar> \<le> 1 / 10 ^ 16 \<and>
    \<bar>ledgerTotal (ord_UID o') (mny_txs s') - ledgerTotal (ord_UID o') (mny_txs s) + fee\<bar> \<le> 1 / (2 * 10 ^ 16) \<and>
    flr_Fee r = fee \<and> flr_CloseVolume r = v"
proof -
  let ?u = "ord_UID o'"
  obtain s1 q' x y fa fc where s1: "settleOpen L o' v p t s = (Inr (), s1)" "mny_txs s1 = mny_txs s"
    "movesTo ?u a (a\<lparr> acc_FrozenMargin := x, acc_FrozenCredit := y \<rparr>) (mny_accounts s) (mny_accounts s1)"
    "Find (mny_positions s1) ?u (ord_Symbol o') (ord_Side o') = Some q'" "okPosition q'" "ProportionalFrozen L o' v = Inr (fa, fc)"
    "x - (pos_PositionMargin q' - pos_CreditMargin q') =
       acc_FrozenMargin a - fst (heldBy (mny_positions s) ?u (ord_Symbol o') (ord_Side o')) - fa"
    "y - pos_CreditMargin q' = acc_FrozenCredit a - snd (heldBy (mny_positions s) ?u (ord_Symbol o') (ord_Side o')) - fc"
    using settleOpen_moves [OF assms(1-4,6-9)] by metis
  let ?b = "a\<lparr> acc_FrozenMargin := x, acc_FrozenCredit := y \<rparr>"
  have b: "wf_accounts (mny_accounts s1)" "FindByUID (mny_accounts s1) ?u = Some ?b" using s1(3) by (simp_all add: movesTo_def)
  have fee: "0 \<le> fee" using assms(4,11,12) by (simp add: fee_def fillable_def)
  obtain s2 where s2: "settleFee L (Some c) o' p isMaker t 0 v s1 = (Inr \<lparr> flr_RealizedPnl = 0, flr_Fee = fee, flr_CloseVolume = v \<rparr>, s2)"
    "mny_positions s2 = mny_positions s1" "moneyMove ?u ?b (- fee) (1 / 10 ^ 16) (mny_accounts s1) (mny_accounts s2)"
    "ledgerTotal ?u (mny_txs s2) = ledgerTotal ?u (mny_txs s1) + col L (- fee)"
    using settleFee_books [OF assms(1) b, of v p isMaker c] fee unfolding fee_def by metis
  from s2(3) obtain bal cr where m: "movesTo ?u ?b (?b\<lparr> acc_Balance := bal, acc_Credit := cr \<rparr>) (mny_accounts s1) (mny_accounts s2)"
    "\<bar>bal + cr - (acc_Balance a + acc_Credit a + - fee)\<bar> \<le> 1 / 10 ^ 16" by (auto simp: moneyMove_def)
  have "SettleFill L coins o' v p isMaker t s = (Inr \<lparr> flr_RealizedPnl = 0, flr_Fee = fee, flr_CloseVolume = v \<rparr>, s2)"
    using s1(1) s2(1) assms(5,10) by (simp add: SettleFill_def)
  moreover have "\<bar>ledgerTotal ?u (mny_txs s2) - ledgerTotal ?u (mny_txs s) + fee\<bar> \<le> 1 / (2 * 10 ^ 16)"
    using col_half [OF assms(1), of "- fee"] s2(4) s1(2) by simp
  ultimately show ?thesis using movesTo_trans [OF s1(3) m(1)] m(2) s1 s2(2)
    by (intro exI [of _ "\<lparr> flr_RealizedPnl = 0, flr_Fee = fee, flr_CloseVolume = v \<rparr>"] exI [of _ s2]
        exI [of _ "?b\<lparr> acc_Balance := bal, acc_Credit := cr \<rparr>"] exI [of _ q'] exI [of _ fa] exI [of _ fc]) (simp add: algebra_simps)
qed

definition demoCoin :: Coin where
  "demoCoin =
     \<lparr> coin_Symbol = ''BTCUSDT'', coin_BaseCoinScale = 8, coin_PriceScale = 8, coin_Enable = True,
       coin_MakerFee = 2 / 10000, coin_TakerFee = 5 / 10000, coin_PriceTick = 0, coin_VolumeStep = 0,
       coin_MinVolume = 0, coin_MaxVolume = 0, coin_FundingIntervalHours = 8, coin_FundingRateCap = 75 / 10000,
       coin_FundingImpactNotional = 100, coin_PriceProtectionRatio = 5 / 100 \<rparr>"

definition demoFillOrder :: Order where
  "demoFillOrder =
     \<lparr> ord_OrderID = 11, ord_UID = 7, ord_Symbol = ''BTCUSDT'', ord_Side = SideLong, ord_Action = ActionOpen,
       ord_Type = OrderTypeLimit, ord_Price = 100, ord_Amount = 4, ord_TradedAmount = 0, ord_AvgDealPrice = 0,
       ord_FrozenMargin = 40, ord_FrozenCredit = 0, ord_Leverage = 10, ord_ReduceOnly = False,
       ord_Liquidation = False, ord_Status = OrderStatusOpen, ord_CreateTime = 5, ord_UpdateTime = 5,
       ord_RequestID = None, ord_RequestHash = None \<rparr>"

definition demoMoney :: Money where
  "demoMoney = \<lparr> mny_accounts = demoAccounts, mny_positions = [], mny_txs = [] \<rparr>"

lemma demoMoney_ok:
  "wf_accounts (mny_accounts demoMoney)" "FindByUID (mny_accounts demoMoney) 7 = Some (hd demoAccounts)"
  "coinBySymbol [demoCoin] ''BTCUSDT'' = Some demoCoin"
  using wf_demoAccounts by (simp_all add: demoMoney_def FindByUID_def demoAccounts_def coinBySymbol_def demoCoin_def sql_first_def)

lemma SettleFill_open_books_witness:
  "\<exists>r s' a'. SettleFill std_lib [demoCoin] demoFillOrder 2 100 False 9 demoMoney = (Inr r, s') \<and> flr_Fee r = 1 / 10 \<and>
     FindByUID (mny_accounts s') 7 = Some a' \<and> \<bar>(acc_Balance a' + acc_Credit a') - 150 + 1 / 10\<bar> \<le> 1 / 10 ^ 16"
proof -
  have h: "fillable demoFillOrder 2 100" "ord_Action demoFillOrder = ActionOpen" "ord_UID demoFillOrder = 7"
    "ord_Symbol demoFillOrder = ''BTCUSDT''" "ord_FrozenMargin demoFillOrder \<le> acc_FrozenMargin (hd demoAccounts)"
    "ord_FrozenCredit demoFillOrder \<le> acc_FrozenCredit (hd demoAccounts)"
    "acc_Balance (hd demoAccounts) + acc_Credit (hd demoAccounts) = 150"
    "okHeld (mny_positions demoMoney) 7 ''BTCUSDT'' (ord_Side demoFillOrder)" "wf_positions (mny_positions demoMoney)"
    "0 \<le> coin_MakerFee demoCoin" "0 \<le> coin_TakerFee demoCoin" "coin_TakerFee demoCoin = 1 / 2000"
    by (simp_all add: fillable_def demoFillOrder_def demoAccounts_def demoMoney_def okHeld_def Find_def sql_first_def
        wf_positions_def demoCoin_def)
  from SettleFill_open_books [OF std_decimal_lib demoMoney_ok(1) h(9) h(1) h(2), unfolded h(3,4),
      OF demoMoney_ok(2) h(5,6) h(8) demoMoney_ok(3) h(10,11), of False 9] h(7,12)
  show ?thesis by (auto simp: movesTo_def)
qed

section \<open>Closing fills\<close>

lemma SettleFill_close_eq:
  fixes s :: "'z Money_scheme"
  assumes "ord_Action o' = ActionClose"
    and "ApplyCloseFill L (ord_UID o') (ord_Symbol o') (ord_Side o') v p t (mny_positions s) = (f, ps)"
    and "coinBySymbol coins (ord_Symbol o') = Some c"
  shows "SettleFill L coins o' v p isMaker t s =
    andThen (onAccounts (UnfreezeMargin L (ord_UID o') (cf_ReleasedMargin f - cf_ReleasedCreditMargin f) (cf_ReleasedCreditMargin f)))
      (\<lambda>_. andThen (onAccounts (svcSettlePnl L (ord_UID o') (cf_RealizedPnl f)))
      (\<lambda>_. andThen (bookTx L (ord_UID o') (ord_Symbol o') TxRealizedPnl (cf_RealizedPnl f) t)
      (\<lambda>_. settleFee L (Some c) o' p isMaker t (cf_RealizedPnl f) (cf_CloseVolume f)))) (s\<lparr> mny_positions := ps \<rparr>)"
  using assms
  by (auto simp: SettleFill_def settleClose_def andThen_def onPositions_eq onAccounts_eq bookTx_def split: sum.splits prod.splits)

text \<open>The money side of a close whose margin is still locked: release, result, ledger row, fee.\<close>

lemma close_money:
  fixes s :: "'z Money_scheme" and isMaker :: bool
  assumes "decimal_lib L" "wf_accounts (mny_accounts s)" "FindByUID (mny_accounts s) (ord_UID o') = Some a"
    and "fits 16 x" "fits 16 y" "x \<le> acc_FrozenMargin a" "y \<le> acc_FrozenCredit a"
    and "0 \<le> cv * p * (if isMaker then coin_MakerFee c else coin_TakerFee c)"
  defines "fee \<equiv> cv * p * (if isMaker then coin_MakerFee c else coin_TakerFee c)"
  obtains s' a' where
    "andThen (onAccounts (UnfreezeMargin L (ord_UID o') x y))
      (\<lambda>_. andThen (onAccounts (svcSettlePnl L (ord_UID o') pnl))
      (\<lambda>_. andThen (bookTx L (ord_UID o') sy TxRealizedPnl pnl t)
      (\<lambda>_. settleFee L (Some c) o' p isMaker t pnl cv))) s =
      (Inr \<lparr> flr_RealizedPnl = pnl, flr_Fee = fee, flr_CloseVolume = cv \<rparr>, s')"
    "mny_positions s' = mny_positions s" "movesTo (ord_UID o') a a' (mny_accounts s) (mny_accounts s')"
    "acc_FrozenMargin a' = acc_FrozenMargin a - x" "acc_FrozenCredit a' = acc_FrozenCredit a - y"
    "\<bar>(acc_Balance a' + acc_Credit a') - (acc_Balance a + acc_Credit a) - (pnl - fee)\<bar> \<le> 2 / 10 ^ 16"
    "\<bar>ledgerTotal (ord_UID o') (mny_txs s') - ledgerTotal (ord_UID o') (mny_txs s) - (pnl - fee)\<bar> \<le> 1 / 10 ^ 16"
proof -
  let ?u = "ord_UID o'"
  let ?a1 = "a\<lparr> acc_FrozenMargin := acc_FrozenMargin a - x, acc_FrozenCredit := acc_FrozenCredit a - y \<rparr>"
  define r1 where "r1 = snd (UnfreezeMargin L ?u x y (mny_accounts s))"
  note un = UnfreezeMargin_moves [OF assms(1-7), folded r1_def]
  hence r1: "wf_accounts r1" "FindByUID r1 ?u = Some ?a1" by (simp_all add: movesTo_def)
  define r2 where "r2 = snd (svcSettlePnl L ?u pnl r1)"
  note sp = svcSettlePnl_money [OF assms(1) r1, of pnl, folded r2_def]
  then obtain b2 c2 where m2: "movesTo ?u ?a1 (?a1\<lparr> acc_Balance := b2, acc_Credit := c2 \<rparr>) r1 r2"
    "\<bar>b2 + c2 - (acc_Balance a + acc_Credit a + pnl)\<bar> \<le> 1 / 10 ^ 16" by (auto simp: moneyMove_def)
  let ?a2 = "?a1\<lparr> acc_Balance := b2, acc_Credit := c2 \<rparr>"
  define s2 where "s2 = s\<lparr> mny_accounts := r2, mny_txs := txInsert L ?u sy TxRealizedPnl pnl t (mny_txs s) \<rparr>"
  have r2: "wf_accounts (mny_accounts s2)" "FindByUID (mny_accounts s2) ?u = Some ?a2"
    using m2(1) by (simp_all add: movesTo_def s2_def)
  obtain s3 where s3: "settleFee L (Some c) o' p isMaker t pnl cv s2 =
      (Inr \<lparr> flr_RealizedPnl = pnl, flr_Fee = fee, flr_CloseVolume = cv \<rparr>, s3)" "mny_positions s3 = mny_positions s2"
    "moneyMove ?u ?a2 (- fee) (1 / 10 ^ 16) (mny_accounts s2) (mny_accounts s3)"
    "ledgerTotal ?u (mny_txs s3) = ledgerTotal ?u (mny_txs s2) + col L (- fee)"
    using settleFee_books [OF assms(1) r2 assms(8)] unfolding fee_def by metis
  from s3(3) obtain b3 c3 where m3: "movesTo ?u ?a2 (?a2\<lparr> acc_Balance := b3, acc_Credit := c3 \<rparr>) r2 (mny_accounts s3)"
    "\<bar>b3 + c3 - (b2 + c2 + - fee)\<bar> \<le> 1 / 10 ^ 16" by (auto simp: moneyMove_def s2_def)
  show ?thesis
  proof (rule that)
    show "andThen (onAccounts (UnfreezeMargin L ?u x y)) (\<lambda>_. andThen (onAccounts (svcSettlePnl L ?u pnl))
        (\<lambda>_. andThen (bookTx L ?u sy TxRealizedPnl pnl t) (\<lambda>_. settleFee L (Some c) o' p isMaker t pnl cv))) s =
      (Inr \<lparr> flr_RealizedPnl = pnl, flr_Fee = fee, flr_CloseVolume = cv \<rparr>, s3)"
      using un(1) sp(1) s3(1) by (simp add: andThen_def onAccounts_eq bookTx_def s2_def r1_def r2_def)
    show "movesTo ?u a (?a2\<lparr> acc_Balance := b3, acc_Credit := c3 \<rparr>) (mny_accounts s) (mny_accounts s3)"
      using un(2) m2(1) m3(1) by (blast intro: movesTo_trans)
    show "\<bar>ledgerTotal ?u (mny_txs s3) - ledgerTotal ?u (mny_txs s) - (pnl - fee)\<bar> \<le> 1 / 10 ^ 16"
    proof -
      have "ledgerTotal ?u (mny_txs s3) = ledgerTotal ?u (mny_txs s) + col L pnl + col L (- fee)"
        using s3(4) by (simp add: s2_def ledger_txInsert)
      with col_half [OF assms(1), of "- fee"] col_half [OF assms(1), of pnl] show ?thesis by linarith
    qed
    have "\<bar>b3 + c3 - (acc_Balance a + acc_Credit a) - (pnl - fee)\<bar> \<le> 2 / 10 ^ 16"
      using m2(2) m3(2) by linarith
    thus "\<bar>(acc_Balance (?a2\<lparr> acc_Balance := b3, acc_Credit := c3 \<rparr>) + acc_Credit (?a2\<lparr> acc_Balance := b3, acc_Credit := c3 \<rparr>)) -
        (acc_Balance a + acc_Credit a) - (pnl - fee)\<bar> \<le> 2 / 10 ^ 16" by simp
  qed (use s3(2) in \<open>simp_all add: s2_def\<close>)
qed

text \<open>C10. A closing fill moves exactly what the position held, or stops with the position already closed.
  When the account still has the released amounts locked, the fill succeeds: what the account has locked
  beyond the position's margin stays the same, for balance and for credit; balance plus credit changes
  by the realized result minus the fee, and the ledger rows say so, each up to the rounding of its columns;
  no other user's account changed. When the account has less locked than the position releases, the fill
  fails, and the position has been reduced while no money was moved and no ledger row written.\<close>

theorem SettleFill_close_books:
  fixes s :: "'z Money_scheme" and isMaker :: bool
  assumes "decimal_lib L" "wf_accounts (mny_accounts s)" "wf_positions (mny_positions s)" "ord_Action o' = ActionClose"
    and "FindByUID (mny_accounts s) (ord_UID o') = Some a"
    and "Find (mny_positions s) (ord_UID o') (ord_Symbol o') (ord_Side o') = Some q" "okPosition q" "0 < pos_Volume q"
    and "0 < v" "fits 16 v" "0 < p"
    and "coinBySymbol coins (ord_Symbol o') = Some c" "0 \<le> coin_MakerFee c" "0 \<le> coin_TakerFee c"
  defines "f \<equiv> closeFillOf L (ord_Side o') v p q"
  defines "fee \<equiv> cf_CloseVolume f * p * (if isMaker then coin_MakerFee c else coin_TakerFee c)"
  shows "\<exists>s' q'. snd (SettleFill L coins o' v p isMaker t s) = s' \<and>
    Find (mny_positions s') (ord_UID o') (ord_Symbol o') (ord_Side o') = Some q' \<and>
    pos_Volume q' = pos_Volume q - min v (pos_Volume q) \<and>
    (if cf_ReleasedMargin f - cf_ReleasedCreditMargin f \<le> acc_FrozenMargin a \<and> cf_ReleasedCreditMargin f \<le> acc_FrozenCredit a
     then \<exists>r a'. fst (SettleFill L coins o' v p isMaker t s) = Inr r \<and>
       movesTo (ord_UID o') a a' (mny_accounts s) (mny_accounts s') \<and>
       acc_FrozenMargin a' - (pos_PositionMargin q' - pos_CreditMargin q') =
         acc_FrozenMargin a - (pos_PositionMargin q - pos_CreditMargin q) \<and>
       acc_FrozenCredit a' - pos_CreditMargin q' = acc_FrozenCredit a - pos_CreditMargin q \<and>
       \<bar>(acc_Balance a' + acc_Credit a') - (acc_Balance a + acc_Credit a) - (cf_RealizedPnl f - fee)\<bar> \<le> 2 / 10 ^ 16 \<and>
       \<bar>ledgerTotal (ord_UID o') (mny_txs s') - ledgerTotal (ord_UID o') (mny_txs s) - (cf_RealizedPnl f - fee)\<bar> \<le> 1 / 10 ^ 16 \<and>
       flr_RealizedPnl r = cf_RealizedPnl f \<and> flr_Fee r = fee \<and> flr_CloseVolume r = min v (pos_Volume q)
     else fst (SettleFill L coins o' v p isMaker t s) = Inl ErrFrozenMarginShort \<and>
       mny_accounts s' = mny_accounts s \<and> mny_txs s' = mny_txs s)"
proof -
  let ?u = "ord_UID o'" and ?sy = "ord_Symbol o'" and ?sd = "ord_Side o'"
  let ?x = "cf_ReleasedMargin f - cf_ReleasedCreditMargin f" and ?y = "cf_ReleasedCreditMargin f"
  have sd: "pos_Side q = ?sd" using Find_Some [OF assms(6)] by (simp add: posKey_def)
  define q' where "q' = closedRow L f t q q"
  note am = close_fill_amounts [OF assms(1,7,8,9,10) sd, where p = p, folded f_def]
  define ps where "ps = snd (ApplyCloseFill L ?u ?sy ?sd v p t (mny_positions s))"
  have cf: "ApplyCloseFill L ?u ?sy ?sd v p t (mny_positions s) = (f, ps)" "Find ps ?u ?sy ?sd = Some q'"
    using close_fill_at(1,2) [OF assms(3,6,8), of L v p t] by (simp_all add: f_def ps_def q'_def prod_eq_iff)
  have vol: "pos_Volume q' = pos_Volume q - min v (pos_Volume q)" using am(1,2) by (simp add: q'_def f_def)
  define s1 where "s1 = s\<lparr> mny_positions := ps \<rparr>"
  note run = SettleFill_close_eq [OF assms(4) cf(1) assms(12), of isMaker, folded s1_def]
  show ?thesis
  proof (cases "?x \<le> acc_FrozenMargin a \<and> ?y \<le> acc_FrozenCredit a")
    case False
    hence "UnfreezeMargin L ?u ?x ?y (mny_accounts s) = (Inl ErrFrozenMarginShort, mny_accounts s)"
      by (intro UnfreezeMargin_short [OF assms(2,5)]) auto
    hence "SettleFill L coins o' v p isMaker t s = (Inl ErrFrozenMarginShort, s1)"
      by (simp add: run andThen_def onAccounts_eq s1_def)
    with False cf(2) vol show ?thesis by (auto simp: s1_def)
  next
    case True
    have "0 \<le> cf_CloseVolume f" using am(1) assms(8,9) by (simp add: f_def)
    hence fee: "0 \<le> fee" using assms(11,13,14) by (simp add: fee_def)
    have wf: "wf_accounts (mny_accounts s1)" "FindByUID (mny_accounts s1) (ord_UID o') = Some a"
      using assms(2,5) by (simp_all add: s1_def)
    have fits: "fits 16 ?x" "fits 16 ?y" using am(9,10) by auto
    obtain s' a' where m: "SettleFill L coins o' v p isMaker t s =
        (Inr \<lparr> flr_RealizedPnl = cf_RealizedPnl f, flr_Fee = fee, flr_CloseVolume = cf_CloseVolume f \<rparr>, s')"
      "mny_positions s' = mny_positions s1" "movesTo ?u a a' (mny_accounts s1) (mny_accounts s')"
      "acc_FrozenMargin a' = acc_FrozenMargin a - ?x" "acc_FrozenCredit a' = acc_FrozenCredit a - ?y"
      "\<bar>(acc_Balance a' + acc_Credit a') - (acc_Balance a + acc_Credit a) - (cf_RealizedPnl f - fee)\<bar> \<le> 2 / 10 ^ 16"
      "\<bar>ledgerTotal ?u (mny_txs s') - ledgerTotal ?u (mny_txs s1) - (cf_RealizedPnl f - fee)\<bar> \<le> 1 / 10 ^ 16"
      using close_money [OF assms(1) wf fits True [THEN conjunct1] True [THEN conjunct2] fee [unfolded fee_def]]
      unfolding run fee_def by metis
    have rel: "pos_PositionMargin q' + cf_ReleasedMargin f = pos_PositionMargin q"
      "pos_CreditMargin q' + cf_ReleasedCreditMargin f = pos_CreditMargin q" using am(4,5) by (simp_all add: q'_def f_def)
    have parts: "acc_FrozenMargin a' - (pos_PositionMargin q' - pos_CreditMargin q') =
        acc_FrozenMargin a - (pos_PositionMargin q - pos_CreditMargin q)"
      "acc_FrozenCredit a' - pos_CreditMargin q' = acc_FrozenCredit a - pos_CreditMargin q"
      using m(4,5) rel by linarith+
    have eqs: "mny_positions s1 = ps" "mny_accounts s1 = mny_accounts s" "mny_txs s1 = mny_txs s" by (simp_all add: s1_def)
    show ?thesis
      unfolding if_P [OF True] m(1) fst_conv snd_conv
      using m(2,3,6,7) parts cf(2) vol am(1) unfolding eqs
      by (intro exI [of _ s'] exI [of _ q'] exI [of _ a'] conjI exI
            [of _ "\<lparr> flr_RealizedPnl = cf_RealizedPnl f, flr_Fee = fee, flr_CloseVolume = cf_CloseVolume f \<rparr>"]) simp_all
  qed
qed

definition demoClose :: Order where
  "demoClose = demoFillOrder\<lparr> ord_OrderID := 12, ord_Action := ActionClose, ord_FrozenMargin := 0 \<rparr>"

definition demoHeldPosition :: Position where
  "demoHeldPosition = demoPosition\<lparr> pos_UID := 7, pos_CreditMargin := 0 \<rparr>"

definition demoHeld :: Money where
  "demoHeld = demoMoney\<lparr> mny_positions := [demoHeldPosition] \<rparr>"

lemma SettleFill_close_books_witness:
  "\<exists>q' r. Find (mny_positions (snd (SettleFill std_lib [demoCoin] demoClose 1 120 False 9 demoHeld))) 7 ''BTCUSDT'' SideLong = Some q' \<and>
     pos_Volume q' = 2 \<and> fst (SettleFill std_lib [demoCoin] demoClose 1 120 False 9 demoHeld) = Inr r \<and> flr_RealizedPnl r = 20"
proof -
  have h: "ord_Action demoClose = ActionClose" "ord_UID demoClose = 7" "ord_Symbol demoClose = ''BTCUSDT''"
    "ord_Side demoClose = SideLong" "mny_accounts demoHeld = mny_accounts demoMoney"
    "Find (mny_positions demoHeld) 7 ''BTCUSDT'' SideLong = Some demoHeldPosition" "wf_positions (mny_positions demoHeld)"
    "okPosition demoHeldPosition" "0 < pos_Volume demoHeldPosition" "pos_Volume demoHeldPosition = 3"
    "0 \<le> coin_MakerFee demoCoin" "0 \<le> coin_TakerFee demoCoin"
    by (simp_all add: demoClose_def demoFillOrder_def demoHeld_def demoHeldPosition_def demoPosition_def Find_def
        sql_first_def posKey_def wf_positions_def okPosition_def demoCoin_def)
  have f: "cf_ReleasedMargin (closeFillOf std_lib SideLong 1 120 demoHeldPosition) -
      cf_ReleasedCreditMargin (closeFillOf std_lib SideLong 1 120 demoHeldPosition) \<le> acc_FrozenMargin (hd demoAccounts)"
    "cf_ReleasedCreditMargin (closeFillOf std_lib SideLong 1 120 demoHeldPosition) \<le> acc_FrozenCredit (hd demoAccounts)"
    "cf_RealizedPnl (closeFillOf std_lib SideLong 1 120 demoHeldPosition) = 20" by code_simp+
  show ?thesis
    using SettleFill_close_books [OF std_decimal_lib _ h(7,1), unfolded h(2,3,4,5), OF demoMoney_ok(1,2) h(6,8,9), of 1 120
        "[demoCoin]" demoCoin False 9] demoMoney_ok(3) f h(10,11,12) by auto
qed

end
