(* ===== verification/RoundingDust.thy ===== *)
theory RoundingDust
  imports SettlementProps
begin

text \<open>
  A run of SettleFill in which rounding leaves more margin on a position than the account has locked
  for it, evaluated step by step.
\<close>

section \<open>Rounding can block a close\<close>

text \<open>An order for 3 at price 2 with leverage 3 locks 2; three opening fills of 1 each need
  0.6666666666666667, so the position records a margin above what the account has locked for it.\<close>

definition dustOrder :: Order where
  "dustOrder = demoFillOrder\<lparr> ord_Price := 2, ord_Amount := 3, ord_Leverage := 3, ord_FrozenMargin := 2 \<rparr>"

definition dustState :: "dec \<Rightarrow> Position list \<Rightarrow> Transaction list \<Rightarrow> Money" where
  "dustState b ps txs = \<lparr> mny_accounts = map (\<lambda>a. a\<lparr> acc_FrozenMargin := 2, acc_Balance := b \<rparr>) demoAccounts,
     mny_positions = ps, mny_txs = txs \<rparr>"

definition dustRow :: "dec \<Rightarrow> dec \<Rightarrow> int \<Rightarrow> Position list" where
  "dustRow v m t = [\<lparr> pos_ID = 1, pos_UID = 7, pos_Symbol = ''BTCUSDT'', pos_Side = SideLong, pos_Volume = v,
     pos_AvgEntryPrice = 2, pos_PositionMargin = m, pos_CreditMargin = 0, pos_Leverage = 3,
     pos_Status = PositionStatusNormal, pos_Version = 0, pos_UpdateTime = t \<rparr>]"

definition dustFee :: "int \<Rightarrow> Transaction list \<Rightarrow> Transaction list" where
  "dustFee = txInsert std_lib 7 ''BTCUSDT'' TxFee (- 1 / 1000)"

lemma dust_fills:
  "SettleFill std_lib [demoCoin] dustOrder 1 2 False 7 (dustState 100 [] []) =
     (Inr \<lparr> flr_RealizedPnl = 0, flr_Fee = 1 / 1000, flr_CloseVolume = 1 \<rparr>,
      dustState (99999 / 1000) (dustRow 1 (6666666666666667 / 10 ^ 16) 7) (dustFee 7 []))"
  "SettleFill std_lib [demoCoin] dustOrder 1 2 False 8
      (dustState (99999 / 1000) (dustRow 1 (6666666666666667 / 10 ^ 16) 7) (dustFee 7 [])) =
     (Inr \<lparr> flr_RealizedPnl = 0, flr_Fee = 1 / 1000, flr_CloseVolume = 1 \<rparr>,
      dustState (99998 / 1000) (dustRow 2 (13333333333333334 / 10 ^ 16) 8) (dustFee 8 (dustFee 7 [])))"
  "SettleFill std_lib [demoCoin] dustOrder 1 2 False 9
      (dustState (99998 / 1000) (dustRow 2 (13333333333333334 / 10 ^ 16) 8) (dustFee 8 (dustFee 7 []))) =
     (Inr \<lparr> flr_RealizedPnl = 0, flr_Fee = 1 / 1000, flr_CloseVolume = 1 \<rparr>,
      dustState (99997 / 1000) (dustRow 3 (20000000000000001 / 10 ^ 16) 9) (dustFee 9 (dustFee 8 (dustFee 7 []))))"
  by code_simp+


end
