(* ===== verification/Klines.thy ===== *)
theory Klines
  imports Accounts
begin

text \<open>
  Candlesticks: the kline table (src/internal/repo/kline_repo.go) and the service that keeps it up to
  date on every trade (src/internal/service/kline.go). The primary key is (symbol, interval, open time).
  A multi-row \<open>INSERT ... ON DUPLICATE KEY UPDATE\<close> works row by row.
\<close>

record KlineBucket =
  kb_Interval :: KlineInterval
  kb_OpenTime :: int

definition klineKey :: "Kline \<Rightarrow> symbol \<times> KlineInterval \<times> int" where
  "klineKey k = (kl_Symbol k, kl_Interval k, kl_OpenTime k)"

definition klineAt :: "Kline list \<Rightarrow> symbol \<Rightarrow> KlineInterval \<Rightarrow> int \<Rightarrow> Kline option" where
  "klineAt rows s iv t = sql_first (\<lambda>k. klineKey k = (s, iv, t)) rows"

text \<open>\<open>ON DUPLICATE KEY UPDATE\<close> with f applied to the row that is there and the row that was to be
  inserted, whose values are already those of the columns.\<close>

definition klineUpsert :: "(Kline \<Rightarrow> Kline \<Rightarrow> Kline) \<Rightarrow> Kline list \<Rightarrow> Kline \<Rightarrow> Kline list" where
  "klineUpsert f rows new =
     (if klineAt rows (kl_Symbol new) (kl_Interval new) (kl_OpenTime new) = None then rows @ [new]
      else sql_update (\<lambda>k. klineKey k = klineKey new) (\<lambda>k. f k new) rows)"

definition tradeKline :: "dec_lib \<Rightarrow> symbol \<Rightarrow> KlineBucket \<Rightarrow> dec \<Rightarrow> dec \<Rightarrow> int \<Rightarrow> Kline" where
  "tradeKline L s b price volume updateTime =
     \<lparr> kl_Symbol = s, kl_Interval = kb_Interval b, kl_OpenTime = kb_OpenTime b,
       kl_Open = price_col L price, kl_High = price_col L price, kl_Low = price_col L price,
       kl_Close = price_col L price, kl_Volume = col L volume, kl_TradeCount = 1, kl_UpdateTime = updateTime \<rparr>"

definition mergeKline :: "dec_lib \<Rightarrow> Kline \<Rightarrow> Kline \<Rightarrow> Kline" where
  "mergeKline L k new =
     k\<lparr> kl_High := max (kl_High k) (kl_High new), kl_Low := min (kl_Low k) (kl_Low new),
        kl_Close := kl_Close new, kl_Volume := col L (kl_Volume k + kl_Volume new),
        kl_TradeCount := kl_TradeCount k + 1, kl_UpdateTime := kl_UpdateTime new \<rparr>"

definition UpsertBatch :: "dec_lib \<Rightarrow> symbol \<Rightarrow> KlineBucket list \<Rightarrow> dec \<Rightarrow> dec \<Rightarrow> int \<Rightarrow> Kline list \<Rightarrow> Kline list" where
  "UpsertBatch L s buckets price volume updateTime rows =
     foldl (\<lambda>rows b. klineUpsert (mergeKline L) rows (tradeKline L s b price volume updateTime)) rows buckets"

definition FindByBuckets :: "symbol \<Rightarrow> KlineBucket list \<Rightarrow> Kline list \<Rightarrow> Kline list" where
  "FindByBuckets s buckets rows =
     (if buckets = [] then []
      else filter (\<lambda>k. kl_Symbol k = s \<and> (\<exists>b\<in>set buckets. kl_Interval k = kb_Interval b \<and> kl_OpenTime k = kb_OpenTime b)) rows)"

text \<open>A candle of the external feed replaces the one that is there.\<close>

definition feedKline :: "dec_lib \<Rightarrow> symbol \<Rightarrow> KlineInterval \<Rightarrow> int \<Rightarrow> Kline \<Rightarrow> Kline" where
  "feedKline L s iv updateTime k =
     \<lparr> kl_Symbol = s, kl_Interval = iv, kl_OpenTime = kl_OpenTime k,
       kl_Open = price_col L (kl_Open k), kl_High = price_col L (kl_High k), kl_Low = price_col L (kl_Low k),
       kl_Close = price_col L (kl_Close k), kl_Volume = col L (kl_Volume k), kl_TradeCount = kl_TradeCount k,
       kl_UpdateTime = updateTime \<rparr>"

definition ReplaceBatch :: "dec_lib \<Rightarrow> symbol \<Rightarrow> KlineInterval \<Rightarrow> Kline list \<Rightarrow> int \<Rightarrow> Kline list \<Rightarrow> Kline list" where
  "ReplaceBatch L s iv candles updateTime rows =
     foldl (\<lambda>rows k. klineUpsert (\<lambda>_ new. new) rows (feedKline L s iv updateTime k)) rows candles"

definition FindByOpenTimes :: "symbol \<Rightarrow> KlineInterval \<Rightarrow> int list \<Rightarrow> Kline list \<Rightarrow> Kline list" where
  "FindByOpenTimes s iv openTimes rows =
     filter (\<lambda>k. kl_Symbol k = s \<and> kl_Interval k = iv \<and> kl_OpenTime k \<in> set openTimes) rows"

definition FindRecent :: "symbol \<Rightarrow> KlineInterval \<Rightarrow> nat \<Rightarrow> Kline list \<Rightarrow> Kline list" where
  "FindRecent s iv limit rows =
     rev (take limit (rev (sort_key kl_OpenTime (filter (\<lambda>k. kl_Symbol k = s \<and> kl_Interval k = iv) rows))))"

text \<open>Go's integer division truncates towards zero.\<close>

definition quot :: "int \<Rightarrow> int \<Rightarrow> int" where
  "quot a b = (if 0 \<le> a then a div b else - ((- a) div b))"

definition bucketOf :: "int \<Rightarrow> KlineInterval \<Rightarrow> KlineBucket" where
  "bucketOf tradeTime iv =
     \<lparr> kb_Interval = iv, kb_OpenTime = quot tradeTime (KlineIntervalMillis iv) * KlineIntervalMillis iv \<rparr>"

text \<open>The rows to push, and the table. With an external source nothing happens.\<close>

definition RecordTrade :: "dec_lib \<Rightarrow> bool \<Rightarrow> symbol \<Rightarrow> dec \<Rightarrow> dec \<Rightarrow> int \<Rightarrow> Kline list \<Rightarrow> Kline list \<times> Kline list" where
  "RecordTrade L external s price volume tradeTime rows =
     (if external then ([], rows)
      else
        let buckets = map (bucketOf tradeTime) AllKlineIntervals;
            rows' = UpsertBatch L s buckets price volume tradeTime rows
        in (FindByBuckets s buckets rows', rows'))"

section \<open>The table holds the candles of the trades\<close>

lemma klineAt_upsert:
  assumes "\<And>k. klineKey k = klineKey new \<Longrightarrow> klineKey (f k new) = klineKey new"
  shows "klineAt (klineUpsert f rows new) s iv t =
    (if klineKey new = (s, iv, t) then Some (case klineAt rows s iv t of None \<Rightarrow> new | Some k \<Rightarrow> f k new)
     else klineAt rows s iv t)"
proof (cases "klineAt rows (kl_Symbol new) (kl_Interval new) (kl_OpenTime new)")
  case None
  have "sql_first p [new] = (if p new then Some new else None)" for p by (simp add: sql_first_def)
  with None show ?thesis
    by (auto simp: klineUpsert_def klineAt_def sql_first_append klineKey_def split: option.splits)
next
  case (Some k)
  have "klineAt (sql_update (\<lambda>k. klineKey k = klineKey new) (\<lambda>k. f k new) rows) s iv t =
      map_option (\<lambda>k. if klineKey k = klineKey new then f k new else k) (klineAt rows s iv t)"
    unfolding klineAt_def by (rule sql_first_update) (metis assms)
  moreover have "klineKey k' = (s, iv, t)" if "klineAt rows s iv t = Some k'" for k'
    using sql_first_Some [OF that [unfolded klineAt_def]] by simp
  moreover have "klineKey new = (kl_Symbol new, kl_Interval new, kl_OpenTime new)" by (simp add: klineKey_def)
  ultimately show ?thesis
    using Some by (cases "klineAt rows s iv t") (auto simp: klineUpsert_def)
qed

text \<open>A batch over different intervals touches each of its rows once.\<close>

lemma klineAt_UpsertBatch:
  assumes "distinct (map kb_Interval bs)"
  shows "klineAt (UpsertBatch L s bs price volume t rows) s' iv ot =
    (case find (\<lambda>b. kb_Interval b = iv) bs of
       None \<Rightarrow> klineAt rows s' iv ot
     | Some b \<Rightarrow>
         if s' = s \<and> ot = kb_OpenTime b
         then Some (case klineAt rows s' iv ot of None \<Rightarrow> tradeKline L s b price volume t
                    | Some k \<Rightarrow> mergeKline L k (tradeKline L s b price volume t))
         else klineAt rows s' iv ot)"
  using assms
proof (induction bs arbitrary: rows)
  case (Cons b bs)
  have step: "klineAt (klineUpsert (mergeKline L) rows (tradeKline L s b price volume t)) s' iv ot =
      (if s' = s \<and> iv = kb_Interval b \<and> ot = kb_OpenTime b
       then Some (case klineAt rows s' iv ot of None \<Rightarrow> tradeKline L s b price volume t
                  | Some k \<Rightarrow> mergeKline L k (tradeKline L s b price volume t))
       else klineAt rows s' iv ot)"
    by (subst klineAt_upsert) (auto simp: klineKey_def mergeKline_def tradeKline_def)
  have "find (\<lambda>b'. kb_Interval b' = kb_Interval b) bs = None" using Cons.prems by (simp add: find_None_iff) (metis image_eqI)
  note none = this
  have batch: "UpsertBatch L s (b # bs) price volume t rows =
      UpsertBatch L s bs price volume t (klineUpsert (mergeKline L) rows (tradeKline L s b price volume t))"
    by (simp add: UpsertBatch_def)
  have "distinct (map kb_Interval bs)" using Cons.prems by simp
  note IH = Cons.IH [OF this, of "klineUpsert (mergeKline L) rows (tradeKline L s b price volume t)"]
  show ?case
  proof (cases "kb_Interval b = iv")
    case True
    with none show ?thesis by (simp add: batch IH step)
  next
    case False
    hence same: "klineAt (klineUpsert (mergeKline L) rows (tradeKline L s b price volume t)) s' iv ot = klineAt rows s' iv ot"
      by (simp add: step)
    from False show ?thesis unfolding batch IH same by simp
  qed
qed (simp add: UpsertBatch_def)

lemma find_interval: "find (\<lambda>b. kb_Interval b = iv) (map (bucketOf t) AllKlineIntervals) = Some (bucketOf t iv)"
  by (cases iv) (simp_all add: AllKlineIntervals_def bucketOf_def)

lemma klineAt_RecordTrade:
  "klineAt (snd (RecordTrade L False s price volume t rows)) s' iv ot =
    (if s' = s \<and> ot = kb_OpenTime (bucketOf t iv)
     then Some (case klineAt rows s' iv ot of None \<Rightarrow> tradeKline L s (bucketOf t iv) price volume t
                | Some k \<Rightarrow> mergeKline L k (tradeKline L s (bucketOf t iv) price volume t))
     else klineAt rows s' iv ot)"
proof -
  have "distinct (map kb_Interval (map (bucketOf t) AllKlineIntervals))"
    by (simp add: AllKlineIntervals_def bucketOf_def)
  from klineAt_UpsertBatch [OF this, of L s price volume t rows s' iv ot]
  show ?thesis by (simp only: RecordTrade_def Let_def if_False snd_conv find_interval option.case)
qed

text \<open>The candle of a list of trades, as a chart defines it.\<close>

definition inCandle :: "symbol \<Rightarrow> KlineInterval \<Rightarrow> int \<Rightarrow> Trade \<Rightarrow> bool" where
  "inCandle s iv ot tr \<longleftrightarrow> tr_Symbol tr = s \<and> ot \<le> tr_CreateTime tr \<and> tr_CreateTime tr < ot + KlineIntervalMillis iv"

definition candle :: "dec_lib \<Rightarrow> symbol \<Rightarrow> KlineInterval \<Rightarrow> int \<Rightarrow> Trade list \<Rightarrow> Kline option" where
  "candle L s iv ot trades =
     (case filter (inCandle s iv ot) trades of
        [] \<Rightarrow> None
      | xs \<Rightarrow> Some \<lparr> kl_Symbol = s, kl_Interval = iv, kl_OpenTime = ot,
                kl_Open = price_col L (tr_Price (hd xs)), kl_High = Max (set (map (\<lambda>t. price_col L (tr_Price t)) xs)),
                kl_Low = Min (set (map (\<lambda>t. price_col L (tr_Price t)) xs)), kl_Close = price_col L (tr_Price (last xs)),
                kl_Volume = sum_list (map (\<lambda>t. col L (tr_Volume t)) xs), kl_TradeCount = length xs,
                kl_UpdateTime = tr_CreateTime (last xs) \<rparr>)"

definition recordAll :: "dec_lib \<Rightarrow> Trade list \<Rightarrow> Kline list" where
  "recordAll L = foldl (\<lambda>rows tr. snd (RecordTrade L False (tr_Symbol tr) (tr_Price tr) (tr_Volume tr) (tr_CreateTime tr) rows)) []"

lemma recordAll_snoc:
  "recordAll L (trades @ [tr]) =
    snd (RecordTrade L False (tr_Symbol tr) (tr_Price tr) (tr_Volume tr) (tr_CreateTime tr) (recordAll L trades))"
  by (simp add: recordAll_def)

lemma bucket_iff:
  assumes "0 \<le> t" "KlineIntervalMillis iv dvd ot"
  shows "ot = kb_OpenTime (bucketOf t iv) \<longleftrightarrow> ot \<le> t \<and> t < ot + KlineIntervalMillis iv"
proof -
  let ?m = "KlineIntervalMillis iv"
  have m: "0 < ?m" by simp
  obtain k where k: "ot = k * ?m" using assms(2) by (metis dvd_def mult.commute)
  have "kb_OpenTime (bucketOf t iv) = t div ?m * ?m" using assms(1) by (simp add: bucketOf_def quot_def)
  moreover have "k = t div ?m \<longleftrightarrow> k * ?m \<le> t \<and> t < k * ?m + ?m"
  proof
    assume "k = t div ?m"
    hence "k * ?m = t - t mod ?m" by (simp add: minus_mod_eq_div_mult)
    with pos_mod_bound [OF m, of t] pos_mod_sign [OF m, of t] show "k * ?m \<le> t \<and> t < k * ?m + ?m" by linarith
  next
    assume "k * ?m \<le> t \<and> t < k * ?m + ?m"
    thus "k = t div ?m" by (intro int_div_pos_eq [of _ _ _ "t - k * ?m", symmetric]) (simp_all add: mult.commute)
  qed
  ultimately show ?thesis using k less_imp_neq [OF m] by simp
qed


lemma candle_snoc:
  "candle L s iv ot (trades @ [tr]) =
    (if inCandle s iv ot tr
     then Some (case candle L s iv ot trades of
        None \<Rightarrow> tradeKline L s \<lparr> kb_Interval = iv, kb_OpenTime = ot \<rparr> (tr_Price tr) (tr_Volume tr) (tr_CreateTime tr)
      | Some k \<Rightarrow> k\<lparr> kl_High := max (kl_High k) (price_col L (tr_Price tr)), kl_Low := min (kl_Low k) (price_col L (tr_Price tr)),
          kl_Close := price_col L (tr_Price tr), kl_Volume := kl_Volume k + col L (tr_Volume tr),
          kl_TradeCount := kl_TradeCount k + 1, kl_UpdateTime := tr_CreateTime tr \<rparr>)
     else candle L s iv ot trades)"
proof (cases "filter (inCandle s iv ot) trades")
  case Nil
  thus ?thesis by (simp add: candle_def tradeKline_def)
next
  case (Cons x xs)
  have "Max (insert a (insert b A)) = max (Max (insert b A)) a" "Min (insert a (insert b A)) = min (Min (insert b A)) a"
    if "finite A" for a b :: dec and A
    using that by (simp_all add: max.commute min.commute)
  with Cons show ?thesis by (simp add: candle_def insert_commute)
qed

lemma candle_volume_fits:
  assumes "decimal_lib L" "candle L s iv ot trades = Some k" shows "fits 16 (kl_Volume k)"
proof -
  have "fits 16 (sum_list (map (\<lambda>t. col L (tr_Volume t)) xs))" for xs
    by (induction xs) (auto simp: col_def decimal_lib.col_fits [OF assms(1)])
  moreover obtain xs :: "Trade list" where "kl_Volume k = sum_list (map (\<lambda>t. col L (tr_Volume t)) xs)"
  proof (cases "filter (inCandle s iv ot) trades")
    case (Cons y ys)
    hence "kl_Volume k = sum_list (map (\<lambda>t. col L (tr_Volume t)) (y # ys))" using assms(2) by (auto simp: candle_def)
    thus ?thesis by (rule that)
  qed (use assms(2) in \<open>simp add: candle_def\<close>)
  ultimately show ?thesis by simp
qed

text \<open>C11. The kline table is what a chart would compute from the trades. After any sequence of trades of any
  symbols, every row of the table, for every symbol, interval and aligned open time, is the candle of exactly the trades of
  that symbol in that interval: first, highest, lowest and last price, summed volume, number of
  trades; and there is no row where there was no trade.\<close>

theorem recordAll_candles:
  assumes "decimal_lib L" "\<forall>tr\<in>set trades. 0 \<le> tr_CreateTime tr" "KlineIntervalMillis iv dvd ot"
  shows "klineAt (recordAll L trades) s iv ot = candle L s iv ot trades"
  using assms(2)
proof (induction trades rule: rev_induct)
  case Nil
  show ?case by (simp add: recordAll_def candle_def klineAt_def sql_first_def)
next
  case (snoc tr trades)
  have IH: "klineAt (recordAll L trades) s iv ot = candle L s iv ot trades" using snoc by simp
  have iff: "inCandle s iv ot tr \<longleftrightarrow> s = tr_Symbol tr \<and> ot = kb_OpenTime (bucketOf (tr_CreateTime tr) iv)"
    using bucket_iff [OF _ assms(3), of "tr_CreateTime tr"] snoc.prems by (auto simp: inCandle_def)
  have b: "bucketOf (tr_CreateTime tr) iv = \<lparr> kb_Interval = iv, kb_OpenTime = kb_OpenTime (bucketOf (tr_CreateTime tr) iv) \<rparr>"
    by (simp add: bucketOf_def)
  have vol: "col L (kl_Volume k + col L v) = kl_Volume k + col L v" if "candle L s iv ot trades = Some k" for k v
  proof -
    have "fits 16 (kl_Volume k + lib_Col L 16 v)"
      using candle_volume_fits [OF assms(1) that] decimal_lib.col_fits [OF assms(1)] by auto
    thus ?thesis unfolding col_def by (rule decimal_lib.col_id [OF assms(1)])
  qed
  have "klineAt (recordAll L (trades @ [tr])) s iv ot =
      (if inCandle s iv ot tr
       then Some (case candle L s iv ot trades of
           None \<Rightarrow> tradeKline L s (bucketOf (tr_CreateTime tr) iv) (tr_Price tr) (tr_Volume tr) (tr_CreateTime tr)
         | Some k \<Rightarrow> mergeKline L k (tradeKline L s (bucketOf (tr_CreateTime tr) iv) (tr_Price tr) (tr_Volume tr) (tr_CreateTime tr)))
       else candle L s iv ot trades)"
    unfolding recordAll_snoc klineAt_RecordTrade IH iff by (intro if_cong) auto
  also have "\<dots> = candle L s iv ot (trades @ [tr])"
  proof (cases "inCandle s iv ot tr")
    case True
    hence b': "bucketOf (tr_CreateTime tr) iv = \<lparr> kb_Interval = iv, kb_OpenTime = ot \<rparr>" using b iff by metis
    show ?thesis
      using True vol by (simp add: candle_snoc b' mergeKline_def tradeKline_def split: option.split)
  qed (simp add: candle_snoc)
  finally show ?case .
qed

definition demoTrades :: "Trade list" where
  "demoTrades = map (\<lambda>(i, p, v, t). \<lparr> tr_TradeID = i, tr_Symbol = ''BTCUSDT'', tr_Price = p, tr_Volume = v,
     tr_BuyOrderID = 1, tr_SellOrderID = 2, tr_BuyUID = 7, tr_SellUID = 8, tr_MakerOrderID = 2, tr_CreateTime = t \<rparr>)
     [(1, 100, 1, 60001), (2, 90, 2, 60002), (3, 110, 1, 119999), (4, 200, 5, 120000)]"

lemma recordAll_candles_witness:
  "map_option (\<lambda>k. (kl_Open k, kl_High k, kl_Low k, kl_Close k, kl_Volume k, kl_TradeCount k))
     (klineAt (recordAll std_lib demoTrades) ''BTCUSDT'' Kline1m 60000) = Some (100, 110, 90, 110, 4, 3)"
proof -
  have "\<forall>tr\<in>set demoTrades. 0 \<le> tr_CreateTime tr" by (simp add: demoTrades_def)
  from recordAll_candles [OF std_decimal_lib this, of Kline1m 60000 "''BTCUSDT''"]
  have "klineAt (recordAll std_lib demoTrades) ''BTCUSDT'' Kline1m 60000 = candle std_lib ''BTCUSDT'' Kline1m 60000 demoTrades"
    by simp
  thus ?thesis by (simp add: candle_def demoTrades_def inCandle_def col_def price_col_def round_to_id)
qed

end
