(* ===== verification/IdGen.thy ===== *)
theory IdGen
  imports Model "HOL-Library.Word"
begin

unbundle bit_operations_syntax

text \<open>
  The id generator, src/internal/service/idgen.go: 41 bits of milliseconds since the epoch, 10 bits of
  node, 12 bits of sequence, in a \<open>uint64\<close>. The mutex makes tryNextID one step on the state; the clock
  it reads is an argument. NextID sleeps and tries again, so it reads a sequence of clock values.
\<close>

definition nodeBits :: nat where "nodeBits = 10"
definition sequenceBits :: nat where "sequenceBits = 12"
definition maxNodeID :: "64 word" where "maxNodeID = push_bit nodeBits 1 - 1"
definition maxSequence :: "64 word" where "maxSequence = push_bit sequenceBits 1 - 1"
definition nodeShift :: nat where "nodeShift = sequenceBits"
definition timeShift :: nat where "timeShift = sequenceBits + nodeBits"
definition epochMillis :: int where "epochMillis = 1735689600000"
definition maxClockBackwardMs :: int where "maxClockBackwardMs = 5000"

record IdState =
  id_Node :: "64 word"
  id_Last :: int
  id_Seq :: "64 word"
  id_NodeSet :: bool

definition idInitial :: IdState where
  "idInitial = \<lparr> id_Node = 0, id_Last = 0, id_Seq = 0, id_NodeSet = False \<rparr>"

definition InitNodeID :: "64 word \<Rightarrow> IdState \<Rightarrow> unit res \<times> IdState" where
  "InitNodeID nodeID s =
     (if maxNodeID < nodeID then (Inl FatalExit, s)
      else (Inr (), s\<lparr> id_Node := nodeID, id_NodeSet := True \<rparr>))"

definition encodeID :: "int \<Rightarrow> 64 word \<Rightarrow> 64 word \<Rightarrow> 64 word" where
  "encodeID now node seq = push_bit timeShift (word_of_int (now - epochMillis)) OR push_bit nodeShift node OR seq"

definition tryNextID :: "int \<Rightarrow> IdState \<Rightarrow> 64 word option res \<times> IdState" where
  "tryNextID now s =
     (if now < epochMillis then (Inl FatalExit, s)
      else if now < id_Last s then
        (if maxClockBackwardMs < id_Last s - now then (Inl FatalExit, s) else (Inr None, s))
      else if now = id_Last s \<and> maxSequence \<le> id_Seq s then (Inr None, s)
      else
        let seq = (if now = id_Last s then id_Seq s + 1 else 0)
        in (Inr (Some (encodeID now (id_Node s) seq)), s\<lparr> id_Seq := seq, id_Last := now \<rparr>))"

text \<open>The clock values read by the successive tries; running out of them means NextID is still sleeping.\<close>

fun NextID_loop :: "int list \<Rightarrow> IdState \<Rightarrow> 64 word option res \<times> IdState" where
  "NextID_loop [] s = (Inr None, s)"
| "NextID_loop (now # clock) s =
     (case tryNextID now s of
        (Inl e, s') \<Rightarrow> (Inl e, s')
      | (Inr (Some i), s') \<Rightarrow> (Inr (Some i), s')
      | (Inr None, s') \<Rightarrow> NextID_loop clock s')"

definition NextID :: "int list \<Rightarrow> IdState \<Rightarrow> 64 word option res \<times> IdState" where
  "NextID clock s = (if \<not> id_NodeSet s then (Inl FatalExit, s) else NextID_loop clock s)"

section \<open>The layout\<close>

text \<open>The 41 bits of the time field are enough until the year 2094.\<close>

definition inRange :: "int \<Rightarrow> bool" where
  "inRange now \<longleftrightarrow> epochMillis \<le> now \<and> now - epochMillis < 2 ^ 41"

lemma or_disjoint: "0 \<le> b \<Longrightarrow> b < 2 ^ n \<Longrightarrow> push_bit n a OR b = a * 2 ^ n + (b :: int)"
proof -
  assume b: "0 \<le> b" "b < 2 ^ n"
  hence "take_bit n b = b" by (simp add: take_bit_int_eq_self_iff)
  hence low: "bit b k \<Longrightarrow> k < n" for k by (metis bit_take_bit_iff)
  have "push_bit n a AND b = 0"
    by (rule bit_eqI) (use low leD in \<open>auto simp: bit_and_iff bit_push_bit_iff\<close>)
  thus ?thesis by (simp add: disjunctive_add_eq_or [symmetric] push_bit_eq_mult)
qed

lemma uint_encodeID:
  assumes "inRange now" "uint node < 2 ^ 10" "uint seq < 2 ^ 12"
  shows "uint (encodeID now node seq) = (now - epochMillis) * 2 ^ 22 + uint node * 2 ^ 12 + uint seq"
proof -
  define t where "t = now - epochMillis"
  have t: "0 \<le> t" "t < 2 ^ 41" using assms(1) by (simp_all add: inRange_def t_def)
  let ?t = t
  have ut: "uint (word_of_int ?t :: 64 word) = ?t" using t by (simp add: uint_word_of_int_eq take_bit_int_eq_self)
  have "push_bit 22 ?t < 2 ^ 64" "push_bit 12 (uint node) < 2 ^ 64" using t assms(2) by (simp_all add: push_bit_eq_mult)
  moreover have "0 \<le> push_bit 22 ?t" "0 \<le> push_bit 12 (uint node)" using t by simp_all
  moreover have "uint (push_bit 22 (word_of_int ?t) :: 64 word) = take_bit 64 (push_bit 22 ?t)"
      "uint (push_bit 12 node) = take_bit 64 (push_bit 12 (uint node))"
    by (simp_all only: unsigned_push_bit_eq ut) simp_all
  ultimately have p: "uint (push_bit 22 (word_of_int ?t) :: 64 word) = push_bit 22 ?t"
      "uint (push_bit 12 node) = push_bit 12 (uint node)"
    by (simp_all only: take_bit_int_eq_self)
  have low: "push_bit 12 (uint node) OR uint seq = uint node * 2 ^ 12 + uint seq"
    by (rule or_disjoint) (use assms(3) in auto)
  have "push_bit 22 ?t OR (uint node * 2 ^ 12 + uint seq) = ?t * 2 ^ 22 + (uint node * 2 ^ 12 + uint seq)"
    by (rule or_disjoint) (use assms(2,3) uint_ge_0 [of node] uint_ge_0 [of seq] in \<open>simp_all\<close>)
  moreover have "uint (encodeID now node seq) = push_bit 22 ?t OR (push_bit 12 (uint node) OR uint seq)"
    unfolding encodeID_def t_def [symmetric]
    by (simp add: timeShift_def nodeShift_def sequenceBits_def nodeBits_def unsigned_or_eq p or.assoc)
  ultimately show ?thesis by (simp add: low t_def)
qed

lemma uint_parts:
  fixes w :: "64 word"
  shows "uint (drop_bit k w) = uint w div 2 ^ k" "uint (take_bit k w) = uint w mod 2 ^ k"
proof -
  have "uint w < 2 ^ 64" using uint_lt2p [of w] by simp
  hence "take_bit 64 (uint w) = uint w" by (simp add: take_bit_int_eq_self)
  moreover have "drop_bit k (uint w) = uint w div 2 ^ k" "take_bit k (uint w) = uint w mod 2 ^ k"
    by (rule drop_bit_eq_div, rule take_bit_eq_mod)
  ultimately show "uint (drop_bit k w) = uint w div 2 ^ k" "uint (take_bit k w) = uint w mod 2 ^ k"
    by (simp_all only: unsigned_drop_bit_eq unsigned_take_bit_eq) simp
qed

lemma field_bounds: "node \<le> maxNodeID \<longleftrightarrow> uint node < 2 ^ 10" "seq \<le> maxSequence \<longleftrightarrow> uint seq < 2 ^ 12"
  by (auto simp: maxNodeID_def maxSequence_def nodeBits_def sequenceBits_def word_le_def push_bit_eq_mult)

text \<open>Every field of an id can be read back: the time, the node and the sequence number that went in,
  for every time in the 41-bit range, node up to 1023 and sequence up to 4095. So two ids are equal only if
  all three are, and ids of different nodes never collide.\<close>

theorem encodeID_roundtrip:
  assumes "inRange now" "node \<le> maxNodeID" "seq \<le> maxSequence"
  shows "uint (drop_bit timeShift (encodeID now node seq)) = now - epochMillis \<and>
    take_bit nodeBits (drop_bit nodeShift (encodeID now node seq)) = node \<and>
    take_bit sequenceBits (encodeID now node seq) = seq"
proof -
  let ?i = "encodeID now node seq" and ?t = "now - epochMillis"
  have b: "uint node < 2 ^ 10" "uint seq < 2 ^ 12" using assms(2,3) by (simp_all only: field_bounds)
  note u = uint_encodeID [OF assms(1) b]
  have "uint ?i div 2 ^ 22 = ?t"
    using b unfolding u by (intro int_div_pos_eq [of _ _ _ "uint node * 2 ^ 12 + uint seq"]) (simp_all add: mult.commute)
  moreover have "uint ?i div 2 ^ 12 = ?t * 2 ^ 10 + uint node"
    using b unfolding u by (intro int_div_pos_eq [of _ _ _ "uint seq"]) (simp_all add: algebra_simps)
  moreover have "uint ?i mod 2 ^ 12 = uint seq"
    using b unfolding u by (intro int_mod_pos_eq [of _ _ "?t * 2 ^ 10 + uint node"]) (simp_all add: algebra_simps)
  moreover have "(?t * 2 ^ 10 + uint node) mod 2 ^ 10 = uint node"
    using b by (intro int_mod_pos_eq [of _ _ ?t]) (simp_all add: algebra_simps)
  ultimately have "uint (drop_bit 22 ?i) = ?t" "uint (take_bit 10 (drop_bit 12 ?i)) = uint node"
      "uint (take_bit 12 ?i) = uint seq"
    by (simp_all only: uint_parts)
  thus ?thesis
    by (simp add: timeShift_def nodeShift_def sequenceBits_def nodeBits_def word_uint_eq_iff)
qed

lemma encodeID_roundtrip_witness:
  "take_bit sequenceBits (encodeID 1735689600123 5 7) = 7 \<and> encodeID 1735689600123 5 7 = 515919879"
proof
  show "take_bit sequenceBits (encodeID 1735689600123 5 7) = 7"
    using encodeID_roundtrip [of 1735689600123 5 7]
    by (simp add: inRange_def epochMillis_def field_bounds)
  show "encodeID 1735689600123 5 7 = 515919879" by code_simp
qed

section \<open>Unique and increasing ids\<close>

text \<open>The ids one process gives out, to whichever goroutine, when its tries read these clock values one
  after the other; a fatal exit ends the process.\<close>

fun issued :: "int list \<Rightarrow> IdState \<Rightarrow> 64 word list" where
  "issued [] s = []"
| "issued (now # clock) s =
     (case tryNextID now s of
        (Inl e, s') \<Rightarrow> []
      | (Inr None, s') \<Rightarrow> issued clock s'
      | (Inr (Some i), s') \<Rightarrow> i # issued clock s')"

definition okIds :: "IdState \<Rightarrow> bool" where
  "okIds s \<longleftrightarrow> id_Node s \<le> maxNodeID \<and> id_Seq s \<le> maxSequence \<and> id_Last s - epochMillis < 2 ^ 41"

definition idKey :: "IdState \<Rightarrow> int" where
  "idKey s = (id_Last s - epochMillis) * 2 ^ 22 + uint (id_Node s) * 2 ^ 12 + uint (id_Seq s)"

lemma tryNextID_step:
  assumes "tryNextID now s = (Inr (Some i), s')" "okIds s" "inRange now"
  shows "okIds s' \<and> uint i = idKey s' \<and> idKey s < idKey s' \<and> id_Node s' = id_Node s \<and> id_Last s' = now"
proof -
  define seq where "seq = (if now = id_Last s then id_Seq s + 1 else 0)"
  have g: "id_Last s \<le> now" "now = id_Last s \<Longrightarrow> \<not> maxSequence \<le> id_Seq s"
    and r: "i = encodeID now (id_Node s) seq" "s' = s\<lparr> id_Seq := seq, id_Last := now \<rparr>"
    using assms(1) by (auto simp: tryNextID_def Let_def seq_def split: if_splits)
  have next_seq: "uint (id_Seq s + 1) = uint (id_Seq s) + 1 \<and> uint (id_Seq s) + 1 < 2 ^ 12" if "now = id_Last s"
  proof -
    have "id_Seq s < maxSequence" using g(2) [OF that] by simp
    hence "uint (id_Seq s) + 1 < 2 ^ 12"
      by (auto simp: maxSequence_def sequenceBits_def word_less_def push_bit_eq_mult)
    thus ?thesis by (simp add: uint_word_ariths)
  qed
  have seq: "uint seq < 2 ^ 12" using next_seq by (auto simp: seq_def)
  have bounds: "uint (id_Node s) < 2 ^ 10" "uint (id_Seq s) < 2 ^ 12"
    using assms(2) unfolding okIds_def field_bounds by blast+
  have u: "uint i = idKey s'" using uint_encodeID [OF assms(3) bounds(1) seq] by (simp add: r idKey_def)
  have "idKey s < idKey s'"
  proof (cases "now = id_Last s")
    case True
    with next_seq show ?thesis by (simp add: idKey_def r seq_def)
  next
    case False
    hence "id_Last s + 1 \<le> now" using g(1) by simp
    hence "(id_Last s - epochMillis) * 2 ^ 22 + 2 ^ 22 \<le> (now - epochMillis) * 2 ^ 22" by simp
    with bounds False show ?thesis by (simp add: idKey_def r seq_def)
  qed
  moreover have "okIds s'" using assms(2,3) seq by (simp add: okIds_def r inRange_def field_bounds)
  ultimately show ?thesis using u r by simp
qed

lemma tryNextID_wait: "tryNextID now s = (Inr None, s') \<Longrightarrow> s' = s"
  by (auto simp: tryNextID_def Let_def split: if_splits)

lemma issued_above:
  assumes "okIds s" "\<forall>t\<in>set clock. inRange t"
  shows "sorted_wrt (<) (map uint (issued clock s)) \<and> (\<forall>i\<in>set (issued clock s). idKey s < uint i)"
  using assms
proof (induction clock arbitrary: s)
  case (Cons now clock)
  show ?case
  proof (cases "tryNextID now s")
    case (Pair r s')
    show ?thesis
    proof (cases r)
      case (Inr x)
      show ?thesis
      proof (cases x)
        case None
        with Pair Inr Cons tryNextID_wait [of now s s'] show ?thesis by simp
      next
        case (Some i)
        from tryNextID_step [of now s i s'] Pair Inr Some Cons.prems
        have st: "okIds s'" "uint i = idKey s'" "idKey s < idKey s'" by auto
        with Cons.IH [of s'] Cons.prems Pair Inr Some show ?thesis by fastforce
      qed
    qed (simp add: Pair)
  qed
qed simp

lemma idKey_node:
  assumes "okIds s" shows "idKey s div 2 ^ 12 mod 2 ^ 10 = uint (id_Node s)"
proof -
  let ?a = "id_Last s - epochMillis"
  have b: "uint (id_Node s) < 2 ^ 10" "uint (id_Seq s) < 2 ^ 12"
    using assms unfolding okIds_def field_bounds by blast+
  have "idKey s div 2 ^ 12 = ?a * 2 ^ 10 + uint (id_Node s)"
    using b by (intro int_div_pos_eq [of _ _ _ "uint (id_Seq s)"]) (simp_all add: idKey_def algebra_simps)
  also have "\<dots> mod 2 ^ 10 = uint (id_Node s)"
    using b by (intro int_mod_pos_eq [of _ _ ?a]) (simp_all add: algebra_simps)
  finally show ?thesis .
qed

lemma issued_node:
  assumes "okIds s" "\<forall>t\<in>set clock. inRange t" "i \<in> set (issued clock s)"
  shows "uint i div 2 ^ 12 mod 2 ^ 10 = uint (id_Node s)"
  using assms
proof (induction clock arbitrary: s)
  case (Cons now clock)
  show ?case
  proof (cases "tryNextID now s")
    case (Pair r s')
    show ?thesis
    proof (cases r)
      case (Inr x)
      show ?thesis
      proof (cases x)
        case None
        with Pair Inr Cons tryNextID_wait [of now s s'] show ?thesis by simp
      next
        case (Some j)
        from tryNextID_step [of now s j s'] Pair Inr Some Cons.prems
        have st: "okIds s'" "uint j = idKey s'" "id_Node s' = id_Node s" by auto
        with Cons.IH [of s'] Cons.prems Pair Inr Some idKey_node [OF st(1)] show ?thesis by auto
      qed
    qed (use Pair Cons.prems in simp)
  qed
qed simp

text \<open>C12. A process never gives out an id twice, whatever its clock does. For every sequence of clock values
  its tries may read, in any order, with repeats and jumps backwards, the ids are strictly increasing; and two
  processes with different nodes never give out the same id.\<close>

theorem issued_unique:
  assumes "okIds s" "okIds t" "id_Node s \<noteq> id_Node t" "\<forall>x\<in>set c \<union> set d. inRange x"
  shows "sorted_wrt (<) (map uint (issued c s)) \<and> distinct (issued c s) \<and> set (issued c s) \<inter> set (issued d t) = {}"
proof -
  have r: "\<forall>x\<in>set c. inRange x" "\<forall>x\<in>set d. inRange x" using assms(4) by simp_all
  have s: "sorted_wrt (<) (map uint (issued c s))" using issued_above [OF assms(1) r(1)] by simp
  hence "distinct (map uint (issued c s))" by (simp add: strict_sorted_iff)
  moreover have "i \<notin> set (issued d t)" if "i \<in> set (issued c s)" for i
    using issued_node [OF assms(1) r(1) that] issued_node [OF assms(2) r(2), of i] assms(3)
    by (auto simp: word_uint_eq_iff)
  ultimately show ?thesis using s by (auto simp: distinct_map)
qed

definition demoIds :: "64 word \<Rightarrow> IdState" where
  "demoIds n = \<lparr> id_Node = n, id_Last = 0, id_Seq = 0, id_NodeSet = True \<rparr>"

lemma issued_unique_witness:
  "map uint (issued [epochMillis + 5, epochMillis + 5, epochMillis + 4, epochMillis + 6] (demoIds 1)) = [20975616, 20975617, 25169920] \<and>
   set (issued [epochMillis + 5, epochMillis + 5, epochMillis + 4, epochMillis + 6] (demoIds 1)) \<inter>
   set (issued [epochMillis + 5] (demoIds 2)) = {}"
proof
  show "map uint (issued [epochMillis + 5, epochMillis + 5, epochMillis + 4, epochMillis + 6] (demoIds 1)) = [20975616, 20975617, 25169920]"
    by code_simp
  have "okIds (demoIds 1)" "okIds (demoIds 2)"
    by (simp_all add: okIds_def demoIds_def field_bounds epochMillis_def)
  moreover have "id_Node (demoIds 1) \<noteq> id_Node (demoIds 2)" by (simp add: demoIds_def)
  ultimately show "set (issued [epochMillis + 5, epochMillis + 5, epochMillis + 4, epochMillis + 6] (demoIds 1)) \<inter>
     set (issued [epochMillis + 5] (demoIds 2)) = {}"
    by (rule issued_unique [THEN conjunct2, THEN conjunct2]) (simp add: inRange_def)
qed

section \<open>NextID returns\<close>

text \<open>A call of NextID returns once its clock has caught up. While its tries read times no more than the allowed
  jump behind the last id, and one of them reads a later time than the last id's, it returns an id by then:
  neither a small step backwards nor a used-up millisecond blocks it for ever, and no other call is needed.\<close>

theorem NextID_returns:
  assumes "id_NodeSet s" "\<forall>t\<in>set clock. epochMillis \<le> t \<and> id_Last s - t \<le> maxClockBackwardMs" "\<exists>t\<in>set clock. id_Last s < t"
  shows "\<exists>i s'. NextID clock s = (Inr (Some i), s')"
proof -
  have "\<exists>i s'. NextID_loop clock s = (Inr (Some i), s')" using assms(2,3)
  proof (induction clock)
    case (Cons now clock)
    hence g: "epochMillis \<le> now" "id_Last s - now \<le> maxClockBackwardMs" by simp_all
    consider "tryNextID now s = (Inr None, s)" "\<not> id_Last s < now" | i s' where "tryNextID now s = (Inr (Some i), s')"
    proof (cases "now < id_Last s \<or> now = id_Last s \<and> maxSequence \<le> id_Seq s")
      case True
      with g that(1) show ?thesis by (auto simp: tryNextID_def)
    next
      case False
      with g show ?thesis by (intro that(2)) (simp add: tryNextID_def Let_def)
    qed
    thus ?case
    proof cases
      case 1
      with Cons show ?thesis by auto
    qed simp
  qed simp
  with assms(1) show ?thesis by (simp add: NextID_def)
qed

lemma NextID_returns_witness:
  "\<exists>i s'. NextID [epochMillis + 3, epochMillis + 5, epochMillis + 6] ((demoIds 1)\<lparr> id_Last := epochMillis + 5, id_Seq := 4095 \<rparr>) = (Inr (Some i), s')"
  by (rule NextID_returns) (simp_all add: demoIds_def maxClockBackwardMs_def)

end
