(* ===== verification/Dedup.thy ===== *)
theory Dedup
  imports Model
begin

text \<open>
  Deduplication of Kafka messages: WithDedup (src/internal/mq/mq.go) over the table of processed
  messages (src/internal/repo/processed_message_repo.go), whose primary key is the consumer group and
  the coordinates of the message. A TryMark that fails (\<open>fails\<close>) lets the handler run.
\<close>

record Message =
  msg_Value :: "string"
  msg_Topic :: "string"
  msg_Partition :: int
  msg_Offset :: int

record ProcessedRow =
  pm_Group :: string
  pm_Topic :: string
  pm_Partition :: int
  pm_Offset :: int
  pm_CreateTime :: int

definition coords :: "ProcessedRow \<Rightarrow> string \<times> string \<times> int \<times> int" where
  "coords r = (pm_Group r, pm_Topic r, pm_Partition r, pm_Offset r)"

definition TryMark :: "string \<Rightarrow> int \<Rightarrow> Message \<Rightarrow> ProcessedRow list \<Rightarrow> bool \<times> ProcessedRow list" where
  "TryMark g now m rows =
     (if (g, msg_Topic m, msg_Partition m, msg_Offset m) \<in> set (map coords rows) then (False, rows)
      else (True, rows @ [\<lparr> pm_Group = g, pm_Topic = msg_Topic m, pm_Partition = msg_Partition m,
                            pm_Offset = msg_Offset m, pm_CreateTime = now \<rparr>]))"

definition DeleteOlderThan :: "int \<Rightarrow> ProcessedRow list \<Rightarrow> nat \<times> ProcessedRow list" where
  "DeleteOlderThan cutoff rows =
     (sql_affected (\<lambda>r. pm_CreateTime r < cutoff) rows, filter (\<lambda>r. \<not> pm_CreateTime r < cutoff) rows)"

definition WithDedup ::
  "string \<Rightarrow> (Message \<Rightarrow> 's \<Rightarrow> unit res \<times> 's) \<Rightarrow> bool \<Rightarrow> int \<Rightarrow> Message \<Rightarrow> ProcessedRow list \<times> 's \<Rightarrow>
   unit res \<times> ProcessedRow list \<times> 's" where
  "WithDedup g handler fails now m st =
     (let (rows, s) = st in
      if fails then (case handler m s of (r, s') \<Rightarrow> (r, (rows, s')))
      else
        let (first, rows') = TryMark g now m rows in
        if \<not> first then (Inr (), (rows', s))
        else (case handler m s of (r, s') \<Rightarrow> (r, (rows', s'))))"

end
