(* ===== verification/EngineState.thy ===== *)
theory EngineState
  imports Settlement Klines MarkPrice Book
begin

text \<open>
  The state of a contract engine: the tables of Settlement together with the tables of orders,
  conditional orders, trades, candlesticks, the insurance fund and the close-round progress, the books
  and the mark price caches; and the services that only touch one of them: insurance fund
  (src/internal/service/insurancefund.go, src/internal/repo/insurance_fund_repo.go), close-round progress
  (src/internal/repo/round_close_progress_repo.go), push notifications (src/internal/service/push.go).

  \<^item> What the engine publishes is recorded in \<open>es_pushes\<close>, in order. A change of a mark is published
    there too; the liquidation scan it also starts is a step of its own (Liquidation).
  \<^item> Ids come from the supply \<open>ee_id\<close> of the environment (IdGen shows that ids never repeat).
  \<^item> A handler reads the clock once, \<open>now\<close>; the source reads it again for some of its rows.
  \<^item> Whether a Redis lock is busy is an answer of the environment.
\<close>

section \<open>Insurance fund\<close>

datatype FundRemark = RemarkShortfall | RemarkADL

record FundRow =
  fd_Symbol :: symbol
  fd_UID :: uid
  fd_PositionID :: nat
  fd_Amount :: dec
  fd_BalanceAfter :: dec
  fd_Remark :: FundRemark
  fd_CreateTime :: int

text \<open>The fund is one row, created by sql/schema.sql; None is a database without it.\<close>

type_synonym Fund = "dec option \<times> FundRow list"

definition FreshBalance :: "Fund \<Rightarrow> dec res" where
  "FreshBalance f = (case fst f of None \<Rightarrow> Inl ErrNoRows | Some b \<Rightarrow> Inr b)"

definition Adjust :: "dec_lib \<Rightarrow> symbol \<Rightarrow> uid \<Rightarrow> nat \<Rightarrow> dec \<Rightarrow> FundRemark \<Rightarrow> int \<Rightarrow> Fund \<Rightarrow> dec res \<times> Fund" where
  "Adjust L sy u positionID amount remark now f =
     (let f1 = (map_option (\<lambda>b. col L (b + amount)) (fst f), snd f) in
      case FreshBalance f1 of
        Inl e \<Rightarrow> (Inl e, f1)
      | Inr balanceAfter \<Rightarrow>
          (Inr balanceAfter,
           (fst f1, snd f1 @ [\<lparr> fd_Symbol = sy, fd_UID = u, fd_PositionID = positionID, fd_Amount = col L amount,
              fd_BalanceAfter = balanceAfter, fd_Remark = remark, fd_CreateTime = now \<rparr>])))"

section \<open>Close-round progress\<close>

record ProgressRow =
  rp_UID :: uid
  rp_Round :: nat
  rp_Symbol :: symbol
  rp_Done :: bool
  rp_CreateTime :: int

definition Seed :: "uid \<Rightarrow> nat \<Rightarrow> symbol \<Rightarrow> int \<Rightarrow> ProgressRow list \<Rightarrow> ProgressRow list" where
  "Seed u rnd sy now rows =
     (if \<exists>r\<in>set rows. rp_UID r = u \<and> rp_Round r = rnd \<and> rp_Symbol r = sy then rows
      else rows @ [\<lparr> rp_UID = u, rp_Round = rnd, rp_Symbol = sy, rp_Done = False, rp_CreateTime = now \<rparr>])"

definition MarkDone :: "uid \<Rightarrow> nat \<Rightarrow> symbol \<Rightarrow> ProgressRow list \<Rightarrow> ProgressRow list" where
  "MarkDone u rnd sy =
     sql_update (\<lambda>r. rp_UID r = u \<and> rp_Round r = rnd \<and> rp_Symbol r = sy) (\<lambda>r. r\<lparr> rp_Done := True \<rparr>)"

definition AllDone :: "uid \<Rightarrow> nat \<Rightarrow> ProgressRow list \<Rightarrow> bool" where
  "AllDone u rnd rows \<longleftrightarrow> sql_affected (\<lambda>r. rp_UID r = u \<and> rp_Round r = rnd \<and> \<not> rp_Done r) rows = 0"

definition DeleteProgress :: "uid \<Rightarrow> nat \<Rightarrow> ProgressRow list \<Rightarrow> ProgressRow list" where
  "DeleteProgress u rnd = filter (\<lambda>r. \<not> (rp_UID r = u \<and> rp_Round r = rnd))"

section \<open>The engine's state and environment\<close>

record UserSnapshot =
  us_Account :: AccountView
  us_Positions :: "PositionView list"
  us_ActiveOrders :: "Order list"

datatype Push =
    PushDepth symbol DepthSnapshot
  | PushTrade symbol PublicTrade
  | PushMarkPrice symbol dec
  | PushKline symbol Kline
  | PushUser uid UserSnapshot

record EngineState = Money +
  es_orders :: "Order list"
  es_conds :: "ConditionalOrder list"
  es_trades :: "Trade list"
  es_klines :: "Kline list"
  es_fund :: Fund
  es_progress :: "ProgressRow list"
  es_books :: Engine
  es_marks :: "symbol \<Rightarrow> markCache"
  es_windows :: "symbol \<Rightarrow> basisWindow"
  es_ids :: nat
  es_pushes :: "Push list"

record EngineEnv =
  ee_lib :: dec_lib
  ee_coins :: "Coin list"
  ee_tiers :: "RiskLimitTier list"
  ee_mark :: MarkPriceConfig
  ee_engineSymbols :: "symbol list"
  ee_external :: bool
  ee_id :: "nat \<Rightarrow> nat"
  ee_settleBusy :: "uid \<Rightarrow> bool"
  ee_closeBusy :: "uid \<Rightarrow> nat \<Rightarrow> bool"
  ee_fingerprint :: "string list \<Rightarrow> string"
  ee_show_dec :: "dec \<Rightarrow> string"
  ee_show_nat :: "nat \<Rightarrow> string"
  ee_victim :: "nat \<Rightarrow> bool"

text \<open>An empty list of symbols leaves \<open>ownedSymbols\<close> nil: the instance owns every symbol.\<close>

definition OwnsSymbol :: "EngineEnv \<Rightarrow> symbol \<Rightarrow> bool" where
  "OwnsSymbol E sy \<longleftrightarrow> ee_engineSymbols E = [] \<or> sy \<in> set (ee_engineSymbols E)"

definition marksOf :: "'z EngineState_scheme \<Rightarrow> Marks" where
  "marksOf s sy = Get (es_marks s sy)"

definition nextID :: "EngineEnv \<Rightarrow> 'z EngineState_scheme \<Rightarrow> nat res \<times> 'z EngineState_scheme" where
  "nextID E s = (Inr (ee_id E (es_ids s)), s\<lparr> es_ids := Suc (es_ids s) \<rparr>)"

definition onOrders :: "(Order list \<Rightarrow> 'a res \<times> Order list) \<Rightarrow> 'z EngineState_scheme \<Rightarrow> 'a res \<times> 'z EngineState_scheme" where
  "onOrders f s = (case f (es_orders s) of (r, rows) \<Rightarrow> (r, s\<lparr> es_orders := rows \<rparr>))"

definition onConds :: "(ConditionalOrder list \<Rightarrow> 'a res \<times> ConditionalOrder list) \<Rightarrow> 'z EngineState_scheme \<Rightarrow> 'a res \<times> 'z EngineState_scheme" where
  "onConds f s = (case f (es_conds s) of (r, rows) \<Rightarrow> (r, s\<lparr> es_conds := rows \<rparr>))"

definition onInsurance :: "(Fund \<Rightarrow> 'a res \<times> Fund) \<Rightarrow> 'z EngineState_scheme \<Rightarrow> 'a res \<times> 'z EngineState_scheme" where
  "onInsurance f s = (case f (es_fund s) of (r, fund) \<Rightarrow> (r, s\<lparr> es_fund := fund \<rparr>))"

definition onProgress :: "(ProgressRow list \<Rightarrow> 'a res \<times> ProgressRow list) \<Rightarrow> 'z EngineState_scheme \<Rightarrow> 'a res \<times> 'z EngineState_scheme" where
  "onProgress f s = (case f (es_progress s) of (r, rows) \<Rightarrow> (r, s\<lparr> es_progress := rows \<rparr>))"

text \<open>Asking for a book creates it.\<close>

definition onBook :: "symbol \<Rightarrow> (Book \<Rightarrow> 'a res \<times> Book) \<Rightarrow> 'z EngineState_scheme \<Rightarrow> 'a res \<times> 'z EngineState_scheme" where
  "onBook sy f s =
     (let (b, e) = BookFor (es_books s) sy; (r, b') = f b in (r, s\<lparr> es_books := e(sy \<mapsto> b') \<rparr>))"

text \<open>An update of a symbol's mark price; a change is published.\<close>

definition onMark ::
  "symbol \<Rightarrow> (basisWindow \<Rightarrow> markCache \<Rightarrow> (basisWindow \<times> markCache \<times> dec option) res) \<Rightarrow>
   'z EngineState_scheme \<Rightarrow> unit res \<times> 'z EngineState_scheme" where
  "onMark sy f s =
     (case f (es_windows s sy) (es_marks s sy) of
        Inl e \<Rightarrow> (Inl e, s)
      | Inr (w, c, changed) \<Rightarrow>
          (Inr (), s\<lparr> es_windows := (es_windows s)(sy := w), es_marks := (es_marks s)(sy := c),
             es_pushes := es_pushes s @ (case changed of None \<Rightarrow> [] | Some m \<Rightarrow> [PushMarkPrice sy m]) \<rparr>))"

section \<open>Publishing\<close>

definition publish :: "Push \<Rightarrow> 'z EngineState_scheme \<Rightarrow> unit res \<times> 'z EngineState_scheme" where
  "publish p s = (Inr (), s\<lparr> es_pushes := es_pushes s @ [p] \<rparr>)"

definition PublishTrade :: "Trade \<Rightarrow> 'z EngineState_scheme \<Rightarrow> unit res \<times> 'z EngineState_scheme" where
  "PublishTrade t = publish (PushTrade (tr_Symbol t) (Public t))"

definition PublishKline :: "symbol \<Rightarrow> Kline \<Rightarrow> 'z EngineState_scheme \<Rightarrow> unit res \<times> 'z EngineState_scheme" where
  "PublishKline sy k = publish (PushKline sy k)"

definition PublishDepth :: "symbol \<Rightarrow> 'z EngineState_scheme \<Rightarrow> unit res \<times> 'z EngineState_scheme" where
  "PublishDepth sy =
     andThen (onBook sy (\<lambda>b. (Inr (Depth b DefaultDepthLevels), b))) (\<lambda>d. publish (PushDepth sy d))"

text \<open>The snapshot is read from the tables; looking at an account creates it.\<close>

definition PublishUserSnapshot :: "EngineEnv \<Rightarrow> uid \<Rightarrow> 'z EngineState_scheme \<Rightarrow> unit res \<times> 'z EngineState_scheme" where
  "PublishUserSnapshot E u s =
     (case View (TotalUnrealizedPnl (marksOf s) u (mny_positions s)) (TotalPositionMargin u (mny_positions s)) u (mny_accounts s) of
        (None, rows) \<Rightarrow> (Inl PanicNilPointer, s\<lparr> mny_accounts := rows \<rparr>)
      | (Some account, rows) \<Rightarrow>
          publish
            (PushUser u \<lparr> us_Account = account,
               us_Positions = Views (ee_lib E) (marksOf s) u (av_IsInsured account) (av_Balance account + av_Credit account) (mny_positions s),
               us_ActiveOrders = ordFindActiveByUID (es_orders s) u [] \<rparr>)
            (s\<lparr> mny_accounts := rows \<rparr>))"

end
