(* ===== verification/Engine.thy ===== *)
theory Engine
  imports EngineState
begin

text \<open>
  The engine's handlers, src/internal/service/engine.go and adl.go: cancelling, settling fills,
  liquidation aftermath with auto-deleveraging, submitting, recovering the books and closing a round.
  An error that the source logs and steps over is \<open>tolerate\<close>d; a panic stops the handler. Handlers
  run one at a time here.
\<close>

definition UnfreezeMarginOf :: "EngineEnv \<Rightarrow> uid \<Rightarrow> dec \<Rightarrow> dec \<Rightarrow> 'z EngineState_scheme \<Rightarrow> unit res \<times> 'z EngineState_scheme" where
  "UnfreezeMarginOf E u availableAmount creditAmount = onAccounts (UnfreezeMargin (ee_lib E) u availableAmount creditAmount)"

section \<open>Cancelling\<close>

text \<open>Whether the order was still active and has been marked; an order that another path has ended releases
  nothing.\<close>

definition cancelAndReleaseMargin :: "EngineEnv \<Rightarrow> int \<Rightarrow> Order \<Rightarrow> dec \<Rightarrow> 'z EngineState_scheme \<Rightarrow> bool res \<times> 'z EngineState_scheme" where
  "cancelAndReleaseMargin E now o' remaining =
     andThen (onOrders (\<lambda>rows. case ordMarkCanceled (ord_OrderID o') now rows of (marked, rows') \<Rightarrow> (Inr marked, rows')))
       (\<lambda>marked.
          if \<not> marked then retn False
          else if ord_Action o' = ActionOpen \<and> 0 < remaining then
            (case ProportionalFrozen (ee_lib E) o' remaining of
               Inl e \<Rightarrow> (\<lambda>s. (Inl e, s))
             | Inr (releaseAvailable, releaseCredit) \<Rightarrow>
                 andThen (UnfreezeMarginOf E (ord_UID o') releaseAvailable releaseCredit) (\<lambda>_. retn True))
          else retn True)"

definition finalizeOrderCancel :: "EngineEnv \<Rightarrow> int \<Rightarrow> Order \<Rightarrow> dec \<Rightarrow> 'z EngineState_scheme \<Rightarrow> unit res \<times> 'z EngineState_scheme" where
  "finalizeOrderCancel E now o' remaining =
     andThen (cancelAndReleaseMargin E now o' remaining)
       (\<lambda>marked. if marked then PublishUserSnapshot E (ord_UID o') else retn ())"

definition CancelOrder :: "EngineEnv \<Rightarrow> int \<Rightarrow> Order \<Rightarrow> 'z EngineState_scheme \<Rightarrow> unit res \<times> 'z EngineState_scheme" where
  "CancelOrder E now o' =
     (if \<not> OwnsSymbol E (ord_Symbol o') then retn ()
      else
        andThen (onBook (ord_Symbol o') (\<lambda>b. case Cancel b (ord_OrderID o') of (r, b') \<Rightarrow> (Inr r, b')))
          (\<lambda>(remaining, ok).
             if \<not> ok then finalizeOrderCancel E now o' (RemainingAmount o')
             else andThen (PublishDepth (ord_Symbol o')) (\<lambda>_. finalizeOrderCancel E now o' remaining)))"

definition cancelConditionalOrder :: "EngineEnv \<Rightarrow> int \<Rightarrow> ConditionalOrder \<Rightarrow> 'z EngineState_scheme \<Rightarrow> unit res \<times> 'z EngineState_scheme" where
  "cancelConditionalOrder E now co =
     andThen (onConds (\<lambda>rows. case coMarkCanceled (co_OrderID co) now rows of (ok, rows') \<Rightarrow> (Inr ok, rows')))
       (\<lambda>ok.
          if \<not> ok then retn ()
          else if co_Action co = ActionOpen \<and> (0 < co_FrozenMargin co \<or> 0 < co_FrozenCredit co) then
            UnfreezeMarginOf E (co_UID co) (co_FrozenMargin co) (co_FrozenCredit co)
          else retn ())"

text \<open>The number of failures. The conditional orders are listed after the orders have been cancelled.\<close>

definition failures :: "'a option list \<Rightarrow> nat" where
  "failures rs = length (filter (\<lambda>r. r = None) rs)"

definition CancelAllPendingOrders :: "EngineEnv \<Rightarrow> int \<Rightarrow> uid \<Rightarrow> 'z EngineState_scheme \<Rightarrow> nat res \<times> 'z EngineState_scheme" where
  "CancelAllPendingOrders E now u s =
     andThen
       (mapEach (\<lambda>o'. tolerate (CancelOrder E now o'))
          (filter (\<lambda>o'. \<not> (ord_Liquidation o' \<or> \<not> OwnsSymbol E (ord_Symbol o'))) (ordFindActiveByUID (es_orders s) u [])))
       (\<lambda>rs s1.
          andThen (mapEach (\<lambda>co. tolerate (cancelConditionalOrder E now co)) (coFindActiveByUID (es_conds s1) u []))
            (\<lambda>rs'. retn (failures rs + failures rs')) s1) s"

section \<open>Forced closes and auto-deleveraging\<close>

definition forcedOrder :: "nat \<Rightarrow> int \<Rightarrow> Position \<Rightarrow> dec \<Rightarrow> dec \<Rightarrow> Order" where
  "forcedOrder i now p closeVolume mark =
     \<lparr> ord_OrderID = i, ord_UID = pos_UID p, ord_Symbol = pos_Symbol p, ord_Side = pos_Side p,
       ord_Action = ActionClose, ord_Type = OrderTypeMarket, ord_Price = mark, ord_Amount = closeVolume,
       ord_TradedAmount = closeVolume, ord_AvgDealPrice = mark, ord_FrozenMargin = 0, ord_FrozenCredit = 0,
       ord_Leverage = pos_Leverage p, ord_ReduceOnly = True, ord_Liquidation = False,
       ord_Status = OrderStatusFilled, ord_CreateTime = now, ord_UpdateTime = now,
       ord_RequestID = None, ord_RequestHash = None \<rparr>"

definition forceCloseOnePosition ::
  "EngineEnv \<Rightarrow> int \<Rightarrow> Position \<Rightarrow> dec \<Rightarrow> dec \<Rightarrow> 'z EngineState_scheme \<Rightarrow> FillResult res \<times> 'z EngineState_scheme" where
  "forceCloseOnePosition E now p closeVolume mark =
     andThen (nextID E)
       (\<lambda>i. let o' = forcedOrder i now p closeVolume mark in
          andThen (onOrders (ordInsert (ee_lib E) o'))
            (\<lambda>_. SettleFill (ee_lib E) (ee_coins E) o' closeVolume mark False now))"

record adlCandidate =
  adl_p :: Position
  adl_roe :: dec
  adl_pnl :: dec

text \<open>The profitable positions of the side, by return on margin, highest first (Go leaves the order of equals
  open; here they keep the order of the table).\<close>

definition adlPool :: "dec_lib \<Rightarrow> Side \<Rightarrow> dec \<Rightarrow> Position list \<Rightarrow> adlCandidate list" where
  "adlPool L targetSide mark candidates =
     sort_key (\<lambda>c. - adl_roe c)
       (map (\<lambda>p. \<lparr> adl_p = p, adl_roe = lib_Div L (UnrealizedPnl p mark) (pos_PositionMargin p), adl_pnl = UnrealizedPnl p mark \<rparr>)
         (filter (\<lambda>p. \<not> (pos_Side p \<noteq> targetSide \<or> pos_Volume p \<le> 0 \<or> pos_Status p \<noteq> PositionStatusNormal \<or>
                       pos_PositionMargin p \<le> 0) \<and> 0 < UnrealizedPnl p mark) candidates))"

text \<open>The volume to close for what is still needed.\<close>

definition adlVolume :: "dec_lib \<Rightarrow> adlCandidate \<Rightarrow> dec \<Rightarrow> dec res" where
  "adlVolume L c remaining =
     (case sdiv L (adl_pnl c) (pos_Volume (adl_p c)) of
        Inl e \<Rightarrow> Inl e
      | Inr pnlPerUnit \<Rightarrow>
          (case sdiv L remaining pnlPerUnit of
             Inl e \<Rightarrow> Inl e
           | Inr neededVolume \<Rightarrow>
               Inr (if neededVolume < pos_Volume (adl_p c) then neededVolume else pos_Volume (adl_p c))))"

text \<open>Moving a candidate's contribution to the fund: the amount that arrived.\<close>

definition adlContribute ::
  "EngineEnv \<Rightarrow> int \<Rightarrow> symbol \<Rightarrow> adlCandidate \<Rightarrow> dec \<Rightarrow> 'z EngineState_scheme \<Rightarrow> dec res \<times> 'z EngineState_scheme" where
  "adlContribute E now sy c contribution =
     (if \<not> 0 < contribution then retn 0
      else
        andThen (tolerate (onAccounts (svcSettleToBalance (ee_lib E) (pos_UID (adl_p c)) (- contribution))))
          (\<lambda>r. if r = None then retn 0
               else
                 andThen (tolerate (onInsurance (Adjust (ee_lib E) sy (pos_UID (adl_p c)) (pos_ID (adl_p c)) contribution RemarkADL now)))
                   (\<lambda>r'. retn (if r' = None then 0 else contribution))))"

fun adlLoop ::
  "EngineEnv \<Rightarrow> int \<Rightarrow> symbol \<Rightarrow> dec \<Rightarrow> adlCandidate list \<Rightarrow> dec \<Rightarrow> dec \<Rightarrow> 'z EngineState_scheme \<Rightarrow> dec res \<times> 'z EngineState_scheme" where
  "adlLoop E now sy mark [] raised remaining = retn raised"
| "adlLoop E now sy mark (c # pool) raised remaining =
     (if remaining \<le> 0 then retn raised
      else
        (case adlVolume (ee_lib E) c remaining of
           Inl e \<Rightarrow> (\<lambda>s. (Inl e, s))
         | Inr closeVolume \<Rightarrow>
             andThen (tolerate (forceCloseOnePosition E now (adl_p c) closeVolume mark))
               (\<lambda>result. case result of
                  None \<Rightarrow> adlLoop E now sy mark pool raised remaining
                | Some r \<Rightarrow>
                    andThen (adlContribute E now sy c (min (flr_RealizedPnl r) remaining))
                      (\<lambda>got. andThen (PublishUserSnapshot E (pos_UID (adl_p c)))
                         (\<lambda>_. adlLoop E now sy mark pool (raised + got) (remaining - got))))))"

definition runADL :: "EngineEnv \<Rightarrow> int \<Rightarrow> symbol \<Rightarrow> Side \<Rightarrow> dec \<Rightarrow> 'z EngineState_scheme \<Rightarrow> dec res \<times> 'z EngineState_scheme" where
  "runADL E now sy targetSide needed s =
     (case marksOf s sy of
        None \<Rightarrow> (Inr 0, s)
      | Some mark \<Rightarrow>
          adlLoop E now sy mark (adlPool (ee_lib E) targetSide mark (FindOpenBySymbol (mny_positions s) sy)) 0 needed s)"

section \<open>After a liquidation\<close>

text \<open>A negative free balance is first covered from free credit: what is left of it.\<close>

definition coverFromCredit :: "EngineEnv \<Rightarrow> uid \<Rightarrow> dec \<Rightarrow> dec \<Rightarrow> 'z EngineState_scheme \<Rightarrow> dec res \<times> 'z EngineState_scheme" where
  "coverFromCredit E u balance credit =
     (if balance < 0 then
        let deficit = - balance; covered = min credit deficit in
        if 0 < covered then
          andThen (onAccounts (svcSettleToBalance (ee_lib E) u covered))
            (\<lambda>_. andThen (onAccounts (svcSettleToCredit (ee_lib E) u (- covered)))
            (\<lambda>_. retn (balance + covered)))
        else retn balance
      else retn balance)"

text \<open>What credit does not cover is paid by the fund; the fund is filled up by auto-deleveraging when it
  holds less than that.\<close>

definition coverFromFund :: "EngineEnv \<Rightarrow> int \<Rightarrow> symbol \<Rightarrow> uid \<Rightarrow> Side \<Rightarrow> dec \<Rightarrow> 'z EngineState_scheme \<Rightarrow> unit res \<times> 'z EngineState_scheme" where
  "coverFromFund E now sy u side shortfall =
     andThen (onInsurance (\<lambda>f. (FreshBalance f, f)))
       (\<lambda>fundBalance.
          let usable = max fundBalance 0 in
          andThen (if usable < shortfall then runADL E now sy (Opposite side) (shortfall - usable) else retn 0)
            (\<lambda>_. andThen (onInsurance (Adjust (ee_lib E) sy u 0 (- shortfall) RemarkShortfall now))
            (\<lambda>_. onAccounts (svcSettleToBalance (ee_lib E) u shortfall))))"

definition settleLiquidationAftermath ::
  "EngineEnv \<Rightarrow> int \<Rightarrow> symbol \<Rightarrow> uid \<Rightarrow> Side \<Rightarrow> 'z EngineState_scheme \<Rightarrow> unit res \<times> 'z EngineState_scheme" where
  "settleLiquidationAftermath E now sy u side s =
     (if \<exists>p\<in>set (positionsOfUID (mny_positions s) u). 0 < pos_Volume p then (Inr (), s)
      else
        andThen (CancelAllPendingOrders E now u)
          (\<lambda>_. andThen (onAccounts (svcFindFreshFreeMargin u))
          (\<lambda>(balance, credit).
             if balance = 0 \<and> credit = 0 then retn ()
             else
               andThen (coverFromCredit E u balance credit)
                 (\<lambda>rest. if rest < 0 then coverFromFund E now sy u side (- rest) else retn ()))) s)"

text \<open>A busy lock means that the settlement of this user's last position is running elsewhere.\<close>

definition HandleLiquidationSettleAftermath ::
  "EngineEnv \<Rightarrow> int \<Rightarrow> symbol \<Rightarrow> uid \<Rightarrow> Side \<Rightarrow> 'z EngineState_scheme \<Rightarrow> unit res \<times> 'z EngineState_scheme" where
  "HandleLiquidationSettleAftermath E now sy u side =
     (if ee_settleBusy E u then retn () else settleLiquidationAftermath E now sy u side)"

section \<open>Settling one fill\<close>

definition buyOrderID :: "Fill \<Rightarrow> nat" where
  "buyOrderID f = (if ro_Direction (fl_MakerOrder f) = Buy then ro_OrderID (fl_MakerOrder f) else ro_OrderID (fl_TakerOrder f))"

definition sellOrderID :: "Fill \<Rightarrow> nat" where
  "sellOrderID f = (if ro_Direction (fl_MakerOrder f) = Sell then ro_OrderID (fl_MakerOrder f) else ro_OrderID (fl_TakerOrder f))"

definition buyUID :: "Fill \<Rightarrow> uid" where
  "buyUID f = (if ro_Direction (fl_MakerOrder f) = Buy then ro_UID (fl_MakerOrder f) else ro_UID (fl_TakerOrder f))"

definition sellUID :: "Fill \<Rightarrow> uid" where
  "sellUID f = (if ro_Direction (fl_MakerOrder f) = Sell then ro_UID (fl_MakerOrder f) else ro_UID (fl_TakerOrder f))"

definition tradeOf :: "nat \<Rightarrow> symbol \<Rightarrow> int \<Rightarrow> Fill \<Rightarrow> Trade" where
  "tradeOf i sy now f =
     \<lparr> tr_TradeID = i, tr_Symbol = sy, tr_Price = fl_Price f, tr_Volume = fl_Volume f,
       tr_BuyOrderID = buyOrderID f, tr_SellOrderID = sellOrderID f, tr_BuyUID = buyUID f, tr_SellUID = sellUID f,
       tr_MakerOrderID = ro_OrderID (fl_MakerOrder f), tr_CreateTime = now \<rparr>"

text \<open>One side of the fill: the order row, then the money; a failure ends this side only.\<close>

definition settleSide ::
  "EngineEnv \<Rightarrow> int \<Rightarrow> Fill \<Rightarrow> RestingOrder \<times> bool \<Rightarrow> 'z EngineState_scheme \<Rightarrow> unit res \<times> 'z EngineState_scheme" where
  "settleSide E now f = (\<lambda>(side, isMaker) s.
     (case ordFindByOrderID (es_orders s) (ro_OrderID side) of
        None \<Rightarrow> (Inr (), s)
      | Some order \<Rightarrow>
          let newStatus = (if ord_Amount order \<le> ord_TradedAmount order + fl_Volume f then OrderStatusFilled
                           else OrderStatusPartiallyFilled) in
          andThen (onOrders (\<lambda>rows. (Inr (), ApplyFill (ee_lib E) (ro_OrderID side) (fl_Volume f) (fl_Price f) newStatus now rows)))
            (\<lambda>_. andThen (tolerate (SettleFill (ee_lib E) (ee_coins E) order (fl_Volume f) (fl_Price f) isMaker now))
            (\<lambda>r. if r \<noteq> None \<and> ro_Liquidation side then
                   andThen (tolerate (HandleLiquidationSettleAftermath E now (ord_Symbol order) (ro_UID side) (ro_Side side)))
                     (\<lambda>_. retn ())
                 else retn ())) s))"

definition settleOneFill :: "EngineEnv \<Rightarrow> int \<Rightarrow> Order \<Rightarrow> Fill \<Rightarrow> 'z EngineState_scheme \<Rightarrow> unit res \<times> 'z EngineState_scheme" where
  "settleOneFill E now incoming f =
     (let sy = ord_Symbol incoming in
      andThen (tolerate (onMark sy (UpdateFromTrade (ee_lib E) (ee_mark E) now (fl_Price f))))
        (\<lambda>_. andThen (nextID E)
        (\<lambda>i. let trade = tradeOf i sy now f in
          andThen (\<lambda>s. case tradeInsert (ee_lib E) trade (es_trades s) of (r, rows) \<Rightarrow> (r, s\<lparr> es_trades := rows \<rparr>))
          (\<lambda>_. andThen (PublishTrade trade)
          (\<lambda>_. andThen (\<lambda>s. case RecordTrade (ee_lib E) (ee_external E) sy (fl_Price f) (fl_Volume f) now (es_klines s) of
                                (ks, rows) \<Rightarrow> (Inr ks, s\<lparr> es_klines := rows \<rparr>))
          (\<lambda>ks. andThen (mapEach (PublishKline sy) ks)
          (\<lambda>_. andThen (mapEach (settleSide E now f) [(fl_MakerOrder f, True), (fl_TakerOrder f, False)])
          (\<lambda>_. retn ()))))))))"

definition handleSelfCanceled :: "EngineEnv \<Rightarrow> int \<Rightarrow> RestingOrder list \<Rightarrow> 'z EngineState_scheme \<Rightarrow> unit res \<times> 'z EngineState_scheme" where
  "handleSelfCanceled E now selfCanceled s =
     (if selfCanceled = [] then (Inr (), s)
      else
        let orders = ordFindByOrderIDs (es_orders s) (map ro_OrderID selfCanceled) in
        andThen
          (mapEach (\<lambda>canceled. case sql_first (\<lambda>o'. ord_OrderID o' = ro_OrderID canceled) orders of
               None \<Rightarrow> retn None
             | Some o' \<Rightarrow> tolerate (finalizeOrderCancel E now o' (ro_Remaining canceled))) selfCanceled)
          (\<lambda>_. retn ()) s)"

section \<open>Submitting\<close>

text \<open>Price 0 means no limit to the book.\<close>

definition marketOrderPriceLimit :: "EngineEnv \<Rightarrow> Order \<Rightarrow> dec" where
  "marketOrderPriceLimit E order =
     (case coinBySymbol (ee_coins E) (ord_Symbol order) of
        None \<Rightarrow> 0
      | Some coin \<Rightarrow>
          if coin_PriceProtectionRatio coin \<le> 0 \<or> ord_Price order \<le> 0 then 0
          else if DirectionOf (ord_Side order) (ord_Action order) = Buy
          then ord_Price order * (1 + coin_PriceProtectionRatio coin)
          else ord_Price order * (1 - coin_PriceProtectionRatio coin))"

definition restingOf :: "Order \<Rightarrow> dec \<Rightarrow> int \<Rightarrow> RestingOrder" where
  "restingOf order matchPrice entryTime =
     \<lparr> ro_OrderID = ord_OrderID order, ro_UID = ord_UID order, ro_Side = ord_Side order, ro_Action = ord_Action order,
       ro_Direction = DirectionOf (ord_Side order) (ord_Action order), ro_Price = matchPrice,
       ro_Remaining = RemainingAmount order, ro_EntryTime = entryTime, ro_ReduceOnly = ord_ReduceOnly order,
       ro_Liquidation = ord_Liquidation order \<rparr>"

text \<open>What is left of a limit order goes into the book, of a market order it is cancelled.\<close>

definition restOrCancel :: "EngineEnv \<Rightarrow> int \<Rightarrow> Order \<Rightarrow> RestingOrder \<Rightarrow> 'z EngineState_scheme \<Rightarrow> bool res \<times> 'z EngineState_scheme" where
  "restOrCancel E now order resting =
     (if 0 < ro_Remaining resting then
        if ord_Type order = OrderTypeLimit then
          onBook (ord_Symbol order) (\<lambda>b. case Rest resting b of (rested, b') \<Rightarrow> (Inr rested, b'))
        else andThen (tolerate (cancelAndReleaseMargin E now order (ro_Remaining resting))) (\<lambda>_. retn False)
      else retn False)"

text \<open>Every user touched gets one snapshot at the end; the order of the map's keys is left open by Go.\<close>

definition touchedUIDs :: "Order \<Rightarrow> Fill list \<Rightarrow> uid list" where
  "touchedUIDs order fills =
     firsts (concat (map (\<lambda>f. [ro_UID (fl_MakerOrder f), ro_UID (fl_TakerOrder f)]) fills) @ [ord_UID order])"

definition matchAndSettle ::
  "EngineEnv \<Rightarrow> int \<Rightarrow> Order \<Rightarrow> RestingOrder \<Rightarrow> bool \<Rightarrow> 'z EngineState_scheme \<Rightarrow> bool res \<times> 'z EngineState_scheme" where
  "matchAndSettle E now order resting recovering =
     andThen
       (onBook (ord_Symbol order) (\<lambda>b. case Match resting b of
            Inl e \<Rightarrow> (Inl e, b)
          | Inr (fills, selfCanceled, resting', b') \<Rightarrow> (Inr (fills, selfCanceled, resting'), b')))
       (\<lambda>(fills, selfCanceled, resting').
          andThen (mapEach (\<lambda>f. tolerate (settleOneFill E now order f)) fills)
            (\<lambda>_. andThen (handleSelfCanceled E now selfCanceled)
            (\<lambda>_. andThen (restOrCancel E now order resting')
            (\<lambda>rested.
               let matched = (fills \<noteq> [] \<or> selfCanceled \<noteq> []) in
               if recovering \<and> \<not> matched then retn False
               else
                 andThen (if matched \<or> rested then PublishDepth (ord_Symbol order) else retn ())
                   (\<lambda>_. andThen (mapEach (PublishUserSnapshot E) (touchedUIDs order fills))
                   (\<lambda>_. retn matched))))))"

definition submitOrder ::
  "EngineEnv \<Rightarrow> int \<Rightarrow> Order \<Rightarrow> int \<Rightarrow> bool \<Rightarrow> 'z EngineState_scheme \<Rightarrow> bool res \<times> 'z EngineState_scheme" where
  "submitOrder E now order entryTime recovering =
     (if \<not> OwnsSymbol E (ord_Symbol order) then retn False
      else if \<not> ActiveOrderStatuses (ord_Status order) then retn False
      else
        andThen (onBook (ord_Symbol order) (\<lambda>b. (Inr (Contains b (ord_OrderID order)), b)))
          (\<lambda>contained s.
             if contained then (Inr False, s)
             else if ord_Action order = ActionOpen \<and> \<not> ord_Liquidation order \<and> IsFrozen (mny_accounts s) (ord_UID order) then
               andThen (cancelAndReleaseMargin E now order (RemainingAmount order))
                 (\<lambda>_. andThen (PublishUserSnapshot E (ord_UID order)) (\<lambda>_. retn False)) s
             else
               let matchPrice = (if ord_Type order = OrderTypeMarket then marketOrderPriceLimit E order else ord_Price order)
               in matchAndSettle E now order (restingOf order matchPrice entryTime) recovering s))"

definition SubmitOrder :: "EngineEnv \<Rightarrow> int \<Rightarrow> Order \<Rightarrow> int \<Rightarrow> 'z EngineState_scheme \<Rightarrow> unit res \<times> 'z EngineState_scheme" where
  "SubmitOrder E now order entryTime = andThen (submitOrder E now order entryTime False) (\<lambda>_. retn ())"

section \<open>Recovering the books\<close>

text \<open>One order of the start-up replay; entry times are the creation times in nanoseconds.\<close>

definition recoverOne :: "EngineEnv \<Rightarrow> int \<Rightarrow> Order \<Rightarrow> 'z EngineState_scheme \<Rightarrow> bool res \<times> 'z EngineState_scheme" where
  "recoverOne E now o' =
     (if \<not> OwnsSymbol E (ord_Symbol o') then retn False
      else if RemainingAmount o' \<le> 0 then retn False
      else submitOrder E now o' (ord_CreateTime o' * 1000000) True)"

definition RecoverOrderBook :: "EngineEnv \<Rightarrow> int \<Rightarrow> 'z EngineState_scheme \<Rightarrow> unit res \<times> 'z EngineState_scheme" where
  "RecoverOrderBook E now s =
     andThen (mapEach (recoverOne E now) (FindActiveLimitOrders (es_orders s))) (\<lambda>_. retn ()) s"

section \<open>Refreshing the marks\<close>

definition bestPrice :: "PriceLevel list \<Rightarrow> dec" where
  "bestPrice levels = (case levels of [] \<Rightarrow> 0 | l # _ \<Rightarrow> snap_Price l)"

definition RefreshMarkPrices :: "EngineEnv \<Rightarrow> int \<Rightarrow> 'z EngineState_scheme \<Rightarrow> unit res \<times> 'z EngineState_scheme" where
  "RefreshMarkPrices E now =
     andThen
       (mapEach (\<lambda>coin.
          if \<not> OwnsSymbol E (coin_Symbol coin) then retn None
          else
            andThen (onBook (coin_Symbol coin) (\<lambda>b. (Inr (Depth b 1), b)))
              (\<lambda>depth. tolerate (onMark (coin_Symbol coin)
                 (Refresh (ee_lib E) (ee_mark E) now (bestPrice (ds_Bids depth)) (bestPrice (ds_Asks depth))))))
          (FindAllEnabled (ee_coins E)))
       (\<lambda>_. retn ())"

section \<open>Closing a round\<close>

definition collectRoundCloseSymbols :: "Order list \<Rightarrow> ConditionalOrder list \<Rightarrow> Position list \<Rightarrow> symbol list" where
  "collectRoundCloseSymbols orders conditional positions =
     firsts (map ord_Symbol orders @ map co_Symbol conditional @ map pos_Symbol (filter (\<lambda>p. 0 < pos_Volume p) positions))"

definition closePosition :: "EngineEnv \<Rightarrow> int \<Rightarrow> Position \<Rightarrow> 'z EngineState_scheme \<Rightarrow> bool res \<times> 'z EngineState_scheme" where
  "closePosition E now p s =
     (case marksOf s (pos_Symbol p) of
        None \<Rightarrow> (Inr False, s)
      | Some mark \<Rightarrow>
          andThen (tolerate (forceCloseOnePosition E now p (pos_Volume p) mark)) (\<lambda>r. retn (r \<noteq> None)) s)"

definition closeRoundForSymbol ::
  "EngineEnv \<Rightarrow> int \<Rightarrow> symbol \<Rightarrow> Order list \<Rightarrow> ConditionalOrder list \<Rightarrow> Position list \<Rightarrow>
   'z EngineState_scheme \<Rightarrow> bool res \<times> 'z EngineState_scheme" where
  "closeRoundForSymbol E now sy orders conditional positions =
     andThen (mapEach (\<lambda>o'. tolerate (CancelOrder E now o')) (filter (\<lambda>o'. ord_Symbol o' = sy) orders))
       (\<lambda>rs. andThen (mapEach (\<lambda>co. tolerate (cancelConditionalOrder E now co)) (filter (\<lambda>co. co_Symbol co = sy) conditional))
       (\<lambda>rs'. andThen (mapEach (closePosition E now) (filter (\<lambda>p. pos_Symbol p = sy \<and> 0 < pos_Volume p) positions))
       (\<lambda>oks. retn (failures rs = 0 \<and> failures rs' = 0 \<and> list_all (\<lambda>ok. ok) oks))))"

definition tryFinalizeCloseRound :: "EngineEnv \<Rightarrow> int \<Rightarrow> uid \<Rightarrow> nat \<Rightarrow> 'z EngineState_scheme \<Rightarrow> unit res \<times> 'z EngineState_scheme" where
  "tryFinalizeCloseRound E now u rnd =
     andThen (onProgress (\<lambda>rows. (Inr (AllDone u rnd rows), rows)))
       (\<lambda>allDone.
          if \<not> allDone then retn ()
          else if ee_closeBusy E u rnd then retn ()
          else
            andThen (onProgress (\<lambda>rows. (Inr (AllDone u rnd rows), rows)))
              (\<lambda>recheck.
                 if \<not> recheck then retn ()
                 else
                   andThen (onFunds (acctCloseRound (ee_lib E) now u rnd))
                     (\<lambda>ok.
                        if \<not> ok then retn ()
                        else
                          andThen (onProgress (\<lambda>rows. (Inr (), DeleteProgress u rnd rows)))
                            (\<lambda>_. PublishUserSnapshot E u))))"

definition closeOwned ::
  "EngineEnv \<Rightarrow> int \<Rightarrow> uid \<Rightarrow> nat \<Rightarrow> Order list \<Rightarrow> ConditionalOrder list \<Rightarrow> Position list \<Rightarrow> symbol \<Rightarrow>
   'z EngineState_scheme \<Rightarrow> unit res \<times> 'z EngineState_scheme" where
  "closeOwned E now u rnd orders conditional positions sy =
     (if \<not> OwnsSymbol E sy then retn ()
      else
        andThen (closeRoundForSymbol E now sy orders conditional positions)
          (\<lambda>ok. if ok then onProgress (\<lambda>rows. (Inr (), MarkDone u rnd sy rows)) else retn ()))"

definition CloseRound :: "EngineEnv \<Rightarrow> int \<Rightarrow> uid \<Rightarrow> nat \<Rightarrow> 'z EngineState_scheme \<Rightarrow> unit res \<times> 'z EngineState_scheme" where
  "CloseRound E now u rnd =
     andThen (onAccounts (withAccount u (\<lambda>account rows. (Inr (acc_Round account), rows))))
       (\<lambda>current s.
          if current \<noteq> rnd then (Inr (), s)
          else
            let activeOrders = ordFindActiveByUID (es_orders s) u [];
                pendingConditional = coFindActiveByUID (es_conds s) u [];
                positions = positionsOfUID (mny_positions s) u;
                symbols = collectRoundCloseSymbols activeOrders pendingConditional positions in
            andThen (mapEach (\<lambda>sy. onProgress (\<lambda>rows. (Inr (), Seed u rnd sy now rows))) symbols)
              (\<lambda>_. andThen (mapEach (closeOwned E now u rnd activeOrders pendingConditional positions) symbols)
              (\<lambda>_. tryFinalizeCloseRound E now u rnd)) s)"

section \<open>Consumers\<close>

text \<open>src/internal/service/consumer_handlers.go, on the decoded event. An unknown order is skipped.\<close>

definition HandleOrderSubmit :: "EngineEnv \<Rightarrow> int \<Rightarrow> int \<Rightarrow> nat \<Rightarrow> 'z EngineState_scheme \<Rightarrow> unit res \<times> 'z EngineState_scheme" where
  "HandleOrderSubmit E now nowNanos orderID s =
     (case ordFindByOrderID (es_orders s) orderID of None \<Rightarrow> (Inr (), s) | Some o' \<Rightarrow> SubmitOrder E now o' nowNanos s)"

definition HandleOrderCancel :: "EngineEnv \<Rightarrow> int \<Rightarrow> nat \<Rightarrow> 'z EngineState_scheme \<Rightarrow> unit res \<times> 'z EngineState_scheme" where
  "HandleOrderCancel E now orderID s =
     (case ordFindByOrderID (es_orders s) orderID of None \<Rightarrow> (Inr (), s) | Some o' \<Rightarrow> CancelOrder E now o' s)"

definition HandleRoundClose :: "EngineEnv \<Rightarrow> int \<Rightarrow> uid \<Rightarrow> nat \<Rightarrow> 'z EngineState_scheme \<Rightarrow> unit res \<times> 'z EngineState_scheme" where
  "HandleRoundClose E now u rnd = CloseRound E now u rnd"

end
