(* ===== verification/Liquidation.thy ===== *)
theory Liquidation
  imports Engine
begin

text \<open>
  The liquidation service, src/internal/service/liquidation.go. checkAndLiquidate is one step per user;
  the goroutines it starts are its result, one (uid, symbol, side) for each position it marked. Such a
  goroutine, liquidateInClips, places protected orders clip by clip and sleeps in between: \<open>env n\<close> is
  what the rest of the system does during the n-th sleep, and \<open>fuel\<close> bounds the clips. The log of stale
  marks is left out.
\<close>

definition insurancePayoutRatio :: dec where
  "insurancePayoutRatio = 5 / 10"

definition protectPriceBufferMultiplier :: dec where
  "protectPriceBufferMultiplier = 2"

type_synonym Clips = "uid \<times> symbol \<times> Side"

section \<open>Starting a liquidation\<close>

definition queueLiquidation :: "EngineEnv \<Rightarrow> Position \<Rightarrow> 'z EngineState_scheme \<Rightarrow> Clips list res \<times> 'z EngineState_scheme" where
  "queueLiquidation E p =
     andThen (onPositions (\<lambda>rows. case MarkLiquidating (pos_ID p) rows of (ok, rows') \<Rightarrow> (Inr ok, rows')))
       (\<lambda>ok. if \<not> ok then retn []
             else andThen (PublishUserSnapshot E (pos_UID p)) (\<lambda>_. retn [(pos_UID p, pos_Symbol p, pos_Side p)]))"

text \<open>The maintenance requirement: the share of the user's own money that must be left.\<close>

definition maintainTotal :: "Account \<Rightarrow> dec" where
  "maintainTotal account = (acc_Balance account + acc_Credit account) * (1 - lossRatioFor (acc_IsInsured account))"

definition payInsurance :: "EngineEnv \<Rightarrow> int \<Rightarrow> Account \<Rightarrow> 'z EngineState_scheme \<Rightarrow> unit res \<times> 'z EngineState_scheme" where
  "payInsurance E now account =
     (let payout = (acc_Balance account + acc_Credit account) * insurancePayoutRatio;
          reqID = ''liq-insurance-'' @ ee_show_nat E (acc_UID account) @ ''-r'' @ ee_show_nat E (acc_Round account) in
      if acc_IsInsured account \<and> 0 < payout then
        andThen (tolerate (onFunds (GrantCredit (ee_lib E) (ee_fingerprint E) (ee_show_dec E) (ee_show_nat E) (ee_victim E) now
          (acc_UID account) payout reqID))) (\<lambda>_. retn ())
      else retn ())"

definition checkAndLiquidate :: "EngineEnv \<Rightarrow> int \<Rightarrow> uid \<Rightarrow> 'z EngineState_scheme \<Rightarrow> Clips list res \<times> 'z EngineState_scheme" where
  "checkAndLiquidate E now u s =
     (case FindByUID (mny_accounts s) u of
        None \<Rightarrow> (Inr [], s)
      | Some account \<Rightarrow>
          let positions = positionsOfUID (mny_positions s) u in
          if positions = [] then (Inr [], s)
          else if \<exists>p\<in>set positions. 0 < pos_Volume p \<and> snd (Lookup (ee_mark E) now (es_marks s (pos_Symbol p))) = MarkStale
          then (Inr [], s)
          else
            let equity = Equity account (TotalUnrealizedPnlOf (marksOf s) positions) in
            if maintainTotal account < equity then (Inr [], s)
            else
              let pending = filter (\<lambda>p. 0 < pos_Volume p \<and> pos_Status p = PositionStatusNormal) positions in
              andThen (payInsurance E now account)
                (\<lambda>_. if pending = [] then retn []
                      else
                        andThen (CancelAllPendingOrders E now u)
                          (\<lambda>_. andThen (mapEach (queueLiquidation E) (filter (\<lambda>p. OwnsSymbol E (pos_Symbol p)) pending))
                          (\<lambda>started. retn (concat started)))) s)"

text \<open>The users of a scan are independent of each other in the source; here they are taken in turn. The
  system account is exempt.\<close>

definition scanUIDs :: "EngineEnv \<Rightarrow> int \<Rightarrow> uid list \<Rightarrow> 'z EngineState_scheme \<Rightarrow> Clips list res \<times> 'z EngineState_scheme" where
  "scanUIDs E now uids =
     andThen (mapEach (\<lambda>u. tolerate (checkAndLiquidate E now u)) (filter (\<lambda>u. u \<noteq> UID) uids))
       (\<lambda>started. retn (concat (map (\<lambda>r. case r of None \<Rightarrow> [] | Some cs \<Rightarrow> cs) started)))"

definition RiskScanOnce :: "EngineEnv \<Rightarrow> int \<Rightarrow> 'z EngineState_scheme \<Rightarrow> Clips list res \<times> 'z EngineState_scheme" where
  "RiskScanOnce E now s = scanUIDs E now (FindAllOpenUIDs (mny_positions s)) s"

definition OnMarkPriceChanged :: "EngineEnv \<Rightarrow> int \<Rightarrow> symbol \<Rightarrow> 'z EngineState_scheme \<Rightarrow> Clips list res \<times> 'z EngineState_scheme" where
  "OnMarkPriceChanged E now sy s = scanUIDs E now (FindOpenUIDsBySymbol (mny_positions s) sy) s"

section \<open>Liquidating clip by clip\<close>

definition abortClip :: "EngineEnv \<Rightarrow> Position \<Rightarrow> 'z EngineState_scheme \<Rightarrow> nat option res \<times> 'z EngineState_scheme" where
  "abortClip E p =
     andThen (onPositions (\<lambda>rows. (Inr (), ClearLiquidating (pos_ID p) rows)))
       (\<lambda>_. andThen (PublishUserSnapshot E (pos_UID p)) (\<lambda>_. retn None))"

definition clipOrder :: "nat \<Rightarrow> int \<Rightarrow> Position \<Rightarrow> dec \<Rightarrow> dec \<Rightarrow> Order" where
  "clipOrder i now p protectPrice clipVolume =
     \<lparr> ord_OrderID = i, ord_UID = pos_UID p, ord_Symbol = pos_Symbol p, ord_Side = pos_Side p,
       ord_Action = ActionClose, ord_Type = OrderTypeLimit, ord_Price = protectPrice, ord_Amount = clipVolume,
       ord_TradedAmount = 0, ord_AvgDealPrice = 0, ord_FrozenMargin = 0, ord_FrozenCredit = 0,
       ord_Leverage = pos_Leverage p, ord_ReduceOnly = True, ord_Liquidation = True,
       ord_Status = OrderStatusOpen, ord_CreateTime = now, ord_UpdateTime = now,
       ord_RequestID = None, ord_RequestHash = None \<rparr>"

definition protectPriceOf :: "dec \<Rightarrow> RiskLimitTier \<Rightarrow> Side \<Rightarrow> dec" where
  "protectPriceOf mark tier sd =
     (let buffer = mark * tier_MaintenanceMarginRate tier * protectPriceBufferMultiplier in
      if sd = SideShort then mark + buffer else mark - buffer)"

definition clipVolumeOf :: "Coin \<Rightarrow> Position \<Rightarrow> dec" where
  "clipVolumeOf coin p =
     (if 0 < coin_MaxVolume coin \<and> coin_MaxVolume coin < pos_Volume p then coin_MaxVolume coin else pos_Volume p)"

text \<open>The order id of the clip, or none when the clip could not be placed.\<close>

definition submitLiquidationClip :: "EngineEnv \<Rightarrow> int \<Rightarrow> int \<Rightarrow> Position \<Rightarrow> 'z EngineState_scheme \<Rightarrow> nat option res \<times> 'z EngineState_scheme" where
  "submitLiquidationClip E now nowNanos p s =
     (case GetFresh (ee_mark E) now (es_marks s (pos_Symbol p)) of
        None \<Rightarrow> abortClip E p s
      | Some mark \<Rightarrow>
          (case TierFor (ee_tiers E) (pos_Symbol p) (pos_Volume p * mark) of
             None \<Rightarrow> abortClip E p s
           | Some tier \<Rightarrow>
               (case coinBySymbol (ee_coins E) (pos_Symbol p) of
                  None \<Rightarrow> abortClip E p s
                | Some coin \<Rightarrow>
                    andThen (nextID E)
                      (\<lambda>i. let o' = clipOrder i now p (protectPriceOf mark tier (pos_Side p)) (clipVolumeOf coin p) in
                         andThen (tolerate (onOrders (ordInsert (ee_lib E) o')))
                           (\<lambda>r. if r = None then abortClip E p
                                else andThen (tolerate (SubmitOrder E now o' nowNanos)) (\<lambda>_. retn (Some i)))) s)))"

text \<open>The remainder of a clip that has timed out is settled at the mark price.\<close>

definition settleTimeoutFallback :: "EngineEnv \<Rightarrow> int \<Rightarrow> nat \<Rightarrow> 'z EngineState_scheme \<Rightarrow> unit res \<times> 'z EngineState_scheme" where
  "settleTimeoutFallback E now orderID s =
     (case ordFindByOrderID (es_orders s) orderID of
        None \<Rightarrow> (Inr (), s)
      | Some o' \<Rightarrow>
          if \<not> ActiveOrderStatuses (ord_Status o') then (Inr (), s)
          else
            andThen (onBook (ord_Symbol o') (\<lambda>b. case Cancel b (ord_OrderID o') of ((_, ok), b') \<Rightarrow> (Inr ok, b')))
              (\<lambda>ok. andThen (if ok then PublishDepth (ord_Symbol o') else retn ())
              (\<lambda>_ s1.
                 case Find (mny_positions s1) (ord_UID o') (ord_Symbol o') (ord_Side o') of
                   None \<Rightarrow> onOrders (\<lambda>rows. (Inr (), snd (ordMarkCanceled orderID now rows))) s1
                 | Some p \<Rightarrow>
                     if pos_Volume p \<le> 0 then onOrders (\<lambda>rows. (Inr (), snd (ordMarkCanceled orderID now rows))) s1
                     else
                       (case marksOf s1 (ord_Symbol o') of
                          None \<Rightarrow> (Inr (), s1)
                        | Some mark \<Rightarrow>
                            let closeVolume = min (pos_Volume p) (RemainingAmount o');
                                newStatus = (if closeVolume < RemainingAmount o' then OrderStatusCanceled else OrderStatusFilled) in
                            andThen (onOrders (\<lambda>rows. (Inr (), ApplyFill (ee_lib E) orderID closeVolume mark newStatus now rows)))
                              (\<lambda>_. andThen (tolerate (SettleFill (ee_lib E) (ee_coins E) o' closeVolume mark False now))
                              (\<lambda>r. if r = None then retn ()
                                   else
                                     andThen (tolerate (HandleLiquidationSettleAftermath E now (ord_Symbol o') (ord_UID o') (ord_Side o')))
                                       (\<lambda>_. PublishUserSnapshot E (ord_UID o')))) s1))) s)"

text \<open>One clip up to the sleep: None when the loop ends here, otherwise the id of the order and whether it is
  still active, so that the loop sleeps before it settles the rest.\<close>

definition clipStep :: "EngineEnv \<Rightarrow> int \<Rightarrow> int \<Rightarrow> Clips \<Rightarrow> 'z EngineState_scheme \<Rightarrow> (nat \<times> bool) option res \<times> 'z EngineState_scheme" where
  "clipStep E now nowNanos = (\<lambda>(u, sy, sd) s.
     (case Find (mny_positions s) u sy sd of
        None \<Rightarrow> (Inr None, s)
      | Some p \<Rightarrow>
          if pos_Volume p \<le> 0 then (Inr None, s)
          else
            andThen (submitLiquidationClip E now nowNanos p)
              (\<lambda>placed s1. case placed of
                 None \<Rightarrow> (Inr None, s1)
               | Some i \<Rightarrow>
                   (case ordFindByOrderID (es_orders s1) i of
                      Some o' \<Rightarrow> (Inr (Some (i, ActiveOrderStatuses (ord_Status o'))), s1)
                    | None \<Rightarrow> (Inr (Some (i, True)), s1))) s))"

fun liquidateInClips ::
  "EngineEnv \<Rightarrow> nat \<Rightarrow> (nat \<Rightarrow> 'z EngineState_scheme \<Rightarrow> 'z EngineState_scheme) \<Rightarrow> (nat \<Rightarrow> int \<times> int) \<Rightarrow> Clips \<Rightarrow>
   'z EngineState_scheme \<Rightarrow> (unit res \<times> 'z EngineState_scheme) option" where
  "liquidateInClips E 0 env clock c s = None"
| "liquidateInClips E (Suc fuel) env clock c s =
     (case clipStep E (fst (clock fuel)) (snd (clock fuel)) c s of
        (Inl e, s1) \<Rightarrow> Some (Inl e, s1)
      | (Inr None, s1) \<Rightarrow> Some (Inr (), s1)
      | (Inr (Some (i, active)), s1) \<Rightarrow>
          if \<not> active then liquidateInClips E fuel env clock c s1
          else
            (case settleTimeoutFallback E (fst (clock fuel)) i (env fuel s1) of
               (Inl e, s2) \<Rightarrow> Some (Inl e, s2)
             | (Inr _, s2) \<Rightarrow> liquidateInClips E fuel env clock c s2))"

end
