(* ===== verification/Conditionals.thy ===== *)
theory Conditionals
  imports Engine
begin

text \<open>
  The trigger scan of conditional orders, src/internal/service/conditional_order.go. A triggered
  order becomes an ordinary order with the same id and the margin it had locked.
\<close>

definition triggeredOrder :: "int \<Rightarrow> dec \<Rightarrow> ConditionalOrder \<Rightarrow> Order" where
  "triggeredOrder now mark co =
     \<lparr> ord_OrderID = co_OrderID co, ord_UID = co_UID co, ord_Symbol = co_Symbol co, ord_Side = co_Side co,
       ord_Action = co_Action co, ord_Type = co_Type co,
       ord_Price = (if co_Type co = OrderTypeMarket then mark else co_Price co), ord_Amount = co_Amount co,
       ord_TradedAmount = 0, ord_AvgDealPrice = 0, ord_FrozenMargin = co_FrozenMargin co,
       ord_FrozenCredit = co_FrozenCredit co, ord_Leverage = co_Leverage co, ord_ReduceOnly = co_ReduceOnly co,
       ord_Liquidation = False, ord_Status = OrderStatusOpen, ord_CreateTime = now, ord_UpdateTime = now,
       ord_RequestID = None, ord_RequestHash = None \<rparr>"

text \<open>The order row cannot be written: the trigger is taken back and the margin released.\<close>

definition rollbackTrigger :: "EngineEnv \<Rightarrow> int \<Rightarrow> ConditionalOrder \<Rightarrow> 'z EngineState_scheme \<Rightarrow> unit res \<times> 'z EngineState_scheme" where
  "rollbackTrigger E now co =
     andThen (onConds (\<lambda>rows. case MarkCanceledFromTriggered (co_OrderID co) now rows of (ok, rows') \<Rightarrow> (Inr ok, rows')))
       (\<lambda>ok. if ok \<and> co_Action co = ActionOpen \<and> (0 < co_FrozenMargin co \<or> 0 < co_FrozenCredit co)
             then andThen (tolerate (UnfreezeMarginOf E (co_UID co) (co_FrozenMargin co) (co_FrozenCredit co))) (\<lambda>_. retn ())
             else retn ())"

definition trigger :: "EngineEnv \<Rightarrow> int \<Rightarrow> int \<Rightarrow> ConditionalOrder \<Rightarrow> dec \<Rightarrow> 'z EngineState_scheme \<Rightarrow> unit res \<times> 'z EngineState_scheme" where
  "trigger E now nowNanos co mark =
     andThen (onConds (\<lambda>rows. case MarkTriggered (co_OrderID co) now rows of (ok, rows') \<Rightarrow> (Inr ok, rows')))
       (\<lambda>ok.
          if \<not> ok then retn ()
          else
            let o' = triggeredOrder now mark co in
            andThen (tolerate (onOrders (ordInsert (ee_lib E) o')))
              (\<lambda>r. if r = None then rollbackTrigger E now co
                   else andThen (tolerate (SubmitOrder E now o' nowNanos)) (\<lambda>_. retn ())))"

text \<open>Marks are read once per symbol and scan: \<open>seen\<close> are the ones read so far. A symbol without a fresh
  mark is asked for again.\<close>

fun scanPending ::
  "EngineEnv \<Rightarrow> int \<Rightarrow> int \<Rightarrow> (symbol \<rightharpoonup> dec) \<Rightarrow> ConditionalOrder list \<Rightarrow> 'z EngineState_scheme \<Rightarrow> unit res \<times> 'z EngineState_scheme" where
  "scanPending E now nowNanos seen [] s = (Inr (), s)"
| "scanPending E now nowNanos seen (co # pending) s =
     (case (case seen (co_Symbol co) of Some m \<Rightarrow> Some m | None \<Rightarrow> GetFresh (ee_mark E) now (es_marks s (co_Symbol co))) of
        None \<Rightarrow> scanPending E now nowNanos seen pending s
      | Some mark \<Rightarrow>
          let seen' = seen(co_Symbol co \<mapsto> mark) in
          if \<not> Triggered co mark \<or> \<not> OwnsSymbol E (co_Symbol co) then scanPending E now nowNanos seen' pending s
          else andThen (trigger E now nowNanos co mark) (\<lambda>_. scanPending E now nowNanos seen' pending) s)"

definition ScanOnce :: "EngineEnv \<Rightarrow> int \<Rightarrow> int \<Rightarrow> 'z EngineState_scheme \<Rightarrow> unit res \<times> 'z EngineState_scheme" where
  "ScanOnce E now nowNanos s = scanPending E now nowNanos Map.empty (FindAllPending (es_conds s)) s"

end
