(* ===== verification/Funding.thy ===== *)
theory Funding
  imports EngineState
begin

text \<open>
  Funding rates, src/internal/service/funding.go and src/internal/repo/funding_repo.go, with the
  accumulators of src/internal/cache/cache.go. The accumulator of a symbol is its sum of premiums and
  their number; Redis adds as floating point numbers, so that addition is the argument \<open>incr\<close>. The
  settlement of a period first writes its row, whose key (symbol, funding time) is unique, then moves the
  money, position by position.
\<close>

record FundingState = EngineState +
  fs_rates :: "FundingRateRecord list"
  fs_accum :: "symbol \<Rightarrow> dec \<times> int"

section \<open>The table of settled periods\<close>

definition rate_col :: "dec_lib \<Rightarrow> dec \<Rightarrow> dec" where
  "rate_col L x = lib_Col L 6 x"

definition LastFundingTime :: "FundingRateRecord list \<Rightarrow> symbol \<Rightarrow> int" where
  "LastFundingTime rows sy =
     (case map fr_FundingTime (filter (\<lambda>r. fr_Symbol r = sy) rows) of [] \<Rightarrow> 0 | t # ts \<Rightarrow> fold max ts t)"

definition rateInsert :: "dec_lib \<Rightarrow> FundingRateRecord \<Rightarrow> FundingRateRecord list \<Rightarrow> unit res \<times> FundingRateRecord list" where
  "rateInsert L rec rows =
     (if \<exists>r\<in>set rows. fr_Symbol r = fr_Symbol rec \<and> fr_FundingTime r = fr_FundingTime rec then (Inl ErrDuplicateKey, rows)
      else (Inr (), rows @ [rec\<lparr> fr_Rate := rate_col L (fr_Rate rec), fr_MarkPrice := price_col L (fr_MarkPrice rec),
                               fr_IndexPrice := price_col L (fr_IndexPrice rec) \<rparr>]))"

definition FindHistory :: "FundingRateRecord list \<Rightarrow> symbol \<Rightarrow> nat \<Rightarrow> int \<Rightarrow> FundingRateRecord list" where
  "FindHistory rows sy limit before =
     take limit (rev (sort_key fr_FundingTime (filter (\<lambda>r. fr_Symbol r = sy \<and> (0 < before \<longrightarrow> fr_FundingTime r < before)) rows)))"

section \<open>Sampling\<close>

definition premiumFromImpact :: "dec_lib \<Rightarrow> dec \<Rightarrow> dec \<Rightarrow> dec \<Rightarrow> dec res" where
  "premiumFromImpact L index impactBid impactAsk = sdiv L (max 0 (impactBid - index) - max 0 (index - impactAsk)) index"

definition AccumulateFundingSample :: "(dec \<Rightarrow> dec \<Rightarrow> dec) \<Rightarrow> symbol \<Rightarrow> dec \<Rightarrow> (symbol \<Rightarrow> dec \<times> int) \<Rightarrow> symbol \<Rightarrow> dec \<times> int" where
  "AccumulateFundingSample incr sy premium accum = accum(sy := (incr (fst (accum sy)) premium, snd (accum sy) + 1))"

definition ResetFundingAccumulator :: "symbol \<Rightarrow> (symbol \<Rightarrow> dec \<times> int) \<Rightarrow> symbol \<Rightarrow> dec \<times> int" where
  "ResetFundingAccumulator sy accum = accum(sy := (0, 0))"

text \<open>One symbol of a sampling round; a symbol that cannot be sampled is skipped, never counted as 0.\<close>

definition sampleSymbol :: "EngineEnv \<Rightarrow> (dec \<Rightarrow> dec \<Rightarrow> dec) \<Rightarrow> int \<Rightarrow> Coin \<Rightarrow> 'z FundingState_scheme \<Rightarrow> unit res \<times> 'z FundingState_scheme" where
  "sampleSymbol E incr now coin s =
     (let sy = coin_Symbol coin in
      if \<not> OwnsSymbol E sy then (Inr (), s)
      else
        (case GetFreshIndex (ee_mark E) now (es_marks s sy) of
           None \<Rightarrow> (Inr (), s)
         | Some index \<Rightarrow>
             if coin_FundingImpactNotional coin \<le> 0 then (Inr (), s)
             else
               andThen (onBook sy (\<lambda>b. (ImpactPrices (ee_lib E) b (coin_FundingImpactNotional coin), b)))
                 (\<lambda>(bid, ask, ok).
                    if \<not> ok then retn ()
                    else
                      (case premiumFromImpact (ee_lib E) index bid ask of
                         Inl e \<Rightarrow> (\<lambda>s. (Inl e, s))
                       | Inr premium \<Rightarrow> (\<lambda>s. (Inr (), s\<lparr> fs_accum := AccumulateFundingSample incr sy premium (fs_accum s) \<rparr>)))) s))"

definition SampleOnce :: "EngineEnv \<Rightarrow> (dec \<Rightarrow> dec \<Rightarrow> dec) \<Rightarrow> int \<Rightarrow> 'z FundingState_scheme \<Rightarrow> unit res \<times> 'z FundingState_scheme" where
  "SampleOnce E incr now = andThen (mapEach (sampleSymbol E incr now) (FindAllEnabled (ee_coins E))) (\<lambda>_. retn ())"

section \<open>Settling a period\<close>

definition EstimateRate :: "dec_lib \<Rightarrow> Coin \<Rightarrow> (symbol \<Rightarrow> dec \<times> int) \<Rightarrow> dec" where
  "EstimateRate L coin accum =
     (let (sum, count) = accum (coin_Symbol coin) in
      if count = 0 then 0
      else
        let rate = lib_Div L sum (of_int count); rateCap = coin_FundingRateCap coin in
        if rateCap \<le> 0 then rate else max (- rateCap) (min rate rateCap))"

definition fundingBoundary :: "int \<Rightarrow> int \<Rightarrow> int" where
  "fundingBoundary now intervalMs = quot now intervalMs * intervalMs"

definition NextFundingTime :: "Coin \<Rightarrow> int \<Rightarrow> int" where
  "NextFundingTime coin now =
     (let intervalMs = coin_FundingIntervalHours coin * 3600000 in
      if intervalMs \<le> 0 then 0 else fundingBoundary now intervalMs + intervalMs)"

text \<open>What a position pays: a long pays a positive rate, a short receives it.\<close>

definition fundingFee :: "dec \<Rightarrow> dec \<Rightarrow> Position \<Rightarrow> dec" where
  "fundingFee rate markPrice p =
     (let longFundingFee = pos_Volume p * markPrice * rate in
      if pos_Side p = SideShort then - longFundingFee else longFundingFee)"

definition settlePosition :: "dec_lib \<Rightarrow> symbol \<Rightarrow> dec \<Rightarrow> dec \<Rightarrow> int \<Rightarrow> Position \<Rightarrow> 'z Money_scheme \<Rightarrow> unit res \<times> 'z Money_scheme" where
  "settlePosition L sy rate markPrice boundary p =
     (let fee = fundingFee rate markPrice p in
      if fee = 0 then retn ()
      else
        andThen (tolerate (onAccounts (svcSettleToBalance L (pos_UID p) (- fee))))
          (\<lambda>r. if r = None then retn () else bookTx L (pos_UID p) sy TxFundingFee (- fee) boundary))"

definition settlePositions :: "dec_lib \<Rightarrow> symbol \<Rightarrow> dec \<Rightarrow> dec \<Rightarrow> int \<Rightarrow> 'z Money_scheme \<Rightarrow> unit res \<times> 'z Money_scheme" where
  "settlePositions L sy rate markPrice boundary s =
     andThen (mapEach (settlePosition L sy rate markPrice boundary) (FindOpenBySymbol (mny_positions s) sy)) (\<lambda>_. retn ()) s"

definition settleSymbolIfDue :: "EngineEnv \<Rightarrow> int \<Rightarrow> Coin \<Rightarrow> 'z FundingState_scheme \<Rightarrow> unit res \<times> 'z FundingState_scheme" where
  "settleSymbolIfDue E now coin s =
     (let sy = coin_Symbol coin; intervalMs = coin_FundingIntervalHours coin * 3600000 in
      if intervalMs \<le> 0 then (Inr (), s)
      else
        let boundary = fundingBoundary now intervalMs in
        if boundary \<le> LastFundingTime (fs_rates s) sy then (Inr (), s)
        else
          (case GetFresh (ee_mark E) now (es_marks s sy) of
             None \<Rightarrow> (Inr (), s)
           | Some mark \<Rightarrow>
               let index = (case GetIndexPrice (es_marks s sy) of None \<Rightarrow> 0 | Some i \<Rightarrow> i);
                   rate = EstimateRate (ee_lib E) coin (fs_accum s);
                   rec = \<lparr> fr_Symbol = sy, fr_FundingTime = boundary, fr_Rate = rate, fr_MarkPrice = mark,
                           fr_IndexPrice = index, fr_CreateTime = now \<rparr> in
               andThen (\<lambda>s. case rateInsert (ee_lib E) rec (fs_rates s) of (r, rows) \<Rightarrow> (r, s\<lparr> fs_rates := rows \<rparr>))
                 (\<lambda>_. andThen (if rate \<noteq> 0 then settlePositions (ee_lib E) sy rate mark boundary else retn ())
                 (\<lambda>_ s. (Inr (), s\<lparr> fs_accum := ResetFundingAccumulator sy (fs_accum s) \<rparr>))) s))"

definition SettleIfDue :: "EngineEnv \<Rightarrow> int \<Rightarrow> 'z FundingState_scheme \<Rightarrow> unit res \<times> 'z FundingState_scheme" where
  "SettleIfDue E now =
     andThen (mapEach (\<lambda>coin. tolerate (settleSymbolIfDue E now coin)) (FindAllEnabled (ee_coins E))) (\<lambda>_. retn ())"

end
