(* ===== verification/EngineInvariant.thy ===== *)
theory EngineInvariant
  imports Liquidation Conditionals Funding BookProps SettlementProps OrderProps
begin

text \<open>
  The integrity invariant of the engine and its preservation by every handler: the keys of every table
  are unique, every money column fits, every book is well-formed. The operations are built from
  \<open>andThen\<close>, \<open>mapEach\<close> and \<open>tolerate\<close>, so preservation follows the structure of their definitions with
  the rules of \<open>keeps_rules\<close>.
\<close>

section \<open>The invariant\<close>

text \<open>Q is a further promise about the book of each symbol.\<close>

definition okEngine :: "(symbol \<Rightarrow> Book \<Rightarrow> bool) \<Rightarrow> 'z EngineState_scheme \<Rightarrow> bool" where
  "okEngine Q s \<longleftrightarrow> wf_accounts (mny_accounts s) \<and> wf_positions (mny_positions s) \<and>
     distinct (map ord_OrderID (es_orders s)) \<and> distinct (map co_OrderID (es_conds s)) \<and>
     distinct (map tr_TradeID (es_trades s)) \<and> (\<forall>sy b. es_books s sy = Some b \<longrightarrow> wf_book b \<and> Q sy b)"

definition wfEngine :: "'z EngineState_scheme \<Rightarrow> bool" where
  "wfEngine s \<longleftrightarrow> okEngine (\<lambda>_ _. True) s"

section \<open>Tables\<close>

lemma keeps_withAccount:
  assumes "\<And>a. keeps wf_accounts (k a)" shows "keeps wf_accounts (withAccount u k)"
proof (rule keepsI)
  fix rows assume "wf_accounts rows"
  then obtain a rows' where "GetOrCreate rows u = (Some a, rows')" "wf_accounts rows'" by (rule GetOrCreate_wf)
  with keepsD [OF assms] show "wf_accounts (snd (withAccount u k rows))" by (simp add: withAccount_def)
qed

lemma keeps_accounts [keeps_rules]:
  assumes "decimal_lib L"
  shows "keeps wf_accounts (UnfreezeMargin L u x y)" "keeps wf_accounts (svcSettleToBalance L u x)"
    "keeps wf_accounts (svcSettleToCredit L u x)" "keeps wf_accounts (svcSettlePnl L u x)"
    "keeps wf_accounts (svcDeductFee L u x)" "keeps wf_accounts (svcFindFreshFreeMargin u)"
proof -
  note w = wf_statements [OF assms]
  have fee: "keeps wf_accounts (withAccount u (\<lambda>account rows. (Inr (), DeductFee L (acc_ID account) x rows)))"
    by (intro keeps_withAccount keepsI) (simp add: DeductFee_def w)
  show "keeps wf_accounts (UnfreezeMargin L u x y)"
    unfolding UnfreezeMargin_def by (intro keeps_withAccount keepsI) (simp add: Let_def case_prod_beta w)
  show "keeps wf_accounts (svcSettleToBalance L u x)" "keeps wf_accounts (svcSettleToCredit L u x)"
    unfolding svcSettleToBalance_def svcSettleToCredit_def by (intro keeps_withAccount keepsI, simp add: w)+
  show "keeps wf_accounts (svcSettlePnl L u x)"
    unfolding svcSettlePnl_def by (intro keeps_withAccount keepsI) (simp add: SettlePnl_def w)
  show "keeps wf_accounts (svcDeductFee L u x)"
    using fee by (simp add: svcDeductFee_def keeps_def)
  show "keeps wf_accounts (svcFindFreshFreeMargin u)"
    unfolding svcFindFreshFreeMargin_def by (intro keeps_withAccount keepsI) simp
qed

lemma okEngine_update:
  "okEngine Q s \<Longrightarrow> wf_accounts rows \<Longrightarrow> okEngine Q (s\<lparr> mny_accounts := rows \<rparr>)"
  "okEngine Q s \<Longrightarrow> wf_positions ps \<Longrightarrow> okEngine Q (s\<lparr> mny_positions := ps \<rparr>)"
  "okEngine Q s \<Longrightarrow> distinct (map ord_OrderID os) \<Longrightarrow> okEngine Q (s\<lparr> es_orders := os \<rparr>)"
  "okEngine Q s \<Longrightarrow> distinct (map co_OrderID cs) \<Longrightarrow> okEngine Q (s\<lparr> es_conds := cs \<rparr>)"
  "okEngine Q s \<Longrightarrow> distinct (map tr_TradeID ts) \<Longrightarrow> okEngine Q (s\<lparr> es_trades := ts \<rparr>)"
  "okEngine Q s \<Longrightarrow> okEngine Q (s\<lparr> mny_txs := x \<rparr>)" "okEngine Q s \<Longrightarrow> okEngine Q (s\<lparr> es_klines := x1 \<rparr>)"
  "okEngine Q s \<Longrightarrow> okEngine Q (s\<lparr> es_fund := x2 \<rparr>)" "okEngine Q s \<Longrightarrow> okEngine Q (s\<lparr> es_progress := x3 \<rparr>)"
  "okEngine Q s \<Longrightarrow> okEngine Q (s\<lparr> es_pushes := x4 \<rparr>)" "okEngine Q s \<Longrightarrow> okEngine Q (s\<lparr> es_ids := x5 \<rparr>)"
  by (simp_all add: okEngine_def)

lemma okEngine_book: "okEngine Q s \<Longrightarrow> wf_book b \<Longrightarrow> Q sy b \<Longrightarrow> okEngine Q (s\<lparr> es_books := (es_books s)(sy \<mapsto> b) \<rparr>)"
  by (auto simp: okEngine_def)

lemma okEngineD:
  "okEngine Q s \<Longrightarrow> wf_accounts (mny_accounts s)" "okEngine Q s \<Longrightarrow> wf_positions (mny_positions s)"
  "okEngine Q s \<Longrightarrow> distinct (map ord_OrderID (es_orders s))" "okEngine Q s \<Longrightarrow> distinct (map co_OrderID (es_conds s))"
  "okEngine Q s \<Longrightarrow> distinct (map tr_TradeID (es_trades s))" "okEngine Q s \<Longrightarrow> es_books s sy = Some b \<Longrightarrow> wf_book b" "okEngine Q s \<Longrightarrow> es_books s sy = Some b \<Longrightarrow> Q sy b"
  by (simp_all add: okEngine_def)

text \<open>Operations on one table, seen from the engine.\<close>

lemma keeps_on [keeps_rules]:
  "keeps wf_accounts f \<Longrightarrow> keeps (okEngine Q) (onAccounts f)"
  "keeps wf_positions g \<Longrightarrow> keeps (okEngine Q) (onPositions g)"
  "keeps (\<lambda>rows. distinct (map ord_OrderID rows)) h \<Longrightarrow> keeps (okEngine Q) (onOrders h)"
  "keeps (\<lambda>rows. distinct (map co_OrderID rows)) k \<Longrightarrow> keeps (okEngine Q) (onConds k)"
  "keeps (\<lambda>st. wf_accounts (fst st)) m \<Longrightarrow> keeps (okEngine Q) (onFunds m)"
  "keeps (okEngine Q) (onInsurance i)" "keeps (okEngine Q) (onProgress p)" "keeps (okEngine Q) (bookTx L u sy ty x t)"
  "keeps (okEngine Q) (nextID E)" "keeps (okEngine Q) (publish x1)" "keeps (okEngine Q) (onMark sy w)"
  by (auto simp: keeps_def onAccounts_eq onPositions_eq onFunds_eq onOrders_def onConds_def onInsurance_def onProgress_def
      bookTx_def nextID_def publish_def onMark_def okEngine_update okEngineD split: prod.splits sum.splits)
    (auto simp: okEngine_def)

lemma keeps_onBook:
  assumes new: "Q sy NewBook" and f: "keeps (\<lambda>b. wf_book b \<and> Q sy b) f" shows "keeps (okEngine Q) (onBook sy f)"
proof (rule keepsI)
  fix s :: "'b EngineState_scheme" assume s: "okEngine Q s"
  have "wf_book (fst (BookFor (es_books s) sy)) \<and> Q sy (fst (BookFor (es_books s) sy))"
    using okEngineD(6,7) [OF s] wf_NewBook new by (auto simp: BookFor_def split: option.split)
  from keepsD [OF f this]
  have "wf_book (snd (f (fst (BookFor (es_books s) sy))))" "Q sy (snd (f (fst (BookFor (es_books s) sy))))" by auto
  moreover have "snd (BookFor (es_books s) sy) = es_books s \<or> snd (BookFor (es_books s) sy) = (es_books s)(sy \<mapsto> NewBook)"
    by (auto simp: BookFor_def split: option.split)
  ultimately show "okEngine Q (snd (onBook sy f s))"
    using okEngine_book [OF s] by (auto simp: onBook_def Let_def case_prod_beta)
qed

section \<open>Statements\<close>

lemma keeps_orders [keeps_rules]:
  "keeps (\<lambda>rows. distinct (map ord_OrderID rows)) (\<lambda>rows. case ordMarkCanceled i t rows of (r, rows') \<Rightarrow> (Inr r, rows'))"
  "keeps (\<lambda>rows. distinct (map ord_OrderID rows)) (\<lambda>rows. (Inr (), snd (ordMarkCanceled i t rows)))"
  "keeps (\<lambda>rows. distinct (map ord_OrderID rows)) (\<lambda>rows. (Inr (), ApplyFill L i v p st t rows))"
  "keeps (\<lambda>rows. distinct (map ord_OrderID rows)) (ordInsert L o')"
proof -
  have m: "map ord_OrderID (snd (ordMarkCanceled i t rows)) = map ord_OrderID rows" for rows
    by (simp add: ordMarkCanceled_def map_sql_update)
  thus "keeps (\<lambda>rows. distinct (map ord_OrderID rows)) (\<lambda>rows. case ordMarkCanceled i t rows of (r, rows') \<Rightarrow> (Inr r, rows'))"
    "keeps (\<lambda>rows. distinct (map ord_OrderID rows)) (\<lambda>rows. (Inr (), snd (ordMarkCanceled i t rows)))"
    by (simp_all add: keeps_def case_prod_beta)
  have "map ord_OrderID (ApplyFill L i v p st t rows) = map ord_OrderID rows" for rows
  proof -
    obtain r where r: "fillAttempt L i v p st t rows rows = Some r" using fillAttempt_progress by blast
    hence "map ord_OrderID (snd r) = map ord_OrderID rows"
      by (auto simp: fillAttempt_def sql_exec_eq Let_def map_sql_update split: option.splits if_splits)
    with r show ?thesis by (simp add: ApplyFill_def)
  qed
  thus "keeps (\<lambda>rows. distinct (map ord_OrderID rows)) (\<lambda>rows. (Inr (), ApplyFill L i v p st t rows))"
    by (simp add: keeps_def)
  show "keeps (\<lambda>rows. distinct (map ord_OrderID rows)) (ordInsert L o')"
    by (auto simp: keeps_def ordInsert_def storedOrder_def ordFindByOrderID_def sql_first_None)
qed

lemma keeps_conds [keeps_rules]:
  "keeps (\<lambda>rows. distinct (map co_OrderID rows)) (\<lambda>rows. case coMarkCanceled i t rows of (r, rows') \<Rightarrow> (Inr r, rows'))"
  "keeps (\<lambda>rows. distinct (map co_OrderID rows)) (\<lambda>rows. case MarkTriggered i t rows of (r, rows') \<Rightarrow> (Inr r, rows'))"
  "keeps (\<lambda>rows. distinct (map co_OrderID rows)) (\<lambda>rows. case MarkCanceledFromTriggered i t rows of (r, rows') \<Rightarrow> (Inr r, rows'))"
  by (simp_all add: keeps_def case_prod_beta coMarkCanceled_def MarkTriggered_def MarkCanceledFromTriggered_def
      coTransition_def map_sql_update)

lemma keeps_positions [keeps_rules]:
  "keeps wf_positions (ApplyOpenFill L u sy sd v p m c lev t)"
  "keeps wf_positions (\<lambda>rows. case ApplyCloseFill L u sy sd v p t rows of (r, rows') \<Rightarrow> (Inr r, rows'))"
  "keeps wf_positions (\<lambda>rows. case MarkLiquidating i rows of (r, rows') \<Rightarrow> (Inr r, rows'))"
  "keeps wf_positions (\<lambda>rows. (Inr (), ClearLiquidating i rows))"
  by (simp_all add: keeps_def case_prod_beta ApplyOpenFill_wf ApplyCloseFill_wf MarkLiquidating_def ClearLiquidating_def
      wf_positions_update posKey_def)

text \<open>A promise that a new book meets and that cancelling keeps.\<close>

locale book_promise =
  fixes Q :: "symbol \<Rightarrow> Book \<Rightarrow> bool"
  assumes new: "Q sy NewBook" and cancel: "wf_book b \<Longrightarrow> Q sy b \<Longrightarrow> Q sy (snd (Cancel b i))"
begin

lemma keeps_books [keeps_rules]:
  "keeps (okEngine Q) (onBook sy (\<lambda>b. (g b, b)))"
  "keeps (okEngine Q) (onBook sy (\<lambda>b. case Cancel b i of (r, b') \<Rightarrow> (Inr r, b')))"
  "keeps (okEngine Q) (onBook sy (\<lambda>b. case Cancel b i of ((x, r), b') \<Rightarrow> (Inr r, b')))"
proof -
  have c: "wf_book (snd (Cancel b i)) \<and> Q sy (snd (Cancel b i))" if "wf_book b \<and> Q sy b" for b
  proof (cases "Contains b i")
    case True
    with Contains_iff that obtain q where "q \<in> set (bookOrders b)" "i = ro_OrderID q" by auto
    with Cancel_correct(2) cancel that show ?thesis by simp
  qed (use that in \<open>simp add: Cancel_absent\<close>)
  show "keeps (okEngine Q) (onBook sy (\<lambda>b. (g b, b)))"
    "keeps (okEngine Q) (onBook sy (\<lambda>b. case Cancel b i of (r, b') \<Rightarrow> (Inr r, b')))"
    "keeps (okEngine Q) (onBook sy (\<lambda>b. case Cancel b i of ((x, r), b') \<Rightarrow> (Inr r, b')))"
    by (rule keeps_onBook [where Q = Q, OF new]; simp add: keeps_def case_prod_beta c)+
qed

end

section \<open>Handlers\<close>

lemma keepsD_andThen: "keeps P (andThen f k) \<Longrightarrow> P s \<Longrightarrow> P (snd (andThen f k s))"
  by (rule keepsD)

lemma keeps_const [keeps_rules]: "keeps P (\<lambda>s. (r, s))"
  by (simp add: keeps_def)

lemma keeps_sum [keeps_rules]:
  "(\<And>e. keeps P (f e)) \<Longrightarrow> (\<And>a. keeps P (g a)) \<Longrightarrow> keeps P (case x of Inl e \<Rightarrow> f e | Inr a \<Rightarrow> g a)"
  by (simp split: sum.split)

lemma keeps_prod [keeps_rules]: "(\<And>a b. keeps P (f a b)) \<Longrightarrow> keeps P (case x of (a, b) \<Rightarrow> f a b)"
  by (simp split: prod.split)

lemma keeps_UnfreezeMarginOf [keeps_rules]: "decimal_lib (ee_lib E) \<Longrightarrow> keeps (okEngine Q) (UnfreezeMarginOf E u x y)"
  unfolding UnfreezeMarginOf_def by (intro keeps_rules)

lemma keeps_SettleFill [keeps_rules]:
  assumes "decimal_lib L"
  shows "keeps (okEngine Q) (SettleFill L coins o' v p m t)"
proof -
  have "keeps (okEngine Q) (settleOpen L o' v p t)" for o' v p t
    unfolding settleOpen_def
    by (rule keepsI) (auto simp: case_prod_beta Let_def intro!: keepsD [of "okEngine Q"] keeps_rules assms split: sum.split)
  moreover have "keeps (okEngine Q) (settleClose L o' v p t)" for o' v p t
    unfolding settleClose_def by (intro keeps_rules assms)
  moreover have "keeps (okEngine Q) (settleFee L c o' p m t pnl cv)" for c o' p m t pnl cv
    unfolding settleFee_def
    by (rule keepsI) (auto simp: Let_def intro!: keepsD [of "okEngine Q"] keeps_rules assms split: option.split)
  ultimately show ?thesis
    unfolding SettleFill_def Let_def by (intro keepsI) (auto intro!: keepsD [of "okEngine Q"] keeps_rules)
qed

lemma keeps_PublishUserSnapshot [keeps_rules]: "keeps (okEngine Q) (PublishUserSnapshot E u)"
proof (rule keepsI)
  fix s :: "'a EngineState_scheme" assume s: "okEngine Q s"
  from okEngineD(1) [OF s] obtain a rows where "GetOrCreate (mny_accounts s) u = (Some a, rows)" "wf_accounts rows"
    by (rule GetOrCreate_wf)
  with s show "okEngine Q (snd (PublishUserSnapshot E u s))"
    by (simp add: PublishUserSnapshot_def View_def publish_def okEngine_update)
qed

lemma keeps_accountFunds [keeps_rules]:
  assumes "decimal_lib L"
  shows "keeps (\<lambda>st. wf_accounts (fst st)) (acctCloseRound L now u rnd)"
    and "keeps (\<lambda>st. wf_accounts (fst st)) (GrantCredit L fp sd sn victim now u x rid)"
proof -
  have close: "wf_accounts (snd (CloseRoundIfRound L i r rows))" if "wf_accounts rows" for i r rows
    using that decimal_lib.col_fits [OF assms]
    by (auto simp: CloseRoundIfRound_def Let_def fits_row_def col_def split: option.split intro!: wf_accounts_update)
  show "keeps (\<lambda>st. wf_accounts (fst st)) (acctCloseRound L now u rnd)"
  proof (rule keepsI)
    fix st :: FundState assume "wf_accounts (fst st)"
    then obtain a rows where g: "GetOrCreate (fst st) u = (Some a, rows)" "wf_accounts rows" by (rule GetOrCreate_wf)
    with close [OF g(2), of "acc_ID a" rnd] show "wf_accounts (fst (snd (acctCloseRound L now u rnd st)))"
      by (auto simp: acctCloseRound_def Let_def case_prod_beta split: option.splits prod.splits)
  qed
  have once: "wf_accounts (fst (snd (applyFundOpOnce L op st)))" if "decimal_lib L" "wf_accounts (fst st)" for L op st
    using that(2) wf_fundUpdate [OF that, of op]
    by (auto simp: applyFundOpOnce_def Let_def case_prod_beta split: option.splits)
  have "wf_accounts (fst (snd (ApplyFundOp_loop L victim op n st)))" if "wf_accounts (fst st)" for op n st
    using assms that
    by (induction L victim op n st rule: ApplyFundOp_loop.induct) (subst ApplyFundOp_loop.simps, simp add: once)
  thus "keeps (\<lambda>st. wf_accounts (fst st)) (GrantCredit L fp sd sn victim now u x rid)"
    by (auto simp: keeps_def GrantCredit_def ApplyFundOp_def split: option.split)
qed

context book_promise
begin

lemma keeps_publishing [keeps_rules]:
  "keeps (okEngine Q) (PublishTrade t)" "keeps (okEngine Q) (PublishKline sy k)" "keeps (okEngine Q) (PublishDepth sy)"
  unfolding PublishTrade_def PublishKline_def PublishDepth_def by (intro keeps_rules)+

lemma keeps_cancelling [keeps_rules]:
  assumes "decimal_lib (ee_lib E)"
  shows "keeps (okEngine Q) (cancelAndReleaseMargin E now o' r)" "keeps (okEngine Q) (finalizeOrderCancel E now o' r)"
    "keeps (okEngine Q) (CancelOrder E now o')" "keeps (okEngine Q) (cancelConditionalOrder E now co)"
proof -
  show c: "keeps (okEngine Q) (cancelAndReleaseMargin E now o' r)" for o' r
    unfolding cancelAndReleaseMargin_def by (intro keeps_rules assms)
  show f: "keeps (okEngine Q) (finalizeOrderCancel E now o' r)" for o' r
    unfolding finalizeOrderCancel_def by (intro keeps_rules c)
  show o: "keeps (okEngine Q) (CancelOrder E now o')" for o'
    unfolding CancelOrder_def by (intro keeps_rules f)
  show co: "keeps (okEngine Q) (cancelConditionalOrder E now co)" for co
    unfolding cancelConditionalOrder_def by (intro keeps_rules assms)
qed

lemma keeps_CancelAllPendingOrders [keeps_rules]:
  assumes "decimal_lib (ee_lib E)"
  shows "keeps (okEngine Q) (CancelAllPendingOrders E now u :: 'z EngineState_scheme \<Rightarrow> _)"
proof (rule keepsI)
  fix s :: "'z EngineState_scheme" assume s: "okEngine Q s"
  have "keeps (okEngine Q) (\<lambda>s1 :: 'z EngineState_scheme. andThen (mapEach (\<lambda>co. tolerate (cancelConditionalOrder E now co)) (coFindActiveByUID (es_conds s1) u []))
          (\<lambda>rs'. retn (failures rs + failures rs')) s1)" for rs :: "unit option list"
    by (rule keepsI) (intro keepsD [of "okEngine Q"] keeps_rules assms; assumption)
  thus "okEngine Q (snd (CancelAllPendingOrders E now u s))"
    unfolding CancelAllPendingOrders_def by (intro keepsD [of "okEngine Q", OF _ s] keeps_rules assms)
qed

lemma keeps_forceClose [keeps_rules]:
  assumes "decimal_lib (ee_lib E)"
  shows "keeps (okEngine Q) (forceCloseOnePosition E now p v m)" "keeps (okEngine Q) (adlContribute E now sy c x)"
    "keeps (okEngine Q) (closePosition E now p)"
proof -
  show f: "keeps (okEngine Q) (forceCloseOnePosition E now p v m)" for p v m
    unfolding forceCloseOnePosition_def Let_def by (intro keeps_rules assms)
  show "keeps (okEngine Q) (adlContribute E now sy c x)"
    unfolding adlContribute_def by (intro keeps_rules assms)
  show "keeps (okEngine Q) (closePosition E now p)"
    unfolding closePosition_def
    by (rule keepsI) (auto split: option.split intro!: keepsD [of "okEngine Q"] keeps_rules f)
qed

lemma keeps_runADL [keeps_rules]:
  assumes "decimal_lib (ee_lib E)"
  shows "keeps (okEngine Q) (runADL E now sy sd x :: 'z EngineState_scheme \<Rightarrow> _)"
proof -
  have "keeps (okEngine Q) (adlLoop E now sy mark pool raised remaining :: 'z EngineState_scheme \<Rightarrow> _)" for mark pool raised remaining
    by (induction pool arbitrary: raised remaining) (auto intro!: keeps_rules assms)
  from keepsD [OF this] show ?thesis unfolding runADL_def by (intro keepsI) (simp split: option.split)
qed

lemma keeps_aftermath [keeps_rules]:
  assumes "decimal_lib (ee_lib E)"
  shows "keeps (okEngine Q) (HandleLiquidationSettleAftermath E now sy u sd)"
proof -
  have "keeps (okEngine Q) (settleLiquidationAftermath E now sy u sd)"
    unfolding settleLiquidationAftermath_def
    by (rule keepsI)
      (auto simp: coverFromCredit_def coverFromFund_def Let_def intro!: keepsD [of "okEngine Q"] keeps_rules assms)
  thus ?thesis unfolding HandleLiquidationSettleAftermath_def by (intro keeps_rules)
qed

lemma keeps_settleOneFill [keeps_rules]:
  assumes "decimal_lib (ee_lib E)"
  shows "keeps (okEngine Q) (settleOneFill E now o' f)"
proof -
  have side: "keeps (okEngine Q) (settleSide E now f x)" for x
    unfolding settleSide_def case_prod_beta
    by (rule keepsI) (auto simp: Let_def split: option.split intro!: keepsD [of "okEngine Q"] keeps_rules assms)
  have "keeps (okEngine Q) (\<lambda>s. case tradeInsert (ee_lib E) t (es_trades s) of (r, rows) \<Rightarrow> (r, s\<lparr> es_trades := rows \<rparr>))" for t
    by (rule keepsI) (auto simp: tradeInsert_def intro!: okEngine_update dest: okEngineD)
  moreover have "keeps (okEngine Q) (\<lambda>s. case RecordTrade (ee_lib E) x sy p v now (es_klines s) of (ks, rows) \<Rightarrow> (Inr ks, s\<lparr> es_klines := rows \<rparr>))"
    for x sy p v
    by (rule keepsI) (auto simp: case_prod_beta intro!: okEngine_update)
  ultimately show ?thesis unfolding settleOneFill_def Let_def by (intro keeps_rules side assms)
qed

lemma keeps_handleSelfCanceled [keeps_rules]:
  assumes "decimal_lib (ee_lib E)"
  shows "keeps (okEngine Q) (handleSelfCanceled E now cs)"
  unfolding handleSelfCanceled_def Let_def
  by (rule keepsI) (auto intro!: keepsD_andThen [of "okEngine Q"] keeps_rules assms)

lemma keeps_refresh [keeps_rules]: "keeps (okEngine Q) (RefreshMarkPrices E now)"
  unfolding RefreshMarkPrices_def by (intro keeps_rules)

lemma keeps_closeRound [keeps_rules]:
  assumes "decimal_lib (ee_lib E)"
  shows "keeps (okEngine Q) (CloseRound E now u rnd :: 'z EngineState_scheme \<Rightarrow> _)"
proof -
  have f: "keeps (okEngine Q) (tryFinalizeCloseRound E now u rnd :: 'z EngineState_scheme \<Rightarrow> _)"
    unfolding tryFinalizeCloseRound_def by (intro keeps_rules assms)
  have o: "keeps (okEngine Q) (closeOwned E now u rnd os cs ps sy :: 'z EngineState_scheme \<Rightarrow> _)" for os cs ps sy
    unfolding closeOwned_def closeRoundForSymbol_def by (intro keeps_rules assms)
  have body: "keeps (okEngine Q) (\<lambda>s :: 'z EngineState_scheme. if current \<noteq> rnd then (Inr (), s)
      else andThen (mapEach (\<lambda>sy. onProgress (\<lambda>rows. (Inr (), Seed u rnd sy now rows))) (syms s))
        (\<lambda>_. andThen (mapEach (closeOwned E now u rnd (os s) (cs s) (ps s)) (syms s))
        (\<lambda>_. tryFinalizeCloseRound E now u rnd)) s)" for current syms os cs ps
  proof (rule keepsI)
    fix s :: "'z EngineState_scheme" assume s: "okEngine Q s"
    have "keeps (okEngine Q) (andThen (mapEach (\<lambda>sy. onProgress (\<lambda>rows. (Inr (), Seed u rnd sy now rows))) (syms s))
        (\<lambda>_. andThen (mapEach (closeOwned E now u rnd (os s) (cs s) (ps s)) (syms s))
        (\<lambda>_. tryFinalizeCloseRound E now u rnd)) :: 'z EngineState_scheme \<Rightarrow> _)"
      by (intro keeps_rules f o)
    from keepsD [OF this s] s show "okEngine Q (snd (if current \<noteq> rnd then (Inr (), s)
        else andThen (mapEach (\<lambda>sy. onProgress (\<lambda>rows. (Inr (), Seed u rnd sy now rows))) (syms s))
          (\<lambda>_. andThen (mapEach (closeOwned E now u rnd (os s) (cs s) (ps s)) (syms s))
          (\<lambda>_. tryFinalizeCloseRound E now u rnd)) s))" by simp
  qed
  have "keeps wf_accounts (withAccount u (\<lambda>account rows. (Inr (acc_Round account), rows)))"
    by (intro keeps_withAccount keeps_rules)
  thus ?thesis unfolding CloseRound_def Let_def by (intro keeps_rules body)
qed

lemma keeps_liquidation [keeps_rules]:
  assumes "decimal_lib (ee_lib E)"
  shows "keeps (okEngine Q) (RiskScanOnce E now :: 'z EngineState_scheme \<Rightarrow> _)"
    "keeps (okEngine Q) (OnMarkPriceChanged E now sy :: 'z EngineState_scheme \<Rightarrow> _)"
    "keeps (okEngine Q) (settleTimeoutFallback E now i :: 'z EngineState_scheme \<Rightarrow> _)"
proof -
  have "keeps (okEngine Q) (queueLiquidation E p :: 'z EngineState_scheme \<Rightarrow> _)" for p
    unfolding queueLiquidation_def by (intro keeps_rules)
  moreover have "keeps (okEngine Q) (payInsurance E now a :: 'z EngineState_scheme \<Rightarrow> _)" for a
    unfolding payInsurance_def Let_def by (intro keeps_rules assms)
  ultimately have "keeps (okEngine Q) (checkAndLiquidate E now u :: 'z EngineState_scheme \<Rightarrow> _)" for u
    unfolding checkAndLiquidate_def Let_def
    by (intro keepsI) (auto split: option.split intro!: keepsD_andThen [of "okEngine Q"] keeps_rules assms)
  hence scan: "keeps (okEngine Q) (scanUIDs E now us :: 'z EngineState_scheme \<Rightarrow> _)" for us
    unfolding scanUIDs_def by (intro keeps_rules)
  from keepsD [OF this] show "keeps (okEngine Q) (RiskScanOnce E now :: 'z EngineState_scheme \<Rightarrow> _)"
    "keeps (okEngine Q) (OnMarkPriceChanged E now sy :: 'z EngineState_scheme \<Rightarrow> _)"
    unfolding RiskScanOnce_def OnMarkPriceChanged_def by (intro keepsI; simp)+
  have rest: "keeps (okEngine Q) (\<lambda>s1 :: 'z EngineState_scheme.
      case Find (mny_positions s1) (ord_UID o') (ord_Symbol o') (ord_Side o') of
        None \<Rightarrow> onOrders (\<lambda>rows. (Inr (), snd (ordMarkCanceled i now rows))) s1
      | Some p \<Rightarrow>
          if pos_Volume p \<le> 0 then onOrders (\<lambda>rows. (Inr (), snd (ordMarkCanceled i now rows))) s1
          else (case marksOf s1 (ord_Symbol o') of None \<Rightarrow> (Inr (), s1) | Some mark \<Rightarrow> settle p mark s1))"
    if "\<And>p mark. keeps (okEngine Q) (settle p mark)" for o' settle
    by (rule keepsI) (auto split: option.split intro!: keepsD [OF that] keepsD [OF keeps_on(3)] keeps_rules)
  show "keeps (okEngine Q) (settleTimeoutFallback E now i :: 'z EngineState_scheme \<Rightarrow> _)"
  proof (rule keepsI)
    fix s :: "'z EngineState_scheme" assume s: "okEngine Q s"
    show "okEngine Q (snd (settleTimeoutFallback E now i s))"
      unfolding settleTimeoutFallback_def Let_def
      by (auto split: option.split intro!: s keepsD_andThen [of "okEngine Q"] keeps_rules rest assms)
  qed
qed

lemma keeps_funding [keeps_rules]:
  assumes "decimal_lib (ee_lib E)"
  shows "keeps (okEngine Q) (SampleOnce E incr now :: 'z FundingState_scheme \<Rightarrow> _)"
    "keeps (okEngine Q) (SettleIfDue E now :: 'z FundingState_scheme \<Rightarrow> _)"
proof -
  have upd: "okEngine Q s \<Longrightarrow> okEngine Q (s\<lparr> fs_rates := x \<rparr>)" "okEngine Q s \<Longrightarrow> okEngine Q (s\<lparr> fs_accum := y \<rparr>)"
    for s :: "'z FundingState_scheme" and x y by (simp_all add: okEngine_def)
  have "keeps (okEngine Q) (sampleSymbol E incr now c :: 'z FundingState_scheme \<Rightarrow> _)" for c
    unfolding sampleSymbol_def Let_def
    by (rule keepsI) (auto split: option.split intro!: keepsD_andThen [of "okEngine Q"] keeps_rules keepsI [of "okEngine Q" "\<lambda>s. (Inr (), _ s)"] upd)
  thus "keeps (okEngine Q) (SampleOnce E incr now :: 'z FundingState_scheme \<Rightarrow> _)"
    unfolding SampleOnce_def by (intro keeps_rules)
  have "keeps (okEngine Q) (settlePosition (ee_lib E) sy rate mark bd p :: 'z FundingState_scheme \<Rightarrow> _)" for sy rate mark bd p
    unfolding settlePosition_def Let_def by (intro keeps_rules assms)
  hence ps: "keeps (okEngine Q) (settlePositions (ee_lib E) sy rate mark bd :: 'z FundingState_scheme \<Rightarrow> _)" for sy rate mark bd
    unfolding settlePositions_def by (intro keepsI) (auto intro!: keepsD_andThen [of "okEngine Q"] keeps_rules)
  have ins: "keeps (okEngine Q) (\<lambda>s :: 'z FundingState_scheme. case rateInsert L rec (fs_rates s) of (r, rows) \<Rightarrow> (r, s\<lparr> fs_rates := rows \<rparr>))" for L rec
    by (rule keepsI) (simp add: case_prod_beta upd)
  have reset: "keeps (okEngine Q) (\<lambda>s :: 'z FundingState_scheme. (Inr (), s\<lparr> fs_accum := ResetFundingAccumulator sy (fs_accum s) \<rparr>))" for sy
    by (rule keepsI) (simp add: upd)
  have "keeps (okEngine Q) (settleSymbolIfDue E now c :: 'z FundingState_scheme \<Rightarrow> _)" for c
    unfolding settleSymbolIfDue_def Let_def
    by (rule keepsI) (auto split: option.split intro!: keepsD_andThen [of "okEngine Q"] keeps_andThen ps ins reset keeps_retn)
  thus "keeps (okEngine Q) (SettleIfDue E now :: 'z FundingState_scheme \<Rightarrow> _)"
    unfolding SettleIfDue_def by (intro keeps_rules)
qed

end

end
