(* ===== verification/EngineSteps.thy ===== *)
theory EngineSteps
  imports EngineInvariant
begin

text \<open>
  Submitting, and the engine as a step relation. A handler that puts orders into a book keeps a promise
  about the books when matching keeps it and the remainder of a limit order may rest; between the two the
  book only shrinks, because settling fills can cancel orders but not place any. The step relation has
  one rule per handler of the engine process and one for the writes of the API process; the properties
  are invariants of its reachable states.
\<close>

section \<open>Submitting\<close>

lemma leads_andThen:
  assumes "P s" "keeps P f" "\<And>s. P s \<Longrightarrow> T s" "\<And>a s. P s \<Longrightarrow> T (snd (k a s))"
  shows "T (snd (andThen f k s))"
  using keepsD [OF assms(2,1)] assms(3,4) by (cases "f s"; cases "fst (f s)") auto

text \<open>What a limit order, named by its price, must meet.\<close>

definition goodPrice :: "(dec \<Rightarrow> bool) \<Rightarrow> Order \<Rightarrow> bool" where
  "goodPrice price o' \<longleftrightarrow> (ord_Type o' = OrderTypeLimit \<longrightarrow> price (ord_Price o'))"

definition awaiting :: "(symbol \<Rightarrow> Book \<Rightarrow> bool) \<Rightarrow> (Book \<Rightarrow> bool) \<Rightarrow> symbol \<Rightarrow> symbol \<Rightarrow> Book \<Rightarrow> bool" where
  "awaiting Q R sy0 sy b \<longleftrightarrow> Q sy b \<and> (sy = sy0 \<longrightarrow> R b)"

lemma okEngine_awaiting: "okEngine (awaiting Q R sy0) s \<Longrightarrow> okEngine Q s"
  by (simp add: okEngine_def awaiting_def)

locale submit_promise = book_promise Q for Q :: "symbol \<Rightarrow> Book \<Rightarrow> bool" +
  fixes mayRest :: "RestingOrder \<Rightarrow> Book \<Rightarrow> bool" and price :: "dec \<Rightarrow> bool"
  assumes match_keeps: "wf_book b \<Longrightarrow> Q sy b \<Longrightarrow> Match t b = Inr (fs, cs, t', b') \<Longrightarrow> Q sy b'"
    and match_may: "wf_book b \<Longrightarrow> Match t b = Inr (fs, cs, t', b') \<Longrightarrow> 0 < ro_Remaining t' \<Longrightarrow> price (ro_Price t) \<Longrightarrow> mayRest t' b'"
    and rest_keeps: "wf_book b \<Longrightarrow> Q sy b \<Longrightarrow> mayRest t b \<Longrightarrow> 0 < ro_Remaining t \<Longrightarrow> Q sy (snd (Rest t b))"
    and may_new: "mayRest t NewBook"
    and may_cancel: "wf_book b \<Longrightarrow> mayRest t b \<Longrightarrow> mayRest t (snd (Cancel b i))"
begin

lemma awaiting_promise: "book_promise (awaiting Q (mayRest t) sy0)"
  by unfold_locales (auto simp: awaiting_def new cancel may_new may_cancel)

lemma ok_restOrCancel:
  assumes L: "decimal_lib (ee_lib E)" and s: "okEngine (awaiting Q (mayRest t) (ord_Symbol o')) s"
  shows "okEngine Q (snd (restOrCancel E now o' t s))"
proof (cases "0 < ro_Remaining t \<and> ord_Type o' = OrderTypeLimit")
  case True
  define b where "b = fst (BookFor (es_books s) (ord_Symbol o'))"
  have b: "wf_book b" "Q (ord_Symbol o') b" "mayRest t b"
    using okEngineD(6,7) [OF s] wf_NewBook new may_new
    by (auto simp: b_def BookFor_def awaiting_def split: option.split)
  have "snd (BookFor (es_books s) (ord_Symbol o')) = es_books s \<or>
      snd (BookFor (es_books s) (ord_Symbol o')) = (es_books s)(ord_Symbol o' \<mapsto> NewBook)"
    by (auto simp: BookFor_def split: option.split)
  with okEngine_book [OF okEngine_awaiting [OF s], of "snd (Rest t b)" "ord_Symbol o'"] b True
    wf_Rest [OF b(1)] rest_keeps [OF b]
  show ?thesis by (auto simp: restOrCancel_def onBook_def Let_def case_prod_beta b_def)
next
  case False
  have "keeps (okEngine Q) (restOrCancel E now o' t)"
    using False unfolding restOrCancel_def by (auto intro!: keeps_rules L)
  from keepsD [OF this okEngine_awaiting [OF s]] show ?thesis .
qed

text \<open>From the match on: either nothing may rest, or the promise is extended by \<open>mayRest\<close> up to the Rest.\<close>

lemma ok_afterMatch:
  assumes L: "decimal_lib (ee_lib E)" and s: "okEngine Q s"
    and may: "0 < ro_Remaining t \<Longrightarrow> ord_Type o' = OrderTypeLimit \<Longrightarrow> okEngine (awaiting Q (mayRest t) (ord_Symbol o')) s"
  shows "okEngine Q (snd (andThen (mapEach (\<lambda>f. tolerate (settleOneFill E now o' f)) fills)
            (\<lambda>_. andThen (handleSelfCanceled E now cs)
            (\<lambda>_. andThen (restOrCancel E now o' t)
            (\<lambda>rested.
               let matched = m in
               if recovering \<and> \<not> matched then retn False
               else
                 andThen (if matched \<or> rested then PublishDepth (ord_Symbol o') else retn ())
                   (\<lambda>_. andThen (mapEach (PublishUserSnapshot E) us)
                   (\<lambda>_. retn matched))))) s))"
proof -
  let ?K = "\<lambda>rested. let matched = m in if recovering \<and> \<not> matched then retn False
      else andThen (if matched \<or> rested then PublishDepth (ord_Symbol o') else retn ())
             (\<lambda>_. andThen (mapEach (PublishUserSnapshot E) us) (\<lambda>_. retn matched))"
  have K: "okEngine Q s1 \<Longrightarrow> okEngine Q (snd (?K rested s1))" for rested s1
    unfolding Let_def by (intro keepsD [of "okEngine Q"] keeps_rules; assumption)
  show ?thesis
  proof (cases "0 < ro_Remaining t \<and> ord_Type o' = OrderTypeLimit")
    case True
    let ?P = "okEngine (awaiting Q (mayRest t) (ord_Symbol o'))"
    note p = awaiting_promise [of t "ord_Symbol o'"]
    show ?thesis
    proof (rule leads_andThen [where P = ?P and T = "okEngine Q"])
      show "?P s" using may True by blast
      show "keeps ?P (mapEach (\<lambda>f. tolerate (settleOneFill E now o' f)) fills)"
        by (intro keeps_rules book_promise.keeps_settleOneFill [OF p] L)
      fix s1 assume "?P s1"
      thus "okEngine Q (snd (andThen (handleSelfCanceled E now cs) (\<lambda>_. andThen (restOrCancel E now o' t) ?K) s1))"
      proof (rule leads_andThen [where P = ?P])
        show "keeps ?P (handleSelfCanceled E now cs)" by (intro book_promise.keeps_handleSelfCanceled [OF p] L)
        fix s2 assume "?P s2"
        hence r: "okEngine Q (snd (restOrCancel E now o' t s2))" by (rule ok_restOrCancel [OF L])
        thus "okEngine Q (snd (andThen (restOrCancel E now o' t) ?K s2))"
          using K [of "snd (restOrCancel E now o' t s2)"]
          by (cases "restOrCancel E now o' t s2"; cases "fst (restOrCancel E now o' t s2)") auto
      qed (auto dest: okEngine_awaiting)
    qed (auto dest: okEngine_awaiting)
  next
    case False
    hence r: "keeps (okEngine Q) (restOrCancel E now o' t)"
      unfolding restOrCancel_def by (auto intro!: keeps_rules L)
    show ?thesis
      unfolding Let_def by (intro keepsD_andThen [of "okEngine Q", OF _ s] keeps_rules r L)
  qed
qed

lemma keeps_matchAndSettle:
  assumes L: "decimal_lib (ee_lib E)" and good: "ord_Type o' = OrderTypeLimit \<Longrightarrow> price (ro_Price t)"
  shows "keeps (okEngine Q) (matchAndSettle E now o' t recovering :: 'z EngineState_scheme \<Rightarrow> _)"
proof (rule keepsI)
  fix s :: "'z EngineState_scheme" assume s: "okEngine Q s"
  define sy where "sy = ord_Symbol o'"
  obtain b e where be: "BookFor (es_books s) sy = (b, e)" by fastforce
  have b: "wf_book b" "Q sy b" and e: "e = es_books s \<or> e = (es_books s)(sy \<mapsto> NewBook)"
    using be okEngineD(6,7) [OF s] wf_NewBook new by (auto simp: BookFor_def split: option.splits)
  obtain fs cs t' b' where m: "Match t b = Inr (fs, cs, t', b')" "wf_book b'" using book.match_total [OF b(1)] by blast
  define s1 where "s1 = s\<lparr> es_books := e(sy \<mapsto> b') \<rparr>"
  have s1: "okEngine Q s1"
    using okEngine_book [OF s m(2) match_keeps [OF b m(1)]] e by (auto simp: s1_def)
  have "okEngine (awaiting Q (mayRest t') sy) s1" if "0 < ro_Remaining t'" "ord_Type o' = OrderTypeLimit"
  proof -
    have "mayRest t' b'" by (rule match_may [OF b(1) m(1) that(1) good [OF that(2)]])
    with s1 show ?thesis by (auto simp: okEngine_def awaiting_def s1_def)
  qed
  from ok_afterMatch [OF L s1 this [unfolded sy_def], where m = "fs \<noteq> [] \<or> cs \<noteq> []" and fills = fs and cs = cs
      and us = "touchedUIDs o' fs" and now = now and recovering = recovering]
  show "okEngine Q (snd (matchAndSettle E now o' t recovering s))"
    by (simp add: matchAndSettle_def onBook_def Let_def be [unfolded sy_def] m(1) s1_def sy_def)
qed

lemma keeps_submitOrder [keeps_rules]:
  assumes L: "decimal_lib (ee_lib E)" and good: "goodPrice price o'"
  shows "keeps (okEngine Q) (submitOrder E now o' e r :: 'z EngineState_scheme \<Rightarrow> _)"
proof -
  define t where "t = restingOf o' (if ord_Type o' = OrderTypeMarket then marketOrderPriceLimit E o' else ord_Price o') e"
  have "ord_Type o' = OrderTypeLimit \<Longrightarrow> price (ro_Price t)"
    using good by (simp add: goodPrice_def restingOf_def t_def)
  note m = keeps_matchAndSettle [OF L this, where now = now and recovering = r]
  have "keeps (okEngine Q) (\<lambda>s :: 'z EngineState_scheme. if c then (Inr False, s)
      else if d \<and> IsFrozen (mny_accounts s) u then
        andThen (cancelAndReleaseMargin E now o' x) (\<lambda>_. andThen (PublishUserSnapshot E u) (\<lambda>_. retn False)) s
      else matchAndSettle E now o' t r s)" for c d u x
    by (rule keepsI) (auto intro!: keepsD_andThen [of "okEngine Q"] keeps_rules keepsD [OF m] L)
  thus ?thesis unfolding submitOrder_def Let_def t_def by (intro keeps_rules) (simp_all only: conj_assoc [symmetric])
qed

lemma keeps_submitting [keeps_rules]:
  assumes "decimal_lib (ee_lib E)" "goodPrice price o'"
  shows "keeps (okEngine Q) (SubmitOrder E now o' e)" "keeps (okEngine Q) (recoverOne E now o')"
  unfolding SubmitOrder_def recoverOne_def by (intro keeps_rules assms)+

lemma ok_recover:
  assumes L: "decimal_lib (ee_lib E)" and s: "okEngine Q s"
    and good: "\<And>o'. o' \<in> set (FindActiveLimitOrders (es_orders s)) \<Longrightarrow> goodPrice price o'"
  shows "okEngine Q (snd (RecoverOrderBook E now s))"
  unfolding RecoverOrderBook_def by (intro keepsD_andThen [of "okEngine Q", OF _ s] keeps_rules keeps_submitting(2) L good)

text \<open>A conditional order becomes an order at its own price, or a market order.\<close>

lemma keeps_trigger:
  assumes L: "decimal_lib (ee_lib E)" and good: "co_Type co = OrderTypeLimit \<Longrightarrow> price (co_Price co)"
  shows "keeps (okEngine Q) (trigger E now n co m)"
proof -
  have "keeps (okEngine Q) (rollbackTrigger E now co)"
    unfolding rollbackTrigger_def by (intro keeps_rules L)
  moreover have "goodPrice price (triggeredOrder now m co)"
    using good by (simp add: goodPrice_def triggeredOrder_def)
  ultimately show ?thesis
    unfolding trigger_def Let_def by (intro keeps_rules keeps_submitting(1) L)
qed

lemma ok_scanPending:
  assumes L: "decimal_lib (ee_lib E)"
  shows "okEngine Q (s :: 'z EngineState_scheme) \<Longrightarrow> (\<And>co. co \<in> set cs \<Longrightarrow> co_Type co = OrderTypeLimit \<Longrightarrow> price (co_Price co)) \<Longrightarrow>
    okEngine Q (snd (scanPending E now n seen cs s))"
proof (induction cs arbitrary: seen s)
  case (Cons co cs)
  have good: "c \<in> set cs \<Longrightarrow> co_Type c = OrderTypeLimit \<Longrightarrow> price (co_Price c)" for c
    using Cons.prems(2) by simp
  have rest: "okEngine Q s' \<Longrightarrow> okEngine Q (snd (scanPending E now n seen' cs s'))"
    for seen' and s' :: "'z EngineState_scheme"
    by (rule Cons.IH) (use good in blast)+
  have "keeps (okEngine Q) (andThen (trigger E now n co m) (\<lambda>_. scanPending E now n seen' cs) :: 'z EngineState_scheme \<Rightarrow> _)"
    for m seen'
    using Cons.prems(2) by (intro keeps_andThen keeps_trigger L keepsI rest) auto
  from keepsD [OF this Cons.prems(1)] rest [OF Cons.prems(1)] show ?case
    by (simp add: Let_def split: option.split)
qed simp

lemma ok_ScanOnce:
  assumes "decimal_lib (ee_lib E)" "okEngine Q s"
    and "\<And>co. co \<in> set (FindAllPending (es_conds s)) \<Longrightarrow> co_Type co = OrderTypeLimit \<Longrightarrow> price (co_Price co)"
  shows "okEngine Q (snd (ScanOnce E now n s))"
  unfolding ScanOnce_def using ok_scanPending [OF assms(1,2)] assms(3) by blast

text \<open>A clip is a limit order at the protected price.\<close>

lemma ok_submitLiquidationClip:
  assumes L: "decimal_lib (ee_lib E)" and s: "okEngine Q (s :: 'z EngineState_scheme)"
    and good: "\<And>mark tier. GetFresh (ee_mark E) now (es_marks s (pos_Symbol p)) = Some mark \<Longrightarrow>
      TierFor (ee_tiers E) (pos_Symbol p) (pos_Volume p * mark) = Some tier \<Longrightarrow> price (protectPriceOf mark tier (pos_Side p))"
  shows "okEngine Q (snd (submitLiquidationClip E now n p s))"
proof -
  have a: "keeps (okEngine Q) (abortClip E p :: 'z EngineState_scheme \<Rightarrow> _)"
    unfolding abortClip_def by (intro keeps_rules)
  have "keeps (okEngine Q) (andThen (nextID E) (\<lambda>i :: nat. let o' = clipOrder i now p (protectPriceOf mark tier (pos_Side p)) v in
      andThen (tolerate (onOrders (ordInsert (ee_lib E) o')))
        (\<lambda>r. if r = None then abortClip E p
             else andThen (tolerate (SubmitOrder E now o' n)) (\<lambda>_. retn (Some i)))) :: 'z EngineState_scheme \<Rightarrow> _)"
    if "price (protectPriceOf mark tier (pos_Side p))" for mark tier v
    unfolding Let_def using that
    by (intro keeps_rules keeps_submitting(1) a L) (simp add: goodPrice_def clipOrder_def)
  from keepsD [OF this s] keepsD [OF a s] good show ?thesis
    unfolding submitLiquidationClip_def by (auto split: option.split)
qed

lemma ok_clipStep:
  assumes L: "decimal_lib (ee_lib E)" and s: "okEngine Q (s :: 'z EngineState_scheme)"
    and good: "\<And>p mark tier. Find (mny_positions s) u sy sd = Some p \<Longrightarrow> GetFresh (ee_mark E) now (es_marks s sy) = Some mark \<Longrightarrow>
      TierFor (ee_tiers E) sy (pos_Volume p * mark) = Some tier \<Longrightarrow> price (protectPriceOf mark tier sd)"
  shows "okEngine Q (snd (clipStep E now n (u, sy, sd) s))"
proof (cases "Find (mny_positions s) u sy sd")
  case (Some p)
  hence key: "pos_Symbol p = sy" "pos_Side p = sd" using sql_first_Some [of _ "mny_positions s" p] by (auto simp: Find_def posKey_def)
  have "okEngine Q (snd (submitLiquidationClip E now n p s))"
    using good [OF Some] by (intro ok_submitLiquidationClip L s) (simp add: key)
  moreover have "snd (andThen f (\<lambda>placed s1. case placed of None \<Rightarrow> (Inr None, s1)
        | Some i \<Rightarrow> (case ordFindByOrderID (es_orders s1) i of
            Some o' \<Rightarrow> (Inr (Some (i, ActiveOrderStatuses (ord_Status o'))), s1) | None \<Rightarrow> (Inr (Some (i, True)), s1))) s) = snd (f s)"
    for f :: "'z EngineState_scheme \<Rightarrow> nat option res \<times> 'z EngineState_scheme"
    by (cases "f s"; cases "fst (f s)") (auto split: option.split)
  ultimately show ?thesis using s by (simp add: clipStep_def Some)
qed (use s in \<open>simp add: clipStep_def\<close>)

end

section \<open>The two promises\<close>

text \<open>Well-formed tables and books need nothing more; that no book is crossed needs limit orders with a price
  other than 0, which the book takes for a market order.\<close>

definition bookUncrossed :: "Book \<Rightarrow> bool" where
  "bookUncrossed b \<longleftrightarrow> uncrossed (flat (levelsOf b True)) (flat (levelsOf b False))"

definition clearOf :: "RestingOrder \<Rightarrow> Book \<Rightarrow> bool" where
  "clearOf t b \<longleftrightarrow> (\<forall>m\<in>set (flat (levelsOf b (ro_Direction t \<noteq> Buy))).
     if ro_Direction t = Buy then ro_Price t < ro_Price m else ro_Price m < ro_Price t)"

lemma NewBook_empty: "flat (levelsOf NewBook buy) = []"
  by (simp add: NewBook_def levelsOf_def)

lemma Cancel_subset: "wf_book b \<Longrightarrow> set (flat (levelsOf (snd (Cancel b i)) buy)) \<subseteq> set (flat (levelsOf b buy))"
proof (cases "Contains b i")
  case True
  moreover assume "wf_book b"
  ultimately obtain q where "q \<in> set (bookOrders b)" "i = ro_OrderID q" using Contains_iff by auto
  with Cancel_correct(3) [OF \<open>wf_book b\<close>] show ?thesis by auto
qed (simp add: Cancel_absent)

lemma uncrossed_mono: "uncrossed bids asks \<Longrightarrow> set bids' \<subseteq> set bids \<Longrightarrow> set asks' \<subseteq> set asks \<Longrightarrow> uncrossed bids' asks'"
  by (auto simp: uncrossed_def)

lemma Match_prices:
  assumes "wf_book b" "Match t b = Inr (fs, cs, t', b')" "x \<in> set (flat (levelsOf b' buy))"
  shows "\<exists>y\<in>set (flat (levelsOf b buy)). ro_Price x = ro_Price y"
proof -
  obtain fs0 where a: "absMatch t (flat (levelsOf b (ro_Direction t \<noteq> Buy))) = (fs0, cs, t', flat (levelsOf b' (ro_Direction t \<noteq> Buy)))"
    "flat (levelsOf b' (ro_Direction t = Buy)) = flat (levelsOf b (ro_Direction t = Buy))"
    using book.match_abs [OF assms(1,2)] by metis
  show ?thesis
  proof (cases "buy = (ro_Direction t = Buy)")
    case False
    hence "buy = (ro_Direction t \<noteq> Buy)" by auto
    with absMatch_prices [OF a(1), of x] assms(3) show ?thesis by simp
  qed (use a(2) assms(3) in auto)
qed

interpretation anyBook: submit_promise "\<lambda>_ _. True" "\<lambda>_ _. True" "\<lambda>_. True"
  by unfold_locales simp_all

interpretation uncrossedBook: submit_promise "\<lambda>_. bookUncrossed" clearOf "\<lambda>p. p \<noteq> 0"
proof (unfold_locales, goal_cases)
  case (1 sy)
  show ?case by (simp add: bookUncrossed_def NewBook_empty uncrossed_def)
next
  case (2 b sy i)
  from 2(2) show ?case unfolding bookUncrossed_def by (rule uncrossed_mono) (rule Cancel_subset [OF 2(1)])+
next
  case (3 b sy t fs cs t' b')
  show ?case
    unfolding bookUncrossed_def uncrossed_def
  proof (intro ballI)
    fix x y assume "x \<in> set (flat (levelsOf b' True))" "y \<in> set (flat (levelsOf b' False))"
    then obtain x' y' where "x' \<in> set (flat (levelsOf b True))" "ro_Price x = ro_Price x'"
      "y' \<in> set (flat (levelsOf b False))" "ro_Price y = ro_Price y'"
      using Match_prices [OF 3(1,3)] by metis
    with 3(2) show "ro_Price x < ro_Price y" by (simp add: bookUncrossed_def uncrossed_def)
  qed
next
  case (4 b t fs cs t' b')
  have t': "ro_Direction t' = ro_Direction t" "ro_Price t' = ro_Price t"
    using arg_cong [OF book.match_taker [OF 4(1,2)], of ro_Direction] arg_cong [OF book.match_taker [OF 4(1,2)], of ro_Price]
    by simp_all
  show ?case
    unfolding clearOf_def t'
  proof
    fix m assume "m \<in> set (flat (levelsOf b' (ro_Direction t \<noteq> Buy)))"
    hence "beyondLimit t (ro_Price m)" using book.match_exhausts [OF 4(1,2,3)] by (simp only:)
    with 4(4) show "if ro_Direction t = Buy then ro_Price t < ro_Price m else ro_Price m < ro_Price t"
      by (simp add: beyondLimit_def isMarket_def split: if_splits)
  qed
next
  case (5 b sy t)
  show ?case
  proof (cases "Contains b (ro_OrderID t)")
    case True
    with 5(2) show ?thesis by (simp add: book.rest_again)
  next
    case False
    note r = book.rest_law [OF 5(1) False 5(4)]
    show ?thesis
    proof (cases "ro_Direction t = Buy")
      case True
      have sides: "set (flat (levelsOf (snd (Rest t b)) True)) = insert t (set (flat (levelsOf b True)))"
        "flat (levelsOf (snd (Rest t b)) False) = flat (levelsOf b False)"
        using r True by simp_all
      show ?thesis using 5(2,3) True unfolding bookUncrossed_def uncrossed_def clearOf_def sides by simp
    next
      case sell: False
      have sides: "set (flat (levelsOf (snd (Rest t b)) False)) = insert t (set (flat (levelsOf b False)))"
        "flat (levelsOf (snd (Rest t b)) True) = flat (levelsOf b True)"
        using r sell by simp_all
      show ?thesis using 5(2,3) sell unfolding bookUncrossed_def uncrossed_def clearOf_def sides by simp
    qed
  qed
next
  case (6 t)
  show ?case by (simp add: clearOf_def NewBook_empty)
next
  case (7 b t i)
  thus ?case using Cancel_subset [OF 7(1), of i "ro_Direction t \<noteq> Buy"] by (auto simp: clearOf_def)
qed

section \<open>The engine as a step relation\<close>

text \<open>One rule per handler of the engine process. \<open>restart\<close> is a new process: the books and the basis windows
  are lost, the tables are not, and the books are rebuilt. \<open>outside\<close> is a write of the API process or of
  another instance: anything that leaves the tables well-formed and the books, which are memory of this
  process, alone. The limit orders that enter a book meet \<open>price\<close>.\<close>

inductive engineStep :: "EngineEnv \<Rightarrow> (dec \<Rightarrow> bool) \<Rightarrow> FundingState \<Rightarrow> FundingState \<Rightarrow> bool" for E price where
  submit: "(\<And>o'. ordFindByOrderID (es_orders s) i = Some o' \<Longrightarrow> goodPrice price o') \<Longrightarrow>
     engineStep E price s (snd (HandleOrderSubmit E now nowNanos i s))"
| cancel: "engineStep E price s (snd (HandleOrderCancel E now i s))"
| roundClose: "engineStep E price s (snd (HandleRoundClose E now u rnd s))"
| restart: "(\<And>o'. o' \<in> set (FindActiveLimitOrders (es_orders s)) \<Longrightarrow> goodPrice price o') \<Longrightarrow>
     engineStep E price s (snd (RecoverOrderBook E now (s\<lparr> es_books := NewEngine, es_windows := (\<lambda>_. []) \<rparr>)))"
| refresh: "engineStep E price s (snd (RefreshMarkPrices E now s))"
| riskScan: "engineStep E price s (snd (RiskScanOnce E now s))"
| markChanged: "engineStep E price s (snd (OnMarkPriceChanged E now sy s))"
| clip: "(\<And>p mark tier. Find (mny_positions s) u sy sd = Some p \<Longrightarrow> GetFresh (ee_mark E) now (es_marks s sy) = Some mark \<Longrightarrow>
       TierFor (ee_tiers E) sy (pos_Volume p * mark) = Some tier \<Longrightarrow> price (protectPriceOf mark tier sd)) \<Longrightarrow>
     engineStep E price s (snd (clipStep E now nowNanos (u, sy, sd) s))"
| clipTimeout: "engineStep E price s (snd (settleTimeoutFallback E now i s))"
| conditional: "(\<And>co. co \<in> set (FindAllPending (es_conds s)) \<Longrightarrow> co_Type co = OrderTypeLimit \<Longrightarrow> price (co_Price co)) \<Longrightarrow>
     engineStep E price s (snd (ScanOnce E now nowNanos s))"
| sample: "engineStep E price s (snd (SampleOnce E incr now s))"
| settle: "engineStep E price s (snd (SettleIfDue E now s))"
| outside: "wfEngine s' \<Longrightarrow> es_books s' = es_books s \<Longrightarrow> engineStep E price s s'"

inductive engineReachable :: "EngineEnv \<Rightarrow> (dec \<Rightarrow> bool) \<Rightarrow> FundingState \<Rightarrow> bool" for E price where
  start: "wfEngine s \<Longrightarrow> es_books s = NewEngine \<Longrightarrow> engineReachable E price s"
| step: "engineReachable E price s \<Longrightarrow> engineStep E price s s' \<Longrightarrow> engineReachable E price s'"

context submit_promise
begin

lemma okEngine_start: "wfEngine s \<Longrightarrow> es_books s = NewEngine \<Longrightarrow> okEngine Q s"
  by (simp add: okEngine_def wfEngine_def NewEngine_def)

lemma okEngine_restart: "okEngine Q s \<Longrightarrow> okEngine Q (s\<lparr> es_books := NewEngine, es_windows := w \<rparr>)"
  by (simp add: okEngine_def NewEngine_def)

lemma okEngine_step:
  assumes L: "decimal_lib (ee_lib E)" and "engineStep E price s s'" and s: "okEngine Q s"
  shows "okEngine Q s'"
  using assms(2)
proof cases
  case (submit i now nowNanos)
  show ?thesis
  proof (cases "ordFindByOrderID (es_orders s) i")
    case (Some o')
    with keepsD [OF keeps_submitting(1) [OF L submit(2) [OF Some]] s] show ?thesis
      by (simp add: submit(1) HandleOrderSubmit_def)
  qed (simp add: submit(1) HandleOrderSubmit_def s)
next
  case (cancel now i)
  from keepsD [OF keeps_cancelling(3) [OF L] s] s show ?thesis
    by (simp add: cancel HandleOrderCancel_def split: option.split)
next
  case (roundClose now u rnd)
  from keepsD [OF keeps_closeRound [OF L] s] show ?thesis by (simp add: roundClose HandleRoundClose_def)
next
  case (restart now)
  from ok_recover [OF L okEngine_restart [OF s]] restart show ?thesis by simp
next
  case (clip u sy sd now nowNanos)
  from ok_clipStep [OF L s clip(2)] show ?thesis by (simp add: clip(1))
next
  case (conditional now nowNanos)
  from ok_ScanOnce [OF L s conditional(2)] show ?thesis by (simp add: conditional(1))
next
  case outside
  with s show ?thesis by (auto simp: okEngine_def wfEngine_def)
qed (simp_all add: keepsD [OF keeps_refresh s] keepsD [OF keeps_liquidation(1) [OF L] s] keepsD [OF keeps_liquidation(2) [OF L] s]
    keepsD [OF keeps_liquidation(3) [OF L] s] keepsD [OF keeps_funding(1) [OF L] s] keepsD [OF keeps_funding(2) [OF L] s])

lemma okEngine_reachable:
  assumes "decimal_lib (ee_lib E)" "engineReachable E price s" shows "okEngine Q s"
  using assms(2) by (induction rule: engineReachable.induct) (auto intro: okEngine_start okEngine_step assms(1))

end

section \<open>A concrete engine\<close>

definition demoEnv :: EngineEnv where
  "demoEnv =
     \<lparr> ee_lib = std_lib, ee_coins = [demoCoin], ee_tiers = [], ee_mark = DefaultMarkPriceConfig, ee_engineSymbols = [],
       ee_external = True, ee_id = (\<lambda>i. 1000 + i), ee_settleBusy = (\<lambda>_. False), ee_closeBusy = (\<lambda>_ _. False),
       ee_fingerprint = (\<lambda>_. []), ee_show_dec = (\<lambda>_. []), ee_show_nat = (\<lambda>_. []), ee_victim = (\<lambda>_. False) \<rparr>"

definition demoEngine :: FundingState where
  "demoEngine =
     \<lparr> mny_accounts = demoAccounts, mny_positions = [], mny_txs = [], es_orders = [demoFillOrder], es_conds = [],
       es_trades = [], es_klines = [], es_fund = (Some 1000, []), es_progress = [], es_books = NewEngine,
       es_marks = (\<lambda>_. \<lparr> mc_mark = Some 100, mc_index = Some (100, 0), mc_last = None, mc_jump = None \<rparr>),
       es_windows = (\<lambda>_. []), es_ids = 0, es_pushes = [], fs_rates = [], fs_accum = (\<lambda>_. (0, 0)) \<rparr>"

lemma wf_demoEngine: "wfEngine demoEngine"
  using wf_demoAccounts by (simp add: wfEngine_def okEngine_def demoEngine_def wf_positions_def NewEngine_def)

lemma demoEngine_start: "engineReachable demoEnv price demoEngine"
  by (rule engineReachable.start [OF wf_demoEngine]) (simp add: demoEngine_def)

lemma demoEngine_submit:
  "map_option (\<lambda>b. map ro_OrderID (flat (levelsOf b True))) (es_books (snd (HandleOrderSubmit demoEnv 5 5000000 11 demoEngine)) ''BTCUSDT'') = Some [11]"
  by code_simp

text \<open>With an ask next to the bid.\<close>

definition demoTwoSided :: FundingState where
  "demoTwoSided = demoEngine\<lparr> es_orders := [demoFillOrder,
     demoFillOrder\<lparr> ord_OrderID := 12, ord_UID := 8, ord_Side := SideShort, ord_Price := 101 \<rparr>] \<rparr>"

lemma demoTwoSided_start: "engineReachable demoEnv price demoTwoSided"
  using wf_demoEngine
  by (intro engineReachable.start) (simp_all add: wfEngine_def okEngine_def demoTwoSided_def demoFillOrder_def demoEngine_def)

lemma demoTwoSided_prices: "ordFindByOrderID (es_orders demoTwoSided) 11 = Some o' \<Longrightarrow> goodPrice (\<lambda>p. p \<noteq> 0) o'"
  by (auto simp: demoTwoSided_def ordFindByOrderID_def sql_first_def demoFillOrder_def goodPrice_def)

lemma demoTwoSided_submit:
  "map_option (\<lambda>b. (length (flat (levelsOf b True)), length (flat (levelsOf b False))))
     (es_books (snd (HandleOrderSubmit demoEnv 6 6000000 12 (snd (HandleOrderSubmit demoEnv 5 5000000 11 demoTwoSided)))) ''BTCUSDT'')
   = Some (1, 1)"
  by code_simp

lemma demoTwoSided_prices1:
  "ordFindByOrderID (es_orders (snd (HandleOrderSubmit demoEnv 5 5000000 11 demoTwoSided))) 12 = Some o' \<Longrightarrow> goodPrice (\<lambda>p. p \<noteq> 0) o'"
proof -
  have "es_orders (snd (HandleOrderSubmit demoEnv 5 5000000 11 demoTwoSided)) = es_orders demoTwoSided" by code_simp
  thus "ordFindByOrderID (es_orders (snd (HandleOrderSubmit demoEnv 5 5000000 11 demoTwoSided))) 12 = Some o' \<Longrightarrow> goodPrice (\<lambda>p. p \<noteq> 0) o'"
    by (auto simp: demoTwoSided_def ordFindByOrderID_def sql_first_def demoFillOrder_def goodPrice_def split: if_splits)
qed

section \<open>What holds in every reachable state\<close>

text \<open>C13. Whatever handlers have run, in any order, with restarts and writes of other processes in between:
  every table has unique keys (accounts by id and user, positions by id and (user, symbol, side), orders,
  conditional orders and trades by id), every account and position fits its columns, every book is
  well-formed, and so matching any order against it never panics.\<close>

theorem engine_state_wf:
  assumes "decimal_lib (ee_lib E)" "engineReachable E (\<lambda>_. True) s"
  shows "wf_accounts (mny_accounts s) \<and> wf_positions (mny_positions s) \<and> distinct (map ord_OrderID (es_orders s)) \<and>
    distinct (map co_OrderID (es_conds s)) \<and> distinct (map tr_TradeID (es_trades s)) \<and>
    (\<forall>sy b. es_books s sy = Some b \<longrightarrow> wf_book b \<and> (\<forall>t. \<exists>r. Match t b = Inr r))"
proof -
  note ok = anyBook.okEngine_reachable [OF assms]
  from okEngineD(1-5) [OF ok] okEngineD(6) [OF ok] book.match_total show ?thesis by blast
qed

lemma engine_state_wf_witness:
  "\<exists>b r. es_books (snd (HandleOrderSubmit demoEnv 5 5000000 11 demoEngine)) ''BTCUSDT'' = Some b \<and> wf_book b \<and>
     map ro_OrderID (flat (levelsOf b True)) = [11] \<and> Match (BookProps.demoOrder 9 9 SideShort 100 1 8) b = Inr r"
proof -
  obtain b where b: "es_books (snd (HandleOrderSubmit demoEnv 5 5000000 11 demoEngine)) ''BTCUSDT'' = Some b"
    "map ro_OrderID (flat (levelsOf b True)) = [11]" using demoEngine_submit by auto
  have "engineReachable demoEnv (\<lambda>_. True) (snd (HandleOrderSubmit demoEnv 5 5000000 11 demoEngine))"
    by (rule engineReachable.step [OF demoEngine_start engineStep.submit]) (simp add: goodPrice_def)
  moreover have "decimal_lib (ee_lib demoEnv)" by (simp add: demoEnv_def std_decimal_lib)
  ultimately have "wf_book b \<and> (\<exists>r. Match (BookProps.demoOrder 9 9 SideShort 100 1 8) b = Inr r)"
    using engine_state_wf b(1) by metis
  with b show ?thesis by auto
qed



end
