(* ===== verification/Recovery.thy ===== *)
theory Recovery
  imports EngineSteps
begin

text \<open>
  Rebuilding the books at start-up, RecoverOrderBook of src/internal/service/engine.go. The active limit
  orders are replayed through matching instead of being put into the books directly. Replaying a set of
  orders that do not cross produces no fill and, in whatever order, the books that hold exactly them.
\<close>

section \<open>A match that cannot reach anything\<close>

lemma Match_clear:
  assumes "wf_book b" "clearOf t b" "ro_Price t \<noteq> 0"
  shows "Match t b = Inr ([], [], t, b)"
proof -
  let ?buy = "ro_Direction t \<noteq> Buy"
  have "matchLoop t b = Inr ([], [], t, b)"
  proof (cases "levelsOf b ?buy")
    case (Cons pl ls)
    then obtain n ns where n: "pl_queue pl = n # ns" "ro_Price n = pl_price pl" by (rule wf_level_head [OF assms(1)])
    hence "n \<in> set (flat (levelsOf b ?buy))" by (simp add: Cons)
    with assms(2,3) n(2) have "beyondLimit t (pl_price pl)" by (fastforce simp: clearOf_def beyondLimit_def isMarket_def)
    with Cons show ?thesis by (subst matchLoop.simps) (simp add: Let_def)
  qed (subst matchLoop.simps, simp add: Let_def)
  thus ?thesis by (simp add: Match_def)
qed

lemma mset_absInsert: "mset (absInsert buy q xs) = add_mset q (mset xs)"
proof -
  have "mset (takeWhile P xs) + mset (dropWhile P xs) = mset xs" for P
    by (metis mset_append takeWhile_dropWhile_id)
  thus ?thesis by (simp add: absInsert_def)
qed

section \<open>Replaying one order\<close>

definition bookOf :: "Engine \<Rightarrow> symbol \<Rightarrow> Book" where
  "bookOf e sy = fst (BookFor e sy)"

definition restored :: "Order \<Rightarrow> RestingOrder" where
  "restored o' = restingOf o' (ord_Price o') (ord_CreateTime o' * 1000000)"

definition isBuy :: "Order \<Rightarrow> bool" where
  "isBuy o' \<longleftrightarrow> DirectionOf (ord_Side o') (ord_Action o') = Buy"

lemma restored_simps [simp]:
  "ro_OrderID (restored o') = ord_OrderID o'" "ro_Price (restored o') = ord_Price o'"
  "ro_Remaining (restored o') = RemainingAmount o'" "(ro_Direction (restored o') = Buy) = isBuy o'"
  by (simp_all add: restored_def restingOf_def isBuy_def)

lemma bookOf_BookFor [simp]:
  "bookOf (snd (BookFor e sy)) sy' = bookOf e sy'" "bookOf (e(sy \<mapsto> b)) sy' = (if sy' = sy then b else bookOf e sy')"
  "bookOf ((snd (BookFor e sy))(sy \<mapsto> b)) sy' = (if sy' = sy then b else bookOf e sy')"
  by (auto simp: bookOf_def BookFor_def split: option.split)

lemma bookOf_NewEngine [simp]: "bookOf NewEngine sy = NewBook"
  by (simp add: bookOf_def BookFor_def NewEngine_def)

text \<open>An order that reaches nothing is only put into its book: no table changes and nothing is published.\<close>

lemma submit_rests:
  assumes o': "OwnsSymbol E (ord_Symbol o')" "ActiveOrderStatuses (ord_Status o')" "ord_Type o' = OrderTypeLimit"
      "0 < RemainingAmount o'" "ord_Price o' \<noteq> 0"
    and frozen: "ord_Action o' = ActionOpen \<Longrightarrow> \<not> ord_Liquidation o' \<Longrightarrow> \<not> IsFrozen (mny_accounts s) (ord_UID o')"
    and b: "wf_book (bookOf (es_books s) (ord_Symbol o'))" "\<not> Contains (bookOf (es_books s) (ord_Symbol o')) (ord_OrderID o')"
      "clearOf (restored o') (bookOf (es_books s) (ord_Symbol o'))"
  shows "\<exists>e. recoverOne E now o' s = (Inr False, s\<lparr> es_books := e \<rparr>) \<and>
    (\<forall>sy. bookOf e sy = (if sy = ord_Symbol o' then snd (Rest (restored o') (bookOf (es_books s) sy)) else bookOf (es_books s) sy))"
proof -
  obtain e1 where e1: "BookFor (es_books s) (ord_Symbol o') = (bookOf (es_books s) (ord_Symbol o'), e1)"
    by (metis bookOf_def prod.collapse)
  let ?b = "bookOf (es_books s) (ord_Symbol o')"
  have bf: "BookFor (e1(ord_Symbol o' \<mapsto> b')) (ord_Symbol o') = (b', e1(ord_Symbol o' \<mapsto> b'))" for b'
    by (simp add: BookFor_def)
  have m: "Match (restored o') ?b = Inr ([], [], restored o', ?b)" by (rule Match_clear [OF b(1,3)]) (simp add: o')
  have "recoverOne E now o' s = (Inr False, s\<lparr> es_books := e1(ord_Symbol o' \<mapsto> snd (Rest (restored o') ?b)) \<rparr>)"
    using o' frozen b(2)
    by (auto simp: recoverOne_def submitOrder_def onBook_def e1 bf restored_def [symmetric] matchAndSettle_def m
        handleSelfCanceled_def restOrCancel_def case_prod_beta retn_def andThen_def)
  moreover have "bookOf (e1(ord_Symbol o' \<mapsto> b')) sy = (if sy = ord_Symbol o' then b' else bookOf (es_books s) sy)" for b' sy
    using bookOf_BookFor(3) [of "es_books s" "ord_Symbol o'" b' sy] by (simp add: e1)
  ultimately show ?thesis by (intro exI [of _ "e1(ord_Symbol o' \<mapsto> snd (Rest (restored o') ?b))"] conjI) auto
qed

section \<open>Replaying all of them\<close>

text \<open>The orders that belong on one side of a symbol's book.\<close>

definition belongs :: "EngineEnv \<Rightarrow> symbol \<Rightarrow> bool \<Rightarrow> Order \<Rightarrow> bool" where
  "belongs E sy buy o' \<longleftrightarrow> OwnsSymbol E sy \<and> ord_Symbol o' = sy \<and> isBuy o' = buy \<and> ord_Type o' = OrderTypeLimit \<and>
     ActiveOrderStatuses (ord_Status o') \<and> 0 < RemainingAmount o'"

definition compatible :: "EngineEnv \<Rightarrow> Order list \<Rightarrow> bool" where
  "compatible E os \<longleftrightarrow> (\<forall>sy. \<forall>x\<in>set os. \<forall>y\<in>set os. belongs E sy True x \<longrightarrow> belongs E sy False y \<longrightarrow> ord_Price x < ord_Price y)"

definition rebuilt :: "EngineEnv \<Rightarrow> Order list \<Rightarrow> Engine \<Rightarrow> bool" where
  "rebuilt E os e \<longleftrightarrow> (\<forall>sy. wf_book (bookOf e sy) \<and>
     (\<forall>buy. mset (flat (levelsOf (bookOf e sy) buy)) = mset (map restored (filter (belongs E sy buy) os))))"

lemma rebuilt_add:
  assumes r: "rebuilt E os (es_books s)" and c: "compatible E (os @ [o'])" and dist: "ord_OrderID o' \<notin> ord_OrderID ` set os"
    and o': "ord_Price o' \<noteq> 0" "ord_Type o' = OrderTypeLimit" "ActiveOrderStatuses (ord_Status o')"
    and frozen: "ord_Action o' = ActionOpen \<Longrightarrow> \<not> ord_Liquidation o' \<Longrightarrow> \<not> IsFrozen (mny_accounts s) (ord_UID o')"
  shows "\<exists>e. recoverOne E now o' s = (Inr False, s\<lparr> es_books := e \<rparr>) \<and> rebuilt E (os @ [o']) e"
proof (cases "OwnsSymbol E (ord_Symbol o') \<and> 0 < RemainingAmount o'")
  case False
  hence "\<not> belongs E sy buy o'" for sy buy by (auto simp: belongs_def)
  with r False show ?thesis
    by (intro exI [of _ "es_books s"]) (auto simp: rebuilt_def recoverOne_def retn_def)
next
  case True
  let ?sy = "ord_Symbol o'" and ?b = "bookOf (es_books s) (ord_Symbol o')"
  have b: "wf_book ?b" "mset (flat (levelsOf ?b buy)) = mset (map restored (filter (belongs E ?sy buy) os))" for buy
    using r by (simp_all add: rebuilt_def)
  have set: "set (flat (levelsOf ?b buy)) = restored ` {x \<in> set os. belongs E ?sy buy x}" for buy
    using arg_cong [OF b(2), of set_mset buy] by auto
  have bel: "belongs E ?sy buy o' \<longleftrightarrow> isBuy o' = buy" for buy using True o' by (auto simp: belongs_def)
  have new: "\<not> Contains ?b (ord_OrderID o')"
    using dist set by (auto simp: book.has_law [OF b(1)] image_iff)
  have clear: "clearOf (restored o') ?b"
    using c bel unfolding clearOf_def compatible_def by (auto simp: set)
  obtain e where e: "recoverOne E now o' s = (Inr False, s\<lparr> es_books := e \<rparr>)"
    "\<And>sy. bookOf e sy = (if sy = ?sy then snd (Rest (restored o') (bookOf (es_books s) sy)) else bookOf (es_books s) sy)"
    using submit_rests [OF _ o'(3,2) _ o'(1) frozen b(1) new clear, where now = now] True by auto
  have rest: "wf_book (snd (Rest (restored o') ?b))"
    "mset (flat (levelsOf (snd (Rest (restored o') ?b)) buy)) =
       mset (flat (levelsOf ?b buy)) + (if isBuy o' = buy then {#restored o'#} else {#})" for buy
    using book.rest_law [OF b(1), of "restored o'"] new True by (cases buy; cases "isBuy o'"; simp add: mset_absInsert)+
  have "wf_book (bookOf e sy) \<and> mset (flat (levelsOf (bookOf e sy) buy)) = mset (map restored (filter (belongs E sy buy) (os @ [o'])))" for sy buy
  proof (cases "sy = ?sy")
    case True
    with rest b bel show ?thesis by (simp add: e(2))
  next
    case False
    hence "\<not> belongs E sy buy o'" by (auto simp: belongs_def)
    with False r show ?thesis by (simp add: e(2) rebuilt_def)
  qed
  with e(1) show ?thesis by (auto simp: rebuilt_def)
qed

lemma compatible_prefix: "compatible E (xs @ ys) \<Longrightarrow> compatible E xs"
  by (auto simp: compatible_def)

lemma replay:
  assumes "compatible E (pre @ os)" "distinct (map ord_OrderID (pre @ os))" "rebuilt E pre (es_books s)"
    and "\<And>o'. o' \<in> set os \<Longrightarrow> ord_Price o' \<noteq> 0 \<and> ord_Type o' = OrderTypeLimit \<and> ActiveOrderStatuses (ord_Status o')"
    and "\<And>o'. o' \<in> set os \<Longrightarrow> ord_Action o' = ActionOpen \<Longrightarrow> \<not> ord_Liquidation o' \<Longrightarrow> \<not> IsFrozen (mny_accounts s) (ord_UID o')"
  shows "\<exists>e. mapEach (recoverOne E now) os s = (Inr (map (\<lambda>_. False) os), s\<lparr> es_books := e \<rparr>) \<and> rebuilt E (pre @ os) e"
  using assms
proof (induction os arbitrary: pre s)
  case Nil
  thus ?case by (intro exI [of _ "es_books s"]) (simp add: retn_def)
next
  case (Cons o' os)
  have "compatible E (pre @ [o'])" using compatible_prefix [of E "pre @ [o']" os] Cons.prems(1) by simp
  moreover have "ord_OrderID o' \<notin> ord_OrderID ` set pre" using Cons.prems(2) by auto
  ultimately obtain e where e: "recoverOne E now o' s = (Inr False, s\<lparr> es_books := e \<rparr>)" "rebuilt E (pre @ [o']) e"
    using rebuilt_add [OF Cons.prems(3), of o' now] Cons.prems(4,5) by auto
  have "\<exists>e'. mapEach (recoverOne E now) os (s\<lparr> es_books := e \<rparr>) = (Inr (map (\<lambda>_. False) os), (s\<lparr> es_books := e \<rparr>)\<lparr> es_books := e' \<rparr>) \<and>
      rebuilt E ((pre @ [o']) @ os) e'"
    by (rule Cons.IH) (use Cons.prems e(2) in auto)
  then obtain e' where "mapEach (recoverOne E now) os (s\<lparr> es_books := e \<rparr>) = (Inr (map (\<lambda>_. False) os), s\<lparr> es_books := e' \<rparr>)"
    "rebuilt E (pre @ o' # os) e'" by auto
  with e(1) show ?case by (intro exI [of _ e']) (simp add: retn_def andThen_def)
qed

text \<open>C15. Replaying the active limit orders at start-up rebuilds the books. When no bid of a symbol reaches an ask of
  it and no opening order belongs to a frozen account, RecoverOrderBook returns without an error, trades
  nothing, changes no table and publishes nothing; afterwards each side of the book of a symbol this instance
  owns holds exactly the active limit orders of that side with their remaining volume, in price-time order
  with the creation time as entry time, and the books of other symbols are empty.\<close>

theorem RecoverOrderBook_rebuilds:
  assumes "distinct (map ord_OrderID (es_orders s))" "es_books s = NewEngine" "compatible E (es_orders s)"
    and "\<And>o'. o' \<in> set (FindActiveLimitOrders (es_orders s)) \<Longrightarrow> ord_Price o' \<noteq> 0"
    and "\<And>o'. o' \<in> set (FindActiveLimitOrders (es_orders s)) \<Longrightarrow> ord_Action o' = ActionOpen \<Longrightarrow> \<not> ord_Liquidation o' \<Longrightarrow>
           \<not> IsFrozen (mny_accounts s) (ord_UID o')"
  shows "\<exists>e. RecoverOrderBook E now s = (Inr (), s\<lparr> es_books := e \<rparr>) \<and>
    (\<forall>sy buy. mset (flat (levelsOf (bookOf e sy) buy)) = mset (map restored (filter (belongs E sy buy) (es_orders s))) \<and>
       sorted_wrt (before buy) (flat (levelsOf (bookOf e sy) buy)))"
proof -
  let ?os = "FindActiveLimitOrders (es_orders s)"
  have set: "set ?os = {o' \<in> set (es_orders s). ActiveOrderStatuses (ord_Status o') \<and> ord_Type o' = OrderTypeLimit}"
    by (auto simp: FindActiveLimitOrders_def)
  have ms: "mset ?os = mset (filter (\<lambda>o'. ActiveOrderStatuses (ord_Status o') \<and> ord_Type o' = OrderTypeLimit) (es_orders s))"
    by (simp add: FindActiveLimitOrders_def)
  have same: "mset (map restored (filter (belongs E sy buy) ?os)) = mset (map restored (filter (belongs E sy buy) (es_orders s)))" for sy buy
  proof -
    have "mset (filter (belongs E sy buy) ?os) = filter_mset (belongs E sy buy) (mset ?os)" by simp
    also have "\<dots> = mset (filter (belongs E sy buy) (es_orders s))"
      unfolding ms by (simp add: filter_filter_mset belongs_def) (rule filter_mset_cong, auto)
    finally show ?thesis by (simp only: mset_map)
  qed
  have "distinct (map ord_OrderID ?os)"
    using assms(1) by (simp add: FindActiveLimitOrders_def distinct_map inj_on_def)
  moreover have "compatible E ?os" using assms(3) set by (auto simp: compatible_def)
  moreover have "rebuilt E [] (es_books s)" by (simp add: rebuilt_def assms(2) wf_NewBook NewBook_empty)
  ultimately obtain e where e: "mapEach (recoverOne E now) ?os s = (Inr (map (\<lambda>_. False) ?os), s\<lparr> es_books := e \<rparr>)" "rebuilt E ?os e"
    using replay [of E "[]" ?os s now] assms(4,5) set by auto
  have wf: "wf_book (bookOf e sy)" for sy using e(2) by (simp add: rebuilt_def)
  have "mset (flat (levelsOf (bookOf e sy) buy)) = mset (map restored (filter (belongs E sy buy) (es_orders s)))" for sy buy
    unfolding same [symmetric] using e(2) by (simp only: rebuilt_def)
  moreover have "sorted_wrt (before buy) (flat (levelsOf (bookOf e sy) buy))" for sy buy using book.makers_law [OF wf] by blast
  ultimately show ?thesis using e(1) by (intro exI [of _ e]) (simp add: RecoverOrderBook_def retn_def)
qed

lemma RecoverOrderBook_rebuilds_witness:
  "\<exists>e. RecoverOrderBook demoEnv 9 demoTwoSided = (Inr (), demoTwoSided\<lparr> es_books := e \<rparr>) \<and>
     map ro_OrderID (flat (levelsOf (bookOf e ''BTCUSDT'') True)) = [11] \<and>
     map ro_OrderID (flat (levelsOf (bookOf e ''BTCUSDT'') False)) = [12]"
proof -
  have os: "es_orders demoTwoSided = [demoFillOrder, demoFillOrder\<lparr> ord_OrderID := 12, ord_UID := 8, ord_Side := SideShort, ord_Price := 101 \<rparr>]"
    by (simp add: demoTwoSided_def)
  have "distinct (map ord_OrderID (es_orders demoTwoSided))" "es_books demoTwoSided = NewEngine" "compatible demoEnv (es_orders demoTwoSided)"
    "\<forall>o'\<in>set (FindActiveLimitOrders (es_orders demoTwoSided)). ord_Price o' \<noteq> 0"
    "\<forall>o'\<in>set (FindActiveLimitOrders (es_orders demoTwoSided)). \<not> IsFrozen (mny_accounts demoTwoSided) (ord_UID o')"
    by (auto simp: os compatible_def belongs_def isBuy_def DirectionOf_def demoFillOrder_def FindActiveLimitOrders_def
        demoTwoSided_def demoEngine_def demoAccounts_def IsFrozen_def FindStatus_def FindByUID_def sql_first_def)
  from RecoverOrderBook_rebuilds [OF this(1-3), of 9] this(4,5) obtain e where
    e: "RecoverOrderBook demoEnv 9 demoTwoSided = (Inr (), demoTwoSided\<lparr> es_books := e \<rparr>)"
    "\<And>buy. mset (flat (levelsOf (bookOf e ''BTCUSDT'') buy)) = mset (map restored (filter (belongs demoEnv ''BTCUSDT'' buy) (es_orders demoTwoSided)))"
    by blast
  have side: "filter (belongs demoEnv ''BTCUSDT'' buy) (es_orders demoTwoSided) = (if buy then [hd (es_orders demoTwoSided)] else [last (es_orders demoTwoSided)])" for buy
    by (simp add: os belongs_def isBuy_def DirectionOf_def demoFillOrder_def OwnsSymbol_def demoEnv_def RemainingAmount_def)
  have "flat (levelsOf (bookOf e ''BTCUSDT'') True) = [restored demoFillOrder]"
    "flat (levelsOf (bookOf e ''BTCUSDT'') False) = [restored (last (es_orders demoTwoSided))]"
    using e(2) [of True] e(2) [of False] by (simp_all add: side) (simp_all add: os)
  with e(1) show ?thesis by (auto simp: os demoFillOrder_def)
qed

end
