(* ===== verification/Aftermath.thy ===== *)
theory Aftermath
  imports EngineSteps
begin

text \<open>
  What is left of a user after the last position has been liquidated, settleLiquidationAftermath of
  src/internal/service/engine.go: a negative balance is covered from the user's own credit first and then
  by the insurance fund, which auto-deleveraging may have filled up before. Auto-deleveraging closes
  positions of other users, so it leaves the row of this one alone and never lowers the fund.
\<close>

section \<open>Leaving a user's row alone\<close>

text \<open>The table is well-formed and the row of u, if there is one, is x.\<close>

definition apartRows :: "uid \<Rightarrow> Account option \<Rightarrow> Account list \<Rightarrow> bool" where
  "apartRows u x rows \<longleftrightarrow> wf_accounts rows \<and> FindByUID rows u = x"

lemma apart_update:
  assumes "apartRows u x rows" "FindByUID rows v = Some b" "v \<noteq> u"
    and "\<And>x. acc_ID (f x) = acc_ID x" "\<And>x. acc_UID (f x) = acc_UID x" "\<And>x. fits_row x \<Longrightarrow> fits_row (f x)"
  shows "apartRows u x (sql_update (\<lambda>x. acc_ID x = acc_ID b \<and> g x) f rows)"
proof -
  have "acc_ID a \<noteq> acc_ID b" if "x = Some a" for a
    using FindByUID_Some [OF assms(2)] FindByUID_Some [of rows u a] assms(1,3) that
    by (auto simp: apartRows_def wf_accounts_def dest: unique_key_eq)
  with assms show ?thesis by (cases x) (auto simp: apartRows_def FindByUID_update intro: wf_accounts_update)
qed

lemma sql_first_single: "sql_first p [r] = (if p r then Some r else None)"
  by (simp add: sql_first_def)

lemma apart_GetOrCreate:
  assumes "apartRows u x rows" "v \<noteq> u \<or> x \<noteq> None"
  obtains b rows' where "GetOrCreate rows v = (Some b, rows')" "apartRows u x rows'" "FindByUID rows' v = Some b"
proof -
  from assms have wf: "wf_accounts rows" by (simp add: apartRows_def)
  obtain b rows' where g: "GetOrCreate rows v = (Some b, rows')" "wf_accounts rows'" using GetOrCreate_wf [OF wf] by metis
  have "FindByUID rows' u = x"
    using g assms by (auto simp: apartRows_def GetOrCreate_def insertIgnore_def FindByUID_def sql_first_append newAccount_def sql_first_single Let_def
        split: option.splits if_splits)
  moreover have "FindByUID rows' v = Some b" using g by (auto simp: GetOrCreate_def Let_def split: option.splits)
  ultimately show ?thesis using that g by (simp add: apartRows_def)
qed

lemma apart_withAccount:
  assumes "v \<noteq> u" "\<And>b rows. apartRows u x rows \<Longrightarrow> FindByUID rows v = Some b \<Longrightarrow> apartRows u x (snd (k b rows))"
  shows "keeps (apartRows u x) (withAccount v k)"
proof (rule keepsI)
  fix rows assume "apartRows u x rows"
  then obtain b rows' where "GetOrCreate rows v = (Some b, rows')" "apartRows u x rows'" "FindByUID rows' v = Some b"
    using apart_GetOrCreate assms(1) by blast
  with assms(2) show "apartRows u x (snd (withAccount v k rows))" by (simp add: withAccount_def)
qed

lemma apart_accounts:
  assumes L: "decimal_lib L" and v: "v \<noteq> u"
  shows "keeps (apartRows u a) (UnfreezeMargin L v x y)" "keeps (apartRows u a) (svcSettleToBalance L v x)"
    "keeps (apartRows u a) (svcSettlePnl L v x)" "keeps (apartRows u a) (svcDeductFee L v x)"
proof -
  note fit = decimal_lib.col_fits [OF L]
  have upd: "apartRows u a (sql_update (\<lambda>x. acc_ID x = acc_ID b) f rows)"
    if "apartRows u a rows" "FindByUID rows v = Some b"
      "\<And>x. acc_ID (f x) = acc_ID x" "\<And>x. acc_UID (f x) = acc_UID x" "\<And>x. fits_row x \<Longrightarrow> fits_row (f x)" for rows b f
    using apart_update [OF that(1,2) v that(3-5), where g = "\<lambda>_. True"] by simp
  have stb: "apartRows u a (SettleToBalance L (acc_ID b) z rows)" if "apartRows u a rows" "FindByUID rows v = Some b" for rows b z
    unfolding SettleToBalance_def by (rule upd [OF that]) (auto simp: fits_row_def col_def fit)
  have ded: "apartRows u a (deductWithCreditFallback L (acc_ID b) z rows)" if "apartRows u a rows" "FindByUID rows v = Some b" for rows b z
    unfolding deductWithCreditFallback_def by (rule upd [OF that]) (auto simp: fits_row_def col_def fit)
  show "keeps (apartRows u a) (UnfreezeMargin L v x y)"
    unfolding UnfreezeMargin_def AdjustFrozenMargin_def
    by (rule apart_withAccount [OF v]) (auto simp: sql_exec_eq Let_def fits_row_def col_def fit intro!: apart_update [OF _ _ v])
  show "keeps (apartRows u a) (svcSettleToBalance L v x)"
    unfolding svcSettleToBalance_def by (rule apart_withAccount [OF v]) (simp add: stb)
  show "keeps (apartRows u a) (svcSettlePnl L v x)"
    unfolding svcSettlePnl_def by (rule apart_withAccount [OF v]) (simp add: SettlePnl_def stb ded)
  have "keeps (apartRows u a) (withAccount v (\<lambda>account rows. (Inr (), DeductFee L (acc_ID account) x rows)))"
    by (rule apart_withAccount [OF v]) (simp add: DeductFee_def ded)
  thus "keeps (apartRows u a) (svcDeductFee L v x)" by (simp add: svcDeductFee_def keeps_def)
qed

section \<open>Auto-deleveraging\<close>

text \<open>The row of u is a, and the fund holds at least F.\<close>

definition backed :: "uid \<Rightarrow> Account \<Rightarrow> dec \<Rightarrow> 'z EngineState_scheme \<Rightarrow> bool" where
  "backed u a F s \<longleftrightarrow> apartRows u (Some a) (mny_accounts s) \<and> (\<exists>f. fst (es_fund s) = Some f \<and> F \<le> f \<and> fits 16 f)"

lemma backed_on:
  "keeps (apartRows u (Some a)) f \<Longrightarrow> keeps (backed u a F) (onAccounts f)" "keeps (backed u a F) (onPositions g)"
  "keeps (backed u a F) (onOrders h)" "keeps (backed u a F) (bookTx L v sy ty x t)" "keeps (backed u a F) (nextID E)"
  by (auto simp: keeps_def backed_def onAccounts_eq onPositions_eq onOrders_def bookTx_def nextID_def split: prod.splits)

lemma backed_Adjust:
  assumes "decimal_lib L" "0 \<le> x"
  shows "keeps (backed u a F) (onInsurance (Adjust L sy v i x rm t))"
proof (rule keepsI)
  fix s :: "'z EngineState_scheme" assume s: "backed u a F s"
  then obtain f where f: "fst (es_fund s) = Some f" "F \<le> f" "fits 16 f" by (auto simp: backed_def)
  have "f \<le> col L (f + x)"
    using decimal_lib.col_mono [OF assms(1), of f "f + x" 16] decimal_lib.col_id [OF assms(1) f(3)] assms(2) by (simp add: col_def)
  moreover have "fits 16 (col L (f + x))" unfolding col_def by (rule decimal_lib.col_fits [OF assms(1)])
  ultimately show "backed u a F (snd (onInsurance (Adjust L sy v i x rm t) s))"
    using s f by (auto simp: backed_def onInsurance_def Adjust_def FreshBalance_def Let_def)
qed

lemma backed_SettleFill:
  assumes L: "decimal_lib L" and o': "ord_UID o' \<noteq> u" "ord_Action o' = ActionClose"
  shows "keeps (backed u a F) (SettleFill L coins o' v p m t)"
proof -
  have "keeps (backed u a F) (settleClose L o' v p t)"
    unfolding settleClose_def by (intro keeps_rules backed_on apart_accounts L o')
  moreover have "keeps (backed u a F) (settleFee L c o' p m t pnl cv)" for c pnl cv
  proof (rule keepsI)
    fix s :: "'z EngineState_scheme" assume s: "backed u a F s"
    show "backed u a F (snd (settleFee L c o' p m t pnl cv s))"
      unfolding settleFee_def Let_def using s
      by (auto split: option.split intro!: keepsD_andThen [of "backed u a F"] keeps_rules backed_on apart_accounts L o')
  qed
  ultimately show ?thesis unfolding SettleFill_def Let_def using o'(2) by (auto intro!: keeps_rules)
qed

lemma backed_publish: "keeps (backed u a F) (PublishUserSnapshot E v)"
proof (rule keepsI)
  fix s :: "'z EngineState_scheme" assume s: "backed u a F s"
  hence "apartRows u (Some a) (mny_accounts s)" by (simp add: backed_def)
  then obtain b rows' where "GetOrCreate (mny_accounts s) v = (Some b, rows')" "apartRows u (Some a) rows'" by (rule apart_GetOrCreate) simp
  with s show "backed u a F (snd (PublishUserSnapshot E v s))"
    by (simp add: PublishUserSnapshot_def View_def publish_def backed_def)
qed

lemma backed_adlLoop:
  assumes L: "decimal_lib (ee_lib E)"
  shows "(\<And>c. c \<in> set pool \<Longrightarrow> pos_UID (adl_p c) \<noteq> u) \<Longrightarrow>
    keeps (backed u a F) (adlLoop E now sy mark pool raised remaining :: 'z EngineState_scheme \<Rightarrow> _)"
proof (induction pool arbitrary: raised remaining)
  case (Cons c pool)
  have c: "pos_UID (adl_p c) \<noteq> u" using Cons.prems by simp
  have "keeps (backed u a F) (forceCloseOnePosition E now (adl_p c) v mark :: 'z EngineState_scheme \<Rightarrow> _)" for v
    unfolding forceCloseOnePosition_def Let_def
    by (intro keeps_rules backed_on backed_SettleFill L) (simp_all add: forcedOrder_def c)
  moreover have "keeps (backed u a F) (adlContribute E now sy c x :: 'z EngineState_scheme \<Rightarrow> _)" for x
  proof (cases "0 < x")
    case True
    thus ?thesis unfolding adlContribute_def by (auto intro!: keeps_rules backed_on apart_accounts backed_Adjust L c)
  qed (simp add: adlContribute_def keeps_retn)
  moreover have "keeps (backed u a F) (adlLoop E now sy mark pool r1 r2 :: 'z EngineState_scheme \<Rightarrow> _)" for r1 r2
    by (rule Cons.IH) (use Cons.prems in auto)
  ultimately show ?case by (auto intro!: keeps_rules backed_publish)
qed (simp add: keeps_retn)

lemma backed_runADL:
  assumes L: "decimal_lib (ee_lib E)" and s: "backed u a F s"
    and flat: "\<forall>p\<in>set (positionsOfUID (mny_positions s) u). \<not> 0 < pos_Volume p"
  shows "backed u a F (snd (runADL E now sy sd x s))"
proof (cases "marksOf s sy")
  case (Some mark)
  have "pos_UID (adl_p c) \<noteq> u" if "c \<in> set (adlPool (ee_lib E) sd mark (FindOpenBySymbol (mny_positions s) sy))" for c
  proof
    assume u: "pos_UID (adl_p c) = u"
    from that have "adl_p c \<in> set (FindOpenBySymbol (mny_positions s) sy)" unfolding adlPool_def set_sort set_map set_filter by auto
    with u have "adl_p c \<in> set (positionsOfUID (mny_positions s) u)" "0 < pos_Volume (adl_p c)"
      by (simp_all add: FindOpenBySymbol_def positionsOfUID_def)
    with flat show False by blast
  qed
  from keepsD [OF backed_adlLoop [OF L this] s] show ?thesis by (simp add: runADL_def Some)
qed (use s in \<open>simp add: runADL_def\<close>)

section \<open>Cancelling leaves positions alone\<close>

lemma positions_cancel:
  assumes "CancelAllPendingOrders E now u s = (r, s1)" shows "mny_positions s1 = mny_positions (s :: 'z EngineState_scheme)"
proof -
  let ?P = "\<lambda>s1 :: 'z EngineState_scheme. mny_positions s1 = mny_positions s"
  have on: "keeps ?P (onAccounts f)" "keeps ?P (onOrders g)" "keeps ?P (onConds h)" "keeps ?P (onBook sy k)" "keeps ?P (publish p)"
    for f :: "Account list \<Rightarrow> 'b res \<times> Account list" and g :: "Order list \<Rightarrow> 'c res \<times> Order list"
      and h :: "ConditionalOrder list \<Rightarrow> 'd res \<times> ConditionalOrder list" and sy p and k :: "Book \<Rightarrow> 'e res \<times> Book"
    by (auto simp: keeps_def onAccounts_eq onOrders_def onConds_def onBook_def publish_def Let_def split: prod.splits)
  have pub: "keeps ?P (PublishUserSnapshot E v)" for v
    by (rule keepsI) (auto simp: PublishUserSnapshot_def publish_def split: prod.splits option.splits)
  have c: "keeps ?P (cancelConditionalOrder E now co)" for co
    unfolding cancelConditionalOrder_def UnfreezeMarginOf_def by (intro keeps_rules on)
  have o: "keeps ?P (CancelOrder E now o')" for o'
    unfolding CancelOrder_def finalizeOrderCancel_def cancelAndReleaseMargin_def UnfreezeMarginOf_def PublishDepth_def
    by (intro keeps_rules on pub)
  have "keeps ?P (\<lambda>s1 :: 'z EngineState_scheme. andThen (mapEach (\<lambda>co. tolerate (cancelConditionalOrder E now co)) (coFindActiveByUID (es_conds s1) u []))
      (\<lambda>rs'. retn (failures rs + failures rs')) s1)" for rs :: "unit option list"
  proof (rule keepsI)
    fix s1 :: "'z EngineState_scheme" assume "?P s1"
    moreover have "keeps ?P (andThen (mapEach (\<lambda>co. tolerate (cancelConditionalOrder E now co)) cs) (\<lambda>rs'. retn (failures rs + failures rs')))" for cs
      by (intro keeps_rules c)
    ultimately show "?P (snd (andThen (mapEach (\<lambda>co. tolerate (cancelConditionalOrder E now co)) (coFindActiveByUID (es_conds s1) u []))
      (\<lambda>rs'. retn (failures rs + failures rs')) s1))" by (simp add: keeps_def)
  qed
  from keepsD [of ?P, OF keeps_andThen [OF keeps_mapEach [OF keeps_tolerate [OF o]] this], of s]
  have "?P (snd (CancelAllPendingOrders E now u s))" by (simp add: CancelAllPendingOrders_def)
  with assms show ?thesis by simp
qed

section \<open>Settling\<close>

text \<open>Of a negative balance b, what free credit c covers, and what it does not.\<close>

definition creditPart :: "dec \<Rightarrow> dec \<Rightarrow> dec" where
  "creditPart b c = (if b < 0 then max 0 (min c (- b)) else 0)"

definition fundPart :: "dec \<Rightarrow> dec \<Rightarrow> dec" where
  "fundPart b c = (if b < 0 then - b - creditPart b c else 0)"

lemma parts_bounds: "0 \<le> creditPart b c" "0 \<le> fundPart b c" "0 \<le> b + creditPart b c + fundPart b c"
  by (auto simp: creditPart_def fundPart_def)

lemma settle_moves:
  assumes L: "decimal_lib L" and rows: "wf_accounts rows" "FindByUID rows u = Some a" and x: "fits 16 x"
  shows "\<exists>rows'. svcSettleToBalance L u x rows = (Inr (), rows') \<and> movesTo u a (a\<lparr> acc_Balance := acc_Balance a + x \<rparr>) rows rows'"
    "\<exists>rows'. svcSettleToCredit L u x rows = (Inr (), rows') \<and> movesTo u a (a\<lparr> acc_Credit := acc_Credit a + x \<rparr>) rows rows'"
proof -
  have fit: "fits 16 (acc_Balance a + x)" "fits 16 (acc_Credit a + x)" using account_fits [OF rows] x by auto
  note m = statement_moves [OF rows, where g = "\<lambda>_. True", simplified]
  have "movesTo u a (a\<lparr> acc_Balance := col L (acc_Balance a + x) \<rparr>) rows
      (sql_update (\<lambda>b. acc_ID b = acc_ID a) (\<lambda>b. b\<lparr> acc_Balance := col L (acc_Balance b + x) \<rparr>) rows)"
    by (rule m) (auto simp: fits_row_def col_def decimal_lib.col_fits [OF L])
  thus "\<exists>rows'. svcSettleToBalance L u x rows = (Inr (), rows') \<and> movesTo u a (a\<lparr> acc_Balance := acc_Balance a + x \<rparr>) rows rows'"
    using rows(2) by (simp add: svcSettleToBalance_def withAccount_Some SettleToBalance_def col_fit [OF L fit(1)])
  have "movesTo u a (a\<lparr> acc_Credit := col L (acc_Credit a + x) \<rparr>) rows
      (sql_update (\<lambda>b. acc_ID b = acc_ID a) (\<lambda>b. b\<lparr> acc_Credit := col L (acc_Credit b + x) \<rparr>) rows)"
    by (rule m) (auto simp: fits_row_def col_def decimal_lib.col_fits [OF L])
  thus "\<exists>rows'. svcSettleToCredit L u x rows = (Inr (), rows') \<and> movesTo u a (a\<lparr> acc_Credit := acc_Credit a + x \<rparr>) rows rows'"
    using rows(2) by (simp add: svcSettleToCredit_def withAccount_Some SettleToCredit_def col_fit [OF L fit(2)])
qed

lemma coverFromCredit_moves:
  assumes L: "decimal_lib (ee_lib E)" and rows: "wf_accounts (mny_accounts s)" "FindByUID (mny_accounts s) u = Some a"
    and bc: "fits 16 b" "fits 16 c"
  shows "\<exists>rows. coverFromCredit E u b c s = (Inr (b + creditPart b c), s\<lparr> mny_accounts := rows \<rparr>) \<and>
    movesTo u a (a\<lparr> acc_Balance := acc_Balance a + creditPart b c, acc_Credit := acc_Credit a - creditPart b c \<rparr>) (mny_accounts s) rows"
proof (cases "b < 0 \<and> 0 < min c (- b)")
  case True
  hence p: "creditPart b c = min c (- b)" by (simp add: creditPart_def)
  have fit: "fits 16 (min c (- b))" "fits 16 (- min c (- b))" using bc by auto
  obtain r1 where r1: "svcSettleToBalance (ee_lib E) u (min c (- b)) (mny_accounts s) = (Inr (), r1)"
    "movesTo u a (a\<lparr> acc_Balance := acc_Balance a + min c (- b) \<rparr>) (mny_accounts s) r1"
    using settle_moves(1) [OF L rows fit(1)] by blast
  have w: "wf_accounts r1" "FindByUID r1 u = Some (a\<lparr> acc_Balance := acc_Balance a + min c (- b) \<rparr>)"
    using r1(2) by (simp_all add: movesTo_def)
  obtain r2 where r2: "svcSettleToCredit (ee_lib E) u (- min c (- b)) r1 = (Inr (), r2)"
    "movesTo u (a\<lparr> acc_Balance := acc_Balance a + min c (- b) \<rparr>)
       (a\<lparr> acc_Balance := acc_Balance a + min c (- b), acc_Credit := acc_Credit a - min c (- b) \<rparr>) r1 r2"
    using settle_moves(2) [OF L w fit(2)] by auto
  have "coverFromCredit E u b c s = (Inr (b + creditPart b c), s\<lparr> mny_accounts := r2 \<rparr>)"
    using True r1(1) r2(1) by (simp add: coverFromCredit_def Let_def onAccounts_eq andThen_def retn_def p)
  with movesTo_trans [OF r1(2) r2(2)] show ?thesis unfolding p by blast
next
  case False
  hence "creditPart b c = 0" by (auto simp: creditPart_def)
  moreover from this False have "coverFromCredit E u b c s = (Inr (b + creditPart b c), s)"
    by (auto simp: coverFromCredit_def Let_def retn_def)
  ultimately show ?thesis using movesTo_refl [OF rows] by (intro exI [of _ "mny_accounts s"]) simp
qed

text \<open>The fund pays x: it loses x and the user's balance gains it.\<close>

lemma fund_pays:
  assumes L: "decimal_lib (ee_lib E)" and s: "backed u a F s" and x: "fits 16 x"
  shows "\<exists>s'. andThen (onInsurance (Adjust (ee_lib E) sy u 0 (- x) rm now)) (\<lambda>_. onAccounts (svcSettleToBalance (ee_lib E) u x)) s = (Inr (), s') \<and>
    FindByUID (mny_accounts s') u = Some (a\<lparr> acc_Balance := acc_Balance a + x \<rparr>) \<and>
    fst (es_fund s') = map_option (\<lambda>f. f - x) (fst (es_fund s))"
proof -
  obtain f where f: "fst (es_fund s) = Some f" "fits 16 f" using s by (auto simp: backed_def)
  have "fits 16 (f - x)" using f(2) x by auto
  hence c: "col (ee_lib E) (f - x) = f - x" by (rule col_fit [OF L])
  have rows: "wf_accounts (mny_accounts s)" "FindByUID (mny_accounts s) u = Some a" using s by (auto simp: backed_def apartRows_def)
  obtain rows' where "svcSettleToBalance (ee_lib E) u x (mny_accounts s) = (Inr (), rows')"
    "movesTo u a (a\<lparr> acc_Balance := acc_Balance a + x \<rparr>) (mny_accounts s) rows'"
    using settle_moves(1) [OF L rows x] by blast
  thus ?thesis
    by (simp add: andThen_def onInsurance_def Adjust_def FreshBalance_def Let_def f(1) c onAccounts_eq movesTo_def)
qed

text \<open>Covering x from the fund, with auto-deleveraging first when the fund holds less.\<close>

lemma coverFromFund_pays:
  assumes L: "decimal_lib (ee_lib E)" and s: "backed u a F s" and F: "fst (es_fund s) = Some F" and x: "fits 16 x"
    and flat: "\<forall>p\<in>set (positionsOfUID (mny_positions s) u). \<not> 0 < pos_Volume p"
    and run: "coverFromFund E now sy u side x s = (r, s')"
  shows "(x \<le> max F 0 \<longrightarrow> r = Inr () \<and> fst (es_fund s') = Some (F - x)) \<and>
    (r = Inr () \<longrightarrow> FindByUID (mny_accounts s') u = Some (a\<lparr> acc_Balance := acc_Balance a + x \<rparr>) \<and>
       (\<exists>f. F \<le> f \<and> fst (es_fund s') = Some (f - x)))"
proof -
  let ?pay = "andThen (onInsurance (Adjust (ee_lib E) sy u 0 (- x) RemarkShortfall now))
      (\<lambda>_. onAccounts (svcSettleToBalance (ee_lib E) u x))"
  have "onInsurance (\<lambda>f. (FreshBalance f, f)) s = (Inr F, s)" by (simp add: onInsurance_def FreshBalance_def F)
  hence go: "(r, s') = andThen (if max F 0 < x then runADL E now sy (Opposite side) (x - max F 0) else retn 0) (\<lambda>_. ?pay) s"
    using run by (simp add: coverFromFund_def Let_def)
  show ?thesis
  proof (cases "max F 0 < x")
    case False
    obtain s3 where "?pay s = (Inr (), s3)" "FindByUID (mny_accounts s3) u = Some (a\<lparr> acc_Balance := acc_Balance a + x \<rparr>)"
      "fst (es_fund s3) = map_option (\<lambda>f. f - x) (fst (es_fund s))" using fund_pays [OF L s x] by metis
    with go False F show ?thesis by auto
  next
    case adl: True
    define s3 where "s3 = snd (runADL E now sy (Opposite side) (x - max F 0) s)"
    have s3: "backed u a F s3" unfolding s3_def by (rule backed_runADL [OF L s flat])
    obtain s4 where s4: "?pay s3 = (Inr (), s4)" "FindByUID (mny_accounts s4) u = Some (a\<lparr> acc_Balance := acc_Balance a + x \<rparr>)"
      "fst (es_fund s4) = map_option (\<lambda>f. f - x) (fst (es_fund s3))" using fund_pays [OF L s3 x] by metis
    obtain f where f: "fst (es_fund s3) = Some f" "F \<le> f" using s3 by (auto simp: backed_def)
    have "r = Inr () \<Longrightarrow> s' = s4"
      using go adl s4(1) by (cases "runADL E now sy (Opposite side) (x - max F 0) s"; cases "fst (runADL E now sy (Opposite side) (x - max F 0) s)")
        (auto simp: s3_def)
    with adl s4 f show ?thesis by auto
  qed
qed


definition demoBroke :: FundingState where
  "demoBroke = demoEngine\<lparr> mny_accounts := [(hd demoAccounts)\<lparr> acc_Balance := -30, acc_Credit := 10, acc_FrozenMargin := 0 \<rparr>],
     es_orders := [] \<rparr>"

lemma CancelAllPendingOrders_none: "es_orders s = [] \<Longrightarrow> es_conds s = [] \<Longrightarrow> CancelAllPendingOrders E now u s = (Inr 0, s)"
  by (simp add: CancelAllPendingOrders_def ordFindActiveByUID_def coFindActiveByUID_def newest_first_def retn_def andThen_def failures_def)


end
