(* ===== verification/RoundClose.thy ===== *)
theory RoundClose
  imports Aftermath
begin

text \<open>
  Closing a round over several engine instances, CloseRound of src/internal/service/engine.go. Every
  instance registers all symbols of the user and works on those it owns; the round is finalised, clearing
  the account, by whoever finds all of them done. Nothing an instance does to the symbols it owns moves the
  round on or marks a symbol of another instance done.
\<close>

section \<open>The round of an account\<close>

definition inRound :: "uid \<Rightarrow> nat \<Rightarrow> Account list \<Rightarrow> bool" where
  "inRound u rnd rows \<longleftrightarrow> wf_accounts rows \<and> (\<exists>a. FindByUID rows u = Some a \<and> acc_Round a = rnd)"

lemma inRound_update:
  assumes "inRound u rnd rows" "\<And>x. acc_ID (f x) = acc_ID x" "\<And>x. acc_UID (f x) = acc_UID x" "\<And>x. acc_Round (f x) = acc_Round x"
    and "\<And>x. fits_row x \<Longrightarrow> fits_row (f x)"
  shows "inRound u rnd (sql_update p f rows)"
proof -
  obtain a where "wf_accounts rows" "FindByUID rows u = Some a" "acc_Round a = rnd" using assms(1) by (auto simp: inRound_def)
  hence "wf_accounts (sql_update p f rows)" "FindByUID (sql_update p f rows) u = Some (if p a then f a else a)"
    by (simp_all add: wf_accounts_update FindByUID_update assms)
  with \<open>acc_Round a = rnd\<close> assms(4) show ?thesis by (auto simp: inRound_def)
qed

lemma inRound_GetOrCreate:
  assumes "inRound u rnd rows"
  obtains b rows' where "GetOrCreate rows v = (Some b, rows')" "inRound u rnd rows'"
proof -
  obtain a where a: "apartRows u (Some a) rows" "acc_Round a = rnd" using assms by (auto simp: inRound_def apartRows_def)
  obtain b rows' where "GetOrCreate rows v = (Some b, rows')" "apartRows u (Some a) rows'" by (rule apart_GetOrCreate [OF a(1)]) simp
  with a(2) that show ?thesis by (auto simp: inRound_def apartRows_def)
qed

lemma inRound_withAccount:
  assumes "\<And>b rows. inRound u rnd rows \<Longrightarrow> inRound u rnd (snd (k b rows))"
  shows "keeps (inRound u rnd) (withAccount v k)"
proof (rule keepsI)
  fix rows assume "inRound u rnd rows"
  then obtain b rows' where "GetOrCreate rows v = (Some b, rows')" "inRound u rnd rows'" by (rule inRound_GetOrCreate)
  with assms show "inRound u rnd (snd (withAccount v k rows))" by (simp add: withAccount_def)
qed

lemma inRound_accounts:
  assumes L: "decimal_lib L"
  shows "keeps (inRound u rnd) (UnfreezeMargin L v x y)" "keeps (inRound u rnd) (svcSettlePnl L v x)"
    "keeps (inRound u rnd) (svcDeductFee L v x)"
proof -
  note fit = decimal_lib.col_fits [OF L]
  have stb: "inRound u rnd (SettleToBalance L i z rows)" if "inRound u rnd rows" for i z rows
    unfolding SettleToBalance_def by (rule inRound_update [OF that]) (auto simp: fits_row_def col_def fit)
  have ded: "inRound u rnd (deductWithCreditFallback L i z rows)" if "inRound u rnd rows" for i z rows
    unfolding deductWithCreditFallback_def by (rule inRound_update [OF that]) (auto simp: fits_row_def col_def fit)
  show "keeps (inRound u rnd) (UnfreezeMargin L v x y)"
    unfolding UnfreezeMargin_def AdjustFrozenMargin_def
    by (rule inRound_withAccount) (auto simp: sql_exec_eq Let_def fits_row_def col_def fit intro!: inRound_update)
  show "keeps (inRound u rnd) (svcSettlePnl L v x)"
    unfolding svcSettlePnl_def by (rule inRound_withAccount) (simp add: SettlePnl_def stb ded)
  have "keeps (inRound u rnd) (withAccount v (\<lambda>account rows. (Inr (), DeductFee L (acc_ID account) x rows)))"
    by (rule inRound_withAccount) (simp add: DeductFee_def ded)
  thus "keeps (inRound u rnd) (svcDeductFee L v x)" by (simp add: svcDeductFee_def keeps_def)
qed

section \<open>Waiting for another instance\<close>

definition awaits :: "uid \<Rightarrow> nat \<Rightarrow> symbol \<Rightarrow> 'z EngineState_scheme \<Rightarrow> bool" where
  "awaits u rnd sy s \<longleftrightarrow> inRound u rnd (mny_accounts s) \<and>
     (\<exists>r\<in>set (es_progress s). rp_UID r = u \<and> rp_Round r = rnd \<and> rp_Symbol r = sy \<and> \<not> rp_Done r)"

lemma awaits_on:
  "keeps (inRound u rnd) f \<Longrightarrow> keeps (awaits u rnd sy) (onAccounts f)" "keeps (awaits u rnd sy) (onPositions g)"
  "keeps (awaits u rnd sy) (onOrders h)" "keeps (awaits u rnd sy) (onConds k)" "keeps (awaits u rnd sy) (onBook sy' b)"
  "keeps (awaits u rnd sy) (bookTx L v sy' ty x t)" "keeps (awaits u rnd sy) (nextID E)" "keeps (awaits u rnd sy) (publish p)"
  by (auto simp: keeps_def awaits_def onAccounts_eq onPositions_eq onOrders_def onConds_def onBook_def bookTx_def nextID_def publish_def
      Let_def split: prod.splits)

lemma awaits_MarkDone: "sy' \<noteq> sy \<Longrightarrow> keeps (awaits u rnd sy) (onProgress (\<lambda>rows. (Inr (), MarkDone v rd sy' rows)))"
  by (force simp: keeps_def awaits_def onProgress_def MarkDone_def sql_update_def)

lemma awaits_publish: "keeps (awaits u rnd sy) (PublishUserSnapshot E v)"
proof (rule keepsI)
  fix s :: "'z EngineState_scheme" assume s: "awaits u rnd sy s"
  hence "inRound u rnd (mny_accounts s)" by (simp add: awaits_def)
  then obtain b rows' where "GetOrCreate (mny_accounts s) v = (Some b, rows')" "inRound u rnd rows'" by (rule inRound_GetOrCreate)
  with s show "awaits u rnd sy (snd (PublishUserSnapshot E v s))"
    by (simp add: PublishUserSnapshot_def View_def publish_def awaits_def)
qed

lemma awaits_SettleFill:
  assumes L: "decimal_lib L" and o': "ord_Action o' = ActionClose"
  shows "keeps (awaits u rnd sy) (SettleFill L coins o' v p m t)"
proof -
  have "keeps (awaits u rnd sy) (settleClose L o' v p t)"
    unfolding settleClose_def by (intro keeps_rules awaits_on inRound_accounts L)
  moreover have "keeps (awaits u rnd sy) (settleFee L c o' p m t pnl cv)" for c pnl cv
  proof (rule keepsI)
    fix s :: "'z EngineState_scheme" assume s: "awaits u rnd sy s"
    show "awaits u rnd sy (snd (settleFee L c o' p m t pnl cv s))"
      unfolding settleFee_def Let_def using s
      by (auto split: option.split intro!: keepsD_andThen [of "awaits u rnd sy"] keeps_rules awaits_on inRound_accounts L)
  qed
  ultimately show ?thesis unfolding SettleFill_def Let_def using o' by (auto intro!: keeps_rules)
qed

lemma awaits_closeOwned:
  assumes L: "decimal_lib (ee_lib E)" and foreign: "\<not> OwnsSymbol E sy"
  shows "keeps (awaits u rnd sy) (closeOwned E now v rd os cs ps sy' :: 'z EngineState_scheme \<Rightarrow> _)"
proof (cases "OwnsSymbol E sy'")
  case True
  with foreign have ne: "sy' \<noteq> sy" by auto
  have "keeps (awaits u rnd sy) (cancelConditionalOrder E now co :: 'z EngineState_scheme \<Rightarrow> _)" for co
    unfolding cancelConditionalOrder_def UnfreezeMarginOf_def by (intro keeps_rules awaits_on inRound_accounts L)
  moreover have "keeps (awaits u rnd sy) (CancelOrder E now o' :: 'z EngineState_scheme \<Rightarrow> _)" for o'
    unfolding CancelOrder_def finalizeOrderCancel_def cancelAndReleaseMargin_def UnfreezeMarginOf_def PublishDepth_def
    by (intro keeps_rules awaits_on inRound_accounts awaits_publish L)
  moreover have "keeps (awaits u rnd sy) (closePosition E now p :: 'z EngineState_scheme \<Rightarrow> _)" for p
  proof (rule keepsI)
    fix s :: "'z EngineState_scheme" assume s: "awaits u rnd sy s"
    have "keeps (awaits u rnd sy) (forceCloseOnePosition E now p v' m :: 'z EngineState_scheme \<Rightarrow> _)" for v' m
      unfolding forceCloseOnePosition_def Let_def
      by (intro keeps_rules awaits_on awaits_SettleFill L) (simp add: forcedOrder_def)
    with s show "awaits u rnd sy (snd (closePosition E now p s))"
      unfolding closePosition_def by (auto split: option.split intro!: keepsD_andThen [of "awaits u rnd sy"] keeps_rules)
  qed
  ultimately have "keeps (awaits u rnd sy) (closeRoundForSymbol E now sy' os cs ps :: 'z EngineState_scheme \<Rightarrow> _)"
    unfolding closeRoundForSymbol_def by (intro keeps_rules)
  thus ?thesis unfolding closeOwned_def by (intro keeps_rules awaits_MarkDone ne)
qed (simp add: closeOwned_def keeps_retn)

text \<open>A symbol that is not done is registered as open by Seed, or was before.\<close>

lemma seeding:
  assumes "\<And>r. r \<in> set (es_progress s) \<Longrightarrow> rp_UID r = u \<Longrightarrow> rp_Round r = rnd \<Longrightarrow> rp_Symbol r = sy \<Longrightarrow> \<not> rp_Done r"
  shows "\<exists>rows. mapEach (\<lambda>sy'. onProgress (\<lambda>rows. (Inr (), Seed u rnd sy' now rows))) syms s = (Inr (map (\<lambda>_. ()) syms), s\<lparr> es_progress := rows \<rparr>) \<and>
    (\<forall>r\<in>set rows. rp_UID r = u \<longrightarrow> rp_Round r = rnd \<longrightarrow> rp_Symbol r = sy \<longrightarrow> \<not> rp_Done r) \<and> set (es_progress s) \<subseteq> set rows \<and>
    (sy \<in> set syms \<longrightarrow> (\<exists>r\<in>set rows. rp_UID r = u \<and> rp_Round r = rnd \<and> rp_Symbol r = sy))"
  using assms
proof (induction syms arbitrary: s)
  case Nil
  thus ?case by (intro exI [of _ "es_progress s"]) (auto simp: retn_def)
next
  case (Cons sy' syms)
  let ?rows1 = "Seed u rnd sy' now (es_progress s)"
  have one: "onProgress (\<lambda>rows. (Inr (), Seed u rnd sy' now rows)) s = (Inr (), s\<lparr> es_progress := ?rows1 \<rparr>)"
    by (simp add: onProgress_def)
  have mem: "r \<in> set ?rows1 \<Longrightarrow> r \<in> set (es_progress s) \<or> \<not> rp_Done r" for r by (auto simp: Seed_def split: if_splits)
  hence "\<And>r. r \<in> set ?rows1 \<Longrightarrow> rp_UID r = u \<Longrightarrow> rp_Round r = rnd \<Longrightarrow> rp_Symbol r = sy \<Longrightarrow> \<not> rp_Done r"
    and sub: "set (es_progress s) \<subseteq> set ?rows1" and has: "\<exists>r\<in>set ?rows1. rp_UID r = u \<and> rp_Round r = rnd \<and> rp_Symbol r = sy'"
    using Cons.prems by (auto simp: Seed_def split: if_splits)
  with Cons.IH [of "s\<lparr> es_progress := ?rows1 \<rparr>"] obtain rows where
    rows: "mapEach (\<lambda>sy'. onProgress (\<lambda>rows. (Inr (), Seed u rnd sy' now rows))) syms (s\<lparr> es_progress := ?rows1 \<rparr>) =
      (Inr (map (\<lambda>_. ()) syms), s\<lparr> es_progress := rows \<rparr>)"
    "\<forall>r\<in>set rows. rp_UID r = u \<longrightarrow> rp_Round r = rnd \<longrightarrow> rp_Symbol r = sy \<longrightarrow> \<not> rp_Done r" "set ?rows1 \<subseteq> set rows"
    "sy \<in> set syms \<longrightarrow> (\<exists>r\<in>set rows. rp_UID r = u \<and> rp_Round r = rnd \<and> rp_Symbol r = sy)" by auto
  have "sy \<in> set (sy' # syms) \<longrightarrow> (\<exists>r\<in>set rows. rp_UID r = u \<and> rp_Round r = rnd \<and> rp_Symbol r = sy)"
    using rows(3,4) has by auto
  with rows sub show ?case by (intro exI [of _ rows]) (auto simp: one retn_def andThen_def)
qed

section \<open>Closing a round\<close>

definition roundSymbols :: "uid \<Rightarrow> 'z EngineState_scheme \<Rightarrow> symbol list" where
  "roundSymbols u s = collectRoundCloseSymbols (ordFindActiveByUID (es_orders s) u []) (coFindActiveByUID (es_conds s) u [])
     (positionsOfUID (mny_positions s) u)"

lemma CloseRound_awaits:
  assumes L: "decimal_lib (ee_lib E)" and s: "inRound u rnd (mny_accounts (s :: 'z EngineState_scheme))"
    and sy: "sy \<in> set (roundSymbols u s)" "\<not> OwnsSymbol E sy"
    and todo: "\<And>r. r \<in> set (es_progress s) \<Longrightarrow> rp_UID r = u \<Longrightarrow> rp_Round r = rnd \<Longrightarrow> rp_Symbol r = sy \<Longrightarrow> \<not> rp_Done r"
  shows "awaits u rnd sy (snd (CloseRound E now u rnd s))"
proof -
  let ?os = "ordFindActiveByUID (es_orders s) u []" and ?cs = "coFindActiveByUID (es_conds s) u []"
    and ?ps = "positionsOfUID (mny_positions s) u" and ?syms = "roundSymbols u s"
  obtain a where a: "FindByUID (mny_accounts s) u = Some a" "acc_Round a = rnd" using s by (auto simp: inRound_def)
  obtain rows where seeded: "mapEach (\<lambda>sy. onProgress (\<lambda>rows. (Inr (), Seed u rnd sy now rows))) ?syms s =
      (Inr (map (\<lambda>_. ()) ?syms), s\<lparr> es_progress := rows \<rparr>)"
    "\<exists>r\<in>set rows. rp_UID r = u \<and> rp_Round r = rnd \<and> rp_Symbol r = sy \<and> \<not> rp_Done r"
    using seeding [of s u rnd sy now ?syms] todo sy(1) by blast
  have w: "awaits u rnd sy (s\<lparr> es_progress := rows \<rparr>)" using s seeded(2) by (simp add: awaits_def)
  have fin: "keeps (awaits u rnd sy) (tryFinalizeCloseRound E now u rnd :: 'z EngineState_scheme \<Rightarrow> _)"
  proof (rule keepsI)
    fix t :: "'z EngineState_scheme" assume t: "awaits u rnd sy t"
    hence "\<not> AllDone u rnd (es_progress t)" by (auto simp: awaits_def AllDone_def sql_affected_def filter_empty_conv)
    with t show "awaits u rnd sy (snd (tryFinalizeCloseRound E now u rnd t))"
      by (simp add: tryFinalizeCloseRound_def onProgress_def retn_def)
  qed
  have "CloseRound E now u rnd s =
      andThen (mapEach (closeOwned E now u rnd ?os ?cs ?ps) ?syms) (\<lambda>_. tryFinalizeCloseRound E now u rnd) (s\<lparr> es_progress := rows \<rparr>)"
    using a seeded(1)
    by (simp add: CloseRound_def onAccounts_eq withAccount_Some Let_def flip: roundSymbols_def)
  moreover have "keeps (awaits u rnd sy) (andThen (mapEach (closeOwned E now u rnd ?os ?cs ?ps) ?syms) (\<lambda>_. tryFinalizeCloseRound E now u rnd) ::
      'z EngineState_scheme \<Rightarrow> _)"
    by (intro keeps_rules awaits_closeOwned L sy(2) fin)
  ultimately show ?thesis using keepsD [where P = "awaits u rnd sy", OF _ w] by simp
qed

lemma PublishUserSnapshot_known:
  assumes "FindByUID (mny_accounts t) u = Some a"
  shows "\<exists>p. PublishUserSnapshot E u t = (Inr (), t\<lparr> es_pushes := es_pushes t @ [p] \<rparr>)"
proof -
  have same: "t\<lparr> mny_accounts := mny_accounts t \<rparr> = t" by simp
  have "GetOrCreate (mny_accounts t) u = (Some a, mny_accounts t)" using assms by simp
  thus ?thesis unfolding PublishUserSnapshot_def View_def by (simp add: publish_def same, blast)
qed

lemma tryFinalizeCloseRound_clears:
  assumes L: "decimal_lib (ee_lib E)" and rows: "wf_accounts (mny_accounts s)" "FindByUID (mny_accounts s) u = Some a" "acc_Round a = rnd"
    and alldone: "AllDone u rnd (es_progress s)" "\<not> ee_closeBusy E u rnd"
  shows "\<exists>s'. tryFinalizeCloseRound E now u rnd s = (Inr (), s') \<and>
    FindByUID (mny_accounts s') u = Some (a\<lparr> acc_Credit := 0, acc_Balance := 0, acc_IsInsured := False, acc_Round := rnd + 1 \<rparr>) \<and>
    (\<forall>r\<in>set (es_progress s'). \<not> (rp_UID r = u \<and> rp_Round r = rnd))"
proof -
  have id: "FindByID (mny_accounts s) (acc_ID a) = Some a" by (rule FindByUID_ID [OF rows(1,2)])
  let ?f = "\<lambda>a. a\<lparr> acc_Credit := 0, acc_Balance := 0, acc_IsInsured := False, acc_Round := acc_Round a + 1 \<rparr>"
  define rows' where "rows' = sql_update (\<lambda>b. acc_ID b = acc_ID a \<and> acc_Round b = rnd) ?f (mny_accounts s)"
  obtain txs where close: "acctCloseRound (ee_lib E) now u rnd (mny_accounts s, mny_txs s) = (Inr True, (rows', txs))"
    using rows CloseRoundIfRound_row [OF L rows(1) id, of rnd] by (auto simp: acctCloseRound_def rows'_def Let_def)
  have new: "FindByUID rows' u = Some (?f a)" using rows by (simp add: rows'_def FindByUID_update)
  from PublishUserSnapshot_known [of "s\<lparr> mny_accounts := rows', mny_txs := txs, es_progress := DeleteProgress u rnd (es_progress s) \<rparr>" u _ E]
  obtain p where "PublishUserSnapshot E u (s\<lparr> mny_accounts := rows', mny_txs := txs, es_progress := DeleteProgress u rnd (es_progress s) \<rparr>) =
      (Inr (), s\<lparr> mny_accounts := rows', mny_txs := txs, es_progress := DeleteProgress u rnd (es_progress s), es_pushes := es_pushes s @ [p] \<rparr>)"
    using new by auto
  with alldone close new rows(3) show ?thesis
    by (simp add: tryFinalizeCloseRound_def onProgress_def onFunds_eq andThen_def DeleteProgress_def)
qed

text \<open>C20. A round ends once, and not before every instance has done its part. For a user whose account is known:
  a request for another round than the current one changes nothing; an instance that does not own one of
  the symbols with pending orders or positions of this round, and does not find it marked done, leaves the
  account in its round whatever it does to its own symbols; and once no symbol is left open, finalising
  succeeds, clears balance, credit and insurance, moves to the next round and removes the progress rows,
  after which a request for the finished round is one of the first kind.\<close>

theorem CloseRound_waits_for_all:
  assumes L: "decimal_lib (ee_lib E)" and rows: "wf_accounts (mny_accounts s)" "FindByUID (mny_accounts s) u = Some a"
  shows "(acc_Round a \<noteq> rnd \<longrightarrow> CloseRound E now u rnd s = (Inr (), s)) \<and>
    (acc_Round a = rnd \<longrightarrow>
       (\<forall>sy\<in>set (roundSymbols u s). \<not> OwnsSymbol E sy \<longrightarrow>
          (\<forall>r\<in>set (es_progress s). rp_UID r = u \<longrightarrow> rp_Round r = rnd \<longrightarrow> rp_Symbol r = sy \<longrightarrow> \<not> rp_Done r) \<longrightarrow>
          (\<exists>a'. FindByUID (mny_accounts (snd (CloseRound E now u rnd s))) u = Some a' \<and> acc_Round a' = rnd)) \<and>
       (AllDone u rnd (es_progress s) \<longrightarrow> \<not> ee_closeBusy E u rnd \<longrightarrow>
          (\<exists>s'. tryFinalizeCloseRound E now u rnd s = (Inr (), s') \<and>
             FindByUID (mny_accounts s') u = Some (a\<lparr> acc_Credit := 0, acc_Balance := 0, acc_IsInsured := False, acc_Round := rnd + 1 \<rparr>) \<and>
             (\<forall>r\<in>set (es_progress s'). \<not> (rp_UID r = u \<and> rp_Round r = rnd)))))"
proof -
  have stale: "CloseRound E now u rnd s = (Inr (), s)" if "acc_Round a \<noteq> rnd"
    using that rows(2) by (simp add: CloseRound_def onAccounts_eq withAccount_Some)
  have waits: "\<exists>a'. FindByUID (mny_accounts (snd (CloseRound E now u rnd s))) u = Some a' \<and> acc_Round a' = rnd"
    if "acc_Round a = rnd" "sy \<in> set (roundSymbols u s)" "\<not> OwnsSymbol E sy"
      "\<forall>r\<in>set (es_progress s). rp_UID r = u \<longrightarrow> rp_Round r = rnd \<longrightarrow> rp_Symbol r = sy \<longrightarrow> \<not> rp_Done r" for sy
    using CloseRound_awaits [OF L _ that(2,3), of rnd now] rows that(1,4) by (auto simp: awaits_def inRound_def)
  from stale waits tryFinalizeCloseRound_clears [OF L rows] show ?thesis by blast
qed

lemma CloseRound_waits_for_all_witness:
  "(\<exists>a'. FindByUID (mny_accounts (snd (CloseRound (demoEnv\<lparr> ee_engineSymbols := [''ETHUSDT''] \<rparr>) 5 7 1 demoEngine))) 7 = Some a' \<and> acc_Round a' = 1) \<and>
   (\<exists>s' a'. tryFinalizeCloseRound (demoEnv\<lparr> ee_engineSymbols := [''ETHUSDT''] \<rparr>) 5 7 1 demoEngine = (Inr (), s') \<and>
      FindByUID (mny_accounts s') 7 = Some a' \<and> acc_Round a' = 2 \<and> acc_Balance a' = 0) \<and>
   CloseRound (demoEnv\<lparr> ee_engineSymbols := [''ETHUSDT''] \<rparr>) 5 7 2 demoEngine = (Inr (), demoEngine)"
proof -
  let ?E = "demoEnv\<lparr> ee_engineSymbols := [''ETHUSDT''] \<rparr>"
  have h: "decimal_lib (ee_lib ?E)" "wf_accounts (mny_accounts demoEngine)" "FindByUID (mny_accounts demoEngine) 7 = Some (hd demoAccounts)"
    using wf_demoAccounts by (simp_all add: demoEnv_def std_decimal_lib demoEngine_def FindByUID_def sql_first_def demoAccounts_def)
  have sy: "''BTCUSDT'' \<in> set (roundSymbols 7 demoEngine)" by code_simp
  have p: "\<not> OwnsSymbol ?E ''BTCUSDT''" "es_progress demoEngine = []" "AllDone 7 1 []" "\<not> ee_closeBusy ?E 7 1" "acc_Round (hd demoAccounts) = 1"
    by (simp_all add: OwnsSymbol_def demoEngine_def AllDone_def sql_affected_def demoEnv_def demoAccounts_def)
  have cur: "acc_Round (hd demoAccounts) = 1" and old: "acc_Round (hd demoAccounts) \<noteq> 2" using p(5) by simp_all
  note th = CloseRound_waits_for_all [OF h, of 1 5, THEN conjunct2, THEN mp, OF cur]
  have none: "\<forall>r\<in>set (es_progress demoEngine). rp_UID r = 7 \<longrightarrow> rp_Round r = 1 \<longrightarrow> rp_Symbol r = ''BTCUSDT'' \<longrightarrow> \<not> rp_Done r"
    using p(2) by simp
  have A: "\<exists>a'. FindByUID (mny_accounts (snd (CloseRound ?E 5 7 1 demoEngine))) 7 = Some a' \<and> acc_Round a' = 1"
    by (rule th [THEN conjunct1, THEN bspec, OF sy, THEN mp, OF p(1), THEN mp, OF none])
  have alldone: "AllDone 7 1 (es_progress demoEngine)" using p(2,3) by simp
  obtain s' where "tryFinalizeCloseRound ?E 5 7 1 demoEngine = (Inr (), s')"
    "FindByUID (mny_accounts s') 7 = Some ((hd demoAccounts)\<lparr> acc_Credit := 0, acc_Balance := 0, acc_IsInsured := False, acc_Round := 1 + 1 \<rparr>)"
    using th [THEN conjunct2, THEN mp, OF alldone, THEN mp, OF p(4)] by blast
  hence B: "\<exists>s' a'. tryFinalizeCloseRound ?E 5 7 1 demoEngine = (Inr (), s') \<and> FindByUID (mny_accounts s') 7 = Some a' \<and>
      acc_Round a' = 2 \<and> acc_Balance a' = 0" by simp
  have C: "CloseRound ?E 5 7 2 demoEngine = (Inr (), demoEngine)"
    by (rule CloseRound_waits_for_all [OF h, of 2 5, THEN conjunct1, THEN mp, OF old])
  from A B C show ?thesis by (intro conjI)
qed

end
