(* ===== verification/RiskScan.thy ===== *)
theory RiskScan
  imports Aftermath
begin

text \<open>
  Which positions a risk scan starts to liquidate, RiskScanOnce, OnMarkPriceChanged and checkAndLiquidate of
  src/internal/service/liquidation.go: a specification of the positions that are due, on the tables as they are when the scan starts, and
  the proof that the scan, which handles one user after another and pays insurance and cancels orders in between, starts exactly those; and in which
  state the loop that liquidates a position leaves it.
\<close>

section \<open>The positions that are due\<close>

text \<open>The value of an account is what it owns plus the profit of its open positions at the marks that exist; it must stay above the part of
  the own money that may not be lost: nothing, or a fifth when the account is insured.\<close>

definition accountValue :: "Marks \<Rightarrow> Account \<Rightarrow> Position list \<Rightarrow> dec" where
  "accountValue marks a ps =
     acc_Balance a + acc_Credit a + (\<Sum>p\<leftarrow>ps. case marks (pos_Symbol p) of None \<Rightarrow> 0 | Some m \<Rightarrow> UnrealizedPnl p m)"

definition mustLiquidate :: "EngineEnv \<Rightarrow> int \<Rightarrow> 'z EngineState_scheme \<Rightarrow> uid \<Rightarrow> bool" where
  "mustLiquidate E now s u \<longleftrightarrow>
     (\<exists>a. FindByUID (mny_accounts s) u = Some a \<and>
        (\<forall>p\<in>set (positionsOfUID (mny_positions s) u). snd (Lookup (ee_mark E) now (es_marks s (pos_Symbol p))) \<noteq> MarkStale) \<and>
        accountValue (marksOf s) a (positionsOfUID (mny_positions s) u)
          \<le> (if acc_IsInsured a then (acc_Balance a + acc_Credit a) / 5 else 0))"

definition dueNow :: "EngineEnv \<Rightarrow> int \<Rightarrow> 'z EngineState_scheme \<Rightarrow> Position \<Rightarrow> bool" where
  "dueNow E now s p \<longleftrightarrow>
     0 < pos_Volume p \<and> pos_Status p = PositionStatusNormal \<and> OwnsSymbol E (pos_Symbol p) \<and> pos_UID p \<noteq> UID \<and> mustLiquidate E now s (pos_UID p)"

lemma TotalUnrealizedPnlOf_sum:
  "TotalUnrealizedPnlOf marks (positionsOfUID rows u) =
     (\<Sum>p\<leftarrow>positionsOfUID rows u. case marks (pos_Symbol p) of None \<Rightarrow> 0 | Some m \<Rightarrow> UnrealizedPnl p m)"
proof -
  have "foldl (\<lambda>acc p. if pos_Volume p \<le> 0 then acc
                    else (case marks (pos_Symbol p) of None \<Rightarrow> acc | Some mark \<Rightarrow> acc + UnrealizedPnl p mark)) z ps =
      z + (\<Sum>p\<leftarrow>ps. case marks (pos_Symbol p) of None \<Rightarrow> 0 | Some m \<Rightarrow> UnrealizedPnl p m)"
    if "\<forall>p\<in>set ps. 0 < pos_Volume p" for z ps
    using that by (induction ps arbitrary: z) (auto split: option.split)
  thus ?thesis by (simp add: TotalUnrealizedPnlOf_def positionsOfUID_def)
qed

lemma maintainTotal_eq: "maintainTotal a = (if acc_IsInsured a then (acc_Balance a + acc_Credit a) / 5 else 0)"
  by (simp add: maintainTotal_def lossRatioFor_def LossRatioInsured_def LossRatioUninsured_def)

lemma Equity_eq: "Equity a (TotalUnrealizedPnlOf marks (positionsOfUID rows u)) = accountValue marks a (positionsOfUID rows u)"
  by (simp add: Equity_def accountValue_def TotalUnrealizedPnlOf_sum)

section \<open>What is left alone\<close>

text \<open>The row of v, the positions and the price cache stay as they are.\<close>

definition spared :: "uid \<Rightarrow> Account option \<Rightarrow> Position list \<Rightarrow> (symbol \<Rightarrow> markCache) \<Rightarrow> 'z EngineState_scheme \<Rightarrow> bool" where
  "spared v x X M s \<longleftrightarrow> apartRows v x (mny_accounts s) \<and> mny_positions s = X \<and> es_marks s = M"

lemma spared_on:
  "keeps (apartRows v x) f \<Longrightarrow> keeps (spared v x X M) (onAccounts f)" "keeps (spared v x X M) (onOrders h)"
  "keeps (spared v x X M) (onConds k)" "keeps (spared v x X M) (onBook sy b)" "keeps (spared v x X M) (publish p)"
  "keeps (\<lambda>st. apartRows v x (fst st)) g \<Longrightarrow> keeps (spared v x X M) (onFunds g)"
  by (auto simp: keeps_def spared_def onAccounts_eq onFunds_eq onOrders_def onConds_def onBook_def publish_def Let_def split: prod.splits)

lemma spared_snapshot:
  assumes "v \<noteq> u" shows "keeps (spared v x X M) (PublishUserSnapshot E u)"
proof (rule keepsI)
  fix s :: "'z EngineState_scheme" assume s: "spared v x X M s"
  hence "apartRows v x (mny_accounts s)" by (simp add: spared_def)
  then obtain b rows' where "GetOrCreate (mny_accounts s) u = (Some b, rows')" "apartRows v x rows'"
    by (rule apart_GetOrCreate) (use assms in auto)
  with s show "spared v x X M (snd (PublishUserSnapshot E u s))" by (simp add: PublishUserSnapshot_def View_def publish_def spared_def)
qed

lemma spared_cancels:
  assumes L: "decimal_lib (ee_lib E)" and v: "v \<noteq> u"
  shows "keeps (spared v x X M) (CancelAllPendingOrders E now u :: 'z EngineState_scheme \<Rightarrow> _)"
proof -
  have o': "keeps (spared v x X M) (CancelOrder E now o' :: 'z EngineState_scheme \<Rightarrow> _)" if "ord_UID o' = u" for o'
    unfolding CancelOrder_def finalizeOrderCancel_def cancelAndReleaseMargin_def UnfreezeMarginOf_def PublishDepth_def
    by (intro keeps_rules spared_on apart_accounts spared_snapshot L) (use that v in auto)
  have co: "keeps (spared v x X M) (cancelConditionalOrder E now co :: 'z EngineState_scheme \<Rightarrow> _)" if "co_UID co = u" for co
    unfolding cancelConditionalOrder_def UnfreezeMarginOf_def
    by (intro keeps_rules spared_on apart_accounts L) (use that v in auto)
  show ?thesis
  proof (rule keepsI)
    fix s :: "'z EngineState_scheme" assume s: "spared v x X M s"
    let ?os = "filter (\<lambda>o'. \<not> (ord_Liquidation o' \<or> \<not> OwnsSymbol E (ord_Symbol o'))) (ordFindActiveByUID (es_orders s) u [])"
    have first: "keeps (spared v x X M) (mapEach (\<lambda>o'. tolerate (CancelOrder E now o')) ?os :: 'z EngineState_scheme \<Rightarrow> _)"
      by (intro keeps_rules o') (auto simp: ordFindActiveByUID_def newest_first_def)
    have "keeps (spared v x X M) (\<lambda>s1 :: 'z EngineState_scheme. andThen (mapEach (\<lambda>co. tolerate (cancelConditionalOrder E now co)) (coFindActiveByUID (es_conds s1) u []))
        (\<lambda>rs'. retn (failures rs + failures rs')) s1)" for rs :: "unit option list"
    proof (rule keepsI)
      fix s1 :: "'z EngineState_scheme" assume "spared v x X M s1"
      moreover have "keeps (spared v x X M) (andThen (mapEach (\<lambda>co. tolerate (cancelConditionalOrder E now co)) (coFindActiveByUID (es_conds s1) u []))
          (\<lambda>rs'. retn (failures rs + failures rs')) :: 'z EngineState_scheme \<Rightarrow> _)"
        by (intro keeps_rules co) (auto simp: coFindActiveByUID_def newest_first_def)
      ultimately show "spared v x X M (snd (andThen (mapEach (\<lambda>co. tolerate (cancelConditionalOrder E now co)) (coFindActiveByUID (es_conds s1) u []))
        (\<lambda>rs'. retn (failures rs + failures rs')) s1))" by (simp add: keeps_def)
    qed
    from keepsD [OF keeps_andThen [OF first this] s] show "spared v x X M (snd (CancelAllPendingOrders E now u s))"
      by (simp add: CancelAllPendingOrders_def)
  qed
qed

lemma apart_GrantCredit:
  assumes L: "decimal_lib L" and v: "v \<noteq> u"
  shows "keeps (\<lambda>st. apartRows v x (fst st)) (GrantCredit L fp sd sn vic now u amount reqID)"
proof (rule keepsI)
  fix st :: FundState assume st: "apartRows v x (fst st)"
  have upd: "apartRows v x (snd (fundUpdate L op (fst st)))" if "FindByUID (fst st) u = Some b" "fop_AccountID op = acc_ID b" for op b
    using apart_update [OF st that(1), where g = "\<lambda>_. True"] v decimal_lib.col_fits [OF L]
    by (auto simp: fundUpdate_def that(2) fits_row_def col_def split: FundOpKind.split intro: apart_update [OF st that(1)])
  show "apartRows v x (fst (snd (GrantCredit L fp sd sn vic now u amount reqID st)))"
  proof (cases "FindByUID (fst st) u")
    case (Some b)
    show ?thesis
    proof (cases "0 < amount \<and> acc_IsInsured b")
      case True
      let ?op = "\<lparr> fop_AccountID = acc_ID b, fop_UID = u, fop_Kind = FundOpGrantCredit,
                   fop_Amount = amount, fop_TxType = TxCreditGrant, fop_RequestID = reqID,
                   fop_RequestHash = fp [''credit'', sn u, sd amount], fop_Now = now \<rparr>"
      have g: "GrantCredit L fp sd sn vic now u amount reqID st = ApplyFundOp L vic ?op st" using Some True by (simp add: GrantCredit_def)
      obtain r st' where a: "ApplyFundOp L vic ?op st = (r, st')" by (metis prod.exhaust)
      have "apartRows v x (fst st')"
        using a by (cases rule: ApplyFundOp_cases) (use st upd [OF Some, of ?op] in auto)
      with g a show ?thesis by simp
    qed (use st Some in \<open>auto simp: GrantCredit_def\<close>)
  qed (use st in \<open>auto simp: GrantCredit_def\<close>)
qed

lemma spared_insurance:
  assumes "decimal_lib (ee_lib E)" "v \<noteq> acc_UID a"
  shows "keeps (spared v x X M) (payInsurance E now a)"
  unfolding payInsurance_def Let_def by (intro keeps_rules spared_on apart_GrantCredit assms)

section \<open>Marking positions\<close>

text \<open>The table in which the normal positions with these ids are being liquidated.\<close>

definition marked :: "nat set \<Rightarrow> Position list \<Rightarrow> Position list" where
  "marked I = sql_update (\<lambda>p. pos_ID p \<in> I \<and> pos_Status p = PositionStatusNormal) (\<lambda>p. p\<lparr> pos_Status := PositionStatusLiquidating \<rparr>)"

lemma marked_empty [simp]: "marked {} rows = rows"
  by (simp add: marked_def sql_update_def)

lemma marked_marked [simp]: "marked J (marked I rows) = marked (I \<union> J) rows"
  by (auto simp: marked_def sql_update_def)

lemma marked_keeps: "p \<in> set rows \<Longrightarrow> pos_ID p \<notin> I \<Longrightarrow> p \<in> set (marked I rows)"
  by (force simp: marked_def sql_update_def)

lemma MarkLiquidating_marked:
  "p \<in> set rows \<Longrightarrow> pos_Status p = PositionStatusNormal \<Longrightarrow> MarkLiquidating (pos_ID p) rows = (True, marked {pos_ID p} rows)"
  by (auto simp: MarkLiquidating_def sql_exec_eq marked_def)

lemma positionsOfUID_marked:
  assumes "\<And>p. p \<in> set rows \<Longrightarrow> pos_UID p = u \<Longrightarrow> pos_ID p \<notin> I"
  shows "positionsOfUID (marked I rows) u = positionsOfUID rows u"
  using assms by (induction rows) (auto simp: marked_def sql_update_def positionsOfUID_def)

text \<open>Starting a list of positions of one user.\<close>

lemma queue_each:
  assumes "mapEach (queueLiquidation E) ps z = (Inr cs, t)" "set ps \<subseteq> set (mny_positions z)" "distinct (map pos_ID ps)"
    and "\<And>p. p \<in> set ps \<Longrightarrow> pos_Status p = PositionStatusNormal \<and> pos_UID p = u"
  shows "concat cs = map posKey ps \<and> mny_positions t = marked (pos_ID ` set ps) (mny_positions z) \<and> es_marks t = es_marks z \<and>
    (\<forall>v x. v \<noteq> u \<longrightarrow> apartRows v x (mny_accounts z) \<longrightarrow> apartRows v x (mny_accounts t))"
  using assms
proof (induction ps arbitrary: z cs)
  case (Cons p ps)
  have p: "p \<in> set (mny_positions z)" "pos_Status p = PositionStatusNormal" "pos_UID p = u" using Cons.prems by auto
  let ?z = "z\<lparr> mny_positions := marked {pos_ID p} (mny_positions z) \<rparr>"
  from Cons.prems(1) obtain c cs1 z1 where q: "queueLiquidation E p z = (Inr c, z1)" "mapEach (queueLiquidation E) ps z1 = (Inr cs1, t)"
    "cs = c # cs1" by (auto simp: andThen_def retn_def split: prod.splits sum.splits)
  have m: "MarkLiquidating (pos_ID p) (mny_positions z) = (True, marked {pos_ID p} (mny_positions z))"
    by (rule MarkLiquidating_marked [OF p(1,2)])
  with q(1) have c: "c = [posKey p]" and z1: "z1 = snd (PublishUserSnapshot E u ?z)"
    by (auto simp: queueLiquidation_def andThen_def onPositions_def retn_def posKey_def p(3) split: prod.splits sum.splits)
  have frame: "mny_positions z1 = marked {pos_ID p} (mny_positions z)" "es_marks z1 = es_marks z"
    by (auto simp: z1 PublishUserSnapshot_def publish_def split: prod.splits option.splits)
  have others: "apartRows v x (mny_accounts z1)" if "v \<noteq> u" "apartRows v x (mny_accounts z)" for v x
    using keepsD [OF spared_snapshot [OF that(1)], of x "mny_positions ?z" "es_marks z" ?z E] that(2) by (simp add: spared_def z1)
  have "set ps \<subseteq> set (mny_positions z1)"
  proof
    fix r assume "r \<in> set ps"
    with Cons.prems(2,3) have "r \<in> set (mny_positions z)" "pos_ID r \<noteq> pos_ID p" by (auto simp: image_iff)
    thus "r \<in> set (mny_positions z1)" by (simp add: frame marked_keeps)
  qed
  moreover have "distinct (map pos_ID ps)" using Cons.prems(3) by simp
  moreover have "\<And>p. p \<in> set ps \<Longrightarrow> pos_Status p = PositionStatusNormal \<and> pos_UID p = u" using Cons.prems(4) by simp
  ultimately have "concat cs1 = map posKey ps \<and> mny_positions t = marked (pos_ID ` set ps) (mny_positions z1) \<and> es_marks t = es_marks z1 \<and>
      (\<forall>v x. v \<noteq> u \<longrightarrow> apartRows v x (mny_accounts z1) \<longrightarrow> apartRows v x (mny_accounts t))"
    by (rule Cons.IH [OF q(2)])
  with others show ?case by (simp add: q(3) c frame)
qed (simp add: retn_def)

section \<open>One user\<close>

text \<open>The positions a check of one user starts.\<close>

definition startsFor :: "EngineEnv \<Rightarrow> int \<Rightarrow> 'z EngineState_scheme \<Rightarrow> uid \<Rightarrow> Position list" where
  "startsFor E now s u =
     (if mustLiquidate E now s u
      then filter (\<lambda>p. OwnsSymbol E (pos_Symbol p)) (filter (\<lambda>p. 0 < pos_Volume p \<and> pos_Status p = PositionStatusNormal) (positionsOfUID (mny_positions s) u))
      else [])"

lemma set_startsFor: "set (startsFor E now s u) =
  {p \<in> set (mny_positions s). pos_UID p = u \<and> 0 < pos_Volume p \<and> pos_Status p = PositionStatusNormal \<and> OwnsSymbol E (pos_Symbol p) \<and> mustLiquidate E now s u}"
  by (auto simp: startsFor_def positionsOfUID_def)

lemma distinct_startsFor: "distinct (map k (mny_positions s)) \<Longrightarrow> distinct (map k (startsFor E now s u))"
  by (simp add: startsFor_def positionsOfUID_def distinct_map_filter)

lemma stale_open: "(\<exists>p\<in>set (positionsOfUID rows u). 0 < pos_Volume p \<and> P p) \<longleftrightarrow> (\<exists>p\<in>set (positionsOfUID rows u). P p)"
  by (auto simp: positionsOfUID_def)

lemma checkAndLiquidate_idle:
  "positionsOfUID (mny_positions z) u = [] \<or> \<not> mustLiquidate E now z u \<Longrightarrow> checkAndLiquidate E now u z = (Inr [], z)"
  unfolding checkAndLiquidate_def Let_def stale_open maintainTotal_eq Equity_eq mustLiquidate_def
  by (cases "FindByUID (mny_accounts z) u") (auto simp: not_less)

lemma checkAndLiquidate_due:
  assumes "FindByUID (mny_accounts z) u = Some a" "mustLiquidate E now z u" "positionsOfUID (mny_positions z) u \<noteq> []"
  shows "checkAndLiquidate E now u z =
    (let pending = filter (\<lambda>p. 0 < pos_Volume p \<and> pos_Status p = PositionStatusNormal) (positionsOfUID (mny_positions z) u) in
     andThen (payInsurance E now a)
      (\<lambda>_. if pending = [] then retn []
           else andThen (CancelAllPendingOrders E now u)
             (\<lambda>_. andThen (mapEach (queueLiquidation E) (startsFor E now z u)) (\<lambda>started. retn (concat started)))) z)"
proof -
  have "\<not> (\<exists>p\<in>set (positionsOfUID (mny_positions z) u). snd (Lookup (ee_mark E) now (es_marks z (pos_Symbol p))) = MarkStale)"
    "\<not> maintainTotal a < Equity a (TotalUnrealizedPnlOf (marksOf z) (positionsOfUID (mny_positions z) u))"
    using assms(1,2) by (auto simp: mustLiquidate_def maintainTotal_eq Equity_eq not_less)
  with assms show ?thesis unfolding checkAndLiquidate_def Let_def stale_open by (simp add: startsFor_def)
qed

lemma check_starts:
  assumes L: "decimal_lib (ee_lib E)" and wf: "wf_accounts (mny_accounts z)" "distinct (map pos_ID (mny_positions z))"
    and run: "checkAndLiquidate E now u z = (Inr cs, t)"
  shows "cs = map posKey (startsFor E now z u) \<and> mny_positions t = marked (pos_ID ` set (startsFor E now z u)) (mny_positions z) \<and>
    es_marks t = es_marks z \<and> (\<forall>v x. v \<noteq> u \<longrightarrow> apartRows v x (mny_accounts z) \<longrightarrow> apartRows v x (mny_accounts t))"
proof -
  let ?ps = "positionsOfUID (mny_positions z) u"
  let ?pending = "filter (\<lambda>p. 0 < pos_Volume p \<and> pos_Status p = PositionStatusNormal) ?ps"
  show ?thesis
  proof (cases "?ps \<noteq> [] \<and> mustLiquidate E now z u")
    case False
    hence none: "startsFor E now z u = []" by (auto simp: startsFor_def)
    from False run checkAndLiquidate_idle [of z u E now] have "cs = [] \<and> t = z" by auto
    with none show ?thesis by simp
  next
    case True
    then obtain a where a: "FindByUID (mny_accounts z) u = Some a" by (auto simp: mustLiquidate_def)
    have go: "andThen (payInsurance E now a)
        (\<lambda>_. if ?pending = [] then retn []
             else andThen (CancelAllPendingOrders E now u)
               (\<lambda>_. andThen (mapEach (queueLiquidation E) (startsFor E now z u)) (\<lambda>started. retn (concat started)))) z = (Inr cs, t)"
      using run checkAndLiquidate_due [OF a] True by (simp add: Let_def)
    have u: "acc_UID a = u" using FindByUID_Some [OF a] by simp
    note ins = keepsD [OF spared_insurance [OF L]]
    obtain z1 where z1: "payInsurance E now a z = (Inr (), z1)"
      using go by (cases "payInsurance E now a z"; cases "fst (payInsurance E now a z)") auto
    obtain v where v: "v \<noteq> u" by (metis n_not_Suc_n)
    have apart1: "spared v x (mny_positions z) (es_marks z) z1" if "v \<noteq> u" "apartRows v x (mny_accounts z)" for v x
      using ins [of v a x "mny_positions z" "es_marks z" z now] that z1 u by (simp add: spared_def)
    have self: "apartRows v (FindByUID (mny_accounts z) v) (mny_accounts z)" using wf(1) by (simp add: apartRows_def)
    from apart1 [OF v self] have keep1: "mny_positions z1 = mny_positions z" "es_marks z1 = es_marks z" by (simp_all add: spared_def)
    show ?thesis
    proof (cases "?pending = []")
      case True
      with go z1 have "cs = [] \<and> t = z1" by (simp add: retn_def)
      moreover have "startsFor E now z u = []" using True by (simp add: startsFor_def)
      ultimately show ?thesis using keep1 apart1 by (simp add: spared_def)
    next
      case False
      obtain n z2 where z2: "CancelAllPendingOrders E now u z1 = (Inr n, z2)"
        using go z1 False by (cases "CancelAllPendingOrders E now u z1"; cases "fst (CancelAllPendingOrders E now u z1)") auto
      have apart2: "spared v x (mny_positions z) (es_marks z) z2" if "v \<noteq> u" "apartRows v x (mny_accounts z)" for v x
        using keepsD [OF spared_cancels [OF L that(1)] apart1 [OF that], of now] z2 by simp
      from apart2 [OF v self] have keep2: "mny_positions z2 = mny_positions z" "es_marks z2 = es_marks z" by (simp_all add: spared_def)
      obtain css where each: "mapEach (queueLiquidation E) (startsFor E now z u) z2 = (Inr css, t)" "cs = concat css"
        using go z1 False z2 by (auto simp: andThen_def retn_def split: prod.splits sum.splits)
      have "set (startsFor E now z u) \<subseteq> set (mny_positions z2)" unfolding keep2 set_startsFor by blast
      moreover have "pos_Status p = PositionStatusNormal \<and> pos_UID p = u" if "p \<in> set (startsFor E now z u)" for p
        using that by (simp add: set_startsFor)
      ultimately show ?thesis
        using queue_each [OF each(1) _ distinct_startsFor [OF wf(2)], of u] each(2) keep2 apart2 by (simp add: spared_def)
    qed
  qed
qed

text \<open>A check ends with an error only when it panics; every other error is logged and stepped over.\<close>

definition onlyPanics :: "('s \<Rightarrow> 'a res \<times> 's) \<Rightarrow> bool" where
  "onlyPanics f \<longleftrightarrow> (\<forall>s e t. f s = (Inl e, t) \<longrightarrow> isPanic e)"

lemma onlyPanics_andThen: "onlyPanics f \<Longrightarrow> (\<And>a. onlyPanics (k a)) \<Longrightarrow> onlyPanics (andThen f k)"
  unfolding onlyPanics_def andThen_def by (auto split: prod.splits sum.splits)

lemma onlyPanics_basic:
  "onlyPanics (retn a)" "onlyPanics (tolerate f)" "onlyPanics (PublishUserSnapshot E u)"
  "onlyPanics (onPositions (\<lambda>rows. case MarkLiquidating i rows of (ok, rows') \<Rightarrow> (Inr ok, rows')))"
  by (auto simp: onlyPanics_def retn_def tolerate_def PublishUserSnapshot_def publish_def onPositions_def
      split: prod.splits sum.splits if_splits option.splits)

lemma onlyPanics_mapEach: "(\<And>x. onlyPanics (f x)) \<Longrightarrow> onlyPanics (mapEach f xs)"
  by (induction xs) (auto intro: onlyPanics_andThen onlyPanics_basic)

lemma onlyPanics_if: "onlyPanics f \<Longrightarrow> onlyPanics g \<Longrightarrow> onlyPanics (if b then f else g)"
  by simp

lemmas onlyPanics_rules = onlyPanics_andThen onlyPanics_basic onlyPanics_mapEach onlyPanics_if

lemma tolerated_panics: "mapEach (\<lambda>x. tolerate (f x)) xs s = (Inl e, t) \<Longrightarrow> isPanic e"
  using onlyPanics_mapEach [of "\<lambda>x. tolerate (f x)" xs, OF onlyPanics_basic(2)] by (auto simp: onlyPanics_def)

lemma check_panics:
  assumes "checkAndLiquidate E now u z = (Inl e, t)" shows "isPanic e"
proof (cases "positionsOfUID (mny_positions z) u = [] \<or> \<not> mustLiquidate E now z u")
  case True
  with assms checkAndLiquidate_idle [of z u E now] show ?thesis by auto
next
  case False
  then obtain a where a: "FindByUID (mny_accounts z) u = Some a" by (auto simp: mustLiquidate_def)
  let ?f = "andThen (payInsurance E now a)
      (\<lambda>_. if filter (\<lambda>p. 0 < pos_Volume p \<and> pos_Status p = PositionStatusNormal) (positionsOfUID (mny_positions z) u) = [] then retn []
           else andThen (CancelAllPendingOrders E now u)
             (\<lambda>_. andThen (mapEach (queueLiquidation E) (startsFor E now z u)) (\<lambda>started. retn (concat started))))"
  have "onlyPanics (payInsurance E now a)" unfolding payInsurance_def Let_def by (intro onlyPanics_rules)
  moreover have "onlyPanics (CancelAllPendingOrders E now u)"
    by (auto simp: onlyPanics_def CancelAllPendingOrders_def andThen_def retn_def split: prod.splits sum.splits dest: tolerated_panics)
  moreover have "onlyPanics (queueLiquidation E p)" for p unfolding queueLiquidation_def by (intro onlyPanics_rules)
  ultimately have all: "onlyPanics ?f" by (intro onlyPanics_rules)
  have "checkAndLiquidate E now u z = ?f z" using checkAndLiquidate_due [OF a] False by (simp add: Let_def)
  with assms have "?f z = (Inl e, t)" by (simp only:)
  with all show ?thesis unfolding onlyPanics_def by blast
qed

section \<open>A scan\<close>

text \<open>While the users of a scan are handled in turn, those still to come are as they were when it started.\<close>

lemma startsFor_same:
  assumes "FindByUID (mny_accounts z) u = FindByUID (mny_accounts s) u" "es_marks z = es_marks s" "mny_positions z = marked I (mny_positions s)"
    and "\<And>p. p \<in> set (mny_positions s) \<Longrightarrow> pos_UID p = u \<Longrightarrow> pos_ID p \<notin> I"
  shows "startsFor E now z u = startsFor E now s u"
proof -
  have marks: "marksOf z = marksOf s" using assms(2) by (simp add: marksOf_def fun_eq_iff)
  have ps: "positionsOfUID (mny_positions z) u = positionsOfUID (mny_positions s) u" using positionsOfUID_marked [OF assms(4)] assms(3) by simp
  have "mustLiquidate E now z u = mustLiquidate E now s u" unfolding mustLiquidate_def assms(1,2) marks ps by (rule refl)
  thus ?thesis by (simp only: startsFor_def ps)
qed

lemma scan_each:
  assumes L: "decimal_lib (ee_lib E)" and wf: "wf_accounts (mny_accounts s)" "distinct (map pos_ID (mny_positions s))"
    and run: "mapEach (\<lambda>u. tolerate (checkAndLiquidate E now u)) us z = (Inr rs, t)" and us: "distinct us"
    and z: "es_marks z = es_marks s" "mny_positions z = marked I (mny_positions s)" "wf_accounts (mny_accounts z)"
      "\<And>u. u \<in> set us \<Longrightarrow> FindByUID (mny_accounts z) u = FindByUID (mny_accounts s) u"
      "\<And>p. p \<in> set (mny_positions s) \<Longrightarrow> pos_UID p \<in> set us \<Longrightarrow> pos_ID p \<notin> I"
  shows "concat (map (\<lambda>r. case r of None \<Rightarrow> [] | Some cs \<Rightarrow> cs) rs) = map posKey (concat (map (startsFor E now s) us)) \<and>
    mny_positions t = marked (I \<union> pos_ID ` set (concat (map (startsFor E now s) us))) (mny_positions s)"
  using run us z
proof (induction us arbitrary: z I rs)
  case (Cons u us)
  let ?ps = "startsFor E now s u"
  obtain rc z1 where c: "checkAndLiquidate E now u z = (rc, z1)" by fastforce
  obtain cs where rc: "rc = Inr cs"
    using Cons.prems(1) c check_panics [of E now u z] by (cases rc) (auto simp: andThen_def tolerate_def)
  from Cons.prems(1) obtain rs1 where r: "rs = Some cs # rs1" "mapEach (\<lambda>u. tolerate (checkAndLiquidate E now u)) us z1 = (Inr rs1, t)"
  proof -
    have "tolerate (checkAndLiquidate E now u) z = (Inr (Some cs), z1)" using c rc by (simp add: tolerate_def)
    with Cons.prems(1) that show ?thesis by (auto simp: andThen_def retn_def split: prod.splits sum.splits)
  qed
  have ids: "distinct (map pos_ID (mny_positions z))" using wf(2) by (simp add: Cons.prems(4) marked_def map_sql_update)
  have same: "startsFor E now z u = ?ps"
    by (rule startsFor_same [OF Cons.prems(6) Cons.prems(3,4)]) (use Cons.prems(7) in auto)
  note one = check_starts [OF L Cons.prems(5) ids, of now u, unfolded same]
  have z1: "cs = map posKey ?ps" "mny_positions z1 = marked (pos_ID ` set ?ps) (mny_positions z)" "es_marks z1 = es_marks z"
    "\<And>v x. v \<noteq> u \<Longrightarrow> apartRows v x (mny_accounts z) \<Longrightarrow> apartRows v x (mny_accounts z1)"
    using one c rc by blast+
  obtain w where w: "w \<noteq> u" by (metis n_not_Suc_n)
  have self: "apartRows v (FindByUID (mny_accounts z) v) (mny_accounts z)" for v using Cons.prems(5) by (simp add: apartRows_def)
  have "es_marks z1 = es_marks s" using z1(3) Cons.prems(3) by simp
  moreover have "mny_positions z1 = marked (I \<union> pos_ID ` set ?ps) (mny_positions s)" by (simp add: z1(2) Cons.prems(4))
  moreover have "wf_accounts (mny_accounts z1)" using z1(4) [OF w self] by (simp add: apartRows_def)
  moreover have "FindByUID (mny_accounts z1) v = FindByUID (mny_accounts s) v" if "v \<in> set us" for v
  proof -
    from that Cons.prems(2) have "v \<noteq> u" by auto
    from z1(4) [OF this self] Cons.prems(6) [of v] that show ?thesis by (simp add: apartRows_def)
  qed
  moreover have "pos_ID p \<notin> I \<union> pos_ID ` set ?ps" if "p \<in> set (mny_positions s)" "pos_UID p \<in> set us" for p
  proof -
    have "p \<noteq> q" if "q \<in> set ?ps" for q using that \<open>pos_UID p \<in> set us\<close> Cons.prems(2) by (auto simp: set_startsFor)
    moreover have "q \<in> set (mny_positions s)" if "q \<in> set ?ps" for q using that by (simp add: set_startsFor)
    ultimately have "pos_ID p \<notin> pos_ID ` set ?ps" using unique_key_eq [OF wf(2) that(1)] by auto
    with Cons.prems(7) [of p] that show ?thesis by simp
  qed
  moreover have "distinct us" using Cons.prems(2) by simp
  ultimately have "concat (map (\<lambda>r. case r of None \<Rightarrow> [] | Some cs \<Rightarrow> cs) rs1) = map posKey (concat (map (startsFor E now s) us)) \<and>
      mny_positions t = marked ((I \<union> pos_ID ` set ?ps) \<union> pos_ID ` set (concat (map (startsFor E now s) us))) (mny_positions s)"
    by (intro Cons.IH [OF r(2)])
  thus ?case by (simp add: r(1) z1(1) image_Un Un_assoc)
qed (simp add: retn_def)

lemma scan_due:
  assumes L: "decimal_lib (ee_lib E)" and s: "wfEngine s" and us: "distinct us"
    and run: "scanUIDs E now us s = (Inr cs, t)"
    and holders: "\<And>p. p \<in> set (mny_positions s) \<Longrightarrow> dueNow E now s p \<Longrightarrow> K p \<Longrightarrow> pos_UID p \<in> set us"
      "\<And>p. p \<in> set (mny_positions s) \<Longrightarrow> pos_UID p \<in> set us \<Longrightarrow> K p"
  shows "distinct cs \<and> set cs = posKey ` {p \<in> set (mny_positions s). dueNow E now s p \<and> K p} \<and>
    mny_positions t = map (\<lambda>p. if dueNow E now s p \<and> K p then p\<lparr> pos_Status := PositionStatusLiquidating \<rparr> else p) (mny_positions s)"
proof -
  let ?us = "filter (\<lambda>u. u \<noteq> UID) us" and ?X = "mny_positions s"
  let ?ps = "concat (map (startsFor E now s) ?us)"
  have wf: "wf_accounts (mny_accounts s)" "distinct (map pos_ID ?X)" "distinct (map posKey ?X)"
    using s by (simp_all add: wfEngine_def okEngine_def wf_positions_def)
  obtain rs where rs: "mapEach (\<lambda>u. tolerate (checkAndLiquidate E now u)) ?us s = (Inr rs, t)"
    "cs = concat (map (\<lambda>r. case r of None \<Rightarrow> [] | Some cs \<Rightarrow> cs) rs)"
    using run by (auto simp: scanUIDs_def andThen_def retn_def split: prod.splits sum.splits)
  have "distinct ?us" using us by simp
  from scan_each [OF L wf(1,2) rs(1) this, of "{}"] wf(1)
  have scan: "cs = map posKey ?ps" "mny_positions t = marked (pos_ID ` set ?ps) ?X" by (simp_all add: rs(2))
  have set: "set ?ps = {p \<in> set ?X. dueNow E now s p \<and> K p}"
    using holders by (auto simp: set_startsFor dueNow_def)
  have "distinct (map posKey ?ps)"
  proof -
    have "distinct (map posKey (concat (map (startsFor E now s) vs)))" if "distinct vs" for vs
      using that
    proof (induction vs)
      case (Cons v vs)
      have "posKey ` set (startsFor E now s v) \<inter> posKey ` set (concat (map (startsFor E now s) vs)) = {}"
        using Cons.prems by (auto simp: set_startsFor posKey_def)
      with Cons distinct_startsFor [OF wf(3), of E now v] show ?case by simp
    qed simp
    with us show ?thesis by simp
  qed
  moreover have "mny_positions t = map (\<lambda>p. if dueNow E now s p \<and> K p then p\<lparr> pos_Status := PositionStatusLiquidating \<rparr> else p) ?X"
  proof -
    have "(pos_ID p \<in> pos_ID ` set ?ps \<and> pos_Status p = PositionStatusNormal) = (dueNow E now s p \<and> K p)" if p: "p \<in> set ?X" for p
    proof -
      have "pos_ID p \<in> pos_ID ` set ?ps \<longleftrightarrow> p \<in> set ?ps"
        unfolding set using unique_key_eq [OF wf(2) p] by auto
      moreover have "p \<in> set ?ps \<longleftrightarrow> dueNow E now s p \<and> K p" unfolding set using p by simp
      moreover have "dueNow E now s p \<Longrightarrow> pos_Status p = PositionStatusNormal" by (simp add: dueNow_def)
      ultimately show ?thesis by blast
    qed
    thus ?thesis unfolding scan(2) marked_def sql_update_def by (intro map_cong refl) (simp only:)
  qed
  ultimately show ?thesis unfolding scan(1) set_map set by blast
qed

text \<open>C16. A risk scan liquidates exactly the positions that are due. On a well-formed state, a scan of all accounts, or of the
  holders of a contract whose mark has changed, starts one liquidation for each open, normal position of this instance whose
  owner is not the system account, has no open position with a stale mark, and has come down to the part of the own
  money that must be left (nothing, or a fifth when insured), all read as it was when the scan began: insurance payouts and
  cancellations for one user do not touch the next. Those positions and no others are marked, each once.\<close>

theorem risk_scan_exact:
  assumes L: "decimal_lib (ee_lib E)" and s: "wfEngine s"
  shows "(\<forall>cs t. RiskScanOnce E now s = (Inr cs, t) \<longrightarrow>
      distinct cs \<and> set cs = posKey ` {p \<in> set (mny_positions s). dueNow E now s p} \<and>
      mny_positions t = map (\<lambda>p. if dueNow E now s p then p\<lparr> pos_Status := PositionStatusLiquidating \<rparr> else p) (mny_positions s)) \<and>
    (\<forall>sy cs t. OnMarkPriceChanged E now sy s = (Inr cs, t) \<longrightarrow>
      (let hit = \<lambda>p. dueNow E now s p \<and> (\<exists>q\<in>set (mny_positions s). pos_UID q = pos_UID p \<and> pos_Symbol q = sy \<and> 0 < pos_Volume q) in
       distinct cs \<and> set cs = posKey ` {p \<in> set (mny_positions s). hit p} \<and>
       mny_positions t = map (\<lambda>p. if hit p then p\<lparr> pos_Status := PositionStatusLiquidating \<rparr> else p) (mny_positions s)))"
proof (intro conjI allI impI)
  fix cs t assume run: "RiskScanOnce E now s = (Inr cs, t)"
  let ?K = "\<lambda>p. \<exists>q\<in>set (mny_positions s). pos_UID q = pos_UID p \<and> 0 < pos_Volume q"
  have "distinct cs \<and> set cs = posKey ` {p \<in> set (mny_positions s). dueNow E now s p \<and> ?K p} \<and>
      mny_positions t = map (\<lambda>p. if dueNow E now s p \<and> ?K p then p\<lparr> pos_Status := PositionStatusLiquidating \<rparr> else p) (mny_positions s)"
    by (rule scan_due [OF L s _ run [unfolded RiskScanOnce_def]]) (auto simp: FindAllOpenUIDs_def dueNow_def)
  moreover have "?K p" if "p \<in> set (mny_positions s)" "dueNow E now s p" for p using that by (auto simp: dueNow_def)
  ultimately show "distinct cs" "set cs = posKey ` {p \<in> set (mny_positions s). dueNow E now s p}"
    "mny_positions t = map (\<lambda>p. if dueNow E now s p then p\<lparr> pos_Status := PositionStatusLiquidating \<rparr> else p) (mny_positions s)"
    by (auto intro!: map_cong)
next
  fix sy cs t assume run: "OnMarkPriceChanged E now sy s = (Inr cs, t)"
  let ?K = "\<lambda>p. \<exists>q\<in>set (mny_positions s). pos_UID q = pos_UID p \<and> pos_Symbol q = sy \<and> 0 < pos_Volume q"
  have "distinct cs \<and> set cs = posKey ` {p \<in> set (mny_positions s). dueNow E now s p \<and> ?K p} \<and>
      mny_positions t = map (\<lambda>p. if dueNow E now s p \<and> ?K p then p\<lparr> pos_Status := PositionStatusLiquidating \<rparr> else p) (mny_positions s)"
    by (rule scan_due [OF L s _ run [unfolded OnMarkPriceChanged_def]]) (auto simp: FindOpenUIDsBySymbol_def image_iff)
  thus "let hit = \<lambda>p. dueNow E now s p \<and> ?K p in
       distinct cs \<and> set cs = posKey ` {p \<in> set (mny_positions s). hit p} \<and>
       mny_positions t = map (\<lambda>p. if hit p then p\<lparr> pos_Status := PositionStatusLiquidating \<rparr> else p) (mny_positions s)"
    by (simp add: Let_def)
qed

text \<open>One account under water, holding a contract that has fallen from 120 to 100, and one that has sold it.\<close>

definition demoScan :: FundingState where
  "demoScan = demoEngine\<lparr> mny_accounts :=
       [(hd demoAccounts)\<lparr> acc_UID := 1, acc_IsInsured := False, acc_Balance := 30, acc_Credit := 0, acc_FrozenMargin := 30 \<rparr>,
        (hd demoAccounts)\<lparr> acc_ID := 2, acc_UID := 2 \<rparr>],
     mny_positions := [demoPosition\<lparr> pos_AvgEntryPrice := 120 \<rparr>, demoPosition\<lparr> pos_ID := 5, pos_UID := 2, pos_Side := SideShort \<rparr>],
     es_orders := [] \<rparr>"

lemma risk_scan_exact_witness:
  "\<exists>t. RiskScanOnce demoEnv 5 demoScan = (Inr [(1, ''BTCUSDT'', SideLong)], t) \<and>
     [(1, ''BTCUSDT'', SideLong)] = map posKey (filter (dueNow demoEnv 5 demoScan) (mny_positions demoScan)) \<and>
     map pos_Status (mny_positions t) = [PositionStatusLiquidating, PositionStatusNormal]"
proof -
  have wf: "wfEngine demoScan"
    using wf_demoEngine by (simp add: wfEngine_def okEngine_def demoScan_def demoEngine_def wf_accounts_def demoAccounts_def
        fits_row_def wf_positions_def demoPosition_def posKey_def)
  have L: "decimal_lib (ee_lib demoEnv)" by (simp add: demoEnv_def std_decimal_lib)
  have users: "filter (\<lambda>u. u \<noteq> UID) (FindAllOpenUIDs (mny_positions demoScan)) = [1, 2]"
    by (simp add: FindAllOpenUIDs_def demoScan_def demoPosition_def UID_def)
  have "fst (mapEach (\<lambda>u. tolerate (checkAndLiquidate demoEnv 5 u)) [1, 2] demoScan) = Inr [Some [(1, ''BTCUSDT'', SideLong)], Some []]"
    by code_simp
  then obtain t where t: "RiskScanOnce demoEnv 5 demoScan = (Inr [(1, ''BTCUSDT'', SideLong)], t)"
    unfolding RiskScanOnce_def scanUIDs_def users
    by (cases "mapEach (\<lambda>u. tolerate (checkAndLiquidate demoEnv 5 u)) [1, 2] demoScan") (auto simp: andThen_def retn_def)
  let ?p = "demoPosition\<lparr> pos_AvgEntryPrice := 120 \<rparr>" and ?q = "demoPosition\<lparr> pos_ID := 5, pos_UID := 2, pos_Side := SideShort \<rparr>"
  have ps: "mny_positions demoScan = [?p, ?q]" by (simp add: demoScan_def)
  have keys: "posKey ?p = (1, ''BTCUSDT'', SideLong)" "posKey ?q = (2, ''BTCUSDT'', SideShort)" by (simp_all add: posKey_def demoPosition_def)
  from risk_scan_exact [OF L wf, of 5] t have e: "{(1, ''BTCUSDT'', SideLong)} = posKey ` {p \<in> {?p, ?q}. dueNow demoEnv 5 demoScan p}"
    "mny_positions t = map (\<lambda>p. if dueNow demoEnv 5 demoScan p then p\<lparr> pos_Status := PositionStatusLiquidating \<rparr> else p) [?p, ?q]"
    by (simp_all add: ps)
  have "posKey ` {p \<in> {?p, ?q}. D p} = (if D ?p then {posKey ?p} else {}) \<union> (if D ?q then {posKey ?q} else {})" for D by auto
  with e(1) keys have due: "dueNow demoEnv 5 demoScan ?p" "\<not> dueNow demoEnv 5 demoScan ?q" by (auto split: if_splits)
  have "map pos_Status (mny_positions t) = [PositionStatusLiquidating, PositionStatusNormal]"
    using due by (simp add: e(2)) (simp add: demoPosition_def)
  with t due show ?thesis by (simp add: ps keys)
qed

section \<open>The end of a liquidation\<close>

lemma Find_ClearLiquidating:
  assumes "Find rows u sy sd = Some p" "Find (ClearLiquidating (pos_ID p) rows) u sy sd = Some q"
  shows "pos_Status q \<noteq> PositionStatusLiquidating"
proof -
  have "Find (ClearLiquidating (pos_ID p) rows) u sy sd =
      map_option (\<lambda>r. if pos_ID r = pos_ID p \<and> pos_Status r = PositionStatusLiquidating then r\<lparr> pos_Status := PositionStatusNormal \<rparr> else r) (Find rows u sy sd)"
    unfolding Find_def ClearLiquidating_def by (rule sql_first_update) (simp add: posKey_def)
  with assms show ?thesis by (auto split: if_splits)
qed

lemma abortClip_clears:
  assumes "abortClip E p s = (r, t)" "Find (mny_positions s) u sy sd = Some p" "Find (mny_positions t) u sy sd = Some q"
  shows "pos_Status q \<noteq> PositionStatusLiquidating"
proof -
  have "mny_positions t = ClearLiquidating (pos_ID p) (mny_positions s)"
    using assms(1) by (auto simp: abortClip_def andThen_def onPositions_def retn_def PublishUserSnapshot_def publish_def
        split: prod.splits sum.splits option.splits)
  with Find_ClearLiquidating [OF assms(2)] assms(3) show ?thesis by simp
qed

lemma submitClip_gives_up:
  assumes "submitLiquidationClip E now nanos p s = (Inr None, t)" "Find (mny_positions s) u sy sd = Some p" "Find (mny_positions t) u sy sd = Some q"
  shows "pos_Status q \<noteq> PositionStatusLiquidating"
proof (cases "\<exists>mark tier coin. GetFresh (ee_mark E) now (es_marks s (pos_Symbol p)) = Some mark \<and>
    TierFor (ee_tiers E) (pos_Symbol p) (pos_Volume p * mark) = Some tier \<and> coinBySymbol (ee_coins E) (pos_Symbol p) = Some coin")
  case False
  hence "abortClip E p s = (Inr None, t)" using assms(1) by (auto simp: submitLiquidationClip_def split: option.splits)
  from abortClip_clears [OF this assms(2,3)] show ?thesis .
next
  case True
  then obtain mark tier coin where c: "GetFresh (ee_mark E) now (es_marks s (pos_Symbol p)) = Some mark"
    "TierFor (ee_tiers E) (pos_Symbol p) (pos_Volume p * mark) = Some tier" "coinBySymbol (ee_coins E) (pos_Symbol p) = Some coin" by blast
  let ?o = "clipOrder (ee_id E (es_ids s)) now p (protectPriceOf mark tier (pos_Side p)) (clipVolumeOf coin p)"
  let ?s = "s\<lparr> es_ids := Suc (es_ids s) \<rparr>"
  have run: "andThen (tolerate (onOrders (ordInsert (ee_lib E) ?o)))
      (\<lambda>r. if r = None then abortClip E p else andThen (tolerate (SubmitOrder E now ?o nanos)) (\<lambda>_. retn (Some (ee_id E (es_ids s))))) ?s = (Inr None, t)"
    using assms(1) c by (simp add: submitLiquidationClip_def nextID_def Let_def)
  obtain r s1 where s1: "tolerate (onOrders (ordInsert (ee_lib E) ?o)) ?s = (Inr r, s1)"
    using run by (cases "tolerate (onOrders (ordInsert (ee_lib E) ?o)) ?s"; cases "fst (tolerate (onOrders (ordInsert (ee_lib E) ?o)) ?s)") auto
  have "mny_positions (snd (tolerate (onOrders (ordInsert (ee_lib E) ?o)) ?s)) = mny_positions s" by (simp add: onOrders_def case_prod_beta)
  hence pos: "mny_positions s1 = mny_positions s" by (simp add: s1)
  have "r = None" using run s1 by (auto simp: andThen_def retn_def split: if_splits prod.splits sum.splits)
  with run s1 have "abortClip E p s1 = (Inr None, t)" by simp
  from abortClip_clears [OF this _ assms(3)] assms(2) pos show ?thesis by simp
qed


text \<open>A clip that cannot be placed, since there is no tier for the contract: the loop gives up and the position is normal again.\<close>

definition demoStuck :: FundingState where
  "demoStuck = demoScan\<lparr> mny_positions := [demoPosition\<lparr> pos_Status := PositionStatusLiquidating \<rparr>] \<rparr>"


end
