(* ===== verification/FundingProps.thy ===== *)
theory FundingProps
  imports EngineSteps
begin

text \<open>
  A funding settlement, settleSymbolIfDue of src/internal/service/funding.go: who pays what, that longs and
  shorts of equal volume cancel out, and that a period is settled once.
\<close>

section \<open>Settling positions\<close>

definition positionsHeld :: "uid \<Rightarrow> Position list \<Rightarrow> Position list" where
  "positionsHeld u = filter (\<lambda>p. pos_UID p = u)"

text \<open>What a user pays, over all positions listed.\<close>

definition owed :: "dec \<Rightarrow> dec \<Rightarrow> Position list \<Rightarrow> uid \<Rightarrow> dec" where
  "owed rate mark ps u = sum_list (map (fundingFee rate mark) (positionsHeld u ps))"

text \<open>k roundings to 16 digits away.\<close>

definition nearBy :: "nat \<Rightarrow> dec \<Rightarrow> dec \<Rightarrow> bool" where
  "nearBy k x y \<longleftrightarrow> \<bar>x - y\<bar> \<le> of_nat k / (2 * 10 ^ 16)"

lemma nearBy_0 [simp]: "nearBy 0 x y \<longleftrightarrow> x = y"
  by (simp add: nearBy_def)

lemma nearBy_trans: "nearBy k x (y - w) \<Longrightarrow> nearBy l z (x - v) \<Longrightarrow> nearBy (k + l) z (y - (w + v))"
  unfolding nearBy_def of_nat_add add_divide_distrib by linarith

lemma nearBy_same: "\<exists>b. a = a\<lparr> acc_Balance := b \<rparr> \<and> nearBy k b (acc_Balance a)"
  by (intro exI [of _ "acc_Balance a"]) (simp add: nearBy_def)

lemma nearBy_col: "decimal_lib L \<Longrightarrow> nearBy 1 (col L x) x"
  using col_half [of L x] by (simp add: nearBy_def)

text \<open>What a settlement does to accounts and ledger.\<close>

definition settledFor :: "dec \<Rightarrow> dec \<Rightarrow> Position list \<Rightarrow> Account list \<Rightarrow> Account list \<Rightarrow> Transaction list \<Rightarrow> Transaction list \<Rightarrow> bool" where
  "settledFor rate mark ps rows rows' txs txs' \<longleftrightarrow> wf_accounts rows' \<and>
     (\<forall>u a. FindByUID rows u = Some a \<longrightarrow>
        (\<exists>b. FindByUID rows' u = Some (a\<lparr> acc_Balance := b \<rparr>) \<and>
             nearBy (length (positionsHeld u ps)) b (acc_Balance a - owed rate mark ps u))) \<and>
     (\<forall>u. nearBy (length (positionsHeld u ps)) (ledgerTotal u txs') (ledgerTotal u txs - owed rate mark ps u))"

lemma settlePosition_settles:
  assumes L: "decimal_lib L" and wf: "wf_accounts (mny_accounts s)" and a: "FindByUID (mny_accounts s) (pos_UID p) \<noteq> None"
  shows "\<exists>rows txs. settlePosition L sy rate mark bd p s = (Inr (), s\<lparr> mny_accounts := rows, mny_txs := txs \<rparr>) \<and>
    settledFor rate mark [p] (mny_accounts s) rows (mny_txs s) txs"
proof (cases "fundingFee rate mark p = 0")
  case True
  thus ?thesis using wf
    by (intro exI [of _ "mny_accounts s"] exI [of _ "mny_txs s"])
      (auto simp: settlePosition_def retn_def settledFor_def owed_def positionsHeld_def nearBy_same, simp add: nearBy_def)
next
  case False
  let ?fee = "fundingFee rate mark p" and ?u = "pos_UID p"
  from a obtain a where a: "FindByUID (mny_accounts s) ?u = Some a" by blast
  let ?f = "\<lambda>b. b\<lparr> acc_Balance := col L (acc_Balance b + - ?fee) \<rparr>"
  define rows where "rows = SettleToBalance L (acc_ID a) (- ?fee) (mny_accounts s)"
  define txs where "txs = txInsert L ?u sy TxFundingFee (- ?fee) bd (mny_txs s)"
  have m: "movesTo ?u a (?f a) (mny_accounts s) rows"
    using statement_moves [OF wf a, where g = "\<lambda>_. True" and f = ?f] decimal_lib.col_fits [OF L]
    by (auto simp: rows_def SettleToBalance_def fits_row_def col_def)
  have run: "settlePosition L sy rate mark bd p s = (Inr (), s\<lparr> mny_accounts := rows, mny_txs := txs \<rparr>)"
    using False a
    by (simp add: settlePosition_def Let_def tolerate_def onAccounts_eq svcSettleToBalance_def withAccount_Some bookTx_def andThen_def
        rows_def txs_def)
  have "\<exists>b. FindByUID rows w = Some (a'\<lparr> acc_Balance := b \<rparr>) \<and>
      nearBy (length (positionsHeld w [p])) b (acc_Balance a' - owed rate mark [p] w)"
    if "FindByUID (mny_accounts s) w = Some a'" for w a'
  proof (cases "w = ?u")
    case True
    with that a m nearBy_col [OF L, of "acc_Balance a - ?fee"] show ?thesis
      by (intro exI [of _ "col L (acc_Balance a + - ?fee)"]) (simp add: movesTo_def owed_def positionsHeld_def)
  next
    case False
    with that m show ?thesis
      by (intro exI [of _ "acc_Balance a'"]) (auto simp: movesTo_def owed_def positionsHeld_def)
  qed
  moreover have "nearBy (length (positionsHeld w [p])) (ledgerTotal w txs) (ledgerTotal w (mny_txs s) - owed rate mark [p] w)" for w
    using nearBy_col [OF L, of "- ?fee"] by (auto simp: txs_def ledger_txInsert owed_def positionsHeld_def nearBy_def)
  ultimately show ?thesis using run m by (auto simp: settledFor_def movesTo_def)
qed

lemma settledFor_Cons:
  assumes "settledFor rate mark [p] rows rows1 txs txs1" "settledFor rate mark ps rows1 rows2 txs1 txs2"
  shows "settledFor rate mark (p # ps) rows rows2 txs txs2"
proof -
  have len: "length (positionsHeld u (p # ps)) = length (positionsHeld u [p]) + length (positionsHeld u ps)"
    "owed rate mark (p # ps) u = owed rate mark [p] u + owed rate mark ps u" for u
    by (simp_all add: positionsHeld_def owed_def)
  show ?thesis
    unfolding settledFor_def len
  proof (intro conjI allI impI)
    show "wf_accounts rows2" using assms(2) by (simp add: settledFor_def)
    fix u
    show "nearBy (length (positionsHeld u [p]) + length (positionsHeld u ps)) (ledgerTotal u txs2)
        (ledgerTotal u txs - (owed rate mark [p] u + owed rate mark ps u))"
      using assms by (auto simp: settledFor_def intro: nearBy_trans)
    fix a assume "FindByUID rows u = Some a"
    then obtain b where b: "FindByUID rows1 u = Some (a\<lparr> acc_Balance := b \<rparr>)"
      "nearBy (length (positionsHeld u [p])) b (acc_Balance a - owed rate mark [p] u)"
      using assms(1) unfolding settledFor_def by blast
    then obtain b' where "FindByUID rows2 u = Some (a\<lparr> acc_Balance := b' \<rparr>)"
      "nearBy (length (positionsHeld u ps)) b' (b - owed rate mark ps u)"
      using assms(2) unfolding settledFor_def by fastforce
    with b(2) show "\<exists>b. FindByUID rows2 u = Some (a\<lparr> acc_Balance := b \<rparr>) \<and>
        nearBy (length (positionsHeld u [p]) + length (positionsHeld u ps)) b (acc_Balance a - (owed rate mark [p] u + owed rate mark ps u))"
      by (auto intro: nearBy_trans)
  qed
qed

lemma mapEach_settles:
  assumes L: "decimal_lib L"
  shows "wf_accounts (mny_accounts s) \<Longrightarrow> (\<And>p. p \<in> set ps \<Longrightarrow> FindByUID (mny_accounts s) (pos_UID p) \<noteq> None) \<Longrightarrow>
    \<exists>rows txs. mapEach (settlePosition L sy rate mark bd) ps s = (Inr (map (\<lambda>_. ()) ps), s\<lparr> mny_accounts := rows, mny_txs := txs \<rparr>) \<and>
      settledFor rate mark ps (mny_accounts s) rows (mny_txs s) txs"
proof (induction ps arbitrary: s)
  case Nil
  thus ?case
    by (intro exI [of _ "mny_accounts s"] exI [of _ "mny_txs s"])
      (auto simp: retn_def settledFor_def owed_def positionsHeld_def intro: exI [of _ "acc_Balance _"])
next
  case (Cons p ps)
  obtain r1 t1 where one: "settlePosition L sy rate mark bd p s = (Inr (), s\<lparr> mny_accounts := r1, mny_txs := t1 \<rparr>)"
    "settledFor rate mark [p] (mny_accounts s) r1 (mny_txs s) t1"
    using settlePosition_settles [OF L Cons.prems(1), of p] Cons.prems(2) by force
  let ?s1 = "s\<lparr> mny_accounts := r1, mny_txs := t1 \<rparr>"
  have "FindByUID (mny_accounts ?s1) (pos_UID q) \<noteq> None" if "q \<in> set ps" for q
    using one(2) Cons.prems(2) that unfolding settledFor_def by fastforce
  moreover have "wf_accounts (mny_accounts ?s1)" using one(2) by (simp add: settledFor_def)
  ultimately obtain r2 t2 where rest: "mapEach (settlePosition L sy rate mark bd) ps ?s1 =
      (Inr (map (\<lambda>_. ()) ps), ?s1\<lparr> mny_accounts := r2, mny_txs := t2 \<rparr>)" "settledFor rate mark ps r1 r2 t1 t2"
    using Cons.IH [of ?s1] by auto
  have "mapEach (settlePosition L sy rate mark bd) (p # ps) s = (Inr (map (\<lambda>_. ()) (p # ps)), s\<lparr> mny_accounts := r2, mny_txs := t2 \<rparr>)"
    using one(1) rest(1) by (simp add: retn_def andThen_def)
  with settledFor_Cons [OF one(2) rest(2)] show ?case by blast
qed

section \<open>The table of settled periods\<close>

lemma LastFundingTime_ge: "r \<in> set rows \<Longrightarrow> fr_Symbol r = sy \<Longrightarrow> fr_FundingTime r \<le> LastFundingTime rows sy"
proof -
  assume "r \<in> set rows" "fr_Symbol r = sy"
  hence "fr_FundingTime r \<in> set (map fr_FundingTime (filter (\<lambda>r. fr_Symbol r = sy) rows))" by simp
  thus ?thesis
    unfolding LastFundingTime_def
    by (cases "map fr_FundingTime (filter (\<lambda>r. fr_Symbol r = sy) rows)") (auto simp: fold_max_start fold_max_ge)
qed

section \<open>Settling a period\<close>

definition intervalOf :: "Coin \<Rightarrow> int" where
  "intervalOf coin = coin_FundingIntervalHours coin * 3600000"

text \<open>Whatever the rate: a rate of 0 moves nothing.\<close>

lemma settle_positions:
  assumes L: "decimal_lib L" and wf: "wf_accounts (mny_accounts s)" and ps: "ps = FindOpenBySymbol (mny_positions s) sy"
    and acc: "\<And>p. p \<in> set ps \<Longrightarrow> FindByUID (mny_accounts s) (pos_UID p) \<noteq> None"
  shows "\<exists>rows txs. (if rate \<noteq> 0 then settlePositions L sy rate mark bd else retn ()) s = (Inr (), s\<lparr> mny_accounts := rows, mny_txs := txs \<rparr>) \<and>
    settledFor rate mark ps (mny_accounts s) rows (mny_txs s) txs"
proof (cases "rate = 0")
  case True
  have "fundingFee 0 mark = (\<lambda>_. 0)" by (rule ext) (simp add: fundingFee_def)
  hence "owed 0 mark ps u = 0" for u by (simp add: owed_def)
  with True wf show ?thesis
    by (intro exI [of _ "mny_accounts s"] exI [of _ "mny_txs s"]) (simp add: settledFor_def retn_def nearBy_same, simp add: nearBy_def)
next
  case False
  obtain rows txs where "mapEach (settlePosition L sy rate mark bd) ps s = (Inr (map (\<lambda>_. ()) ps), s\<lparr> mny_accounts := rows, mny_txs := txs \<rparr>)"
    "settledFor rate mark ps (mny_accounts s) rows (mny_txs s) txs"
    using mapEach_settles [OF L wf acc, of ps sy rate mark bd] by blast
  with False show ?thesis by (simp add: settlePositions_def retn_def flip: ps) blast
qed

text \<open>A period that is not due does nothing.\<close>

lemma settle_not_due:
  "fundingBoundary now (intervalOf coin) \<le> LastFundingTime (fs_rates s) (coin_Symbol coin) \<Longrightarrow> settleSymbolIfDue E now coin s = (Inr (), s)"
  by (simp add: settleSymbolIfDue_def Let_def intervalOf_def)

lemma fees_balance:
  "sum_list (map (fundingFee rate mark) ps) =
     rate * mark * (sum_list (map pos_Volume (filter (\<lambda>p. pos_Side p = SideLong) ps)) - sum_list (map pos_Volume (filter (\<lambda>p. pos_Side p = SideShort) ps)))"
proof (induction ps)
  case (Cons p ps)
  thus ?case by (cases "pos_Side p") (simp_all add: fundingFee_def Let_def algebra_simps)
qed simp

text \<open>C19. A funding period is settled completely and once. When the boundary of the current period has not been
  settled and a fresh mark is known, settleSymbolIfDue succeeds: it records the period, resets the samples
  and moves, for every user, the balance by the sum of his positions' fees (volume times mark times rate,
  paid by longs and received by shorts, for a positive rate) up to one rounding per position, and the same
  amount is in his ledger; credit, locked margin, positions, orders and books do not change. The fees add up
  to 0 when longs and shorts have equal volume, and running it again in the same period does nothing.\<close>

theorem funding_settles_once:
  assumes L: "decimal_lib (ee_lib E)" and wf: "wf_accounts (mny_accounts (s :: 'a FundingState_scheme))" and interval: "0 < intervalOf coin"
    and due: "LastFundingTime (fs_rates s) (coin_Symbol coin) < fundingBoundary now (intervalOf coin)"
    and mark: "GetFresh (ee_mark E) now (es_marks s (coin_Symbol coin)) = Some mark"
    and ps: "ps = FindOpenBySymbol (mny_positions s) (coin_Symbol coin)" and rate: "rate = EstimateRate (ee_lib E) coin (fs_accum s)"
    and acc: "\<And>p. p \<in> set ps \<Longrightarrow> FindByUID (mny_accounts s) (pos_UID p) \<noteq> None"
  shows "\<exists>rows txs rec. let s' = s\<lparr> mny_accounts := rows, mny_txs := txs, fs_rates := fs_rates s @ [rec],
        fs_accum := ResetFundingAccumulator (coin_Symbol coin) (fs_accum s) \<rparr> in
      settleSymbolIfDue E now coin s = (Inr (), s') \<and>
      fr_Symbol rec = coin_Symbol coin \<and> fr_FundingTime rec = fundingBoundary now (intervalOf coin) \<and>
      (\<forall>u a. FindByUID (mny_accounts s) u = Some a \<longrightarrow>
         (\<exists>b. FindByUID rows u = Some (a\<lparr> acc_Balance := b \<rparr>) \<and>
              nearBy (length (positionsHeld u ps)) b (acc_Balance a - owed rate mark ps u))) \<and>
      (\<forall>u. nearBy (length (positionsHeld u ps)) (ledgerTotal u txs) (ledgerTotal u (mny_txs s) - owed rate mark ps u)) \<and>
      sum_list (map (fundingFee rate mark) ps) =
        rate * mark * (sum_list (map pos_Volume (filter (\<lambda>p. pos_Side p = SideLong) ps)) - sum_list (map pos_Volume (filter (\<lambda>p. pos_Side p = SideShort) ps))) \<and>
      (\<forall>now'. fundingBoundary now' (intervalOf coin) = fundingBoundary now (intervalOf coin) \<longrightarrow> settleSymbolIfDue E now' coin s' = (Inr (), s'))"
proof -
  let ?sy = "coin_Symbol coin" and ?bd = "fundingBoundary now (intervalOf coin)"
  define rec0 where "rec0 = \<lparr> fr_Symbol = ?sy, fr_FundingTime = ?bd, fr_Rate = rate, fr_MarkPrice = mark,
    fr_IndexPrice = (case GetIndexPrice (es_marks s ?sy) of None \<Rightarrow> 0 | Some i \<Rightarrow> i), fr_CreateTime = now \<rparr>"
  have "\<not> (\<exists>r\<in>set (fs_rates s). fr_Symbol r = ?sy \<and> fr_FundingTime r = ?bd)"
    using LastFundingTime_ge [of _ "fs_rates s" ?sy] due by fastforce
  then obtain rec where ins: "rateInsert (ee_lib E) rec0 (fs_rates s) = (Inr (), fs_rates s @ [rec])" and
    rec: "fr_Symbol rec = ?sy" "fr_FundingTime rec = ?bd"
    unfolding rateInsert_def by (auto simp: rec0_def)
  let ?s1 = "s\<lparr> fs_rates := fs_rates s @ [rec] \<rparr>"
  define pay :: "'a FundingState_scheme \<Rightarrow> unit res \<times> 'a FundingState_scheme"
    where "pay = (if rate \<noteq> 0 then settlePositions (ee_lib E) ?sy rate mark ?bd else retn ())"
  obtain rows txs where go: "pay ?s1 = (Inr (), ?s1\<lparr> mny_accounts := rows, mny_txs := txs \<rparr>)" "settledFor rate mark ps (mny_accounts s) rows (mny_txs s) txs"
    using settle_positions [OF L, of ?s1 ps ?sy rate mark ?bd] wf acc by (auto simp: ps pay_def)
  let ?s' = "s\<lparr> mny_accounts := rows, mny_txs := txs, fs_rates := fs_rates s @ [rec], fs_accum := ResetFundingAccumulator ?sy (fs_accum s) \<rparr>"
  have "settleSymbolIfDue E now coin s =
      andThen (\<lambda>s. case rateInsert (ee_lib E) rec0 (fs_rates s) of (r, rows) \<Rightarrow> (r, s\<lparr> fs_rates := rows \<rparr>))
        (\<lambda>_. andThen pay (\<lambda>_ s. (Inr (), s\<lparr> fs_accum := ResetFundingAccumulator ?sy (fs_accum s) \<rparr>))) s"
    using interval due mark unfolding rec0_def pay_def rate by (simp add: settleSymbolIfDue_def Let_def intervalOf_def)
  also have "\<dots> = (Inr (), ?s')" using ins go(1) by (simp add: andThen_def)
  finally have "settleSymbolIfDue E now coin s = (Inr (), ?s')" .
  moreover have "settleSymbolIfDue E now' coin ?s' = (Inr (), ?s')" if "fundingBoundary now' (intervalOf coin) = ?bd" for now'
    using LastFundingTime_ge [of rec "fs_rates s @ [rec]" ?sy] rec by (intro settle_not_due) (simp add: that)
  ultimately show ?thesis
    using go(2) rec fees_balance [of rate mark ps] unfolding settledFor_def Let_def
    by (intro exI [of _ rows] exI [of _ txs] exI [of _ rec]) blast
qed

definition demoFunding :: FundingState where
  "demoFunding = demoEngine\<lparr> mny_positions := [demoHeldPosition], fs_accum := (\<lambda>_. (2 / 1000, 2)),
     es_marks := (\<lambda>_. \<lparr> mc_mark = Some 100, mc_index = Some (100, 28800000), mc_last = None, mc_jump = None \<rparr>) \<rparr>"

lemma demoFunding_facts:
  "intervalOf demoCoin = 28800000" "fundingBoundary 28800000 28800000 = 28800000" "fundingBoundary 28900000 28800000 = 28800000"
  "coin_Symbol demoCoin = ''BTCUSDT''" "GetFresh (ee_mark demoEnv) 28800000 (es_marks demoFunding ''BTCUSDT'') = Some 100"
  "FindOpenBySymbol (mny_positions demoFunding) ''BTCUSDT'' = [demoHeldPosition]"
  "EstimateRate (ee_lib demoEnv) demoCoin (fs_accum demoFunding) = 1 / 1000" "fundingFee (1 / 1000) 100 demoHeldPosition = 3 / 10"
  by code_simp+

lemma funding_settles_once_witness:
  "\<exists>s' b. settleSymbolIfDue demoEnv 28800000 demoCoin demoFunding = (Inr (), s') \<and>
     FindByUID (mny_accounts s') 7 = Some ((hd demoAccounts)\<lparr> acc_Balance := b \<rparr>) \<and> nearBy 1 b (997 / 10) \<and>
     settleSymbolIfDue demoEnv 28900000 demoCoin s' = (Inr (), s')"
proof -
  note f = demoFunding_facts
  have a: "FindByUID (mny_accounts demoFunding) 7 = Some (hd demoAccounts)" "pos_UID demoHeldPosition = 7" "acc_Balance (hd demoAccounts) = 100"
    by (simp_all add: demoFunding_def demoEngine_def demoAccounts_def FindByUID_def sql_first_def demoHeldPosition_def)
  have "decimal_lib (ee_lib demoEnv)" "wf_accounts (mny_accounts demoFunding)" "0 < intervalOf demoCoin"
    "LastFundingTime (fs_rates demoFunding) (coin_Symbol demoCoin) < fundingBoundary 28800000 (intervalOf demoCoin)"
    "GetFresh (ee_mark demoEnv) 28800000 (es_marks demoFunding (coin_Symbol demoCoin)) = Some 100"
    "[demoHeldPosition] = FindOpenBySymbol (mny_positions demoFunding) (coin_Symbol demoCoin)"
    "1 / 1000 = EstimateRate (ee_lib demoEnv) demoCoin (fs_accum demoFunding)"
    "\<And>p. p \<in> set [demoHeldPosition] \<Longrightarrow> FindByUID (mny_accounts demoFunding) (pos_UID p) \<noteq> None"
    using wf_demoAccounts by (simp_all add: f a LastFundingTime_def) (simp_all add: demoEnv_def demoFunding_def demoEngine_def std_decimal_lib)
  note t = funding_settles_once [OF this, unfolded Let_def]
  from t obtain s' rows where s': "settleSymbolIfDue demoEnv 28800000 demoCoin demoFunding = (Inr (), s')" "mny_accounts s' = rows"
    and bal: "\<forall>u a. FindByUID (mny_accounts demoFunding) u = Some a \<longrightarrow> (\<exists>b. FindByUID rows u = Some (a\<lparr> acc_Balance := b \<rparr>) \<and>
        nearBy (length (positionsHeld u [demoHeldPosition])) b (acc_Balance a - owed (1 / 1000) 100 [demoHeldPosition] u))"
    and again: "\<forall>now'. fundingBoundary now' (intervalOf demoCoin) = fundingBoundary 28800000 (intervalOf demoCoin) \<longrightarrow>
        settleSymbolIfDue demoEnv now' demoCoin s' = (Inr (), s')" by fastforce
  from bal a have "\<exists>b. FindByUID rows 7 = Some ((hd demoAccounts)\<lparr> acc_Balance := b \<rparr>) \<and> nearBy 1 b (997 / 10)"
    by (fastforce simp: positionsHeld_def owed_def f(8))
  moreover have "settleSymbolIfDue demoEnv 28900000 demoCoin s' = (Inr (), s')" using again f(1-3) by simp
  ultimately show ?thesis using s' by (intro exI [of _ s']) auto
qed

end
