(* ===== verification/ApiParams.thy ===== *)
theory ApiParams
  imports EngineState "HOL-Library.Char_ord"
begin

text \<open>
  What the HTTP handlers of src/internal/api share: error codes and replies (errors.go), the parsing of
  query parameters, idempotency keys and request fingerprints (params.go,
  src/internal/service/idempotency.go), and the validation steps common to orders and conditional orders
  (router.go). A handler answers \<open>OK\<close> with its data or \<open>Fail\<close> with the coarse code and the error code; the
  human readable message is left out. A panic is caught by gin's recovery middleware: \<open>Crash\<close>.
\<close>

section \<open>Error codes\<close>

datatype errCode =
    CodeInvalidParam | CodeSymbolNotFound | CodeOrderNotFound | CodeOrderNotCancelable | CodePositionNotFound
  | CodeNoMarkPrice | CodePriceOutOfRange | CodePriceTickInvalid | CodeVolumeOutOfRange | CodeTierNotConfigured
  | CodeLeverageExceedsTier | CodeInsufficientMargin | CodeInsufficientBalance | CodeServerBusy | CodeDispatchFailed
  | CodeAuthMissing | CodeAuthExpired | CodeAuthReplayed | CodeAuthInvalidSignature | CodeForbidden
  | CodeAccountNotFound | CodeIdempotencyConflict | CodeRoundMismatch | CodeAccountFrozen | CodeIndexPriceJump
  | CodeKlineSourceNotExternal | CodeInternal

fun errCodeText :: "errCode \<Rightarrow> string" where
  "errCodeText CodeInvalidParam = ''invalid_param''"
| "errCodeText CodeSymbolNotFound = ''symbol_not_found''"
| "errCodeText CodeOrderNotFound = ''order_not_found''"
| "errCodeText CodeOrderNotCancelable = ''order_not_cancelable''"
| "errCodeText CodePositionNotFound = ''position_not_found''"
| "errCodeText CodeNoMarkPrice = ''no_mark_price''"
| "errCodeText CodePriceOutOfRange = ''price_out_of_range''"
| "errCodeText CodePriceTickInvalid = ''price_tick_invalid''"
| "errCodeText CodeVolumeOutOfRange = ''volume_out_of_range''"
| "errCodeText CodeTierNotConfigured = ''tier_not_configured''"
| "errCodeText CodeLeverageExceedsTier = ''leverage_exceeds_tier''"
| "errCodeText CodeInsufficientMargin = ''insufficient_margin''"
| "errCodeText CodeInsufficientBalance = ''insufficient_balance''"
| "errCodeText CodeServerBusy = ''server_busy''"
| "errCodeText CodeDispatchFailed = ''dispatch_failed''"
| "errCodeText CodeAuthMissing = ''auth_missing''"
| "errCodeText CodeAuthExpired = ''auth_expired''"
| "errCodeText CodeAuthReplayed = ''auth_replayed''"
| "errCodeText CodeAuthInvalidSignature = ''auth_invalid_signature''"
| "errCodeText CodeForbidden = ''forbidden''"
| "errCodeText CodeAccountNotFound = ''account_not_found''"
| "errCodeText CodeIdempotencyConflict = ''idempotency_conflict''"
| "errCodeText CodeRoundMismatch = ''round_mismatch''"
| "errCodeText CodeAccountFrozen = ''account_frozen''"
| "errCodeText CodeIndexPriceJump = ''index_price_jump''"
| "errCodeText CodeKlineSourceNotExternal = ''kline_source_not_external''"
| "errCodeText CodeInternal = ''internal_error''"

type_synonym failure = "nat \<times> errCode"

datatype 'a reply = OK 'a | Fail failure | Crash err

definition defaultErrCode :: "nat \<Rightarrow> errCode" where
  "defaultErrCode code = (if code = 400 then CodeInvalidParam else if code = 429 then CodeServerBusy else CodeInternal)"

definition failWith :: "nat \<Rightarrow> failure" where
  "failWith code = (code, defaultErrCode code)"

text \<open>What the closure under the lock returns: an httpError, or any other error.\<close>

datatype lockError = HttpError failure | OtherError err

fun respondLockErr :: "lockError \<Rightarrow> 'a reply" where
  "respondLockErr (HttpError f) = Fail f"
| "respondLockErr (OtherError ErrInsufficientMargin) = Fail (400, CodeInsufficientMargin)"
| "respondLockErr (OtherError ErrLockBusy) = Fail (429, CodeServerBusy)"
| "respondLockErr (OtherError e) = (if isPanic e then Crash e else Fail (failWith 500))"

fun respondFundOpErr :: "err \<Rightarrow> 'a reply" where
  "respondFundOpErr ErrAccountNotFound = Fail (400, CodeAccountNotFound)"
| "respondFundOpErr ErrInsufficientBalance = Fail (400, CodeInsufficientBalance)"
| "respondFundOpErr ErrIdempotencyConflict = Fail (400, CodeIdempotencyConflict)"
| "respondFundOpErr e = (if isPanic e then Crash e else Fail (failWith 500))"

section \<open>Handlers as steps that may answer early\<close>

text \<open>A step of a handler goes on with a value or answers; \<open>andThen\<close> composes steps.\<close>

definition orReply :: "(err \<Rightarrow> 'x reply) \<Rightarrow> ('s \<Rightarrow> 'a res \<times> 's) \<Rightarrow> 's \<Rightarrow> ('x reply + 'a) \<times> 's" where
  "orReply h f s = (case f s of (Inl e, s') \<Rightarrow> (Inl (if isPanic e then Crash e else h e), s') | (Inr a, s') \<Rightarrow> (Inr a, s'))"

definition orFail :: "failure \<Rightarrow> ('s \<Rightarrow> 'a res \<times> 's) \<Rightarrow> 's \<Rightarrow> ('x reply + 'a) \<times> 's" where
  "orFail f = orReply (\<lambda>_. Fail f)"

definition require :: "bool \<Rightarrow> failure \<Rightarrow> 's \<Rightarrow> ('x reply + unit) \<times> 's" where
  "require b f s = (if b then Inr () else Inl (Fail f), s)"

definition validated :: "failure + 'a \<Rightarrow> 's \<Rightarrow> ('x reply + 'a) \<times> 's" where
  "validated v s = (case v of Inl f \<Rightarrow> Inl (Fail f) | Inr a \<Rightarrow> Inr a, s)"

definition replyNow :: "'x reply \<Rightarrow> 's \<Rightarrow> ('x reply + 'a) \<times> 's" where
  "replyNow r s = (Inl r, s)"

definition answer :: "('s \<Rightarrow> ('x reply + 'x) \<times> 's) \<Rightarrow> 's \<Rightarrow> 'x reply \<times> 's" where
  "answer h s = (case h s of (Inl r, s') \<Rightarrow> (r, s') | (Inr x, s') \<Rightarrow> (OK x, s'))"

definition bindE :: "'e + 'a \<Rightarrow> ('a \<Rightarrow> 'e + 'b) \<Rightarrow> 'e + 'b" where
  "bindE x k = (case x of Inl e \<Rightarrow> Inl e | Inr a \<Rightarrow> k a)"

definition ensure :: "bool \<Rightarrow> 'e \<Rightarrow> 'e + unit" where
  "ensure b e = (if b then Inr () else Inl e)"

section \<open>Query parameters and keys\<close>

definition isDigit :: "char \<Rightarrow> bool" where
  "isDigit c \<longleftrightarrow> of_char c \<ge> (48 :: nat) \<and> of_char c \<le> (57 :: nat)"

definition digitsValue :: "string \<Rightarrow> nat" where
  "digitsValue = foldl (\<lambda>n c. n * 10 + (of_char c - 48)) 0"

text \<open>strconv.ParseUint (base 10, 64 bits) and strconv.Atoi: digits only, a sign for Atoi, no overflow.\<close>

definition ParseUint :: "string \<Rightarrow> nat option" where
  "ParseUint v = (if v \<noteq> [] \<and> list_all isDigit v \<and> digitsValue v < 2 ^ 64 then Some (digitsValue v) else None)"

definition Atoi :: "string \<Rightarrow> int option" where
  "Atoi v =
     (let neg = (v \<noteq> [] \<and> hd v = CHR ''-'');
          ds = (if v \<noteq> [] \<and> (hd v = CHR ''-'' \<or> hd v = CHR ''+'') then tl v else v);
          n = int (digitsValue ds) in
      if ds = [] \<or> \<not> list_all isDigit ds then None
      else if neg then (if n \<le> 2 ^ 63 then Some (- n) else None)
      else if n < 2 ^ 63 then Some n else None)"

definition parsePositiveIntQuery :: "string \<Rightarrow> int \<Rightarrow> failure + int" where
  "parsePositiveIntQuery v def =
     (if v = [] then Inr def
      else (case Atoi v of None \<Rightarrow> Inl (failWith 400) | Some n \<Rightarrow> if n \<le> 0 then Inl (failWith 400) else Inr n))"

definition defaultPageLimit :: int where "defaultPageLimit = 100"

definition maxPageLimit :: int where "maxPageLimit = 500"

definition parseLimit :: "string \<Rightarrow> failure + int" where
  "parseLimit v = bindE (parsePositiveIntQuery v defaultPageLimit)
     (\<lambda>n. if maxPageLimit < n then Inl (failWith 400) else Inr n)"

definition parseBefore :: "string \<Rightarrow> failure + nat" where
  "parseBefore v =
     (if v = [] then Inr 0
      else (case ParseUint v of None \<Rightarrow> Inl (failWith 400) | Some n \<Rightarrow> if n = 0 then Inl (failWith 400) else Inr n))"

text \<open>The two page parameters of a history query, from the strings of the query.\<close>

definition pageParams :: "string \<Rightarrow> string \<Rightarrow> failure + (nat \<times> nat)" where
  "pageParams limit before = bindE (parseLimit limit) (\<lambda>n. bindE (parseBefore before) (\<lambda>b. Inr (nat n, b)))"

definition keyChar :: "char \<Rightarrow> bool" where
  "keyChar c \<longleftrightarrow> (let n = of_char c :: nat in
     65 \<le> n \<and> n \<le> 90 \<or> 97 \<le> n \<and> n \<le> 122 \<or> 48 \<le> n \<and> n \<le> 57 \<or> c = CHR ''_'' \<or> c = CHR ''-'')"

definition requestIDPattern :: "string \<Rightarrow> bool" where
  "requestIDPattern v \<longleftrightarrow> list_all keyChar v \<and> 1 \<le> length v \<and> length v \<le> 64"

definition normalizeRequestID :: "string \<Rightarrow> failure + string" where
  "normalizeRequestID v = (if v = [] then Inr [] else if \<not> requestIDPattern v then Inl (failWith 400) else Inr v)"

definition requireRequestID :: "string \<Rightarrow> failure + string" where
  "requireRequestID v = (if v = [] then Inl (failWith 400) else normalizeRequestID v)"

definition decPtrStr :: "(dec \<Rightarrow> string) \<Rightarrow> dec option \<Rightarrow> string" where
  "decPtrStr show_dec p = (case p of None \<Rightarrow> ''nil'' | Some d \<Rightarrow> show_dec d)"

definition hashIfKeyed :: "string \<Rightarrow> string \<Rightarrow> string option" where
  "hashIfKeyed requestID requestHash = (if requestID = [] then None else Some requestHash)"

definition idempotencyConflict :: "string option \<Rightarrow> string \<Rightarrow> bool" where
  "idempotencyConflict stored current = (case stored of None \<Rightarrow> False | Some h \<Rightarrow> h \<noteq> [] \<and> h \<noteq> current)"

definition strPtr :: "string \<Rightarrow> string option" where
  "strPtr v = (if v = [] then None else Some v)"

definition derefStr :: "string option \<Rightarrow> string" where
  "derefStr p = (case p of None \<Rightarrow> [] | Some v \<Rightarrow> v)"

text \<open>The preimage of the fingerprint: the parts joined by the unit separator 0x1f. The hash itself
  (SHA-256, printed in hexadecimal) is the parameter \<open>sha\<close>.\<close>

definition unitSep :: char where "unitSep = char_of (31 :: nat)"

fun joinParts :: "string list \<Rightarrow> string" where
  "joinParts [] = []"
| "joinParts [p] = p"
| "joinParts (p # ps) = p @ unitSep # joinParts ps"

definition RequestFingerprint :: "(string \<Rightarrow> string) \<Rightarrow> string list \<Rightarrow> string" where
  "RequestFingerprint sha parts = sha (joinParts parts)"

section \<open>Validation shared by orders and conditional orders\<close>

definition sideOf :: "string \<Rightarrow> Side option" where
  "sideOf v = (if v = ''long'' then Some SideLong else if v = ''short'' then Some SideShort else None)"

definition actionOf :: "string \<Rightarrow> OrderAction option" where
  "actionOf v = (if v = ''open'' then Some ActionOpen else if v = ''close'' then Some ActionClose else None)"

definition validateSideAction :: "string \<Rightarrow> string \<Rightarrow> failure + (Side \<times> OrderAction)" where
  "validateSideAction side action =
     (case sideOf side of
        None \<Rightarrow> Inl (failWith 400)
      | Some sd \<Rightarrow> (case actionOf action of None \<Rightarrow> Inl (failWith 400) | Some ac \<Rightarrow> Inr (sd, ac)))"

definition resolveOrderType :: "string \<Rightarrow> failure + OrderType" where
  "resolveOrderType reqType =
     (if reqType = [] \<or> reqType = ''limit'' then Inr OrderTypeLimit
      else if reqType = ''market'' then Inr OrderTypeMarket
      else Inl (failWith 400))"

definition isInteger :: "dec \<Rightarrow> bool" where
  "isInteger x \<longleftrightarrow> of_int \<lfloor>x\<rfloor> = x"

definition maxSaneLeverage :: dec where "maxSaneLeverage = 1000"

definition resolveLeverage :: "dec option \<Rightarrow> failure + dec" where
  "resolveLeverage reqLeverage =
     (let leverage = (case reqLeverage of None \<Rightarrow> 1 | Some l \<Rightarrow> l) in
      if leverage \<le> 0 \<or> maxSaneLeverage < leverage \<or> \<not> isInteger leverage then Inl (failWith 400)
      else Inr leverage)"

text \<open>shopspring's Mod: the remainder of the division truncated towards zero.\<close>

definition decMod :: "dec \<Rightarrow> dec \<Rightarrow> dec" where
  "decMod a b = a - b * of_int (let q = a / b in if 0 \<le> q then \<lfloor>q\<rfloor> else \<lceil>q\<rceil>)"

definition onTick :: "Coin \<Rightarrow> dec \<Rightarrow> bool" where
  "onTick coin price \<longleftrightarrow> \<not> (0 < coin_PriceTick coin \<and> decMod price (coin_PriceTick coin) \<noteq> 0)"

definition checkVolume :: "Coin \<Rightarrow> dec \<Rightarrow> failure + unit" where
  "checkVolume coin amount =
     (if amount \<le> 0 then Inl (failWith 400)
      else if 0 < coin_MinVolume coin \<and> amount < coin_MinVolume coin then Inl (400, CodeVolumeOutOfRange)
      else if 0 < coin_MaxVolume coin \<and> coin_MaxVolume coin < amount then Inl (400, CodeVolumeOutOfRange)
      else if 0 < coin_VolumeStep coin \<and> decMod amount (coin_VolumeStep coin) \<noteq> 0 then Inl (400, CodeVolumeOutOfRange)
      else Inr ())"

end
