(* ===== verification/Api.thy ===== *)
theory Api
  imports ApiParams Engine Funding
begin

text \<open>
  The trading handlers of the API server, src/internal/api/router.go and extra.go: placing and cancelling
  orders and conditional orders, changing the leverage of a position, closing a round, the operations on
  accounts. The API shares the tables and the price cache with the engine and talks to it through Kafka:
  \<open>api_sent\<close> are the messages accepted by the producer, with their keys, in order.

  \<^item> \<open>w n\<close> is what other sessions (other API instances, the engine) do to the shared state at the n-th
    point of a handler where it matters: 0 before the lock is taken, 1 between the checks made under the
    lock and the statement they protect, 2 before the row is inserted or written, 3 after it. Undisturbed
    handlers take \<open>\<lambda>_ s. s\<close>.
  \<^item> Whether the lock is busy and whether the producer fails are answers of the environment (Lock models
    the lock itself). Database failures other than a refused row are not modelled.
  \<^item> \<open>decimal.NewFromString\<close> and \<open>IntPart\<close> are parameters. A JSON body is decoded before the handler
    starts; \<open>binding: "required"\<close> refuses zero values.
\<close>

section \<open>State and environment\<close>

record OrderSubmitEvent =
  ose_OrderID :: nat
  ose_UID :: uid
  ose_Symbol :: symbol
  ose_Side :: Side
  ose_Action :: OrderAction
  ose_Type :: OrderType
  ose_Price :: string
  ose_Amount :: string
  ose_Leverage :: nat
  ose_ReduceOnly :: bool

record OrderCancelEvent =
  oce_OrderID :: nat
  oce_UID :: uid
  oce_Symbol :: symbol

record RoundCloseEvent =
  rce_UID :: uid
  rce_Round :: nat

datatype Event = OrderSubmitted OrderSubmitEvent | OrderCancelRequested OrderCancelEvent | RoundCloseRequested RoundCloseEvent

record ApiState = FundingState +
  api_sent :: "(string \<times> Event) list"
  api_attempts :: nat
  api_history :: "StatusHistory list"

record ApiEnv =
  ae_engine :: EngineEnv
  ae_publishFails :: "nat \<Rightarrow> bool"
  ae_lockBusy :: "string \<Rightarrow> bool"
  ae_parseDec :: "string \<Rightarrow> dec option"
  ae_IntPart :: "dec \<Rightarrow> int"
  ae_klineExternal :: bool
  ae_operator :: string

abbreviation ae_lib :: "ApiEnv \<Rightarrow> dec_lib" where
  "ae_lib A \<equiv> ee_lib (ae_engine A)"

text \<open>Whether the producer took the message.\<close>

definition Publish :: "ApiEnv \<Rightarrow> string \<Rightarrow> Event \<Rightarrow> 'z ApiState_scheme \<Rightarrow> ('e + bool) \<times> 'z ApiState_scheme" where
  "Publish A key ev s =
     (let s1 = s\<lparr> api_attempts := Suc (api_attempts s) \<rparr> in
      if ae_publishFails A (api_attempts s) then (Inr False, s1)
      else (Inr True, s1\<lparr> api_sent := api_sent s @ [(key, ev)] \<rparr>))"

definition interfere :: "(nat \<Rightarrow> 's \<Rightarrow> 's) \<Rightarrow> nat \<Rightarrow> 's \<Rightarrow> ('e + unit) \<times> 's" where
  "interfere w n s = (Inr (), w n s)"

definition getState :: "('s \<Rightarrow> 'a) \<Rightarrow> 's \<Rightarrow> ('e + 'a) \<times> 's" where
  "getState f s = (Inr (f s), s)"

section \<open>Accounts\<close>

definition loadAccount :: "uid \<Rightarrow> 'z ApiState_scheme \<Rightarrow> ('x reply + Account) \<times> 'z ApiState_scheme" where
  "loadAccount u s =
     (case FindByUID (mny_accounts s) u of
        None \<Rightarrow> (Inl (Fail (400, CodeAccountNotFound)), s)
      | Some a \<Rightarrow> (Inr a, s))"

definition rejectIfFrozen :: "Account \<Rightarrow> 's \<Rightarrow> ('x reply + unit) \<times> 's" where
  "rejectIfFrozen account = require (acc_Status account \<noteq> AccountStatusFrozen) (400, CodeAccountFrozen)"

definition parseUID :: "ApiEnv \<Rightarrow> string \<Rightarrow> failure + uid" where
  "parseUID A v =
     (case ae_parseDec A v of
        None \<Rightarrow> Inl (failWith 400)
      | Some d \<Rightarrow> if d \<le> 0 then Inl (failWith 400) else Inr (nat (ae_IntPart A d mod 2 ^ 64)))"

definition parseAccountUID :: "ApiEnv \<Rightarrow> string \<Rightarrow> 'z ApiState_scheme \<Rightarrow> ('x reply + uid) \<times> 'z ApiState_scheme" where
  "parseAccountUID A v = andThen (validated (parseUID A v)) (\<lambda>u. andThen (loadAccount u) (\<lambda>_. retn u))"

definition createAccount :: "uid \<Rightarrow> 'z ApiState_scheme \<Rightarrow> (Account option \<times> bool) reply \<times> 'z ApiState_scheme" where
  "createAccount u =
     answer
       (andThen (require (u \<noteq> 0) (failWith 400))
         (\<lambda>_. orFail (failWith 500) (onAccounts (\<lambda>rows. case CreateIfAbsent rows u of (r, rows') \<Rightarrow> (Inr r, rows')))))"

record fundOpResult =
  for_RequestID :: string
  for_Duplicate :: bool

definition adjustBalance :: "ApiEnv \<Rightarrow> int \<Rightarrow> uid \<Rightarrow> dec \<Rightarrow> string \<Rightarrow> 'z ApiState_scheme \<Rightarrow> fundOpResult reply \<times> 'z ApiState_scheme" where
  "adjustBalance A now u amount requestID =
     (let E = ae_engine A in
      answer
        (andThen (require (u \<noteq> 0) (failWith 400))
          (\<lambda>_. andThen (validated (requireRequestID requestID))
          (\<lambda>rid. andThen (require (amount \<noteq> 0) (failWith 400))
          (\<lambda>_. andThen (orReply respondFundOpErr
                  (onFunds (AdjustBalance (ee_lib E) (ee_fingerprint E) (ee_show_dec E) (ee_show_nat E) (ee_victim E) now u amount rid)))
          (\<lambda>replayed. retn \<lparr> for_RequestID = rid, for_Duplicate = replayed \<rparr>))))))"

definition grantCredit :: "ApiEnv \<Rightarrow> int \<Rightarrow> uid \<Rightarrow> dec \<Rightarrow> string \<Rightarrow> 'z ApiState_scheme \<Rightarrow> fundOpResult reply \<times> 'z ApiState_scheme" where
  "grantCredit A now u amount requestID =
     (let E = ae_engine A in
      answer
        (andThen (require (u \<noteq> 0) (failWith 400))
          (\<lambda>_. andThen (validated (requireRequestID requestID))
          (\<lambda>rid. andThen (require (0 < amount) (failWith 400))
          (\<lambda>_. andThen (orReply respondFundOpErr
                  (onFunds (GrantCredit (ee_lib E) (ee_fingerprint E) (ee_show_dec E) (ee_show_nat E) (ee_victim E) now u amount rid)))
          (\<lambda>replayed. retn \<lparr> for_RequestID = rid, for_Duplicate = replayed \<rparr>))))))"

definition setInsured :: "uid \<Rightarrow> bool \<Rightarrow> 'z ApiState_scheme \<Rightarrow> unit reply \<times> 'z ApiState_scheme" where
  "setInsured u insured =
     answer
       (andThen (require (u \<noteq> 0) (failWith 400))
         (\<lambda>_. orReply respondFundOpErr (onAccounts (svcSetInsured u insured))))"

datatype closeRoundStatus = RoundSubmitted | RoundAlreadyClosed

definition closeRound :: "ApiEnv \<Rightarrow> uid \<Rightarrow> nat \<Rightarrow> 'z ApiState_scheme \<Rightarrow> (nat \<times> closeRoundStatus) reply \<times> 'z ApiState_scheme" where
  "closeRound A u rnd =
     answer
       (andThen (require (u \<noteq> 0 \<and> rnd \<noteq> 0) (failWith 400))
         (\<lambda>_. andThen (loadAccount u)
         (\<lambda>account. andThen (require (rnd \<le> acc_Round account) (400, CodeRoundMismatch))
         (\<lambda>_. if rnd < acc_Round account then retn (rnd, RoundAlreadyClosed)
               else andThen (Publish A (ee_show_nat (ae_engine A) u) (RoundCloseRequested \<lparr> rce_UID = u, rce_Round = rnd \<rparr>))
                 (\<lambda>sent. andThen (require sent (failWith 500)) (\<lambda>_. retn (rnd, RoundSubmitted)))))))"

section \<open>Cancelling\<close>

definition orderIDOf :: "ApiEnv \<Rightarrow> string \<Rightarrow> failure + nat" where
  "orderIDOf A v = (case ae_parseDec A v of None \<Rightarrow> Inl (failWith 400) | Some d \<Rightarrow> Inr (nat (ae_IntPart A d mod 2 ^ 64)))"

definition publishCancel :: "ApiEnv \<Rightarrow> nat \<Rightarrow> uid \<Rightarrow> symbol \<Rightarrow> 'z ApiState_scheme \<Rightarrow> ('e + bool) \<times> 'z ApiState_scheme" where
  "publishCancel A i u sy = Publish A sy (OrderCancelRequested \<lparr> oce_OrderID = i, oce_UID = u, oce_Symbol = sy \<rparr>)"

definition cancelOrder :: "ApiEnv \<Rightarrow> uid \<Rightarrow> string \<Rightarrow> 'z ApiState_scheme \<Rightarrow> unit reply \<times> 'z ApiState_scheme" where
  "cancelOrder A u orderId =
     answer
       (andThen (require (u \<noteq> 0) (failWith 400))
         (\<lambda>_. andThen (validated (orderIDOf A orderId))
         (\<lambda>i. andThen (getState (\<lambda>s. ordFindByOrderID (es_orders s) i))
         (\<lambda>found. case found of
              None \<Rightarrow> replyNow (Fail (400, CodeOrderNotFound))
            | Some o' \<Rightarrow>
                if ord_UID o' \<noteq> u then replyNow (Fail (400, CodeOrderNotFound))
                else andThen (require (ActiveOrderStatuses (ord_Status o')) (400, CodeOrderNotCancelable))
                  (\<lambda>_. andThen (publishCancel A (ord_OrderID o') u (ord_Symbol o'))
                  (\<lambda>sent. require sent (failWith 500)))))))"

text \<open>Cancels the row and gives the whole margin back; False when the order is no longer pending.\<close>

definition cancelPendingConditional :: "ApiEnv \<Rightarrow> int \<Rightarrow> ConditionalOrder \<Rightarrow> 'z ApiState_scheme \<Rightarrow> bool res \<times> 'z ApiState_scheme" where
  "cancelPendingConditional A now co =
     andThen (onConds (\<lambda>rows. case coMarkCanceled (co_OrderID co) now rows of (ok, rows') \<Rightarrow> (Inr ok, rows')))
       (\<lambda>ok.
          if \<not> ok then retn False
          else if co_Action co = ActionOpen \<and> (0 < co_FrozenMargin co \<or> 0 < co_FrozenCredit co) then
            andThen (UnfreezeMarginOf (ae_engine A) (co_UID co) (co_FrozenMargin co) (co_FrozenCredit co)) (\<lambda>_. retn True)
          else retn True)"

definition apiCancelConditionalOrder ::
  "ApiEnv \<Rightarrow> (nat \<Rightarrow> 'z ApiState_scheme \<Rightarrow> 'z ApiState_scheme) \<Rightarrow> int \<Rightarrow> uid \<Rightarrow> string \<Rightarrow> 'z ApiState_scheme \<Rightarrow>
   unit reply \<times> 'z ApiState_scheme" where
  "apiCancelConditionalOrder A w now u orderId =
     answer
       (andThen (require (u \<noteq> 0) (failWith 400))
         (\<lambda>_. andThen (validated (orderIDOf A orderId))
         (\<lambda>i. andThen (getState (\<lambda>s. coFindByOrderID (es_conds s) i))
         (\<lambda>found. case found of
              None \<Rightarrow> replyNow (Fail (400, CodeOrderNotFound))
            | Some co \<Rightarrow>
                if co_UID co \<noteq> u then replyNow (Fail (400, CodeOrderNotFound))
                else andThen (require (co_Status co = ConditionalStatusPending) (400, CodeOrderNotCancelable))
                  (\<lambda>_. andThen (interfere w 2)
                  (\<lambda>_. andThen (orFail (failWith 500) (cancelPendingConditional A now co))
                  (\<lambda>ok. require ok (400, CodeOrderNotCancelable))))))))"

end
