(* ===== verification/ApiOrders.thy ===== *)
theory ApiOrders
  imports Api
begin

text \<open>
  Placing orders and conditional orders and changing the leverage of a position: addOrder,
  addConditionalOrder and setLeverage of src/internal/api/router.go, in the order of their checks. Prices
  and amounts are validated first; an opening order then reserves its margin under the lock of the user,
  contract and side; the row is written, and an order is sent to the engine.
\<close>

section \<open>Reference price, price and amount of a request\<close>

text \<open>The mark, or the index price when there is no mark.\<close>

definition referencePrice :: "dec option \<Rightarrow> markCache \<Rightarrow> dec option" where
  "referencePrice mark c = (case mark of Some m \<Rightarrow> Some m | None \<Rightarrow> GetIndexPrice c)"

definition withinBand :: "dec_lib \<Rightarrow> Coin \<Rightarrow> dec option \<Rightarrow> dec \<Rightarrow> bool" where
  "withinBand L coin ref price \<longleftrightarrow>
     (case ref of
        None \<Rightarrow> True
      | Some r \<Rightarrow> \<not> (0 < r \<and> 0 < coin_PriceProtectionRatio coin \<and>
                     coin_PriceProtectionRatio coin < lib_Div L \<bar>price - r\<bar> r))"

definition resolvePrice ::
  "dec_lib \<Rightarrow> Coin \<Rightarrow> OrderType \<Rightarrow> OrderAction \<Rightarrow> dec \<Rightarrow> dec option \<Rightarrow> dec option \<Rightarrow> failure + dec" where
  "resolvePrice L coin ty action reqPrice mark ref =
     (if ty = OrderTypeLimit then
        if reqPrice \<le> 0 then Inl (failWith 400)
        else if \<not> onTick coin reqPrice then Inl (400, CodePriceTickInvalid)
        else if action = ActionOpen \<and> \<not> withinBand L coin ref reqPrice then Inl (400, CodePriceOutOfRange)
        else Inr reqPrice
      else (case mark of None \<Rightarrow> Inl (400, CodeNoMarkPrice) | Some m \<Rightarrow> Inr m))"

text \<open>The amount asked for, or what a margin buys at the price. The division by the price is unguarded.\<close>

definition resolveAmount ::
  "dec_lib \<Rightarrow> Coin \<Rightarrow> dec \<Rightarrow> dec \<Rightarrow> dec option \<Rightarrow> dec option \<Rightarrow> 's \<Rightarrow> ('x reply + dec) \<times> 's" where
  "resolveAmount L coin price leverage marginAmount amount =
     (case (marginAmount, amount) of
        (Some _, Some _) \<Rightarrow> replyNow (Fail (failWith 400))
      | (Some m, None) \<Rightarrow>
          if m \<le> 0 then replyNow (Fail (failWith 400))
          else orFail (failWith 500)
            (\<lambda>s. (case sdiv L (m * leverage) price of Inl e \<Rightarrow> Inl e | Inr q \<Rightarrow> Inr (lib_Truncate L q (coin_BaseCoinScale coin)), s))
      | (None, Some a) \<Rightarrow> retn a
      | (None, None) \<Rightarrow> replyNow (Fail (failWith 400)))"

text \<open>A selling order that opens is valued at the reference price when that is higher.\<close>

definition orderNotionalPrice :: "Side \<Rightarrow> dec option \<Rightarrow> dec \<Rightarrow> dec" where
  "orderNotionalPrice side ref price =
     (case ref of None \<Rightarrow> price | Some r \<Rightarrow> if side = SideShort \<and> price < r then r else price)"

section \<open>Risk already taken or queued\<close>

definition positionNotional :: "dec option \<Rightarrow> Position option \<Rightarrow> dec" where
  "positionNotional mark p =
     (case p of None \<Rightarrow> 0
      | Some q \<Rightarrow> pos_Volume q * (case mark of Some m \<Rightarrow> m | None \<Rightarrow> pos_AvgEntryPrice q))"

definition conditionalPrice :: "ConditionalOrder \<Rightarrow> dec" where
  "conditionalPrice co = (if co_Type co = OrderTypeMarket then co_TriggerPrice co else co_Price co)"

definition existingOpenNotional :: "uid \<Rightarrow> symbol \<Rightarrow> Side \<Rightarrow> dec option \<Rightarrow> 'z EngineState_scheme \<Rightarrow> dec" where
  "existingOpenNotional u sy side mark s =
     positionNotional mark (Find (mny_positions s) u sy side) +
     sum_list (map (\<lambda>o'. RemainingAmount o' * ord_Price o')
       (filter (\<lambda>o'. ord_Side o' = side \<and> ord_Action o' = ActionOpen) (ordFindActiveByUID (es_orders s) u sy))) +
     sum_list (map (\<lambda>co. co_Amount co * conditionalPrice co)
       (filter (\<lambda>co. co_Side co = side \<and> co_Action co = ActionOpen) (coFindActiveByUID (es_conds s) u sy)))"

section \<open>The critical section\<close>

definition OrderLockKey :: "(nat \<Rightarrow> string) \<Rightarrow> uid \<Rightarrow> symbol \<Rightarrow> Side \<Rightarrow> string" where
  "OrderLockKey show_nat u sy side =
     ''perpgo:lock:order:'' @ show_nat u @ '':'' @ sy @ '':'' @ (if side = SideLong then ''long'' else ''short'')"

definition underLock :: "ApiEnv \<Rightarrow> string \<Rightarrow> ('s \<Rightarrow> (lockError + 'a) \<times> 's) \<Rightarrow> 's \<Rightarrow> (lockError + 'a) \<times> 's" where
  "underLock A key f s = (if ae_lockBusy A key then (Inl (OtherError ErrLockBusy), s) else f s)"

definition svcFreezeMargin :: "ApiEnv \<Rightarrow> uid \<Rightarrow> dec \<Rightarrow> 'z ApiState_scheme \<Rightarrow> (lockError + FreezeResult) \<times> 'z ApiState_scheme" where
  "svcFreezeMargin A u amount s =
     (case onAccounts (FreezeMargin (ae_lib A) (\<lambda>_ rows. rows) (TotalUnrealizedPnl (marksOf s) u (mny_positions s)) u amount) s of
        (Inl e, s') \<Rightarrow> (Inl (OtherError e), s')
      | (Inr fr, s') \<Rightarrow> (Inr fr, s'))"

definition reserveMargin ::
  "ApiEnv \<Rightarrow> (nat \<Rightarrow> 'z ApiState_scheme \<Rightarrow> 'z ApiState_scheme) \<Rightarrow> uid \<Rightarrow> symbol \<Rightarrow> Side \<Rightarrow> dec option \<Rightarrow> dec \<Rightarrow> dec \<Rightarrow> dec \<Rightarrow>
   'z ApiState_scheme \<Rightarrow> (lockError + FreezeResult) \<times> 'z ApiState_scheme" where
  "reserveMargin A w u sy side mark notional leverage requiredMargin s =
     (case TierFor (ee_tiers (ae_engine A)) sy (existingOpenNotional u sy side mark s + notional) of
        None \<Rightarrow> (Inl (HttpError (400, CodeTierNotConfigured)), s)
      | Some tier \<Rightarrow>
          if of_nat (tier_MaxLeverage tier) < leverage then (Inl (HttpError (400, CodeLeverageExceedsTier)), s)
          else svcFreezeMargin A u requiredMargin (w 1 s))"

definition rollbackFreeze :: "ApiEnv \<Rightarrow> uid \<Rightarrow> FreezeResult \<Rightarrow> 'z ApiState_scheme \<Rightarrow> unit option res \<times> 'z ApiState_scheme" where
  "rollbackFreeze A u fr =
     (if frz_FromAvailable fr \<le> 0 \<and> frz_FromCredit fr \<le> 0 then retn None
      else tolerate (UnfreezeMarginOf (ae_engine A) u (frz_FromAvailable fr) (frz_FromCredit fr)))"

section \<open>Requests and their keys\<close>

record addOrderRequest =
  aor_UID :: uid
  aor_Symbol :: symbol
  aor_Side :: string
  aor_Action :: string
  aor_Type :: string
  aor_Leverage :: "dec option"
  aor_Price :: dec
  aor_MarginAmount :: "dec option"
  aor_Amount :: "dec option"
  aor_ReduceOnly :: bool
  aor_RequestID :: string

record placeOrderResult =
  por_OrderID :: nat
  por_RequestID :: string
  por_Duplicate :: bool

definition sideText :: "Side \<Rightarrow> string" where
  "sideText side = (if side = SideLong then ''long'' else ''short'')"

definition actionText :: "OrderAction \<Rightarrow> string" where
  "actionText action = (if action = ActionOpen then ''open'' else ''close'')"

definition typeText :: "OrderType \<Rightarrow> string" where
  "typeText ty = (if ty = OrderTypeLimit then ''limit'' else ''market'')"

definition boolText :: "bool \<Rightarrow> string" where
  "boolText b = (if b then ''true'' else ''false'')"

definition orderFingerprint :: "EngineEnv \<Rightarrow> Side \<Rightarrow> OrderAction \<Rightarrow> OrderType \<Rightarrow> dec \<Rightarrow> 'z addOrderRequest_scheme \<Rightarrow> string" where
  "orderFingerprint E side action ty leverage req =
     ee_fingerprint E [''order'', ee_show_nat E (aor_UID req), aor_Symbol req, sideText side, actionText action, typeText ty,
       ee_show_dec E (aor_Price req), decPtrStr (ee_show_dec E) (aor_Amount req), decPtrStr (ee_show_dec E) (aor_MarginAmount req),
       ee_show_dec E leverage, boolText (aor_ReduceOnly req)]"

definition orderSubmitEvent :: "EngineEnv \<Rightarrow> Order \<Rightarrow> OrderSubmitEvent" where
  "orderSubmitEvent E o' =
     \<lparr> ose_OrderID = ord_OrderID o', ose_UID = ord_UID o', ose_Symbol = ord_Symbol o', ose_Side = ord_Side o',
       ose_Action = ord_Action o', ose_Type = ord_Type o', ose_Price = ee_show_dec E (ord_Price o'),
       ose_Amount = ee_show_dec E (ord_Amount o'), ose_Leverage = ord_Leverage o', ose_ReduceOnly = ord_ReduceOnly o' \<rparr>"

definition publishOrderSubmit :: "ApiEnv \<Rightarrow> Order \<Rightarrow> 'z ApiState_scheme \<Rightarrow> ('e + bool) \<times> 'z ApiState_scheme" where
  "publishOrderSubmit A o' = Publish A (ord_Symbol o') (OrderSubmitted (orderSubmitEvent (ae_engine A) o'))"

definition respondDuplicateOrder :: "ApiEnv \<Rightarrow> Order \<Rightarrow> string \<Rightarrow> 'z ApiState_scheme \<Rightarrow> (placeOrderResult reply + 'a) \<times> 'z ApiState_scheme" where
  "respondDuplicateOrder A existing requestHash =
     (let result = OK \<lparr> por_OrderID = ord_OrderID existing, por_RequestID = derefStr (ord_RequestID existing), por_Duplicate = True \<rparr> in
      if idempotencyConflict (ord_RequestHash existing) requestHash then replyNow (Fail (400, CodeIdempotencyConflict))
      else if ord_Status existing = OrderStatusOpen \<and> ord_TradedAmount existing = 0 then
        andThen (publishOrderSubmit A existing)
          (\<lambda>sent. if sent then replyNow result else replyNow (Fail (500, CodeDispatchFailed)))
      else replyNow result)"

definition respondDuplicateConditional :: "ConditionalOrder \<Rightarrow> string \<Rightarrow> 's \<Rightarrow> (placeOrderResult reply + 'a) \<times> 's" where
  "respondDuplicateConditional existing requestHash =
     (if idempotencyConflict (co_RequestHash existing) requestHash then replyNow (Fail (400, CodeIdempotencyConflict))
      else replyNow (OK \<lparr> por_OrderID = co_OrderID existing, por_RequestID = derefStr (co_RequestID existing), por_Duplicate = True \<rparr>))"

text \<open>An earlier request with this key answers for the new one.\<close>

definition replayOrder :: "ApiEnv \<Rightarrow> uid \<Rightarrow> string \<Rightarrow> string \<Rightarrow> 'z ApiState_scheme \<Rightarrow> (placeOrderResult reply + unit) \<times> 'z ApiState_scheme" where
  "replayOrder A u requestID requestHash s =
     (case (if requestID = [] then None else ordFindByRequestID (es_orders s) u requestID) of
        None \<Rightarrow> (Inr (), s)
      | Some existing \<Rightarrow> respondDuplicateOrder A existing requestHash s)"

definition replayConditional :: "uid \<Rightarrow> string \<Rightarrow> string \<Rightarrow> 'z ApiState_scheme \<Rightarrow> (placeOrderResult reply + unit) \<times> 'z ApiState_scheme" where
  "replayConditional u requestID requestHash s =
     (case (if requestID = [] then None else coFindByRequestID (es_conds s) u requestID) of
        None \<Rightarrow> (Inr (), s)
      | Some existing \<Rightarrow> respondDuplicateConditional existing requestHash s)"

text \<open>The margin of an opening request. A failure under the lock may be that of a concurrent duplicate:
  then the request is answered as one (\<open>replay\<close>).\<close>

definition openMargin ::
  "ApiEnv \<Rightarrow> (nat \<Rightarrow> 'z ApiState_scheme \<Rightarrow> 'z ApiState_scheme) \<Rightarrow> ('z ApiState_scheme \<Rightarrow> ('x reply + unit) \<times> 'z ApiState_scheme) \<Rightarrow>
   uid \<Rightarrow> symbol \<Rightarrow> Side \<Rightarrow> OrderAction \<Rightarrow> dec option \<Rightarrow> dec \<Rightarrow> dec \<Rightarrow> dec \<Rightarrow> 'z ApiState_scheme \<Rightarrow>
   ('x reply + FreezeResult) \<times> 'z ApiState_scheme" where
  "openMargin A w replay u sy side action mark notional leverage requiredMargin s =
     (if action \<noteq> ActionOpen then (Inr \<lparr> frz_FromAvailable = 0, frz_FromCredit = 0 \<rparr>, s)
      else
        (case underLock A (OrderLockKey (ee_show_nat (ae_engine A)) u sy side)
                (reserveMargin A w u sy side mark notional leverage requiredMargin) (w 0 s) of
           (Inr fr, s') \<Rightarrow> (Inr fr, s')
         | (Inl le, s') \<Rightarrow>
             (case respondLockErr le of
                Crash e \<Rightarrow> (Inl (Crash e), s')
              | r \<Rightarrow> andThen replay (\<lambda>_. replyNow r) s')))"

section \<open>Placing an order\<close>

text \<open>\<open>nat \<lfloor>leverage\<rfloor>\<close> is \<open>uint32(leverage.IntPart())\<close> on the validated range.\<close>

definition orderRow ::
  "nat \<Rightarrow> int \<Rightarrow> 'z addOrderRequest_scheme \<Rightarrow> Side \<Rightarrow> OrderAction \<Rightarrow> OrderType \<Rightarrow> dec \<Rightarrow> dec \<Rightarrow> dec \<Rightarrow> string \<Rightarrow> string \<Rightarrow> FreezeResult \<Rightarrow> Order" where
  "orderRow i now req side action ty price amount leverage requestID requestHash fr =
     \<lparr> ord_OrderID = i, ord_UID = aor_UID req, ord_Symbol = aor_Symbol req, ord_Side = side, ord_Action = action,
       ord_Type = ty, ord_Price = price, ord_Amount = amount, ord_TradedAmount = 0, ord_AvgDealPrice = 0,
       ord_FrozenMargin = (if action = ActionOpen then frz_FromAvailable fr else 0),
       ord_FrozenCredit = (if action = ActionOpen then frz_FromCredit fr else 0),
       ord_Leverage = nat \<lfloor>leverage\<rfloor>, ord_ReduceOnly = aor_ReduceOnly req, ord_Liquidation = False,
       ord_Status = OrderStatusOpen, ord_CreateTime = now, ord_UpdateTime = now,
       ord_RequestID = strPtr requestID, ord_RequestHash = hashIfKeyed requestID requestHash \<rparr>"

text \<open>A refused row: the request lost against one with the same key, whose result it returns after giving
  its own margin back.\<close>

definition storeOrder ::
  "ApiEnv \<Rightarrow> uid \<Rightarrow> string \<Rightarrow> string \<Rightarrow> FreezeResult \<Rightarrow> Order \<Rightarrow> 'z ApiState_scheme \<Rightarrow> (placeOrderResult reply + unit) \<times> 'z ApiState_scheme" where
  "storeOrder A u requestID requestHash fr o' s =
     (case onOrders (ordInsert (ae_lib A) o') s of
        (Inr _, s') \<Rightarrow> (Inr (), s')
      | (Inl e, s') \<Rightarrow>
          if requestID \<noteq> [] then
            andThen (orFail (failWith 500) (rollbackFreeze A u fr))
              (\<lambda>_. andThen (replayOrder A u requestID requestHash) (\<lambda>_. replyNow (Fail (failWith 500)))) s'
          else (Inl (Fail (failWith 500)), s'))"

definition enabledCoin :: "ApiEnv \<Rightarrow> symbol \<Rightarrow> 's \<Rightarrow> ('x reply + Coin) \<times> 's" where
  "enabledCoin A sy s =
     (case coinBySymbol (ee_coins (ae_engine A)) sy of
        None \<Rightarrow> (Inl (Fail (400, CodeSymbolNotFound)), s)
      | Some coin \<Rightarrow> if coin_Enable coin then (Inr coin, s) else (Inl (Fail (400, CodeSymbolNotFound)), s))"

text \<open>From the price on, for a validated request.\<close>

definition placeOrder ::
  "ApiEnv \<Rightarrow> (nat \<Rightarrow> 'z ApiState_scheme \<Rightarrow> 'z ApiState_scheme) \<Rightarrow> int \<Rightarrow> 'q addOrderRequest_scheme \<Rightarrow> Side \<Rightarrow> OrderAction \<Rightarrow> OrderType \<Rightarrow>
   dec \<Rightarrow> string \<Rightarrow> string \<Rightarrow> Coin \<Rightarrow> 'z ApiState_scheme \<Rightarrow> (placeOrderResult reply + placeOrderResult) \<times> 'z ApiState_scheme" where
  "placeOrder A w now req side action ty leverage requestID requestHash coin s =
     (let u = aor_UID req; sy = aor_Symbol req; L = ae_lib A;
          mark = (if ty = OrderTypeMarket \<or> action = ActionOpen then Get (es_marks s sy) else None);
          ref = referencePrice mark (es_marks s sy) in
      andThen (validated (resolvePrice L coin ty action (aor_Price req) mark ref))
        (\<lambda>price. andThen (resolveAmount L coin price leverage (aor_MarginAmount req) (aor_Amount req))
        (\<lambda>amount. andThen (validated (checkVolume coin amount))
        (\<lambda>_. let np = orderNotionalPrice side ref price; requiredMargin = lib_Div L (amount * np) leverage in
           andThen (openMargin A w (replayOrder A u requestID requestHash) u sy side action mark (amount * np) leverage requiredMargin)
        (\<lambda>fr. andThen (orFail (failWith 500) (nextID (ae_engine A)))
        (\<lambda>i. let o' = orderRow i now req side action ty price amount leverage requestID requestHash fr in
           andThen (interfere w 2)
        (\<lambda>_. andThen (storeOrder A u requestID requestHash fr o')
        (\<lambda>_. andThen (publishOrderSubmit A o')
        (\<lambda>sent. andThen (require sent (500, CodeDispatchFailed))
        (\<lambda>_. retn \<lparr> por_OrderID = i, por_RequestID = requestID, por_Duplicate = False \<rparr>))))))))) s)"

definition addOrder ::
  "ApiEnv \<Rightarrow> (nat \<Rightarrow> 'z ApiState_scheme \<Rightarrow> 'z ApiState_scheme) \<Rightarrow> int \<Rightarrow> 'q addOrderRequest_scheme \<Rightarrow> 'z ApiState_scheme \<Rightarrow>
   placeOrderResult reply \<times> 'z ApiState_scheme" where
  "addOrder A w now req =
     (let u = aor_UID req in
      answer
        (andThen (require (u \<noteq> 0 \<and> aor_Symbol req \<noteq> [] \<and> aor_Side req \<noteq> [] \<and> aor_Action req \<noteq> []) (failWith 400))
          (\<lambda>_. andThen (loadAccount u)
          (\<lambda>account. andThen (validated (validateSideAction (aor_Side req) (aor_Action req)))
          (\<lambda>(side, action). andThen (validated (resolveOrderType (aor_Type req)))
          (\<lambda>ty. andThen (validated (resolveLeverage (aor_Leverage req)))
          (\<lambda>leverage. andThen (validated (normalizeRequestID (aor_RequestID req)))
          (\<lambda>requestID. let requestHash = orderFingerprint (ae_engine A) side action ty leverage req in
             andThen (replayOrder A u requestID requestHash)
          (\<lambda>_. andThen (if action = ActionOpen then rejectIfFrozen account else retn ())
          (\<lambda>_. andThen (enabledCoin A (aor_Symbol req))
          (\<lambda>coin. placeOrder A w now req side action ty leverage requestID requestHash coin)))))))))))"

end
