(* ===== verification/ApiDemo.thy ===== *)
theory ApiDemo
  imports Api EngineSteps
begin

text \<open>A small API server for the concrete instances of the theorems about its handlers.\<close>

definition demoTier :: RiskLimitTier where
  "demoTier = \<lparr> tier_ID = 1, tier_Symbol = ''BTCUSDT'', tier_Tier = 1, tier_MaxNotional = 0, tier_MaintenanceMarginRate = 1 / 200,
     tier_MaintenanceAmount = 0, tier_MaxLeverage = 20 \<rparr>"

definition demoApi :: ApiEnv where
  "demoApi =
     \<lparr> ae_engine = demoEnv\<lparr> ee_tiers := [demoTier], ee_fingerprint := concat \<rparr>, ae_publishFails = (\<lambda>_. False), ae_lockBusy = (\<lambda>_. False),
       ae_parseDec = (\<lambda>v. map_option of_int (Atoi v)), ae_IntPart = floor, ae_klineExternal = True, ae_operator = ''ops'' \<rparr>"

definition demoApiState :: ApiState where
  "demoApiState = FundingState.extend (demoEngine\<lparr> es_orders := [] \<rparr>) (ApiState.fields [] 0 [])"

lemma demoApi_lib: "decimal_lib (ae_lib demoApi)"
  by (simp add: demoApi_def demoEnv_def std_decimal_lib)

end
