(* ===== verification/ApiOrderProps.thy ===== *)
theory ApiOrderProps
  imports ApiOrders ApiDemo
begin

text \<open>
  What placing an order does, seen from the client: an accepted order is stored, funded and sent exactly as
  validated; a refused one leaves no trace; a repeated one is the same order; and of two concurrent requests
  with one key the one that loses is refunded.
\<close>

section \<open>Steps that answer early\<close>

lemma andThen_Inr_iff: "andThen f k s = (Inr b, t) \<longleftrightarrow> (\<exists>a s'. f s = (Inr a, s') \<and> k a s' = (Inr b, t))"
  by (auto simp: andThen_def split: prod.splits sum.splits)

lemma andThen_Inl_iff: "andThen f k s = (Inl e, t) \<longleftrightarrow> f s = (Inl e, t) \<or> (\<exists>a s'. f s = (Inr a, s') \<and> k a s' = (Inl e, t))"
  by (auto simp: andThen_def split: prod.splits sum.splits)

lemma require_iff [simp]:
  "require b f s = (Inr u, t) \<longleftrightarrow> b \<and> t = s" "require b f s = (Inl r, t) \<longleftrightarrow> \<not> b \<and> r = Fail f \<and> t = s"
  by (auto simp: require_def)

lemma validated_iff [simp]:
  "validated v s = (Inr a, t) \<longleftrightarrow> v = Inr a \<and> t = s" "validated v s = (Inl r, t) \<longleftrightarrow> (\<exists>f. v = Inl f \<and> r = Fail f) \<and> t = s"
  by (auto simp: validated_def split: sum.splits)

lemma replyNow_iff [simp]:
  "replyNow r s = (Inr a, t) \<longleftrightarrow> False" "replyNow r s = (Inl r', t) \<longleftrightarrow> r' = r \<and> t = s"
  by (auto simp: replyNow_def)

lemma retn_iff [simp]:
  "retn a s = (Inr b, t) \<longleftrightarrow> b = a \<and> t = s" "retn a s = (Inl r, t) \<longleftrightarrow> False"
  by (auto simp: retn_def)

lemma interfere_iff [simp]:
  "interfere w n s = (Inr u, t) \<longleftrightarrow> t = w n s" "interfere w n s = (Inl r, t) \<longleftrightarrow> False"
  by (auto simp: interfere_def)

lemma loadAccount_iff [simp]:
  "loadAccount u s = (Inr a, t) \<longleftrightarrow> FindByUID (mny_accounts s) u = Some a \<and> t = s"
  "loadAccount u s = (Inl r, t) \<longleftrightarrow> FindByUID (mny_accounts s) u = None \<and> r = Fail (400, CodeAccountNotFound) \<and> t = s"
  by (auto simp: loadAccount_def split: option.splits)

lemma rejectIfFrozen_iff [simp]:
  "rejectIfFrozen a s = (Inr u, t) \<longleftrightarrow> acc_Status a \<noteq> AccountStatusFrozen \<and> t = s"
  "rejectIfFrozen a s = (Inl r, t) \<longleftrightarrow> acc_Status a = AccountStatusFrozen \<and> r = Fail (400, CodeAccountFrozen) \<and> t = s"
  by (auto simp: rejectIfFrozen_def)

lemma enabledCoin_iff [simp]:
  "enabledCoin A sy s = (Inr c, t) \<longleftrightarrow> coinBySymbol (ee_coins (ae_engine A)) sy = Some c \<and> coin_Enable c \<and> t = s"
  "enabledCoin A sy s = (Inl r, t) \<longleftrightarrow> (\<forall>c. coinBySymbol (ee_coins (ae_engine A)) sy = Some c \<longrightarrow> \<not> coin_Enable c) \<and>
     r = Fail (400, CodeSymbolNotFound) \<and> t = s"
  by (auto simp: enabledCoin_def split: option.splits)

lemma answer_iff:
  "answer h s = (r, t) \<longleftrightarrow> h s = (Inl r, t) \<or> (\<exists>x. r = OK x \<and> h s = (Inr x, t))"
  by (auto simp: answer_def split: prod.splits sum.splits)

section \<open>Locking margin and giving it back\<close>

lemma sql_update_row:
  assumes "distinct (map k rows)" "a \<in> set rows" "g a" "f a = f' a"
  shows "sql_update (\<lambda>b. k b = k a \<and> g b) f rows = sql_update (\<lambda>b. k b = k a) f' rows"
  using assms unique_key_eq [OF assms(1) _ assms(2)] by (auto simp: sql_update_def)

lemma locked_row:
  assumes L: "decimal_lib L" and rows: "wf_accounts rows" "FindByUID rows u = Some a" and x: "fits 16 x" "fits 16 y"
  shows "col L (acc_FrozenMargin a + x) = acc_FrozenMargin a + x" "col L (acc_FrozenCredit a + y) = acc_FrozenCredit a + y"
proof -
  have "a \<in> set rows" using sql_first_Some rows(2) by (fastforce simp: FindByUID_def)
  hence "fits_row a" using rows(1) by (simp add: wf_accounts_def)
  thus "col L (acc_FrozenMargin a + x) = acc_FrozenMargin a + x" "col L (acc_FrozenCredit a + y) = acc_FrozenCredit a + y"
    using x by (auto simp: fits_row_def intro!: col_fit [OF L])
qed

definition locked :: "FreezeResult \<Rightarrow> Account \<Rightarrow> Account" where
  "locked fr a = a\<lparr> acc_FrozenMargin := acc_FrozenMargin a + frz_FromAvailable fr, acc_FrozenCredit := acc_FrozenCredit a + frz_FromCredit fr \<rparr>"

lemma wf_accounts_ids: "wf_accounts rows \<Longrightarrow> distinct (map acc_ID rows)" "wf_accounts rows \<Longrightarrow> distinct (map acc_UID rows)"
  by (simp_all add: wf_accounts_def)

lemma FreezeMargin_alone:
  assumes L: "decimal_lib L" and amt: "fits 16 amount" and rows: "wf_accounts rows" "FindByUID rows u = Some a"
    and ok: "FreezeMargin L (\<lambda>_ t. t) tu u amount rows = (Inr fr, rows')"
  shows "rows' = sql_update (\<lambda>b. acc_ID b = acc_ID a) (locked fr) rows \<and> frz_FromAvailable fr + frz_FromCredit fr = amount \<and>
    (0 \<le> amount \<longrightarrow> 0 \<le> frz_FromAvailable fr \<and> 0 \<le> frz_FromCredit fr) \<and> fits 16 (frz_FromAvailable fr) \<and> fits 16 (frz_FromCredit fr)"
proof -
  have a: "a \<in> set rows" using sql_first_Some rows(2) by (fastforce simp: FindByUID_def)
  have byid: "FindByID rows (acc_ID a) = Some a" by (rule FindByUID_ID [OF rows])
  note d = wf_accounts_ids(1) [OF rows(1)]
  have same: "b = a" if "b \<in> set rows" "acc_ID b = acc_ID a" for b using unique_key_eq [OF d that(1) a that(2)] .
  have fitr: "fits 16 (acc_Balance a)" "fits 16 (acc_FrozenMargin a)" using a rows(1) by (auto simp: wf_accounts_def fits_row_def)
  have whole: "rows' = sql_update (\<lambda>b. acc_ID b = acc_ID a) (locked fr) rows"
    if "fr = \<lparr> frz_FromAvailable = amount, frz_FromCredit = 0 \<rparr>" "g a"
      "rows' = sql_update (\<lambda>b. acc_ID b = acc_ID a \<and> g b) (\<lambda>b. b\<lparr> acc_FrozenMargin := col L (acc_FrozenMargin b + amount) \<rparr>) rows" for g
    unfolding that(3) by (rule sql_update_row [where k = acc_ID and g = g and a = a, OF d a that(2)]) (simp add: that(1) locked_def locked_row(1) [OF L rows amt amt])
  have forced: ?thesis if "freezeForced L (\<lambda>_ t. t) tu (acc_ID a) amount rows = (Inr fr, rows')"
  proof -
    from that byid have fr: "fr = \<lparr> frz_FromAvailable = amount, frz_FromCredit = 0 \<rparr>"
      "rows' = snd (FreezeForceIntoNegative L (acc_ID a) amount (acc_Balance a) (acc_Credit a) (acc_FrozenMargin a) (acc_FrozenCredit a) rows)"
      by (auto simp: freezeForced_def Let_def FindFreshMarginSnapshot_def split: if_splits prod.splits)
    from whole [OF fr(1), of "\<lambda>b. acc_Balance b = acc_Balance a \<and> acc_Credit b = acc_Credit a \<and>
        acc_FrozenMargin b = acc_FrozenMargin a \<and> acc_FrozenCredit b = acc_FrozenCredit a"] fr(2)
    have "rows' = sql_update (\<lambda>b. acc_ID b = acc_ID a) (locked fr) rows" by (simp add: FreezeForceIntoNegative_def)
    with fr(1) amt show ?thesis by simp
  qed
  have gc: "GetOrCreate rows u = (Some a, rows)" using rows(2) by (simp add: GetOrCreate_def)
  show ?thesis
  proof (cases "u = UID")
    case True
    with ok gc have fr: "fr = \<lparr> frz_FromAvailable = amount, frz_FromCredit = 0 \<rparr>" "rows' = FreezeUnconditional L (acc_ID a) amount rows"
      by (auto simp: FreezeMargin_def)
    with whole [OF fr(1), of "\<lambda>_. True"] amt show ?thesis by (simp add: FreezeUnconditional_def)
  next
    case False
    with ok gc have lv: "freezeLevels L (\<lambda>_ t. t) tu (acc_ID a) amount rows = (Inr fr, rows')"
      by (auto simp: FreezeMargin_def Let_def split: if_splits)
    show ?thesis
    proof (cases "amount \<le> acc_Balance a - acc_FrozenMargin a")
      case True
      with a have "\<exists>r\<in>set rows. acc_ID r = acc_ID a \<and> amount \<le> acc_Balance r - acc_FrozenMargin r" by blast
      with lv have fr: "fr = \<lparr> frz_FromAvailable = amount, frz_FromCredit = 0 \<rparr>" "rows' = snd (FreezeFromBalance L (acc_ID a) amount rows)"
        by (simp_all add: freezeLevels_def FreezeFromBalance_def sql_exec_eq)
      from whole [OF fr(1), of "\<lambda>b. amount \<le> acc_Balance b - acc_FrozenMargin b"] fr True amt show ?thesis
        by (simp add: FreezeFromBalance_def)
    next
      case short: False
      have none: "FreezeFromBalance L (acc_ID a) amount rows = (False, rows)"
        using short same by (auto simp: FreezeFromBalance_def sql_exec_eq intro!: sql_update_none)
      have spillrow: "sql_first (spillGuard (acc_ID a) amount) rows = (if spillGuard (acc_ID a) amount a then Some a else None)"
      proof (cases "spillGuard (acc_ID a) amount a")
        case True
        with sql_first_unique [OF a, of "spillGuard (acc_ID a) amount"] same show ?thesis by (auto simp: spillGuard_def)
      qed (auto simp: sql_first_None spillGuard_def dest: same)
      show ?thesis
      proof (cases "amount \<le> acc_Balance a - acc_FrozenMargin a + (acc_Credit a - acc_FrozenCredit a) \<and> spillGuard (acc_ID a) amount a")
        case False
        with lv none byid spillrow have "freezeForced L (\<lambda>_ t. t) tu (acc_ID a) amount rows = (Inr fr, rows')"
          by (auto simp: freezeLevels_def FindFreshFreeMargin_def FreezeSpillToCredit_def split: if_splits)
        thus ?thesis by (rule forced)
      next
        case True
        define v where "v = max (acc_Balance a - acc_FrozenMargin a) 0"
        from True lv none byid spillrow have fr: "fr = \<lparr> frz_FromAvailable = v, frz_FromCredit = amount - v \<rparr>"
          "rows' = snd (FreezeSpillToCredit L (acc_ID a) amount rows)"
          by (auto simp: freezeLevels_def FindFreshFreeMargin_def FreezeSpillToCredit_def v_def Let_def)
        have fv: "fits 16 v" "fits 16 (amount - v)" using fitr amt by (auto simp: v_def intro!: fits_diff fits_max)
        have "0 \<le> v" "0 \<le> amount \<Longrightarrow> v \<le> amount" using True by (auto simp: v_def spillGuard_def)
        moreover have "rows' = sql_update (\<lambda>b. acc_ID b = acc_ID a) (locked fr) rows"
          unfolding fr(2) FreezeSpillToCredit_def spillrow
          using True sql_update_row [OF d a, of "\<lambda>b. acc_Balance b - acc_FrozenMargin b < amount \<and>
              amount \<le> max (acc_Balance b - acc_FrozenMargin b) 0 + (acc_Credit b - acc_FrozenCredit b)"
              "\<lambda>a. let v = max (acc_Balance a - acc_FrozenMargin a) 0; a1 = a\<lparr> acc_FrozenMargin := col L (acc_FrozenMargin a + v) \<rparr> in
                     a1\<lparr> acc_FrozenCredit := col L (acc_FrozenCredit a1 + (amount - v)) \<rparr>" "locked fr"]
          by (simp add: spillGuard_def [abs_def] Let_def locked_def fr(1) locked_row [OF L rows fv] flip: v_def)
        ultimately show ?thesis using fr(1) fv by simp
      qed
    qed
  qed
qed

section \<open>A fresh request that is accepted\<close>

lemma orFail_iff [simp]:
  "orFail f g s = (Inr a, t) \<longleftrightarrow> g s = (Inr a, t)"
  "orFail f g s = (Inl r, t) \<longleftrightarrow> (\<exists>e. g s = (Inl e, t) \<and> r = (if isPanic e then Crash e else Fail f))"
  by (auto simp: orFail_def orReply_def split: prod.splits sum.splits)

text \<open>Steps that answer \<open>OK\<close> early only for a duplicate.\<close>

definition onlyDup :: "('s \<Rightarrow> (placeOrderResult reply + 'a) \<times> 's) \<Rightarrow> bool" where
  "onlyDup f \<longleftrightarrow> (\<forall>s r t. f s = (Inl (OK r), t) \<longrightarrow> por_Duplicate r)"

lemma onlyDup_andThen [intro]: "onlyDup f \<Longrightarrow> (\<And>a. onlyDup (k a)) \<Longrightarrow> onlyDup (andThen f k)"
  unfolding onlyDup_def andThen_Inl_iff by blast

lemma respondLockErr_not_OK [simp]: "respondLockErr e \<noteq> OK r" "OK r \<noteq> respondLockErr e"
  by (cases e rule: respondLockErr.cases; auto)+

lemma onlyDup_step [intro]:
  "onlyDup (require b f)" "onlyDup (validated v)" "onlyDup (loadAccount u)" "onlyDup (rejectIfFrozen a)"
  "onlyDup (enabledCoin A sy)" "onlyDup (retn x)" "onlyDup (orFail f' g)" "onlyDup (interfere w n)"
  "onlyDup (replayOrder A u rid h)" "onlyDup (publishOrderSubmit A o')" "onlyDup (resolveAmount L coin price lev m a')"
  "onlyDup (replyNow (Fail f''))"
  by (auto simp: onlyDup_def replayOrder_def respondDuplicateOrder_def andThen_Inl_iff Let_def publishOrderSubmit_def Publish_def
      resolveAmount_def split: option.splits if_splits)

lemma onlyDup_storeOrder [intro]: "onlyDup (storeOrder A u rid h fr o')"
proof -
  have "onlyDup (andThen (orFail (failWith 500) (rollbackFreeze A u fr))
     (\<lambda>_. andThen (replayOrder A u rid h) (\<lambda>_. replyNow (Fail (failWith 500) :: placeOrderResult reply) :: _ \<Rightarrow> (_ + unit) \<times> _)))"
    by blast
  thus ?thesis by (auto simp: onlyDup_def storeOrder_def split: prod.splits sum.splits if_splits)
qed

lemma onlyDup_openMargin [intro]:
  assumes "onlyDup replay" shows "onlyDup (openMargin A w replay u sy side action mark n lev m)"
  using assms by (auto simp: onlyDup_def openMargin_def andThen_Inl_iff split: prod.splits sum.splits reply.splits if_splits)

lemma onlyDup_placeOrder [intro]: "onlyDup (placeOrder A w now req side action ty lev rid h coin)"
proof -
  have "\<And>s r t. placeOrder A w now req side action ty lev rid h coin s = (Inl (OK r), t) \<Longrightarrow> por_Duplicate r"
    unfolding placeOrder_def Let_def
    by (rule onlyDup_def [THEN iffD1, rule_format, rotated], assumption) (intro onlyDup_andThen onlyDup_step onlyDup_storeOrder onlyDup_openMargin)
  thus ?thesis by (simp add: onlyDup_def)
qed

lemma answer_fresh:
  assumes "onlyDup h" "answer h s = (OK r, t)" "\<not> por_Duplicate r"
  shows "h s = (Inr r, t)"
  using assms by (auto simp: onlyDup_def answer_iff)

lemma openMargin_alone:
  "openMargin A (\<lambda>_ s. s) replay u sy side action mark notional lev m s = (Inr fr, s1) \<longleftrightarrow>
     (if action = ActionOpen then
        \<not> ae_lockBusy A (OrderLockKey (ee_show_nat (ae_engine A)) u sy side) \<and>
        (\<exists>tier. TierFor (ee_tiers (ae_engine A)) sy (existingOpenNotional u sy side mark s + notional) = Some tier \<and> lev \<le> of_nat (tier_MaxLeverage tier)) \<and>
        (\<exists>rows. FreezeMargin (ae_lib A) (\<lambda>_ t. t) (TotalUnrealizedPnl (marksOf s) u (mny_positions s)) u m (mny_accounts s) = (Inr fr, rows) \<and>
           s1 = s\<lparr> mny_accounts := rows \<rparr>)
      else fr = \<lparr> frz_FromAvailable = 0, frz_FromCredit = 0 \<rparr> \<and> s1 = s)"
proof (cases "action = ActionOpen")
  case True
  have stop: "(case respondLockErr le of Crash e \<Rightarrow> (Inl (Crash e), s') | r \<Rightarrow> andThen replay (\<lambda>_. replyNow r) s') \<noteq> (Inr fr, t)" for le s' t
    by (auto split: reply.splits simp: andThen_Inr_iff)
  have "openMargin A (\<lambda>_ s. s) replay u sy side action mark notional lev m s = (Inr fr, s1) \<longleftrightarrow>
    underLock A (OrderLockKey (ee_show_nat (ae_engine A)) u sy side) (reserveMargin A (\<lambda>_ s. s) u sy side mark notional lev m) s = (Inr fr, s1)"
    using stop True by (simp add: openMargin_def split: prod.split sum.split)
  thus ?thesis
    using True by (auto simp: underLock_def reserveMargin_def svcFreezeMargin_def onAccounts_def not_less
        split: prod.splits sum.splits option.splits if_splits)
qed (auto simp: openMargin_def)

lemma resolveLeverage_nat:
  assumes "resolveLeverage l = Inr lev"
  shows "of_nat (nat \<lfloor>lev\<rfloor>) = lev \<and> 1 \<le> nat \<lfloor>lev\<rfloor> \<and> nat \<lfloor>lev\<rfloor> \<le> 1000"
proof -
  from assms have l: "0 < lev" "lev \<le> 1000" "isInteger lev"
    by (auto simp: resolveLeverage_def Let_def maxSaneLeverage_def split: if_splits option.splits)
  then obtain i where i: "lev = of_int i" by (metis isInteger_def)
  from l i have "0 < i" "i \<le> 1000" by simp_all
  with i show ?thesis by (simp add: le_nat_iff)
qed

lemma replayOrder_Inr: "replayOrder A u rid h s = (Inr x, t) \<longleftrightarrow> (rid = [] \<or> ordFindByRequestID (es_orders s) u rid = None) \<and> t = s"
  by (auto simp: replayOrder_def respondDuplicateOrder_def andThen_Inr_iff Let_def split: option.splits if_splits)

lemma resolveAmount_same: "resolveAmount L coin price lev m a s = (Inr x, t) \<Longrightarrow> t = s"
  by (auto simp: resolveAmount_def split: option.splits if_splits sum.splits)

lemma rejectIfOpen [simp]:
  "(if action = ActionOpen then rejectIfFrozen a else retn ()) s = (Inr x, t) \<longleftrightarrow>
     (action = ActionOpen \<longrightarrow> acc_Status a \<noteq> AccountStatusFrozen) \<and> t = s"
  by auto

lemma onlyDup_cases [intro]:
  "(\<And>a b. onlyDup (k a b)) \<Longrightarrow> onlyDup (case p of (a, b) \<Rightarrow> k a b)" "onlyDup f \<Longrightarrow> onlyDup g \<Longrightarrow> onlyDup (if c then f else g)"
  by (cases p; simp) simp

text \<open>What a fresh order went through.\<close>

lemma addOrder_fresh:
  assumes "addOrder A (\<lambda>_ s. s) now req s = (OK r, t)" "\<not> por_Duplicate r"
  obtains side action ty lev rid h a coin where
    "h = orderFingerprint (ae_engine A) side action ty lev req"
    "FindByUID (mny_accounts s) (aor_UID req) = Some a" "validateSideAction (aor_Side req) (aor_Action req) = Inr (side, action)"
    "resolveOrderType (aor_Type req) = Inr ty" "resolveLeverage (aor_Leverage req) = Inr lev" "normalizeRequestID (aor_RequestID req) = Inr rid"
    "rid = [] \<or> ordFindByRequestID (es_orders s) (aor_UID req) rid = None"
    "action = ActionOpen \<longrightarrow> acc_Status a \<noteq> AccountStatusFrozen"
    "coinBySymbol (ee_coins (ae_engine A)) (aor_Symbol req) = Some coin" "coin_Enable coin"
    "placeOrder A (\<lambda>_ s. s) now req side action ty lev rid h coin s = (Inr r, t)"
proof -
  note fresh = answer_fresh [OF _ assms(1) [unfolded addOrder_def Let_def] assms(2)]
  show thesis
    by (rule revcut_rl [OF fresh], intro onlyDup_andThen onlyDup_step onlyDup_cases onlyDup_placeOrder)
       (auto simp: andThen_Inr_iff replayOrder_Inr intro: that)
qed

lemma publish_sent: "publishOrderSubmit A o' s = (Inr True, t) \<longleftrightarrow> \<not> ae_publishFails A (api_attempts s) \<and>
    t = s\<lparr> api_attempts := Suc (api_attempts s), api_sent := api_sent s @ [(ord_Symbol o', OrderSubmitted (orderSubmitEvent (ae_engine A) o'))] \<rparr>"
  by (auto simp: publishOrderSubmit_def Publish_def Let_def)

lemma storeOrder_Inr: "storeOrder A u rid h fr o' s = (Inr x, t) \<longleftrightarrow>
    fst (ordInsert (ae_lib A) o' (es_orders s)) = Inr () \<and> t = s\<lparr> es_orders := es_orders s @ [storedOrder (ae_lib A) o'] \<rparr>"
  by (auto simp: storeOrder_def onOrders_def ordInsert_def andThen_Inr_iff split: prod.splits sum.splits if_splits)

text \<open>The marks and prices a request is judged by, and the price an order is valued at.\<close>

abbreviation judgedMark :: "'z ApiState_scheme \<Rightarrow> OrderType \<Rightarrow> OrderAction \<Rightarrow> symbol \<Rightarrow> dec option" where
  "judgedMark s ty action sy \<equiv> (if ty = OrderTypeMarket \<or> action = ActionOpen then Get (es_marks s sy) else None)"

abbreviation judgedRef :: "'z ApiState_scheme \<Rightarrow> OrderType \<Rightarrow> OrderAction \<Rightarrow> symbol \<Rightarrow> dec option" where
  "judgedRef s ty action sy \<equiv> referencePrice (judgedMark s ty action sy) (es_marks s sy)"

definition orderNotional :: "'z ApiState_scheme \<Rightarrow> Order \<Rightarrow> dec" where
  "orderNotional s o' =
     ord_Amount o' * orderNotionalPrice (ord_Side o') (judgedRef s (ord_Type o') (ord_Action o') (ord_Symbol o')) (ord_Price o')"

lemma orderRow_fields [simp]:
  "ord_OrderID (orderRow i now req side action ty price amount lev rid h fr) = i"
  "ord_Symbol (orderRow i now req side action ty price amount lev rid h fr) = aor_Symbol req"
  "ord_Side (orderRow i now req side action ty price amount lev rid h fr) = side"
  "ord_Action (orderRow i now req side action ty price amount lev rid h fr) = action"
  "ord_Type (orderRow i now req side action ty price amount lev rid h fr) = ty"
  "ord_Price (orderRow i now req side action ty price amount lev rid h fr) = price"
  "ord_Amount (orderRow i now req side action ty price amount lev rid h fr) = amount"
  by (simp_all add: orderRow_def)

lemma placeOrder_fresh:
  assumes "placeOrder A (\<lambda>_ s. s) now req side action ty lev rid h coin s = (Inr r, t)"
  obtains price amount fr rows o' where
    "resolvePrice (ae_lib A) coin ty action (aor_Price req) (judgedMark s ty action (aor_Symbol req)) (judgedRef s ty action (aor_Symbol req)) = Inr price"
    "resolveAmount (ae_lib A) coin price lev (aor_MarginAmount req) (aor_Amount req) s = ((Inr amount :: placeOrderResult reply + dec), s)"
    "checkVolume coin amount = Inr ()"
    "o' = orderRow (ee_id (ae_engine A) (es_ids s)) now req side action ty price amount lev rid h fr"
    "openMargin A (\<lambda>_ s. s) (replayOrder A (aor_UID req) rid h) (aor_UID req) (aor_Symbol req) side action (judgedMark s ty action (aor_Symbol req))
       (orderNotional s o') lev (lib_Div (ae_lib A) (orderNotional s o') lev) s = (Inr fr, s\<lparr> mny_accounts := rows \<rparr>)"
    "r = \<lparr> por_OrderID = ord_OrderID o', por_RequestID = rid, por_Duplicate = False \<rparr>"
    "t = s\<lparr> mny_accounts := rows, es_orders := es_orders s @ [storedOrder (ae_lib A) o'], es_ids := Suc (es_ids s),
            api_attempts := Suc (api_attempts s),
            api_sent := api_sent s @ [(ord_Symbol o', OrderSubmitted (orderSubmitEvent (ae_engine A) o'))] \<rparr>"
proof -
  from assms obtain price amount fr s1 s2 v where 1:
    "resolvePrice (ae_lib A) coin ty action (aor_Price req) (judgedMark s ty action (aor_Symbol req)) (judgedRef s ty action (aor_Symbol req)) = Inr price"
    "resolveAmount (ae_lib A) coin price lev (aor_MarginAmount req) (aor_Amount req) s = ((Inr amount :: placeOrderResult reply + dec), s2)"
    "checkVolume coin amount = Inr v"
    "openMargin A (\<lambda>_ s. s) (replayOrder A (aor_UID req) rid h) (aor_UID req) (aor_Symbol req) side action (judgedMark s ty action (aor_Symbol req))
       (amount * orderNotionalPrice side (judgedRef s ty action (aor_Symbol req)) price) lev
       (lib_Div (ae_lib A) (amount * orderNotionalPrice side (judgedRef s ty action (aor_Symbol req)) price) lev) s2 = (Inr fr, s1)"
    "(let o' = orderRow (ee_id (ae_engine A) (es_ids s1)) now req side action ty price amount lev rid h fr in
      \<exists>sent. publishOrderSubmit A o' (s1\<lparr> es_ids := Suc (es_ids s1), es_orders := es_orders (s1\<lparr> es_ids := Suc (es_ids s1) \<rparr>) @ [storedOrder (ae_lib A) o'] \<rparr>) =
        ((Inr sent :: placeOrderResult reply + bool), t) \<and>
      sent \<and> r = \<lparr> por_OrderID = ee_id (ae_engine A) (es_ids s1), por_RequestID = rid, por_Duplicate = False \<rparr>)"
    unfolding placeOrder_def Let_def andThen_Inr_iff validated_iff orFail_iff interfere_iff require_iff retn_iff storeOrder_Inr nextID_def
      prod.inject sum.inject
    apply (elim exE conjE)
    apply hypsubst+
    apply (rule that, assumption, assumption, assumption, assumption)
    by (unfold Let_def, intro exI conjI)
  have s2: "s2 = s" by (rule resolveAmount_same [OF 1(2)])
  from 1(4) obtain rows where s1: "s1 = s\<lparr> mny_accounts := rows \<rparr>"
    unfolding openMargin_alone s2 by (cases "action = ActionOpen") (auto intro: that [of "mny_accounts s"])
  show thesis
    by (rule that [OF 1(1) 1(2) [unfolded s2] _ refl, of fr rows])
       (use 1(3-5) in \<open>auto simp: orderNotional_def s2 s1 Let_def publish_sent\<close>)
qed

text \<open>Everything a fresh order went through: its user, contract and terms, the row written for it and the state it leaves.\<close>

definition wentThrough ::
  "ApiEnv \<Rightarrow> int \<Rightarrow> 'q addOrderRequest_scheme \<Rightarrow> 'z ApiState_scheme \<Rightarrow> placeOrderResult \<Rightarrow> 'z ApiState_scheme \<Rightarrow> Side \<Rightarrow> OrderAction \<Rightarrow> OrderType \<Rightarrow> dec \<Rightarrow>
   string \<Rightarrow> string \<Rightarrow> Account \<Rightarrow> Coin \<Rightarrow> dec \<Rightarrow> dec \<Rightarrow> FreezeResult \<Rightarrow> Account list \<Rightarrow> Order \<Rightarrow> bool" where
  "wentThrough A now req s r t side action ty lev rid h a coin price amount fr rows o' \<longleftrightarrow>
     (aor_UID req \<noteq> 0 \<and> aor_Symbol req \<noteq> [] \<and> aor_Side req \<noteq> [] \<and> aor_Action req \<noteq> []) \<and>
     FindByUID (mny_accounts s) (aor_UID req) = Some a \<and> validateSideAction (aor_Side req) (aor_Action req) = Inr (side, action) \<and>
     resolveOrderType (aor_Type req) = Inr ty \<and> resolveLeverage (aor_Leverage req) = Inr lev \<and> normalizeRequestID (aor_RequestID req) = Inr rid \<and>
     (rid = [] \<or> ordFindByRequestID (es_orders s) (aor_UID req) rid = None) \<and> (action = ActionOpen \<longrightarrow> acc_Status a \<noteq> AccountStatusFrozen) \<and>
     coinBySymbol (ee_coins (ae_engine A)) (aor_Symbol req) = Some coin \<and> coin_Enable coin \<and>
     h = orderFingerprint (ae_engine A) side action ty lev req \<and>
     resolvePrice (ae_lib A) coin ty action (aor_Price req) (judgedMark s ty action (aor_Symbol req)) (judgedRef s ty action (aor_Symbol req)) = Inr price \<and>
     resolveAmount (ae_lib A) coin price lev (aor_MarginAmount req) (aor_Amount req) s = ((Inr amount :: placeOrderResult reply + dec), s) \<and>
     checkVolume coin amount = Inr () \<and>
     o' = orderRow (ee_id (ae_engine A) (es_ids s)) now req side action ty price amount lev rid h fr \<and>
     openMargin A (\<lambda>_ s. s) (replayOrder A (aor_UID req) rid h) (aor_UID req) (aor_Symbol req) side action (judgedMark s ty action (aor_Symbol req))
       (orderNotional s o') lev (lib_Div (ae_lib A) (orderNotional s o') lev) s = (Inr fr, s\<lparr> mny_accounts := rows \<rparr>) \<and>
     r = \<lparr> por_OrderID = ord_OrderID o', por_RequestID = rid, por_Duplicate = False \<rparr> \<and>
     t = s\<lparr> mny_accounts := rows, es_orders := es_orders s @ [storedOrder (ae_lib A) o'], es_ids := Suc (es_ids s),
            api_attempts := Suc (api_attempts s),
            api_sent := api_sent s @ [(ord_Symbol o', OrderSubmitted (orderSubmitEvent (ae_engine A) o'))] \<rparr>"

lemma addOrder_form:
  assumes "addOrder A (\<lambda>_ s. s) now req s = (OK r, t)" "\<not> por_Duplicate r"
  obtains side action ty lev rid h a coin price amount fr rows o' where
    "wentThrough A now req s r t side action ty lev rid h a coin price amount fr rows o'"
proof -
  have valid: "aor_UID req \<noteq> 0 \<and> aor_Symbol req \<noteq> [] \<and> aor_Side req \<noteq> [] \<and> aor_Action req \<noteq> []"
    using assms(1) by (auto simp: addOrder_def answer_iff andThen_Inl_iff andThen_Inr_iff Let_def)
  show thesis
    by (rule addOrder_fresh [OF assms], erule placeOrder_fresh, rule that, unfold wentThrough_def, intro conjI) (use valid in blast)+
qed

lemma wentThroughD:
  assumes "wentThrough A now req s r t side action ty lev rid h a coin price amount fr rows o'"
  shows went_valid: "aor_UID req \<noteq> 0 \<and> aor_Symbol req \<noteq> [] \<and> aor_Side req \<noteq> [] \<and> aor_Action req \<noteq> []"
    and went_account: "FindByUID (mny_accounts s) (aor_UID req) = Some a" "action = ActionOpen \<longrightarrow> acc_Status a \<noteq> AccountStatusFrozen"
    and went_terms: "validateSideAction (aor_Side req) (aor_Action req) = Inr (side, action)" "resolveOrderType (aor_Type req) = Inr ty"
      "resolveLeverage (aor_Leverage req) = Inr lev"
    and went_key: "normalizeRequestID (aor_RequestID req) = Inr rid" "rid = [] \<or> ordFindByRequestID (es_orders s) (aor_UID req) rid = None"
      "h = orderFingerprint (ae_engine A) side action ty lev req"
    and went_coin: "coinBySymbol (ee_coins (ae_engine A)) (aor_Symbol req) = Some coin" "coin_Enable coin"
    and went_price: "resolvePrice (ae_lib A) coin ty action (aor_Price req) (judgedMark s ty action (aor_Symbol req)) (judgedRef s ty action (aor_Symbol req)) = Inr price"
      "resolveAmount (ae_lib A) coin price lev (aor_MarginAmount req) (aor_Amount req) s = ((Inr amount :: placeOrderResult reply + dec), s)"
      "checkVolume coin amount = Inr ()"
    and went_row: "o' = orderRow (ee_id (ae_engine A) (es_ids s)) now req side action ty price amount lev rid h fr"
    and went_margin: "openMargin A (\<lambda>_ s. s) (replayOrder A (aor_UID req) rid h) (aor_UID req) (aor_Symbol req) side action (judgedMark s ty action (aor_Symbol req))
       (orderNotional s o') lev (lib_Div (ae_lib A) (orderNotional s o') lev) s = (Inr fr, s\<lparr> mny_accounts := rows \<rparr>)"
    and went_answer: "r = \<lparr> por_OrderID = ord_OrderID o', por_RequestID = rid, por_Duplicate = False \<rparr>"
    and went_state: "t = s\<lparr> mny_accounts := rows, es_orders := es_orders s @ [storedOrder (ae_lib A) o'], es_ids := Suc (es_ids s),
            api_attempts := Suc (api_attempts s),
            api_sent := api_sent s @ [(ord_Symbol o', OrderSubmitted (orderSubmitEvent (ae_engine A) o'))] \<rparr>"
  using assms by (auto simp only: wentThrough_def)

lemma sql_update_locked_0:
  "sql_update g (locked \<lparr> frz_FromAvailable = 0, frz_FromCredit = 0 \<rparr>) rows = rows"
proof -
  have "locked \<lparr> frz_FromAvailable = 0, frz_FromCredit = 0 \<rparr> a = a" for a :: Account by (simp add: locked_def)
  thus ?thesis by (simp add: sql_update_def map_idI)
qed

lemma openMargin_locked:
  assumes L: "decimal_lib (ae_lib A)" and a: "wf_accounts (mny_accounts s)" "FindByUID (mny_accounts s) u = Some a" and m: "fits 16 m"
    and om: "openMargin A (\<lambda>_ s. s) replay u sy side action mark n lev m s = (Inr fr, s\<lparr> mny_accounts := rows \<rparr>)"
  shows "rows = sql_update (\<lambda>b. acc_ID b = acc_ID a) (locked fr) (mny_accounts s) \<and>
    frz_FromAvailable fr + frz_FromCredit fr = (if action = ActionOpen then m else 0) \<and>
    (action \<noteq> ActionOpen \<longrightarrow> frz_FromAvailable fr = 0 \<and> frz_FromCredit fr = 0) \<and>
    (0 \<le> m \<longrightarrow> 0 \<le> frz_FromAvailable fr \<and> 0 \<le> frz_FromCredit fr) \<and> fits 16 (frz_FromAvailable fr) \<and> fits 16 (frz_FromCredit fr)"
proof (cases "action = ActionOpen")
  case True
  with om have fz: "FreezeMargin (ae_lib A) (\<lambda>_ t. t) (TotalUnrealizedPnl (marksOf s) u (mny_positions s)) u m (mny_accounts s) = (Inr fr, rows)"
    unfolding openMargin_alone by (metis (no_types, lifting) Money.select_convs(1) Money.surjective Money.update_convs(1))
  from FreezeMargin_alone [OF L m a fz] True show ?thesis by simp
next
  case False
  with om have "fr = \<lparr> frz_FromAvailable = 0, frz_FromCredit = 0 \<rparr>" "s\<lparr> mny_accounts := rows \<rparr> = s" by (simp_all add: openMargin_alone)
  moreover from this(2) have "rows = mny_accounts s" by (metis Money.select_convs(1) Money.surjective Money.update_convs(1))
  ultimately show ?thesis using False by (simp add: sql_update_locked_0)
qed

text \<open>The order is the one the request describes.\<close>

definition asRequested :: "'q addOrderRequest_scheme \<Rightarrow> Order \<Rightarrow> bool" where
  "asRequested req o' \<longleftrightarrow>
     ord_UID o' = aor_UID req \<and> ord_Symbol o' = aor_Symbol req \<and> sideOf (aor_Side req) = Some (ord_Side o') \<and>
     actionOf (aor_Action req) = Some (ord_Action o') \<and> resolveOrderType (aor_Type req) = Inr (ord_Type o') \<and>
     resolveLeverage (aor_Leverage req) = Inr (of_nat (ord_Leverage o')) \<and> ord_ReduceOnly o' = aor_ReduceOnly req \<and>
     (ord_Type o' = OrderTypeLimit \<longrightarrow> ord_Price o' = aor_Price req) \<and> (\<forall>x. aor_Amount req = Some x \<longrightarrow> ord_Amount o' = x) \<and>
     ord_Status o' = OrderStatusOpen \<and> ord_TradedAmount o' = 0"

lemma validateSideAction_Inr: "validateSideAction sd ac = Inr (side, action) \<longleftrightarrow> sideOf sd = Some side \<and> actionOf ac = Some action"
  by (auto simp: validateSideAction_def split: option.splits)

lemma resolvePrice_limit: "resolvePrice L coin OrderTypeLimit action p mark ref = Inr price \<Longrightarrow> price = p"
  by (auto simp: resolvePrice_def split: if_splits)

lemma resolveAmount_given: "resolveAmount L coin p lev m (Some a) s = (Inr amount, t) \<Longrightarrow> amount = a"
  by (auto simp: resolveAmount_def split: option.splits)

lemma orderRow_asRequested:
  assumes "validateSideAction (aor_Side req) (aor_Action req) = Inr (side, action)" "resolveOrderType (aor_Type req) = Inr ty"
    "resolveLeverage (aor_Leverage req) = Inr lev" "resolvePrice L coin ty action (aor_Price req) mark ref = Inr price"
    "resolveAmount L coin price lev (aor_MarginAmount req) (aor_Amount req) s = (Inr amount, t)"
  shows "asRequested req (orderRow i now req side action ty price amount lev rid h fr)"
  using assms resolveLeverage_nat [OF assms(3)] resolvePrice_limit [of L coin action "aor_Price req" mark ref price] resolveAmount_given [of L coin price lev "aor_MarginAmount req" _ s amount t]
  by (auto simp: asRequested_def orderRow_def validateSideAction_Inr)

text \<open>C21. An order that is answered with OK, and is not an earlier one, is exactly this: an opening order
  has locked the margin its price and leverage ask for, to the last digit, in balance and credit of its own
  account and nothing else (a closing one locks nothing); one row was written, open and unfilled, that
  carries the two parts it locked; and one message for that order went to the engine under its contract.\<close>

theorem addOrder_stored:
  assumes "decimal_lib (ae_lib A)" "wf_accounts (mny_accounts s)"
    and "addOrder A (\<lambda>_ s. s) now req s = (OK r, t)" "\<not> por_Duplicate r"
  shows "\<exists>a o' fr. FindByUID (mny_accounts s) (aor_UID req) = Some a \<and>
     ord_OrderID o' = por_OrderID r \<and> asRequested req o' \<and>
     ord_FrozenMargin o' = frz_FromAvailable fr \<and> ord_FrozenCredit o' = frz_FromCredit fr \<and>
     frz_FromAvailable fr + frz_FromCredit fr =
       (if ord_Action o' = ActionOpen then lib_Div (ae_lib A) (orderNotional s o') (of_nat (ord_Leverage o')) else 0) \<and>
     t = s\<lparr> mny_accounts := sql_update (\<lambda>b. acc_ID b = acc_ID a) (locked fr) (mny_accounts s),
            es_orders := es_orders s @ [storedOrder (ae_lib A) o'], es_ids := Suc (es_ids s), api_attempts := Suc (api_attempts s),
            api_sent := api_sent s @ [(ord_Symbol o', OrderSubmitted (orderSubmitEvent (ae_engine A) o'))] \<rparr>"
proof -
  obtain side action ty lev rid h a coin price amount fr rows o' where w: "wentThrough A now req s r t side action ty lev rid h a coin price amount fr rows o'"
    by (rule addOrder_form [OF assms(3,4)])
  have lev: "of_nat (ord_Leverage o') = lev" "lev \<noteq> 0" using resolveLeverage_nat [OF went_terms(3) [OF w]] by (auto simp: went_row [OF w] orderRow_def)
  note openMargin_locked [OF assms(1,2) went_account(1) [OF w] decimal_lib.div_fits [OF assms(1) lev(2)] went_margin [OF w]]
  moreover have "asRequested req o'" unfolding went_row [OF w] by (rule orderRow_asRequested [OF went_terms [OF w] went_price(1,2) [OF w]])
  moreover have "ord_Action o' = action" "ord_FrozenMargin o' = (if action = ActionOpen then frz_FromAvailable fr else 0)"
    "ord_FrozenCredit o' = (if action = ActionOpen then frz_FromCredit fr else 0)" by (simp_all add: went_row [OF w] orderRow_def)
  ultimately show ?thesis
    using went_account(1) [OF w] lev(1) by (intro exI [of _ a] exI [of _ o'] exI [of _ fr]) (auto simp: went_answer [OF w] went_state [OF w])
qed

definition demoOpen :: addOrderRequest where
  "demoOpen = \<lparr> aor_UID = 7, aor_Symbol = ''BTCUSDT'', aor_Side = ''long'', aor_Action = ''open'', aor_Type = ''limit'',
     aor_Leverage = Some 10, aor_Price = 100, aor_MarginAmount = None, aor_Amount = Some 1, aor_ReduceOnly = False, aor_RequestID = [] \<rparr>"

lemmas demo_state = demoOpen_def demoApi_def demoApiState_def demoEngine_def demoEnv_def FundingState.extend_def ApiState.fields_def
  demoAccounts_def demoCoin_def demoTier_def

lemmas step_eval = answer_def andThen_def require_def loadAccount_def FindByUID_def sql_first_def validated_def Let_def rejectIfFrozen_def enabledCoin_def
  coinBySymbol_def orFail_def orReply_def nextID_def interfere_def onOrders_def publishOrderSubmit_def Publish_def retn_def onAccounts_def

lemmas order_eval = addOrder_def placeOrder_def validateSideAction_def sideOf_def actionOf_def resolveOrderType_def resolveLeverage_def maxSaneLeverage_def
  isInteger_def normalizeRequestID_def replayOrder_def referencePrice_def Get_def GetIndexPrice_def resolvePrice_def onTick_def withinBand_def resolveAmount_def
  checkVolume_def orderNotionalPrice_def openMargin_def underLock_def reserveMargin_def TierFor_def tiersBySymbol_def existingOpenNotional_def
  positionNotional_def Find_def ordFindActiveByUID_def coFindActiveByUID_def newest_first_def svcFreezeMargin_def storeOrder_def ordInsert_def
  ordFindByOrderID_def orderRow_def strPtr_def

lemmas money_eval = FreezeMargin_def GetOrCreate_def freezeLevels_def FreezeFromBalance_def sql_exec_eq sql_update_def col_def
  round_to_id truncate_to_id TotalUnrealizedPnl_def TotalUnrealizedPnlOf_def positionsOfUID_def

lemma demoOpen_accepted:
  "fst (addOrder demoApi (\<lambda>_ s. s) 5 demoOpen demoApiState) = OK \<lparr> por_OrderID = 1000, por_RequestID = [], por_Duplicate = False \<rparr>"
  by (simp add: demo_state step_eval order_eval money_eval)

lemma demoApiState_wf: "wf_accounts (mny_accounts demoApiState)"
  using wf_demoAccounts by (simp add: demoApiState_def demoEngine_def FundingState.extend_def)

lemma addOrder_stored_witness:
  "\<exists>t o' fr. addOrder demoApi (\<lambda>_ s. s) 5 demoOpen demoApiState = (OK \<lparr> por_OrderID = 1000, por_RequestID = [], por_Duplicate = False \<rparr>, t) \<and>
     asRequested demoOpen o' \<and> frz_FromAvailable fr + frz_FromCredit fr = 10 \<and> mny_accounts t = map (locked fr) demoAccounts \<and>
     es_orders t = [storedOrder std_lib o'] \<and> api_sent t = [(''BTCUSDT'', OrderSubmitted (orderSubmitEvent (ae_engine demoApi) o'))]"
proof -
  define t where "t = snd (addOrder demoApi (\<lambda>_ s. s) 5 demoOpen demoApiState)"
  have ok: "addOrder demoApi (\<lambda>_ s. s) 5 demoOpen demoApiState = (OK \<lparr> por_OrderID = 1000, por_RequestID = [], por_Duplicate = False \<rparr>, t)"
    using demoOpen_accepted by (simp add: t_def prod_eq_iff)
  from addOrder_stored [OF demoApi_lib demoApiState_wf ok] obtain a o' fr where o': "asRequested demoOpen o'"
    and fr: "frz_FromAvailable fr + frz_FromCredit fr =
       (if ord_Action o' = ActionOpen then lib_Div (ae_lib demoApi) (orderNotional demoApiState o') (of_nat (ord_Leverage o')) else 0)"
    and a: "FindByUID (mny_accounts demoApiState) (aor_UID demoOpen) = Some a"
    and all: "t = demoApiState\<lparr> mny_accounts := sql_update (\<lambda>b. acc_ID b = acc_ID a) (locked fr) (mny_accounts demoApiState),
            es_orders := es_orders demoApiState @ [storedOrder (ae_lib demoApi) o'], es_ids := Suc (es_ids demoApiState),
            api_attempts := Suc (api_attempts demoApiState),
            api_sent := api_sent demoApiState @ [(ord_Symbol o', OrderSubmitted (orderSubmitEvent (ae_engine demoApi) o'))] \<rparr>"
    by (simp only: placeOrderResult.simps) blast
  have t: "mny_accounts t = sql_update (\<lambda>b. acc_ID b = acc_ID a) (locked fr) demoAccounts"
      "es_orders t = [storedOrder std_lib o']" "api_sent t = [(''BTCUSDT'', OrderSubmitted (orderSubmitEvent (ae_engine demoApi) o'))]"
    using o' by (simp_all add: all asRequested_def demo_state)
  have "orderNotional demoApiState o' = 100" "ord_Action o' = ActionOpen" "of_nat (ord_Leverage o') = (10 :: dec)"
    using o' by (auto simp: asRequested_def demo_state order_eval orderNotional_def split: if_splits)
  with fr have "frz_FromAvailable fr + frz_FromCredit fr = 10"
    using decimal_lib.div_exact [OF demoApi_lib, of 10 100] by simp
  moreover have "mny_accounts t = map (locked fr) demoAccounts"
    using t(1) a by (auto simp: demo_state sql_update_def FindByUID_def sql_first_def)
  ultimately show ?thesis using ok o' t by blast
qed

section \<open>The limits an accepted order respects\<close>

text \<open>C22. An accepted order that is not an earlier one is in its contract and within the limits of the platform: the
  contract is enabled; the amount is positive, within the volumes of the contract and a multiple of its
  step; the leverage is a whole number from 1 to 1000; a limit price is positive and on a tick, a market order
  has the mark as its price; and when it opens, the account is not frozen, a limit price is within the band
  around the reference price, and the leverage is allowed by the risk tier of everything the user then has open
  or queued on that side, this order included.\<close>

theorem addOrder_within_limits:
  assumes "addOrder A (\<lambda>_ s. s) now req s = (OK r, t)" "\<not> por_Duplicate r"
  shows "\<exists>a coin o'. es_orders t = es_orders s @ [storedOrder (ae_lib A) o'] \<and> asRequested req o' \<and>
     FindByUID (mny_accounts s) (aor_UID req) = Some a \<and> coinBySymbol (ee_coins (ae_engine A)) (aor_Symbol req) = Some coin \<and>
     coin_Enable coin \<and> 0 < ord_Amount o' \<and> (0 < coin_MinVolume coin \<longrightarrow> coin_MinVolume coin \<le> ord_Amount o') \<and>
     (0 < coin_MaxVolume coin \<longrightarrow> ord_Amount o' \<le> coin_MaxVolume coin) \<and>
     (0 < coin_VolumeStep coin \<longrightarrow> decMod (ord_Amount o') (coin_VolumeStep coin) = 0) \<and>
     1 \<le> ord_Leverage o' \<and> ord_Leverage o' \<le> 1000 \<and>
     (ord_Type o' = OrderTypeLimit \<longrightarrow> 0 < ord_Price o' \<and> onTick coin (ord_Price o')) \<and>
     (ord_Type o' = OrderTypeMarket \<longrightarrow> Get (es_marks s (ord_Symbol o')) = Some (ord_Price o')) \<and>
     (ord_Action o' = ActionOpen \<longrightarrow>
        acc_Status a \<noteq> AccountStatusFrozen \<and>
        (ord_Type o' = OrderTypeLimit \<longrightarrow>
           withinBand (ae_lib A) coin (judgedRef s (ord_Type o') (ord_Action o') (ord_Symbol o')) (ord_Price o')) \<and>
        (\<exists>tier. TierFor (ee_tiers (ae_engine A)) (ord_Symbol o')
             (existingOpenNotional (ord_UID o') (ord_Symbol o') (ord_Side o') (Get (es_marks s (ord_Symbol o'))) s + orderNotional s o') = Some tier \<and>
           ord_Leverage o' \<le> tier_MaxLeverage tier))"
proof -
  obtain side action ty lev rid h a coin price amount fr rows o' where w: "wentThrough A now req s r t side action ty lev rid h a coin price amount fr rows o'"
    by (rule addOrder_form [OF assms])
  note ask = went_price [OF w] and om = went_margin [OF w] and o' = went_row [OF w]
  have lev: "of_nat (ord_Leverage o') = lev" "1 \<le> ord_Leverage o'" "ord_Leverage o' \<le> 1000"
    using resolveLeverage_nat [OF went_terms(3) [OF w]] by (auto simp: o' orderRow_def)
  have req': "asRequested req o'" unfolding o' by (rule orderRow_asRequested [OF went_terms [OF w] ask(1,2)])
  have f: "ord_UID o' = aor_UID req" "ord_Symbol o' = aor_Symbol req" "ord_Side o' = side" "ord_Action o' = action" "ord_Type o' = ty"
    "ord_Price o' = price" "ord_Amount o' = amount" by (simp_all add: o' orderRow_def)
  have volume: "0 < amount" "0 < coin_MinVolume coin \<longrightarrow> coin_MinVolume coin \<le> amount" "0 < coin_MaxVolume coin \<longrightarrow> amount \<le> coin_MaxVolume coin"
    "0 < coin_VolumeStep coin \<longrightarrow> decMod amount (coin_VolumeStep coin) = 0"
    using ask(3) by (auto simp: checkVolume_def split: if_splits)
  have price: "ty = OrderTypeLimit \<longrightarrow> 0 < price \<and> onTick coin price"
    "ty = OrderTypeMarket \<longrightarrow> Get (es_marks s (aor_Symbol req)) = Some price"
    "action = ActionOpen \<and> ty = OrderTypeLimit \<longrightarrow> withinBand (ae_lib A) coin (judgedRef s ty action (aor_Symbol req)) price"
    using ask(1) by (auto simp: resolvePrice_def split: if_splits option.splits)
  have tier: "\<exists>tier. TierFor (ee_tiers (ae_engine A)) (aor_Symbol req) (existingOpenNotional (aor_UID req) (aor_Symbol req) side
        (Get (es_marks s (aor_Symbol req))) s + orderNotional s o') = Some tier \<and> ord_Leverage o' \<le> tier_MaxLeverage tier" if "action = ActionOpen"
  proof -
    from om that obtain tier where 1: "TierFor (ee_tiers (ae_engine A)) (aor_Symbol req) (existingOpenNotional (aor_UID req) (aor_Symbol req) side
        (Get (es_marks s (aor_Symbol req))) s + orderNotional s o') = Some tier" and 2: "lev \<le> of_nat (tier_MaxLeverage tier)"
      by (auto simp: openMargin_alone)
    from 2 have "ord_Leverage o' \<le> tier_MaxLeverage tier" by (simp flip: lev(1))
    with 1 show ?thesis by blast
  qed
  show ?thesis
    by (rule exI [of _ a], rule exI [of _ coin], rule exI [of _ o'])
       (use went_account [OF w] went_coin [OF w] req' lev(2,3) volume price tier in \<open>simp add: f went_state [OF w]\<close>)
qed

lemma addOrder_within_limits_witness:
  "\<exists>t o'. addOrder demoApi (\<lambda>_ s. s) 5 demoOpen demoApiState = (OK \<lparr> por_OrderID = 1000, por_RequestID = [], por_Duplicate = False \<rparr>, t) \<and>
     es_orders t = [storedOrder std_lib o'] \<and> asRequested demoOpen o' \<and> 0 < ord_Amount o' \<and> ord_Leverage o' \<le> 20"
proof -
  define t where "t = snd (addOrder demoApi (\<lambda>_ s. s) 5 demoOpen demoApiState)"
  have ok: "addOrder demoApi (\<lambda>_ s. s) 5 demoOpen demoApiState = (OK \<lparr> por_OrderID = 1000, por_RequestID = [], por_Duplicate = False \<rparr>, t)"
    using demoOpen_accepted by (simp add: t_def prod_eq_iff)
  from addOrder_within_limits [OF ok] obtain o' tier where o': "es_orders t = es_orders demoApiState @ [storedOrder (ae_lib demoApi) o']"
      "asRequested demoOpen o'" "0 < ord_Amount o'"
    and tier: "ord_Action o' = ActionOpen \<longrightarrow> TierFor (ee_tiers (ae_engine demoApi)) (ord_Symbol o')
             (existingOpenNotional (ord_UID o') (ord_Symbol o') (ord_Side o') (Get (es_marks demoApiState (ord_Symbol o'))) demoApiState + orderNotional demoApiState o') = Some tier \<and>
           ord_Leverage o' \<le> tier_MaxLeverage tier" by (simp only: placeOrderResult.simps) blast
  have "ord_Action o' = ActionOpen" "ord_Symbol o' = ''BTCUSDT''" using o'(2) by (auto simp: asRequested_def demoOpen_def actionOf_def)
  with tier have "ord_Leverage o' \<le> 20"
    by (auto simp: TierFor_def tiersBySymbol_def demoTier_def demoApi_def)
  with ok o' show ?thesis by (auto simp: demo_state)
qed

section \<open>A refused request\<close>

text \<open>\<open>quiet f s\<close>: answering a failure other than 500, the step has changed nothing. \<open>only500 f s\<close>: it fails
  with 500 only.\<close>

definition quiet :: "('s \<Rightarrow> ('x reply + 'a) \<times> 's) \<Rightarrow> 's \<Rightarrow> bool" where
  "quiet f s \<longleftrightarrow> (\<forall>c e t. f s = (Inl (Fail (c, e)), t) \<longrightarrow> c = 500 \<or> t = s)"

definition only500 :: "('s \<Rightarrow> ('x reply + 'a) \<times> 's) \<Rightarrow> 's \<Rightarrow> bool" where
  "only500 f s \<longleftrightarrow> (\<forall>c e t. f s = (Inl (Fail (c, e)), t) \<longrightarrow> c = 500)"

lemma quiet_andThen:
  assumes "quiet f s" "\<And>a s'. f s = (Inr a, s') \<Longrightarrow> s' = s \<and> quiet (k a) s \<or> only500 (k a) s'"
  shows "quiet (andThen f k) s"
  using assms unfolding quiet_def only500_def andThen_Inl_iff by metis

lemma only500_andThen:
  assumes "only500 f s" "\<And>a s'. f s = (Inr a, s') \<Longrightarrow> only500 (k a) s'"
  shows "only500 (andThen f k) s"
  using assms unfolding only500_def andThen_Inl_iff by metis

text \<open>A step that leaves the state alone, before the ones that follow.\<close>

lemma quiet_check:
  assumes "quiet f s" "\<And>a s'. f s = (Inr a, s') \<Longrightarrow> s' = s" "\<And>a. f s = (Inr a, s) \<Longrightarrow> quiet (k a) s"
  shows "quiet (andThen f k) s"
  by (rule quiet_andThen [OF assms(1)]) (use assms(2,3) in blast)

lemma quiet_steps:
  "quiet (require b f) s" "quiet (validated v) s" "quiet (loadAccount u) z" "quiet (enabledCoin A sy) s"
  "quiet (if action = ActionOpen then rejectIfFrozen a else retn ()) s"
  by (auto simp: quiet_def)

lemma fst_failWith [simp]: "failWith 500 = (c, e) \<Longrightarrow> c = 500"
  by (simp add: failWith_def)

lemma quiet_resolveAmount: "quiet (resolveAmount L coin p lev m a) s"
  by (auto simp: quiet_def resolveAmount_def split: option.splits sum.splits if_splits)

lemma only500_steps:
  "only500 (orFail (failWith 500) g) s" "only500 (interfere w n) z" "only500 (retn x) s" "only500 (publishOrderSubmit A o') y"
  "only500 (require b (500, CodeDispatchFailed)) s" "only500 (replyNow (Fail (failWith 500))) s" "only500 (replyNow (Fail (500, CodeDispatchFailed))) s"
  "only500 (replyNow (OK q)) s"
  by (auto simp: only500_def publishOrderSubmit_def Publish_def Let_def failWith_def split: if_splits)

lemma quiet_replayOrder: "quiet (replayOrder A u rid h) s"
  by (auto simp: quiet_def replayOrder_def respondDuplicateOrder_def publishOrderSubmit_def Publish_def andThen_Inl_iff Let_def split: option.splits if_splits)

lemma sql_exec_False: "sql_exec p f rows = (False, rows') \<Longrightarrow> rows' = rows"
  by (auto simp: sql_exec_eq intro!: sql_update_none split: if_splits)

lemma FreezeMargin_refused:
  assumes "FreezeMargin L (\<lambda>_ t. t) tu u amount rows = (Inl e, rows')" "FindByUID rows u = Some a"
  shows "rows' = rows"
proof -
  have forced: "rows' = rows" if "freezeForced L (\<lambda>_ t. t) tu i amount rows = (Inl e, rows')" for i
    using that sql_exec_False by (auto simp: freezeForced_def FreezeForceIntoNegative_def Let_def split: sum.splits prod.splits if_splits)
  have balance: "FreezeFromBalance L i amount rows = (False, r) \<Longrightarrow> r = rows" for i r
    unfolding FreezeFromBalance_def by (rule sql_exec_False)
  have spill: "FreezeSpillToCredit L i amount rows = (None, r) \<Longrightarrow> r = rows" for i r
    by (auto simp: FreezeSpillToCredit_def Let_def split: option.splits)
  from assms show ?thesis
    by (auto simp: FreezeMargin_def GetOrCreate_def freezeLevels_def Let_def split: prod.splits sum.splits option.splits if_splits
        dest!: balance spill dest: forced)
qed

lemma same_accounts: "s\<lparr> mny_accounts := mny_accounts s \<rparr> = s"
  by (cases s) simp

lemma replay_reply: "replay s = (Inr (), s) \<Longrightarrow> andThen replay (\<lambda>_. replyNow r) s = (Inl r, s)"
  by (simp add: andThen_def replyNow_def)

lemma quiet_openMargin:
  assumes "FindByUID (mny_accounts s) u = Some a" "replay s = (Inr (), s)"
  shows "quiet (openMargin A (\<lambda>_ s. s) replay u sy side action mark notional lev m) s"
proof -
  have same: "t = s" if "reserveMargin A (\<lambda>_ s. s) u sy side mark notional lev m s = (Inl le, t)" for le t
    using that assms(1)
    by (auto simp: reserveMargin_def svcFreezeMargin_def onAccounts_def same_accounts dest!: FreezeMargin_refused
        split: option.splits if_splits prod.splits sum.splits)
  show ?thesis
    by (auto simp: quiet_def openMargin_def underLock_def replay_reply [where replay = replay and s = s, OF assms(2)] dest: same
        split: if_splits prod.splits sum.splits reply.splits)
qed

lemma same_orders: "s\<lparr> es_orders := es_orders s \<rparr> = s"
  by (cases s) simp

lemma rollbackFreeze_orders: "rollbackFreeze A u fr s = (x, t) \<Longrightarrow> es_orders t = es_orders s"
  by (auto simp: rollbackFreeze_def tolerate_def UnfreezeMarginOf_def onAccounts_def retn_def split: if_splits prod.splits sum.splits)

lemma only500_replay:
  assumes "rid = [] \<or> ordFindByRequestID (es_orders s) u rid = None"
  shows "only500 (andThen (replayOrder A u rid h) (\<lambda>_. replyNow (Fail (failWith 500)))) s"
proof -
  have "replayOrder A u rid h s = (Inr (), s)" using assms by (auto simp: replayOrder_def)
  thus ?thesis by (simp add: only500_def replay_reply failWith_def)
qed

lemma storeOrder_eq:
  "storeOrder A u rid h fr o' s =
     (if fst (ordInsert (ae_lib A) o' (es_orders s)) = Inr () then (Inr (), s\<lparr> es_orders := es_orders s @ [storedOrder (ae_lib A) o'] \<rparr>)
      else if rid \<noteq> [] then
        andThen (orFail (failWith 500) (rollbackFreeze A u fr)) (\<lambda>_. andThen (replayOrder A u rid h) (\<lambda>_. replyNow (Fail (failWith 500)))) s
      else (Inl (Fail (failWith 500)), s))"
  by (simp add: storeOrder_def onOrders_def ordInsert_def same_orders)

lemma only500_storeOrder:
  assumes "rid = [] \<or> ordFindByRequestID (es_orders s) u rid = None"
  shows "only500 (storeOrder A u rid h fr o') s"
proof -
  have rolled: "only500 (andThen (orFail (failWith 500) (rollbackFreeze A u fr))
     (\<lambda>_. andThen (replayOrder A u rid h) (\<lambda>_. replyNow (Fail (failWith 500)) :: _ \<Rightarrow> (_ + unit) \<times> _))) s"
    by (rule only500_andThen [OF only500_steps(1)], rule only500_replay, simp only: orFail_iff, drule rollbackFreeze_orders)
      (use assms in simp)
  show ?thesis
  proof (cases "fst (ordInsert (ae_lib A) o' (es_orders s)) = Inr () \<or> rid = []")
    case True
    thus ?thesis by (auto simp: only500_def storeOrder_eq failWith_def)
  next
    case False
    hence "only500 (storeOrder A u rid h fr o') s \<longleftrightarrow> only500 (andThen (orFail (failWith 500) (rollbackFreeze A u fr))
       (\<lambda>_. andThen (replayOrder A u rid h) (\<lambda>_. replyNow (Fail (failWith 500)) :: _ \<Rightarrow> (_ + unit) \<times> _))) s"
      unfolding only500_def storeOrder_eq by simp
    with rolled show ?thesis by blast
  qed
qed

lemma only500_submit:
  assumes "rid = [] \<or> ordFindByRequestID (es_orders s) u rid = None"
  shows "only500 (andThen (orFail (failWith 500) (nextID E)) (\<lambda>i. andThen (interfere (\<lambda>_ s. s) 2)
    (\<lambda>_. andThen (storeOrder A u rid h fr (row i)) (\<lambda>_. andThen (publishOrderSubmit A (row i))
    (\<lambda>sent. andThen (require sent (500, CodeDispatchFailed)) (\<lambda>_. retn (q i)))))))  s"
  by (intro only500_andThen only500_steps only500_storeOrder) (use assms in \<open>auto simp: nextID_def\<close>)

lemma quiet_unfold: "quiet (andThen f k) s \<Longrightarrow> \<forall>c e t. andThen f k s = (Inl (Fail (c, e)), t) \<longrightarrow> c = 500 \<or> t = s"
  by (simp add: quiet_def)

lemma quiet_placeOrder:
  assumes "FindByUID (mny_accounts s) (aor_UID req) = Some a" "rid = [] \<or> ordFindByRequestID (es_orders s) (aor_UID req) rid = None"
  shows "quiet (placeOrder A (\<lambda>_ s. s) now req side action ty lev rid h coin) s"
proof -
  have replay: "replayOrder A (aor_UID req) rid h s = (Inr (), s)" using assms(2) by (auto simp: replayOrder_def)
  have orders: "es_orders s1 = es_orders s"
    if "openMargin A (\<lambda>_ s. s) (replayOrder A (aor_UID req) rid h) u sy side action mark n lev m s = (Inr fr, s1)" for u sy mark n m fr s1
    using that by (auto simp: openMargin_alone split: if_splits)
  show ?thesis
    unfolding quiet_def placeOrder_def Let_def
    by (rule quiet_unfold, rule quiet_check [OF quiet_steps(2)], simp, rule quiet_check [OF quiet_resolveAmount resolveAmount_same], assumption,
        rule quiet_check [OF quiet_steps(2)], simp, rule quiet_andThen, rule quiet_openMargin [where replay = "replayOrder A (aor_UID req) rid h", OF _ replay], rule assms(1),
        rule disjI2, rule only500_submit, drule orders) (use assms(2) in simp)
qed

lemma quiet_cases: "(\<And>a b. quiet (k a b) s) \<Longrightarrow> quiet (case p of (a, b) \<Rightarrow> k a b) s"
  by (cases p) simp

lemma quiet_answer: "quiet h s \<Longrightarrow> answer h s = (Fail (c, e), t) \<Longrightarrow> c \<noteq> 500 \<Longrightarrow> t = s"
  by (auto simp: quiet_def answer_iff)

text \<open>C23. A request that is refused (any answer but OK, the internal error 500 or a crash) leaves no trace: no margin
  stays locked, no row is written, no message sent, no id used up.\<close>

theorem addOrder_refused:
  assumes "addOrder A (\<lambda>_ s. s) now req s = (Fail (c, e), t)" "c \<noteq> 500"
  shows "t = s"
  by (rule quiet_answer [OF _ assms(1) [unfolded addOrder_def Let_def] assms(2)],
      rule quiet_check [OF quiet_steps(1)], simp, rule quiet_check [OF quiet_steps(3)], simp, rule quiet_check [OF quiet_steps(2)], simp,
      rule quiet_cases, rule quiet_check [OF quiet_steps(2)], simp, rule quiet_check [OF quiet_steps(2)], simp,
      rule quiet_check [OF quiet_steps(2)], simp, rule quiet_check [OF quiet_replayOrder], simp add: replayOrder_Inr,
      rule quiet_check [OF quiet_steps(5)], simp, rule quiet_check [OF quiet_steps(4)], simp, rule quiet_placeOrder)
    (simp_all add: replayOrder_Inr)

lemma demoOpen_refused:
  "fst (addOrder demoApi (\<lambda>_ s. s) 5 (demoOpen\<lparr> aor_Leverage := Some 50 \<rparr>) demoApiState) = Fail (400, CodeLeverageExceedsTier)"
  by (simp add: demo_state step_eval order_eval money_eval replyNow_def)

lemma addOrder_refused_witness:
  "addOrder demoApi (\<lambda>_ s. s) 5 (demoOpen\<lparr> aor_Leverage := Some 50 \<rparr>) demoApiState = (Fail (400, CodeLeverageExceedsTier), demoApiState)"
  using demoOpen_refused addOrder_refused [of demoApi 5 "demoOpen\<lparr> aor_Leverage := Some 50 \<rparr>" demoApiState 400 CodeLeverageExceedsTier]
  by (cases "addOrder demoApi (\<lambda>_ s. s) 5 (demoOpen\<lparr> aor_Leverage := Some 50 \<rparr>) demoApiState") simp

section \<open>The same request again\<close>

lemma normalizeRequestID_same: "normalizeRequestID v = Inr rid \<Longrightarrow> rid = v"
  by (auto simp: normalizeRequestID_def split: if_splits)

text \<open>C24. Sent again, at any later time and whatever has happened in between as long as the row is still there, a request that
  carries an idempotency key is the same order: the answer is the number of the first order, marked a
  duplicate, or that the engine could not be told; nothing is locked, no row is written; the only message that may be sent is that of
  the stored order, and only while it is still open and unfilled.\<close>

theorem addOrder_retry:
  assumes "addOrder A (\<lambda>_ s. s) now req s = (OK r, t)" "\<not> por_Duplicate r" "aor_RequestID req \<noteq> []"
    and "ordFindByRequestID (es_orders t') (aor_UID req) (aor_RequestID req) = Some o1" "ord_OrderID o1 = por_OrderID r"
      "ord_RequestHash o1 = ord_RequestHash (last (es_orders t))" "FindByUID (mny_accounts t') (aor_UID req) \<noteq> None"
    and "addOrder A w now' req t' = (x, t'')"
  shows "(x = OK (r\<lparr> por_Duplicate := True \<rparr>) \<or> x = Fail (500, CodeDispatchFailed)) \<and>
     t'' = t'\<lparr> api_attempts := api_attempts t'', api_sent := api_sent t'' \<rparr> \<and>
     (api_sent t'' = api_sent t' \<or>
      ord_Status o1 = OrderStatusOpen \<and> ord_TradedAmount o1 = 0 \<and>
      api_sent t'' = api_sent t' @ [(ord_Symbol o1, OrderSubmitted (orderSubmitEvent (ae_engine A) o1))])"
proof -
  obtain side action ty lev rid h a coin price amount fr rows o' where w: "wentThrough A now req s r t side action ty lev rid h a coin price amount fr rows o'"
    by (rule addOrder_form [OF assms(1,2)])
  note h = went_key(3) [OF w] and rid = normalizeRequestID_same [OF went_key(1) [OF w]]
  have hash: "ord_RequestHash o1 = Some h" using assms(3,6) by (simp add: went_state [OF w] went_row [OF w] storedOrder_def orderRow_def hashIfKeyed_def rid)
  have key: "derefStr (ord_RequestID o1) = rid"
    using sql_first_Some [OF assms(4) [unfolded ordFindByRequestID_def]] by (simp add: derefStr_def rid)
  from assms(3,4,7) went_valid [OF w] went_terms [OF w] went_key(1) [OF w] have "addOrder A w now' req t' = (case respondDuplicateOrder A o1 h t' of (Inl q, s') \<Rightarrow> (q, s') | (Inr q, s') \<Rightarrow> (OK q, s'))"
    by (auto simp: addOrder_def answer_def andThen_def Let_def require_def loadAccount_def validated_def replayOrder_def rid h respondDuplicateOrder_def replyNow_def
        split: option.splits sum.splits prod.splits)
  with assms(5,8) hash key went_answer [OF w] show ?thesis
    by (auto simp: respondDuplicateOrder_def idempotencyConflict_def replyNow_def andThen_def publishOrderSubmit_def Publish_def Let_def split: if_splits)
qed

lemma demoKeyed_accepted:
  "fst (addOrder demoApi (\<lambda>_ s. s) 5 (demoOpen\<lparr> aor_RequestID := ''k'' \<rparr>) demoApiState) = OK \<lparr> por_OrderID = 1000, por_RequestID = ''k'', por_Duplicate = False \<rparr>"
  "map (\<lambda>o'. (ord_OrderID o', ord_UID o', ord_RequestID o')) (es_orders (snd (addOrder demoApi (\<lambda>_ s. s) 5 (demoOpen\<lparr> aor_RequestID := ''k'' \<rparr>) demoApiState))) =
     [(1000, 7, Some ''k'')]"
  "map acc_UID (mny_accounts (snd (addOrder demoApi (\<lambda>_ s. s) 5 (demoOpen\<lparr> aor_RequestID := ''k'' \<rparr>) demoApiState))) = [7]"
  by (simp_all add: demo_state step_eval order_eval money_eval requestIDPattern_def keyChar_def ordFindByRequestID_def storedOrder_def UID_def)

lemma addOrder_retry_witness:
  "\<exists>t t''. addOrder demoApi (\<lambda>_ s. s) 5 (demoOpen\<lparr> aor_RequestID := ''k'' \<rparr>) demoApiState =
       (OK \<lparr> por_OrderID = 1000, por_RequestID = ''k'', por_Duplicate = False \<rparr>, t) \<and>
     (fst (addOrder demoApi (\<lambda>_ s. s) 9 (demoOpen\<lparr> aor_RequestID := ''k'' \<rparr>) t) = OK \<lparr> por_OrderID = 1000, por_RequestID = ''k'', por_Duplicate = True \<rparr> \<or>
      fst (addOrder demoApi (\<lambda>_ s. s) 9 (demoOpen\<lparr> aor_RequestID := ''k'' \<rparr>) t) = Fail (500, CodeDispatchFailed)) \<and>
     snd (addOrder demoApi (\<lambda>_ s. s) 9 (demoOpen\<lparr> aor_RequestID := ''k'' \<rparr>) t) = t'' \<and> mny_accounts t'' = mny_accounts t \<and> es_orders t'' = es_orders t"
proof -
  define t where "t = snd (addOrder demoApi (\<lambda>_ s. s) 5 (demoOpen\<lparr> aor_RequestID := ''k'' \<rparr>) demoApiState)"
  have ok: "addOrder demoApi (\<lambda>_ s. s) 5 (demoOpen\<lparr> aor_RequestID := ''k'' \<rparr>) demoApiState =
      (OK \<lparr> por_OrderID = 1000, por_RequestID = ''k'', por_Duplicate = False \<rparr>, t)"
    using demoKeyed_accepted(1) by (simp add: t_def prod_eq_iff)
  from demoKeyed_accepted(2) obtain o1 where o1: "es_orders t = [o1]" "ord_OrderID o1 = 1000" "ord_UID o1 = 7" "ord_RequestID o1 = Some ''k''"
    by (auto simp: t_def map_eq_Cons_conv)
  have account: "FindByUID (mny_accounts t) 7 \<noteq> None"
    using demoKeyed_accepted(3) by (auto simp: t_def FindByUID_def sql_first_def map_eq_Cons_conv)
  obtain x t'' where again: "addOrder demoApi (\<lambda>_ s. s) 9 (demoOpen\<lparr> aor_RequestID := ''k'' \<rparr>) t = (x, t'')" by fastforce
  have x: "x = OK (\<lparr> por_OrderID = 1000, por_RequestID = ''k'', por_Duplicate = False \<rparr>\<lparr> por_Duplicate := True \<rparr>) \<or> x = Fail (500, CodeDispatchFailed)"
    and t'': "t'' = t\<lparr> api_attempts := api_attempts t'', api_sent := api_sent t'' \<rparr>"
    using addOrder_retry [OF ok _ _ _ _ _ _ again, of o1] o1 account by (simp_all add: demoOpen_def ordFindByRequestID_def sql_first_def)
  have "mny_accounts t'' = mny_accounts t" "es_orders t'' = es_orders t" by (subst t'', simp)+
  with x show ?thesis using ok again by auto
qed

end
