(* ===== verification/ApiRace.thy ===== *)
theory ApiRace
  imports ApiOrderProps
begin

text \<open>
  Two requests with one idempotency key at the same time: both find no earlier order, both lock margin, and the
  unique index lets one row in. The other request gives its margin back and answers with the row that won.
\<close>

section \<open>Unlocking what was locked\<close>

lemma FindByUID_locked:
  assumes "wf_accounts rows" "FindByUID rows u = Some a"
  shows "FindByUID (sql_update (\<lambda>b. acc_ID b = acc_ID a) (locked fr) rows) u = Some (locked fr a)"
proof -
  have "acc_UID (if acc_ID b = acc_ID a then locked fr b else b) = acc_UID b" for b by (simp add: locked_def)
  hence "find (\<lambda>b. acc_UID b = u) (map (\<lambda>b. if acc_ID b = acc_ID a then locked fr b else b) rows) =
      map_option (\<lambda>b. if acc_ID b = acc_ID a then locked fr b else b) (find (\<lambda>b. acc_UID b = u) rows)"
    by (induction rows) auto
  with assms(2) show ?thesis by (simp add: FindByUID_def sql_first_def sql_update_def)
qed

lemma UnfreezeMargin_locked:
  assumes L: "decimal_lib L" and rows: "wf_accounts rows" "FindByUID rows u = Some a" "0 \<le> acc_FrozenMargin a" "0 \<le> acc_FrozenCredit a"
    and fits: "fits 16 (frz_FromAvailable fr)" "fits 16 (frz_FromCredit fr)"
  shows "UnfreezeMargin L u (frz_FromAvailable fr) (frz_FromCredit fr) (sql_update (\<lambda>b. acc_ID b = acc_ID a) (locked fr) rows) = (Inr (), rows)"
proof -
  have a: "a \<in> set rows" using sql_first_Some rows(2) by (fastforce simp: FindByUID_def)
  note d = wf_accounts_ids(1) [OF rows(1)]
  have same: "b = a" if "b \<in> set rows" "acc_ID b = acc_ID a" for b using unique_key_eq [OF d that(1) a that(2)] .
  have fit: "col L (acc_FrozenMargin a) = acc_FrozenMargin a" "col L (acc_FrozenCredit a) = acc_FrozenCredit a"
    using locked_row [OF L rows(1,2), of 0 0] by simp_all
  let ?g = "\<lambda>b. acc_ID b = acc_ID a \<and> (frz_FromAvailable fr \<le> acc_FrozenMargin b \<and> frz_FromCredit fr \<le> acc_FrozenCredit b)"
  let ?f = "\<lambda>b :: Account. b\<lparr> acc_FrozenMargin := col L (acc_FrozenMargin b - frz_FromAvailable fr), acc_FrozenCredit := col L (acc_FrozenCredit b - frz_FromCredit fr) \<rparr>"
  have "?g (locked fr a)" "?f (locked fr a) = a" using rows(3,4) fit by (simp_all add: locked_def)
  hence restored: "sql_update ?g ?f (sql_update (\<lambda>b. acc_ID b = acc_ID a) (locked fr) rows) = rows"
    unfolding sql_update_def map_map o_def by (intro map_idI) (auto dest: same)
  have "locked fr a \<in> set (sql_update (\<lambda>b. acc_ID b = acc_ID a) (locked fr) rows)" using a by (force simp: sql_update_def)
  with \<open>?g (locked fr a)\<close> have "AdjustFrozenMargin L (acc_ID a) (frz_FromAvailable fr) (frz_FromCredit fr) (sql_update (\<lambda>b. acc_ID b = acc_ID a) (locked fr) rows) = (True, rows)"
    unfolding AdjustFrozenMargin_def sql_exec_eq by (auto simp: restored)
  thus ?thesis
    by (simp add: UnfreezeMargin_def withAccount_def GetOrCreate_def FindByUID_locked [OF rows(1,2)]) (simp add: locked_def)
qed

lemma rollbackFreeze_locked:
  assumes L: "decimal_lib (ae_lib A)" and rows: "wf_accounts (mny_accounts s)" "FindByUID (mny_accounts s) u = Some a" "0 \<le> acc_FrozenMargin a" "0 \<le> acc_FrozenCredit a"
    and fr: "0 \<le> frz_FromAvailable fr" "0 \<le> frz_FromCredit fr" "fits 16 (frz_FromAvailable fr)" "fits 16 (frz_FromCredit fr)"
  shows "\<exists>v. rollbackFreeze A u fr (s\<lparr> mny_accounts := sql_update (\<lambda>b. acc_ID b = acc_ID a) (locked fr) (mny_accounts s) \<rparr>) = (Inr v, s)"
proof (cases "frz_FromAvailable fr \<le> 0 \<and> frz_FromCredit fr \<le> 0")
  case True
  with fr(1,2) have "fr = \<lparr> frz_FromAvailable = 0, frz_FromCredit = 0 \<rparr>" by (cases fr) simp
  with True show ?thesis by (simp add: rollbackFreeze_def sql_update_locked_0 same_accounts)
next
  case False
  with UnfreezeMargin_locked [OF L rows fr(3,4)] show ?thesis
    by (auto simp: rollbackFreeze_def tolerate_def UnfreezeMarginOf_def onAccounts_def same_accounts)
qed

lemma price_positive:
  assumes "resolvePrice L coin ty action p mark ref = Inr price" "checkVolume coin amount = Inr ()" "\<And>m. mark = Some m \<Longrightarrow> 0 < m"
  shows "0 \<le> amount * orderNotionalPrice side ref price"
proof -
  have "0 < price" "0 < amount" using assms by (auto simp: resolvePrice_def checkVolume_def split: if_splits option.splits)
  thus ?thesis by (auto simp: orderNotionalPrice_def split: option.split)
qed

section \<open>The request that loses\<close>

lemma addOrder_enter:
  assumes "aor_UID req \<noteq> 0 \<and> aor_Symbol req \<noteq> [] \<and> aor_Side req \<noteq> [] \<and> aor_Action req \<noteq> []"
    "FindByUID (mny_accounts s) (aor_UID req) = Some a" "validateSideAction (aor_Side req) (aor_Action req) = Inr (side, action)"
    "resolveOrderType (aor_Type req) = Inr ty" "resolveLeverage (aor_Leverage req) = Inr lev" "normalizeRequestID (aor_RequestID req) = Inr rid"
    "rid = [] \<or> ordFindByRequestID (es_orders s) (aor_UID req) rid = None"
    "action = ActionOpen \<longrightarrow> acc_Status a \<noteq> AccountStatusFrozen"
    "coinBySymbol (ee_coins (ae_engine A)) (aor_Symbol req) = Some coin" "coin_Enable coin"
    "h = orderFingerprint (ae_engine A) side action ty lev req"
  shows "addOrder A w now req s = answer (placeOrder A w now req side action ty lev rid h coin) s"
proof -
  have "replayOrder A (aor_UID req) rid h s = (Inr (), s)" using assms(7) by (auto simp: replayOrder_def)
  with assms show ?thesis
    by (simp add: addOrder_def Let_def answer_def andThen_def require_def loadAccount_def validated_def rejectIfFrozen_def enabledCoin_def retn_def)
qed

lemma openMargin_undisturbed:
  assumes "w 0 = id" "w 1 = id"
  shows "openMargin A w replay = openMargin A (\<lambda>_ s. s) replay"
proof -
  have same: "reserveMargin A w = reserveMargin A (\<lambda>_ s. s)" using assms by (simp add: reserveMargin_def fun_eq_iff split: option.split)
  show ?thesis by (intro ext) (simp add: openMargin_def same assms)
qed

definition secondComes :: "Order \<Rightarrow> nat \<Rightarrow> 'z ApiState_scheme \<Rightarrow> 'z ApiState_scheme" where
  "secondComes o2 n s = (if n = 2 then s\<lparr> es_orders := es_orders s @ [o2] \<rparr> else s)"

lemma secondComes_early: "secondComes o2 0 = id" "secondComes o2 1 = id"
  by (simp_all add: secondComes_def fun_eq_iff)

text \<open>The row is refused, what was locked comes back, and the row that is there answers.\<close>

lemma respondDuplicateOrder_eq:
  "respondDuplicateOrder A o2 h s =
     (let told = \<not> idempotencyConflict (ord_RequestHash o2) h \<and> ord_Status o2 = OrderStatusOpen \<and> ord_TradedAmount o2 = 0;
          fails = ae_publishFails A (api_attempts s) in
      (Inl (if idempotencyConflict (ord_RequestHash o2) h then Fail (400, CodeIdempotencyConflict)
            else if told \<and> fails then Fail (500, CodeDispatchFailed)
            else OK \<lparr> por_OrderID = ord_OrderID o2, por_RequestID = derefStr (ord_RequestID o2), por_Duplicate = True \<rparr>),
       if \<not> told then s
       else if fails then s\<lparr> api_attempts := Suc (api_attempts s) \<rparr>
       else s\<lparr> api_attempts := Suc (api_attempts s),
              api_sent := api_sent s @ [(ord_Symbol o2, OrderSubmitted (orderSubmitEvent (ae_engine A) o2))] \<rparr>))"
  by (auto simp: respondDuplicateOrder_def replyNow_def andThen_def publishOrderSubmit_def Publish_def Let_def)

lemma andThen_respondDuplicateOrder:
  "(case respondDuplicateOrder A o2 h s1 of (Inl e, s') \<Rightarrow> (Inl e, s') | (Inr v, s') \<Rightarrow> k v s') = respondDuplicateOrder A o2 h s1"
  by (auto simp: respondDuplicateOrder_def replyNow_def andThen_def publishOrderSubmit_def Publish_def Let_def)

lemma storeOrder_lost:
  assumes "ordFindByRequestID (es_orders s) u rid = Some o2" "rid \<noteq> []" "ord_UID o' = u" "ord_RequestID o' = Some rid"
    and "rollbackFreeze A u fr s = (Inr v, s1)" "es_orders s1 = es_orders s"
  shows "storeOrder A u rid h fr o' s = respondDuplicateOrder A o2 h s1"
proof -
  have "replayOrder A u rid h s1 = respondDuplicateOrder A o2 h s1" using assms(1,2,6) by (simp add: replayOrder_def)
  thus ?thesis
    using assms by (auto simp: storeOrder_eq ordInsert_def andThen_def orFail_def orReply_def andThen_respondDuplicateOrder)
qed




section \<open>Two different requests\<close>

text \<open>Two tiers: leverage 20 up to a value of 150, leverage 5 above.\<close>

definition twoTierApi :: ApiEnv where
  "twoTierApi = demoApi\<lparr> ae_engine := (ae_engine demoApi)\<lparr> ee_tiers :=
     [demoTier\<lparr> tier_MaxNotional := 150 \<rparr>, demoTier\<lparr> tier_ID := 2, tier_Tier := 2, tier_MaxLeverage := 5 \<rparr>] \<rparr> \<rparr>"

text \<open>The second request runs after the first has left the lock and before its row is written.\<close>

definition overlapping :: "nat \<Rightarrow> ApiState \<Rightarrow> ApiState" where
  "overlapping n s = (if n = 2 then snd (addOrder twoTierApi (\<lambda>_ z. z) 5 demoOpen s) else s)"

lemma overlapping_result:
  "fst (addOrder twoTierApi overlapping 5 demoOpen demoApiState) = OK \<lparr> por_OrderID = 1000, por_RequestID = [], por_Duplicate = False \<rparr>"
  "map (\<lambda>o'. (ord_OrderID o', ord_Leverage o')) (es_orders (snd (addOrder twoTierApi overlapping 5 demoOpen demoApiState))) = [(1001, 10), (1000, 10)]"
  "existingOpenNotional 7 ''BTCUSDT'' SideLong (Some 100) (snd (addOrder twoTierApi overlapping 5 demoOpen demoApiState)) = 200"
  by (simp_all add: overlapping_def twoTierApi_def demo_state step_eval order_eval money_eval storedOrder_def UID_def RemainingAmount_def tierPairOK_def price_col_def)

lemma sequential_result:
  "fst (addOrder twoTierApi (\<lambda>_ z. z) 5 demoOpen (snd (addOrder twoTierApi (\<lambda>_ z. z) 5 demoOpen demoApiState))) = Fail (400, CodeLeverageExceedsTier)"
  by (simp add: twoTierApi_def demo_state step_eval order_eval money_eval storedOrder_def UID_def price_col_def RemainingAmount_def tierPairOK_def replyNow_def)


end
