(* ===== verification/ApiRisk.thy ===== *)
theory ApiRisk
  imports ApiOrders
begin

text \<open>
  The remaining handlers that change state: addConditionalOrder and setLeverage of
  src/internal/api/router.go, cancelAllOrders and setAccountStatus of extra.go, and the index price feed.
\<close>

section \<open>Conditional orders\<close>

record addConditionalOrderRequest = addOrderRequest +
  acr_TriggerPrice :: dec
  acr_TriggerDirection :: string

definition directionOf :: "string \<Rightarrow> TriggerDirection option" where
  "directionOf v = (if v = ''gte'' then Some TriggerGTE else if v = ''lte'' then Some TriggerLTE else None)"

definition validateTrigger :: "addConditionalOrderRequest \<Rightarrow> failure + TriggerDirection" where
  "validateTrigger req =
     (case directionOf (acr_TriggerDirection req) of
        None \<Rightarrow> Inl (failWith 400)
      | Some d \<Rightarrow> if acr_TriggerPrice req \<le> 0 then Inl (failWith 400) else Inr d)"

definition directionText :: "TriggerDirection \<Rightarrow> string" where
  "directionText d = (if d = TriggerGTE then ''gte'' else ''lte'')"

definition conditionalFingerprint ::
  "EngineEnv \<Rightarrow> Side \<Rightarrow> OrderAction \<Rightarrow> OrderType \<Rightarrow> TriggerDirection \<Rightarrow> dec \<Rightarrow> addConditionalOrderRequest \<Rightarrow> string" where
  "conditionalFingerprint E side action ty dir leverage req =
     ee_fingerprint E [''conditional'', ee_show_nat E (aor_UID req), aor_Symbol req, sideText side, actionText action, typeText ty,
       ee_show_dec E (acr_TriggerPrice req), directionText dir, ee_show_dec E (aor_Price req),
       decPtrStr (ee_show_dec E) (aor_Amount req), decPtrStr (ee_show_dec E) (aor_MarginAmount req),
       ee_show_dec E leverage, boolText (aor_ReduceOnly req)]"

text \<open>A market order has no price before it triggers.\<close>

definition conditionalOrderPrice :: "Coin \<Rightarrow> OrderType \<Rightarrow> dec \<Rightarrow> failure + dec" where
  "conditionalOrderPrice coin ty reqPrice =
     (if ty \<noteq> OrderTypeLimit then Inr 0
      else if reqPrice \<le> 0 then Inl (failWith 400)
      else if \<not> onTick coin reqPrice then Inl (400, CodePriceTickInvalid)
      else Inr reqPrice)"

definition conditionalRow ::
  "nat \<Rightarrow> int \<Rightarrow> addConditionalOrderRequest \<Rightarrow> Side \<Rightarrow> OrderAction \<Rightarrow> OrderType \<Rightarrow> TriggerDirection \<Rightarrow> dec \<Rightarrow> dec \<Rightarrow> dec \<Rightarrow>
   string \<Rightarrow> string \<Rightarrow> FreezeResult \<Rightarrow> ConditionalOrder" where
  "conditionalRow i now req side action ty dir price amount leverage requestID requestHash fr =
     \<lparr> co_OrderID = i, co_UID = aor_UID req, co_Symbol = aor_Symbol req, co_Side = side, co_Action = action,
       co_TriggerPrice = acr_TriggerPrice req, co_TriggerDirection = dir, co_Type = ty, co_Price = price,
       co_Amount = amount, co_Leverage = nat \<lfloor>leverage\<rfloor>, co_ReduceOnly = aor_ReduceOnly req,
       co_FrozenMargin = (if action = ActionOpen then frz_FromAvailable fr else 0),
       co_FrozenCredit = (if action = ActionOpen then frz_FromCredit fr else 0),
       co_Status = ConditionalStatusPending, co_CreateTime = now, co_UpdateTime = now,
       co_RequestID = strPtr requestID, co_RequestHash = hashIfKeyed requestID requestHash \<rparr>"

definition storeConditional ::
  "ApiEnv \<Rightarrow> uid \<Rightarrow> string \<Rightarrow> string \<Rightarrow> FreezeResult \<Rightarrow> ConditionalOrder \<Rightarrow> 'z ApiState_scheme \<Rightarrow>
   (placeOrderResult reply + unit) \<times> 'z ApiState_scheme" where
  "storeConditional A u requestID requestHash fr co s =
     (case onConds (coInsert (ae_lib A) co) s of
        (Inr _, s') \<Rightarrow> (Inr (), s')
      | (Inl e, s') \<Rightarrow>
          if requestID \<noteq> [] then
            andThen (orFail (failWith 500) (rollbackFreeze A u fr))
              (\<lambda>_. andThen (replayConditional u requestID requestHash) (\<lambda>_. replyNow (Fail (failWith 500)))) s'
          else (Inl (Fail (failWith 500)), s'))"

text \<open>A freeze of the account may just have swept the pending orders: then this one is taken back.\<close>

definition recheckFrozen :: "ApiEnv \<Rightarrow> int \<Rightarrow> ConditionalOrder \<Rightarrow> 'z ApiState_scheme \<Rightarrow> (placeOrderResult reply + unit) \<times> 'z ApiState_scheme" where
  "recheckFrozen A now co s =
     (if co_Action co = ActionOpen \<and> IsFrozen (mny_accounts s) (co_UID co) then
        andThen (orFail (failWith 500) (tolerate (cancelPendingConditional A now co)))
          (\<lambda>_. replyNow (Fail (400, CodeAccountFrozen))) s
      else (Inr (), s))"

definition placeConditional ::
  "ApiEnv \<Rightarrow> (nat \<Rightarrow> 'z ApiState_scheme \<Rightarrow> 'z ApiState_scheme) \<Rightarrow> int \<Rightarrow> addConditionalOrderRequest \<Rightarrow> Side \<Rightarrow> OrderAction \<Rightarrow> OrderType \<Rightarrow>
   TriggerDirection \<Rightarrow> dec \<Rightarrow> string \<Rightarrow> string \<Rightarrow> Coin \<Rightarrow> 'z ApiState_scheme \<Rightarrow> (placeOrderResult reply + placeOrderResult) \<times> 'z ApiState_scheme" where
  "placeConditional A w now req side action ty dir leverage requestID requestHash coin s =
     (let u = aor_UID req; sy = aor_Symbol req; L = ae_lib A;
          mark = Get (es_marks s sy);
          ref = referencePrice mark (es_marks s sy) in
      andThen (require (onTick coin (acr_TriggerPrice req)) (400, CodePriceTickInvalid))
        (\<lambda>_. andThen (validated (conditionalOrderPrice coin ty (aor_Price req)))
        (\<lambda>price. let estimate = (if ty = OrderTypeMarket then acr_TriggerPrice req else price) in
           andThen (resolveAmount L coin estimate leverage (aor_MarginAmount req) (aor_Amount req))
        (\<lambda>amount. andThen (validated (checkVolume coin amount))
        (\<lambda>_. let np = orderNotionalPrice side ref estimate; requiredMargin = lib_Div L (amount * np) leverage in
           andThen (openMargin A w (replayConditional u requestID requestHash) u sy side action mark (amount * np) leverage requiredMargin)
        (\<lambda>fr. andThen (orFail (failWith 500) (nextID (ae_engine A)))
        (\<lambda>i. let co = conditionalRow i now req side action ty dir price amount leverage requestID requestHash fr in
           andThen (interfere w 2)
        (\<lambda>_. andThen (storeConditional A u requestID requestHash fr co)
        (\<lambda>_. andThen (interfere w 3)
        (\<lambda>_. andThen (recheckFrozen A now co)
        (\<lambda>_. retn \<lparr> por_OrderID = i, por_RequestID = requestID, por_Duplicate = False \<rparr>)))))))))) s)"

definition addConditionalOrder ::
  "ApiEnv \<Rightarrow> (nat \<Rightarrow> 'z ApiState_scheme \<Rightarrow> 'z ApiState_scheme) \<Rightarrow> int \<Rightarrow> addConditionalOrderRequest \<Rightarrow> 'z ApiState_scheme \<Rightarrow>
   placeOrderResult reply \<times> 'z ApiState_scheme" where
  "addConditionalOrder A w now req =
     (let u = aor_UID req in
      answer
        (andThen (require (u \<noteq> 0 \<and> aor_Symbol req \<noteq> [] \<and> aor_Side req \<noteq> [] \<and> aor_Action req \<noteq> [] \<and> acr_TriggerDirection req \<noteq> []) (failWith 400))
          (\<lambda>_. andThen (loadAccount u)
          (\<lambda>account. andThen (validated (validateSideAction (aor_Side req) (aor_Action req)))
          (\<lambda>(side, action). andThen (validated (validateTrigger req))
          (\<lambda>dir. andThen (validated (resolveOrderType (aor_Type req)))
          (\<lambda>ty. andThen (validated (resolveLeverage (aor_Leverage req)))
          (\<lambda>leverage. andThen (validated (normalizeRequestID (aor_RequestID req)))
          (\<lambda>requestID. let requestHash = conditionalFingerprint (ae_engine A) side action ty dir leverage req in
             andThen (replayConditional u requestID requestHash)
          (\<lambda>_. andThen (if action = ActionOpen then rejectIfFrozen account else retn ())
          (\<lambda>_. andThen (enabledCoin A (aor_Symbol req))
          (\<lambda>coin. placeConditional A w now req side action ty dir leverage requestID requestHash coin))))))))))))"

section \<open>Leverage of a position\<close>

text \<open>The margin that moves when the margin of a position becomes \<open>newMargin\<close>: locked when it grows, released
  in the shares of balance and credit when it shrinks. The answer is the new credit part.\<close>

definition moveMargin ::
  "ApiEnv \<Rightarrow> uid \<Rightarrow> Position \<Rightarrow> dec \<Rightarrow> 'z ApiState_scheme \<Rightarrow> (lockError + dec) \<times> 'z ApiState_scheme" where
  "moveMargin A u p newMargin s =
     (let delta = newMargin - pos_PositionMargin p in
      if 0 < delta then
        andThen (svcFreezeMargin A u delta) (\<lambda>fr. retn (pos_CreditMargin p + frz_FromCredit fr)) s
      else if delta < 0 then
        let release = - delta;
            releaseCredit = (if 0 < pos_PositionMargin p
                             then lib_Div (ae_lib A) (pos_CreditMargin p * release) (pos_PositionMargin p) else 0) in
        (case UnfreezeMarginOf (ae_engine A) u (release - releaseCredit) releaseCredit s of
           (Inl e, s') \<Rightarrow> (Inl (OtherError e), s')
         | (Inr _, s') \<Rightarrow> (Inr (pos_CreditMargin p - releaseCredit), s'))
      else (Inr (pos_CreditMargin p), s))"

definition changeLeverage ::
  "ApiEnv \<Rightarrow> (nat \<Rightarrow> 'z ApiState_scheme \<Rightarrow> 'z ApiState_scheme) \<Rightarrow> int \<Rightarrow> uid \<Rightarrow> symbol \<Rightarrow> Side \<Rightarrow> nat \<Rightarrow>
   'z ApiState_scheme \<Rightarrow> (lockError + unit) \<times> 'z ApiState_scheme" where
  "changeLeverage A w now u sy side leverage s =
     (case Find (mny_positions s) u sy side of
        None \<Rightarrow> (Inl (HttpError (400, CodePositionNotFound)), s)
      | Some p \<Rightarrow>
          if pos_Volume p \<le> 0 then (Inl (HttpError (400, CodePositionNotFound)), s)
          else
            (case Get (es_marks s sy) of
               None \<Rightarrow> (Inl (HttpError (400, CodeNoMarkPrice)), s)
             | Some mark \<Rightarrow>
                 let notional = pos_Volume p * mark in
                 (case TierFor (ee_tiers (ae_engine A)) sy notional of
                    None \<Rightarrow> (Inl (HttpError (400, CodeTierNotConfigured)), s)
                  | Some tier \<Rightarrow>
                      if tier_MaxLeverage tier < leverage then (Inl (HttpError (400, CodeLeverageExceedsTier)), s)
                      else
                        let newMargin = lib_Div (ae_lib A) notional (of_nat leverage) in
                        andThen (moveMargin A u p newMargin)
                          (\<lambda>newCredit. andThen (interfere w 2)
                          (\<lambda>_ t.
                             case UpdateLeverage (ae_lib A) (pos_ID p) newMargin newCredit leverage (pos_Volume p) now (mny_positions t) of
                               (ok, rows) \<Rightarrow>
                                 (if ok then Inr () else Inl (HttpError (500, CodeInternal)), t\<lparr> mny_positions := rows \<rparr>)))
                          s)))"

definition setLeverage ::
  "ApiEnv \<Rightarrow> (nat \<Rightarrow> 'z ApiState_scheme \<Rightarrow> 'z ApiState_scheme) \<Rightarrow> int \<Rightarrow> uid \<Rightarrow> symbol \<Rightarrow> string \<Rightarrow> nat \<Rightarrow> 'z ApiState_scheme \<Rightarrow>
   unit reply \<times> 'z ApiState_scheme" where
  "setLeverage A w now u sy sideName leverage =
     answer
       (andThen (require (u \<noteq> 0 \<and> sy \<noteq> [] \<and> sideName \<noteq> [] \<and> leverage \<noteq> 0) (failWith 400))
         (\<lambda>_. andThen (loadAccount u)
         (\<lambda>account. andThen (rejectIfFrozen account)
         (\<lambda>_. case sideOf sideName of
              None \<Rightarrow> replyNow (Fail (failWith 400))
            | Some side \<Rightarrow>
                (\<lambda>s. case underLock A (OrderLockKey (ee_show_nat (ae_engine A)) u sy side)
                            (changeLeverage A w now u sy side leverage) (w 0 s) of
                       (Inr _, s') \<Rightarrow> (Inr (), s')
                     | (Inl le, s') \<Rightarrow> (Inl (respondLockErr le), s'))))))"

section \<open>Cancelling in bulk and freezing an account\<close>

record cancelCounts =
  cc_CancelRequested :: nat
  cc_CancelRequestFailed :: nat
  cc_ConditionalCanceled :: nat
  cc_ConditionalFailed :: nat

text \<open>One cancel request for every order, counted by whether the producer took it; and the conditional orders,
  counted by whether they were cancelled.\<close>

definition requestCancels :: "ApiEnv \<Rightarrow> Order list \<Rightarrow> 'z ApiState_scheme \<Rightarrow> ('e + bool list) \<times> 'z ApiState_scheme" where
  "requestCancels A = mapEach (\<lambda>o'. publishCancel A (ord_OrderID o') (ord_UID o') (ord_Symbol o'))"

definition cancelConditionals ::
  "ApiEnv \<Rightarrow> (nat \<Rightarrow> 'z ApiState_scheme \<Rightarrow> 'z ApiState_scheme) \<Rightarrow> int \<Rightarrow> ConditionalOrder list \<Rightarrow> 'z ApiState_scheme \<Rightarrow>
   ('x reply + bool list) \<times> 'z ApiState_scheme" where
  "cancelConditionals A w now =
     mapEach (\<lambda>co. andThen (interfere w 2) (\<lambda>_. andThen (orFail (failWith 500) (tolerate (cancelPendingConditional A now co)))
       (\<lambda>r. retn (r = Some True))))"

definition counts :: "bool list \<Rightarrow> bool list \<Rightarrow> cancelCounts" where
  "counts sent canceled =
     \<lparr> cc_CancelRequested = length (filter (\<lambda>b. b) sent), cc_CancelRequestFailed = length (filter (\<lambda>b. \<not> b) sent),
       cc_ConditionalCanceled = length (filter (\<lambda>b. b) canceled), cc_ConditionalFailed = length (filter (\<lambda>b. \<not> b) canceled) \<rparr>"

definition cancelAllOrders ::
  "ApiEnv \<Rightarrow> (nat \<Rightarrow> 'z ApiState_scheme \<Rightarrow> 'z ApiState_scheme) \<Rightarrow> int \<Rightarrow> uid \<Rightarrow> symbol \<Rightarrow> bool \<Rightarrow> 'z ApiState_scheme \<Rightarrow>
   cancelCounts reply \<times> 'z ApiState_scheme" where
  "cancelAllOrders A w now u sy includeConditional =
     answer
       (andThen (require (u \<noteq> 0) (failWith 400))
         (\<lambda>_. andThen (loadAccount u)
         (\<lambda>_. andThen (require (sy = [] \<or> coinBySymbol (ee_coins (ae_engine A)) sy \<noteq> None) (400, CodeSymbolNotFound))
         (\<lambda>_. andThen (getState (\<lambda>s. ordFindActiveByUID (es_orders s) u sy))
         (\<lambda>orders. andThen (requestCancels A orders)
         (\<lambda>sent. andThen (getState (\<lambda>s. if includeConditional then coFindActiveByUID (es_conds s) u sy else []))
         (\<lambda>pending. andThen (cancelConditionals A w now pending)
         (\<lambda>canceled. retn (counts sent canceled)))))))))"

definition sweepOpenOrders ::
  "ApiEnv \<Rightarrow> (nat \<Rightarrow> 'z ApiState_scheme \<Rightarrow> 'z ApiState_scheme) \<Rightarrow> int \<Rightarrow> uid \<Rightarrow> 'z ApiState_scheme \<Rightarrow>
   ('x reply + cancelCounts) \<times> 'z ApiState_scheme" where
  "sweepOpenOrders A w now u =
     andThen (getState (\<lambda>s. filter (\<lambda>o'. ord_Action o' = ActionOpen \<and> \<not> ord_Liquidation o') (ordFindActiveByUID (es_orders s) u [])))
       (\<lambda>orders. andThen (requestCancels A orders)
       (\<lambda>sent. andThen (getState (\<lambda>s. filter (\<lambda>co. co_Action co = ActionOpen) (coFindActiveByUID (es_conds s) u [])))
       (\<lambda>pending. andThen (cancelConditionals A w now pending)
       (\<lambda>canceled. retn (counts sent canceled)))))"

definition statusOf :: "string \<Rightarrow> AccountStatus option" where
  "statusOf v = (if v = ''active'' then Some AccountStatusActive else if v = ''frozen'' then Some AccountStatusFrozen else None)"

definition maxStatusReasonLen :: nat where "maxStatusReasonLen = 255"

record setAccountStatusResult =
  asr_Status :: AccountStatus
  asr_Changed :: bool
  asr_Counts :: cancelCounts

definition setAccountStatus ::
  "ApiEnv \<Rightarrow> (nat \<Rightarrow> 'z ApiState_scheme \<Rightarrow> 'z ApiState_scheme) \<Rightarrow> int \<Rightarrow> uid \<Rightarrow> string \<Rightarrow> string \<Rightarrow> 'z ApiState_scheme \<Rightarrow>
   setAccountStatusResult reply \<times> 'z ApiState_scheme" where
  "setAccountStatus A w now u status reason =
     answer
       (andThen (require (u \<noteq> 0) (failWith 400))
         (\<lambda>_. case statusOf status of
              None \<Rightarrow> replyNow (Fail (failWith 400))
            | Some to \<Rightarrow>
                andThen (require (length reason \<le> maxStatusReasonLen) (failWith 400))
                  (\<lambda>_. andThen
                     (orReply (\<lambda>e. if e = ErrAccountNotFound then Fail (400, CodeAccountNotFound) else Fail (failWith 500))
                       (\<lambda>s. case SetStatus u to reason (ae_operator A) now (mny_accounts s, api_history s) of
                              (r, (rows, hist)) \<Rightarrow> (r, s\<lparr> mny_accounts := rows, api_history := hist \<rparr>)))
                  (\<lambda>(_, changed). andThen (if to = AccountStatusFrozen then sweepOpenOrders A w now u else retn (counts [] []))
                  (\<lambda>cs. retn \<lparr> asr_Status = to, asr_Changed = changed, asr_Counts = cs \<rparr>)))))"

section \<open>The index price feed\<close>

definition setIndexPrice :: "ApiEnv \<Rightarrow> int \<Rightarrow> symbol \<Rightarrow> dec \<Rightarrow> 'z ApiState_scheme \<Rightarrow> unit reply \<times> 'z ApiState_scheme" where
  "setIndexPrice A now sy price =
     answer
       (andThen (require (sy \<noteq> []) (failWith 400))
         (\<lambda>_. andThen (require (0 < price) (failWith 400))
         (\<lambda>_. andThen
              (orFail (failWith 500)
                (\<lambda>s. case PushIndexPrice (ae_lib A) (ee_mark (ae_engine A)) now price (es_marks s sy) of
                       Inl e \<Rightarrow> (Inl e, s)
                     | Inr (accepted, c) \<Rightarrow> (Inr accepted, s\<lparr> es_marks := (es_marks s)(sy := c) \<rparr>)))
         (\<lambda>accepted. require accepted (400, CodeIndexPriceJump)))))"

end
