(* ===== verification/ApiLeverage.thy ===== *)
theory ApiLeverage
  imports ApiRisk ApiOrderProps
begin

text \<open>
  Changing the leverage of a position: the margin moves between what is free and what is locked by exactly the
  difference, in the same transaction of margin and credit as the position itself; and what happens when a
  fill comes between.
\<close>

section \<open>The account side\<close>

lemma UnfreezeMargin_done:
  assumes L: "decimal_lib L" and rows: "wf_accounts rows" "FindByUID rows u = Some a" and fits: "fits 16 x" "fits 16 y"
    and ok: "UnfreezeMargin L u x y rows = (Inr v, rows')"
  shows "rows' = sql_update (\<lambda>b. acc_ID b = acc_ID a) (locked \<lparr> frz_FromAvailable = - x, frz_FromCredit = - y \<rparr>) rows"
proof -
  have a: "a \<in> set rows" using sql_first_Some rows(2) by (fastforce simp: FindByUID_def)
  note d = wf_accounts_ids(1) [OF rows(1)]
  have same: "b = a" if "b \<in> set rows" "acc_ID b = acc_ID a" for b using unique_key_eq [OF d that(1) a that(2)] .
  let ?g = "\<lambda>b. x \<le> acc_FrozenMargin b \<and> y \<le> acc_FrozenCredit b"
  let ?f = "\<lambda>b :: Account. b\<lparr> acc_FrozenMargin := col L (acc_FrozenMargin b - x), acc_FrozenCredit := col L (acc_FrozenCredit b - y) \<rparr>"
  have "?f a = locked \<lparr> frz_FromAvailable = - x, frz_FromCredit = - y \<rparr> a"
    using locked_row [OF L rows fits_uminus [OF fits(1)] fits_uminus [OF fits(2)]] by (simp add: locked_def)
  moreover from ok rows(2) have "(\<exists>r\<in>set rows. acc_ID r = acc_ID a \<and> ?g r)" "rows' = sql_update (\<lambda>b. acc_ID b = acc_ID a \<and> ?g b) ?f rows"
    by (auto simp: UnfreezeMargin_def withAccount_def GetOrCreate_def AdjustFrozenMargin_def sql_exec_eq Let_def split: if_splits)
  moreover from this(1) same have "?g a" by blast
  ultimately show ?thesis using sql_update_row [where k = acc_ID and g = ?g and a = a, OF d a] by simp
qed

lemma moveMargin_done:
  assumes L: "decimal_lib (ae_lib A)" and rows: "wf_accounts (mny_accounts s)" "FindByUID (mny_accounts s) u = Some a"
    and fits: "fits 16 newMargin" "fits 16 (pos_PositionMargin p)"
    and ok: "moveMargin A u p newMargin s = (Inr newCredit, t)"
  shows "\<exists>fr. frz_FromAvailable fr + frz_FromCredit fr = newMargin - pos_PositionMargin p \<and> newCredit = pos_CreditMargin p + frz_FromCredit fr \<and>
     fits 16 (frz_FromCredit fr) \<and> t = s\<lparr> mny_accounts := sql_update (\<lambda>b. acc_ID b = acc_ID a) (locked fr) (mny_accounts s) \<rparr>"
proof -
  consider "pos_PositionMargin p < newMargin" | "newMargin < pos_PositionMargin p" | "newMargin = pos_PositionMargin p" by linarith
  thus ?thesis
  proof cases
    case 1
    with ok obtain fr rows' where "FreezeMargin (ae_lib A) (\<lambda>_ t. t) (TotalUnrealizedPnl (marksOf s) u (mny_positions s)) u
        (newMargin - pos_PositionMargin p) (mny_accounts s) = (Inr fr, rows')" "newCredit = pos_CreditMargin p + frz_FromCredit fr" "t = s\<lparr> mny_accounts := rows' \<rparr>"
      by (auto simp: moveMargin_def andThen_Inr_iff svcFreezeMargin_def onAccounts_def split: prod.splits sum.splits)
    with FreezeMargin_alone [OF L fits_diff [OF fits] rows this(1)] show ?thesis by blast
  next
    case 2
    define x where "x = pos_PositionMargin p - newMargin"
    define y where "y = (if 0 < pos_PositionMargin p then lib_Div (ae_lib A) (pos_CreditMargin p * x) (pos_PositionMargin p) else 0)"
    from 2 have "moveMargin A u p newMargin s = (case UnfreezeMarginOf (ae_engine A) u (x - y) y s of
        (Inl e, s') \<Rightarrow> (Inl (OtherError e), s') | (Inr _, s') \<Rightarrow> (Inr (pos_CreditMargin p - y), s'))"
      by (simp add: moveMargin_def Let_def x_def y_def split: prod.split sum.split)
    with ok obtain v rows' where un: "UnfreezeMargin (ae_lib A) u (x - y) y (mny_accounts s) = (Inr v, rows')" and t: "t = s\<lparr> mny_accounts := rows' \<rparr>"
      and c: "newCredit = pos_CreditMargin p - y"
      by (auto simp: UnfreezeMarginOf_def onAccounts_def split: prod.splits sum.splits)
    have y: "fits 16 y" using decimal_lib.div_fits [OF L] by (simp add: y_def)
    have xy: "fits 16 (x - y)" using fits y by (auto simp: x_def intro!: fits_diff)
    from UnfreezeMargin_done [OF L rows xy y un] show ?thesis
      by (intro exI [of _ "\<lparr> frz_FromAvailable = - (x - y), frz_FromCredit = - y \<rparr>"]) (use t c y fits_uminus in \<open>auto simp: x_def\<close>)
  next
    case 3
    with ok show ?thesis
      by (intro exI [of _ "\<lparr> frz_FromAvailable = 0, frz_FromCredit = 0 \<rparr>"]) (auto simp: moveMargin_def Let_def sql_update_locked_0 same_accounts)
  qed
qed

section \<open>The handler\<close>

text \<open>The position is the user's, has a mark, and its tier allows the leverage.\<close>

definition mayLever :: "ApiEnv \<Rightarrow> uid \<Rightarrow> symbol \<Rightarrow> Side \<Rightarrow> nat \<Rightarrow> Position \<Rightarrow> dec \<Rightarrow> 'z ApiState_scheme \<Rightarrow> bool" where
  "mayLever A u sy side leverage p mark s \<longleftrightarrow>
     Find (mny_positions s) u sy side = Some p \<and> 0 < pos_Volume p \<and> Get (es_marks s sy) = Some mark \<and>
     (\<exists>tier. TierFor (ee_tiers (ae_engine A)) sy (pos_Volume p * mark) = Some tier \<and> leverage \<le> tier_MaxLeverage tier)"

lemma changeLeverage_done:
  assumes "changeLeverage A (\<lambda>_ s. s) now u sy side leverage s = (Inr x, t)"
  obtains p mark newCredit s1 where "mayLever A u sy side leverage p mark s"
    "moveMargin A u p (lib_Div (ae_lib A) (pos_Volume p * mark) (of_nat leverage)) s = (Inr newCredit, s1)"
    "UpdateLeverage (ae_lib A) (pos_ID p) (lib_Div (ae_lib A) (pos_Volume p * mark) (of_nat leverage)) newCredit leverage (pos_Volume p) now (mny_positions s1) =
       (True, mny_positions t)" "t = s1\<lparr> mny_positions := mny_positions t \<rparr>"
proof -
  from assms obtain p mark tier where p: "Find (mny_positions s) u sy side = Some p" "0 < pos_Volume p" "Get (es_marks s sy) = Some mark"
      "TierFor (ee_tiers (ae_engine A)) sy (pos_Volume p * mark) = Some tier" "leverage \<le> tier_MaxLeverage tier"
    and run: "andThen (moveMargin A u p (lib_Div (ae_lib A) (pos_Volume p * mark) (of_nat leverage)))
       (\<lambda>newCredit. andThen (interfere (\<lambda>_ s. s) 2)
       (\<lambda>_ t. case UpdateLeverage (ae_lib A) (pos_ID p) (lib_Div (ae_lib A) (pos_Volume p * mark) (of_nat leverage)) newCredit leverage (pos_Volume p) now (mny_positions t) of
          (ok, rows) \<Rightarrow> (if ok then Inr () else Inl (HttpError (500, CodeInternal)), t\<lparr> mny_positions := rows \<rparr>))) s = (Inr x, t)"
    by (auto simp: changeLeverage_def Let_def not_less split: option.splits if_splits)
  define m where "m = lib_Div (ae_lib A) (pos_Volume p * mark) (of_nat leverage)"
  from run [folded m_def] obtain newCredit s1 where move: "moveMargin A u p m s = (Inr newCredit, s1)"
    and rest: "(case UpdateLeverage (ae_lib A) (pos_ID p) m newCredit leverage (pos_Volume p) now (mny_positions s1) of
          (ok, rows) \<Rightarrow> (if ok then Inr () else Inl (HttpError (500, CodeInternal)), s1\<lparr> mny_positions := rows \<rparr>)) = (Inr x, t)"
    unfolding andThen_Inr_iff interfere_iff by blast
  from rest obtain rows where upd: "UpdateLeverage (ae_lib A) (pos_ID p) m newCredit leverage (pos_Volume p) now (mny_positions s1) = (True, rows)"
      "t = s1\<lparr> mny_positions := rows \<rparr>"
    by (simp split: prod.splits if_splits)
  have may: "mayLever A u sy side leverage p mark s" using p by (simp add: mayLever_def)
  have "rows = mny_positions t" "t = s1\<lparr> mny_positions := mny_positions t \<rparr>" by (simp_all add: upd(2))
  with that [OF may move [unfolded m_def]] upd(1) [unfolded m_def] show thesis by blast
qed

lemma setLeverage_done:
  assumes "setLeverage A w now u sy sideName leverage s = (OK x, t)"
  obtains a side where "FindByUID (mny_accounts s) u = Some a" "acc_Status a \<noteq> AccountStatusFrozen" "sideOf sideName = Some side" "leverage \<noteq> 0"
    "\<not> ae_lockBusy A (OrderLockKey (ee_show_nat (ae_engine A)) u sy side)" "u \<noteq> 0" "sy \<noteq> []" "sideName \<noteq> []"
    "changeLeverage A w now u sy side leverage (w 0 s) = (Inr x, t)"
  using assms that unfolding setLeverage_def answer_iff andThen_Inl_iff andThen_Inr_iff
  by (auto simp: underLock_def split: option.splits sum.splits prod.splits if_splits)

text \<open>C26. Changing the leverage of a position, undisturbed, sets its margin to the value of the position at the mark divided
  by the leverage, and moves exactly the difference between what is free and what is locked on the account of the user:
  the sum of the two locked parts grows (or shrinks) with the margin of the position, the locked credit with its
  credit part. Only that position and that account change, and the tier of the position allows the leverage.\<close>

theorem setLeverage_moves_margin:
  assumes L: "decimal_lib (ae_lib A)" and accounts: "wf_accounts (mny_accounts s)" and positions: "wf_positions (mny_positions s)"
      "\<And>p. p \<in> set (mny_positions s) \<Longrightarrow> fits 16 (pos_PositionMargin p) \<and> fits 16 (pos_CreditMargin p)"
    and ok: "setLeverage A (\<lambda>_ s. s) now u sy sideName leverage s = (OK x, t)"
  shows "\<exists>a side p mark fr. FindByUID (mny_accounts s) u = Some a \<and> sideOf sideName = Some side \<and> mayLever A u sy side leverage p mark s \<and>
     (let newMargin = lib_Div (ae_lib A) (pos_Volume p * mark) (of_nat leverage) in
      frz_FromAvailable fr + frz_FromCredit fr = newMargin - pos_PositionMargin p \<and>
      t = s\<lparr> mny_accounts := sql_update (\<lambda>b. acc_ID b = acc_ID a) (locked fr) (mny_accounts s),
             mny_positions := sql_update (\<lambda>q. pos_ID q = pos_ID p)
               (\<lambda>q. q\<lparr> pos_PositionMargin := newMargin, pos_CreditMargin := pos_CreditMargin p + frz_FromCredit fr,
                       pos_Leverage := leverage, pos_UpdateTime := now \<rparr>) (mny_positions s) \<rparr>)"
proof -
  obtain a side where a: "FindByUID (mny_accounts s) u = Some a" "sideOf sideName = Some side" "leverage \<noteq> 0"
    and ch: "changeLeverage A (\<lambda>_ s. s) now u sy side leverage s = (Inr x, t)"
    using setLeverage_done [OF ok] by metis
  from ch obtain p mark newCredit s1 where may: "mayLever A u sy side leverage p mark s"
    and move: "moveMargin A u p (lib_Div (ae_lib A) (pos_Volume p * mark) (of_nat leverage)) s = (Inr newCredit, s1)"
    and upd: "UpdateLeverage (ae_lib A) (pos_ID p) (lib_Div (ae_lib A) (pos_Volume p * mark) (of_nat leverage)) newCredit leverage (pos_Volume p) now (mny_positions s1) =
       (True, mny_positions t)" "t = s1\<lparr> mny_positions := mny_positions t \<rparr>"
    by (rule changeLeverage_done)
  define m where "m = lib_Div (ae_lib A) (pos_Volume p * mark) (of_nat leverage)"
  have p: "p \<in> set (mny_positions s)" using may Find_Some by (auto simp: mayLever_def)
  have m: "fits 16 m" using decimal_lib.div_fits [OF L] a(3) by (simp add: m_def)
  from moveMargin_done [OF L accounts a(1) m _ move [folded m_def]] positions(2) [OF p]
  obtain fr where fr: "frz_FromAvailable fr + frz_FromCredit fr = m - pos_PositionMargin p" "newCredit = pos_CreditMargin p + frz_FromCredit fr"
    "fits 16 (frz_FromCredit fr)" "s1 = s\<lparr> mny_accounts := sql_update (\<lambda>b. acc_ID b = acc_ID a) (locked fr) (mny_accounts s) \<rparr>" by blast
  have col: "col (ae_lib A) m = m" "col (ae_lib A) newCredit = newCredit"
    using m fr(2,3) positions(2) [OF p] by (auto intro!: col_fit [OF L])
  have "mny_positions t = sql_update (\<lambda>q. pos_ID q = pos_ID p \<and> pos_Volume q = pos_Volume p)
      (\<lambda>q. q\<lparr> pos_PositionMargin := m, pos_CreditMargin := newCredit, pos_Leverage := leverage, pos_UpdateTime := now \<rparr>) (mny_positions s)"
    using upd(1) col by (simp add: UpdateLeverage_def sql_exec_eq fr(4) flip: m_def)
  also have "\<dots> = sql_update (\<lambda>q. pos_ID q = pos_ID p)
      (\<lambda>q. q\<lparr> pos_PositionMargin := m, pos_CreditMargin := pos_CreditMargin p + frz_FromCredit fr, pos_Leverage := leverage, pos_UpdateTime := now \<rparr>) (mny_positions s)"
    by (rule sql_update_row [where k = pos_ID and g = "\<lambda>q. pos_Volume q = pos_Volume p", OF _ p refl])
      (use positions(1) in \<open>simp_all add: wf_positions_def fr(2)\<close>)
  finally have "mny_positions t = \<dots>" .
  with a may fr(1) upd(2) show ?thesis
    by (intro exI [of _ a] exI [of _ side] exI [of _ p] exI [of _ mark] exI [of _ fr]) (simp add: m_def [symmetric] Let_def fr(4))
qed

definition demoLevered :: ApiState where
  "demoLevered = demoApiState\<lparr> mny_positions :=
     [\<lparr> pos_ID = 1, pos_UID = 7, pos_Symbol = ''BTCUSDT'', pos_Side = SideLong, pos_Volume = 1, pos_AvgEntryPrice = 100,
        pos_PositionMargin = 10, pos_CreditMargin = 0, pos_Leverage = 10, pos_Status = PositionStatusNormal, pos_Version = 0, pos_UpdateTime = 0 \<rparr>] \<rparr>"

lemma demoLevered_wf:
  "wf_accounts (mny_accounts demoLevered)" "wf_positions (mny_positions demoLevered)"
  "p \<in> set (mny_positions demoLevered) \<Longrightarrow> fits 16 (pos_PositionMargin p) \<and> fits 16 (pos_CreditMargin p)"
  using demoApiState_wf by (auto simp: demoLevered_def wf_positions_def)

lemma demoLevered_set:
  "fst (setLeverage demoApi (\<lambda>_ s. s) 9 7 ''BTCUSDT'' ''long'' 5 demoLevered) = OK ()"
  by (simp add: demo_state demoLevered_def step_eval order_eval money_eval setLeverage_def changeLeverage_def moveMargin_def UpdateLeverage_def
      posKey_def UID_def marksOf_def UnrealizedPnl_def)

lemma setLeverage_moves_margin_witness:
  "\<exists>t fr. setLeverage demoApi (\<lambda>_ s. s) 9 7 ''BTCUSDT'' ''long'' 5 demoLevered = (OK (), t) \<and>
     map pos_PositionMargin (mny_positions t) = [20] \<and> frz_FromAvailable fr + frz_FromCredit fr = 10 \<and>
     mny_accounts t = map (locked fr) demoAccounts"
proof -
  define t where "t = snd (setLeverage demoApi (\<lambda>_ s. s) 9 7 ''BTCUSDT'' ''long'' 5 demoLevered)"
  have ok: "setLeverage demoApi (\<lambda>_ s. s) 9 7 ''BTCUSDT'' ''long'' 5 demoLevered = (OK (), t)"
    using demoLevered_set by (simp add: t_def prod_eq_iff)
  from setLeverage_moves_margin [OF demoApi_lib demoLevered_wf(1,2) demoLevered_wf(3) ok]
  obtain a side p mark fr where a: "FindByUID (mny_accounts demoLevered) 7 = Some a" "sideOf ''long'' = Some side" "mayLever demoApi 7 ''BTCUSDT'' side 5 p mark demoLevered"
    and fr: "frz_FromAvailable fr + frz_FromCredit fr = lib_Div (ae_lib demoApi) (pos_Volume p * mark) 5 - pos_PositionMargin p"
    and t: "t = demoLevered\<lparr> mny_accounts := sql_update (\<lambda>b. acc_ID b = acc_ID a) (locked fr) (mny_accounts demoLevered),
             mny_positions := sql_update (\<lambda>q. pos_ID q = pos_ID p)
               (\<lambda>q. q\<lparr> pos_PositionMargin := lib_Div (ae_lib demoApi) (pos_Volume p * mark) 5, pos_CreditMargin := pos_CreditMargin p + frz_FromCredit fr,
                       pos_Leverage := 5, pos_UpdateTime := 9 \<rparr>) (mny_positions demoLevered) \<rparr>"
    unfolding Let_def by auto
  have p: "p = hd (mny_positions demoLevered)" "mark = 100"
    using a(2,3) by (auto simp: mayLever_def sideOf_def Find_def sql_first_def posKey_def demoLevered_def demo_state Get_def split: if_splits)
  have "lib_Div (ae_lib demoApi) (pos_Volume p * mark) 5 = 20"
    using decimal_lib.div_exact [OF demoApi_lib, of 5 100] by (simp add: p demoLevered_def)
  with ok a(1) fr t p show ?thesis
    by (intro exI [of _ t] exI [of _ fr]) (auto simp: demoLevered_def demo_state sql_update_def FindByUID_def sql_first_def)
qed

section \<open>A fill in between\<close>

text \<open>Another process writes the positions between the two statements: the engine settles fills without taking the lock.\<close>

definition fillComes :: "Position list \<Rightarrow> nat \<Rightarrow> 'z ApiState_scheme \<Rightarrow> 'z ApiState_scheme" where
  "fillComes rows n s = (if n = 2 then s\<lparr> mny_positions := rows \<rparr> else s)"

text \<open>C27. When a fill changes the volume of the position between the statement that moves the margin and the one that
  writes the position, the change is refused with an internal error and the position keeps what the fill made of it, but
  the margin stays moved: the accounts are those of a change that succeeded. Nothing gives the difference back.\<close>

theorem setLeverage_fill_keeps_margin:
  assumes ok: "setLeverage A (\<lambda>_ s. s) now u sy sideName leverage s = (OK x, t)"
    and p: "sideOf sideName = Some side" "Find (mny_positions s) u sy side = Some p"
    and fill: "\<And>q. q \<in> set rows \<Longrightarrow> pos_ID q = pos_ID p \<Longrightarrow> pos_Volume q \<noteq> pos_Volume p"
  shows "setLeverage A (fillComes rows) now u sy sideName leverage s = (Fail (500, CodeInternal), t\<lparr> mny_positions := rows \<rparr>)"
proof -
  obtain a where a: "FindByUID (mny_accounts s) u = Some a" "acc_Status a \<noteq> AccountStatusFrozen" "leverage \<noteq> 0" "u \<noteq> 0" "sy \<noteq> []" "sideName \<noteq> []"
      "\<not> ae_lockBusy A (OrderLockKey (ee_show_nat (ae_engine A)) u sy side)"
    and ch: "changeLeverage A (\<lambda>_ s. s) now u sy side leverage s = (Inr x, t)"
    using setLeverage_done [OF ok] p(1) by (metis option.inject)
  from ch obtain q mark newCredit s1 where may: "mayLever A u sy side leverage q mark s"
    and move: "moveMargin A u q (lib_Div (ae_lib A) (pos_Volume q * mark) (of_nat leverage)) s = (Inr newCredit, s1)"
    and t: "t = s1\<lparr> mny_positions := mny_positions t \<rparr>"
    by (rule changeLeverage_done)
  from may p(2) have q: "q = p" by (simp add: mayLever_def)
  obtain tier where may': "0 < pos_Volume p" "Get (es_marks s sy) = Some mark" "TierFor (ee_tiers (ae_engine A)) sy (pos_Volume p * mark) = Some tier"
      "leverage \<le> tier_MaxLeverage tier" using may by (auto simp: mayLever_def q)
  have none: "UpdateLeverage L (pos_ID p) m c leverage (pos_Volume p) now rows = (False, rows)" for L m c
    using fill by (auto simp: UpdateLeverage_def sql_exec_eq intro!: sql_update_none)
  have end_state: "s1\<lparr> mny_positions := rows \<rparr> = t\<lparr> mny_positions := rows \<rparr>" by (subst t) simp
  have "changeLeverage A (fillComes rows) now u sy side leverage s = (Inl (HttpError (500, CodeInternal)), t\<lparr> mny_positions := rows \<rparr>)"
    using may' move p(2) none end_state
    by (simp add: changeLeverage_def Let_def andThen_def q interfere_def fillComes_def)
  moreover have "fillComes rows 0 s = s" by (simp add: fillComes_def)
  ultimately show ?thesis
    using a p(1) by (simp add: setLeverage_def answer_def andThen_def require_def loadAccount_def rejectIfFrozen_def underLock_def)
qed

lemma setLeverage_fill_keeps_margin_witness:
  "\<exists>t. setLeverage demoApi (\<lambda>_ s. s) 9 7 ''BTCUSDT'' ''long'' 5 demoLevered = (OK (), t) \<and>
     setLeverage demoApi (fillComes (map (\<lambda>p. p\<lparr> pos_Volume := 2 \<rparr>) (mny_positions demoLevered))) 9 7 ''BTCUSDT'' ''long'' 5 demoLevered =
       (Fail (500, CodeInternal), t\<lparr> mny_positions := map (\<lambda>p. p\<lparr> pos_Volume := 2 \<rparr>) (mny_positions demoLevered) \<rparr>)"
proof -
  define t where "t = snd (setLeverage demoApi (\<lambda>_ s. s) 9 7 ''BTCUSDT'' ''long'' 5 demoLevered)"
  have ok: "setLeverage demoApi (\<lambda>_ s. s) 9 7 ''BTCUSDT'' ''long'' 5 demoLevered = (OK (), t)"
    using demoLevered_set by (simp add: t_def prod_eq_iff)
  have "Find (mny_positions demoLevered) 7 ''BTCUSDT'' SideLong = Some (hd (mny_positions demoLevered))"
    by (simp add: Find_def sql_first_def posKey_def demoLevered_def)
  with ok setLeverage_fill_keeps_margin [OF ok, of SideLong "hd (mny_positions demoLevered)" "map (\<lambda>p. p\<lparr> pos_Volume := 2 \<rparr>) (mny_positions demoLevered)"]
  show ?thesis by (auto simp: sideOf_def demoLevered_def)
qed

end
