(* ===== verification/Ws.thy ===== *)
theory Ws
  imports EngineState
begin

text \<open>
  The WebSocket gateway, src/internal/ws: the hub that knows which connection listens to which channel and keeps
  one Redis subscription per channel somebody listens to, and the bounded queue of each connection. The names of the Redis
  channels are those of src/internal/pubsub. The hub's operations arrive through one queue and are run by one goroutine, so a
  run of the gateway is a sequence of steps. Connections are numbered.
\<close>

section \<open>Channel names\<close>

definition pubsubPrefix :: string where
  "pubsubPrefix = ''perpgo:ws:''"

definition DepthChannel :: "symbol \<Rightarrow> string" where
  "DepthChannel sy = pubsubPrefix @ ''depth:'' @ sy"

definition TradeChannel :: "symbol \<Rightarrow> string" where
  "TradeChannel sy = pubsubPrefix @ ''trade:'' @ sy"

definition MarkPriceChannel :: "symbol \<Rightarrow> string" where
  "MarkPriceChannel sy = pubsubPrefix @ ''markprice:'' @ sy"

definition KlineChannel :: "symbol \<Rightarrow> string \<Rightarrow> string" where
  "KlineChannel sy interval = pubsubPrefix @ ''kline:'' @ sy @ '':'' @ interval"

text \<open>The decimal printing of numbers is an argument.\<close>

definition UserChannel :: "(nat \<Rightarrow> string) \<Rightarrow> uid \<Rightarrow> string" where
  "UserChannel show u = pubsubPrefix @ ''user:'' @ show u"

section \<open>A connection\<close>

text \<open>\<open>cl_send\<close> is what waits to be written to the connection, \<open>cl_subscribed\<close> the channels it listens to.\<close>

record 'm Client =
  cl_send :: "'m list"
  cl_subscribed :: "string list"

definition NewClient :: "'m Client" where
  "NewClient = \<lparr> cl_send = [], cl_subscribed = [] \<rparr>"

definition sendBufferSize :: nat where "sendBufferSize = 256"

text \<open>A full queue drops the message.\<close>

definition trySend :: "'m \<Rightarrow> 'm Client \<Rightarrow> 'm Client" where
  "trySend m c = (if length (cl_send c) < sendBufferSize then c\<lparr> cl_send := cl_send c @ [m] \<rparr> else c)"

text \<open>The message a connection sends: an operation and channels. Anything else is ignored.\<close>

record controlMessage =
  cm_Op :: string
  cm_Channels :: "string list"

section \<open>The hub\<close>

datatype 'm hubOp =
    opSubscribe nat "string list"
  | opUnsubscribe nat "string list"
  | opRemoveClient nat
  | opBroadcast string 'm

text \<open>\<open>hub_cancels\<close> holds, for every channel with a relay, the Redis channel the relay is subscribed to.\<close>

record 'm Hub =
  hub_clients :: "nat \<Rightarrow> 'm Client"
  hub_channels :: "string \<rightharpoonup> nat list"
  hub_cancels :: "string \<rightharpoonup> string"

definition NewHub :: "'m Hub" where
  "NewHub = \<lparr> hub_clients = (\<lambda>_. NewClient), hub_channels = Map.empty, hub_cancels = Map.empty \<rparr>"

definition startRelay :: "string \<Rightarrow> 'm Hub \<Rightarrow> 'm Hub" where
  "startRelay ch h = h\<lparr> hub_cancels := (hub_cancels h)(ch \<mapsto> pubsubPrefix @ ch) \<rparr>"

definition subscribersOf :: "'m Hub \<Rightarrow> string \<Rightarrow> nat list" where
  "subscribersOf h ch = (case hub_channels h ch of None \<Rightarrow> [] | Some cs \<Rightarrow> cs)"

definition subscribe :: "nat \<Rightarrow> string \<Rightarrow> 'm Hub \<Rightarrow> 'm Hub" where
  "subscribe c ch h =
     (if ch \<in> set (cl_subscribed (hub_clients h c)) then h
      else
        let h1 = h\<lparr> hub_channels := (hub_channels h)(ch \<mapsto> List.insert c (subscribersOf h ch)),
                    hub_clients := (hub_clients h)(c := (hub_clients h c)\<lparr> cl_subscribed := ch # cl_subscribed (hub_clients h c) \<rparr>) \<rparr> in
        if hub_cancels h1 ch = None then startRelay ch h1 else h1)"

definition unsubscribe :: "nat \<Rightarrow> string \<Rightarrow> 'm Hub \<Rightarrow> 'm Hub" where
  "unsubscribe c ch h =
     (if ch \<notin> set (cl_subscribed (hub_clients h c)) then h
      else
        let left = removeAll c (subscribersOf h ch);
            h1 = h\<lparr> hub_clients := (hub_clients h)(c := (hub_clients h c)\<lparr> cl_subscribed := removeAll ch (cl_subscribed (hub_clients h c)) \<rparr>) \<rparr> in
        if left = [] then h1\<lparr> hub_channels := (hub_channels h1)(ch := None), hub_cancels := (hub_cancels h1)(ch := None) \<rparr>
        else h1\<lparr> hub_channels := (hub_channels h1)(ch \<mapsto> left) \<rparr>)"

definition broadcast :: "string \<Rightarrow> 'm \<Rightarrow> 'm Hub \<Rightarrow> 'm Hub" where
  "broadcast ch m h = fold (\<lambda>c h. h\<lparr> hub_clients := (hub_clients h)(c := trySend m (hub_clients h c)) \<rparr>) (subscribersOf h ch) h"

fun runOp :: "'m hubOp \<Rightarrow> 'm Hub \<Rightarrow> 'm Hub" where
  "runOp (opSubscribe c chs) h = fold (subscribe c) chs h"
| "runOp (opUnsubscribe c chs) h = fold (unsubscribe c) chs h"
| "runOp (opRemoveClient c) h = fold (unsubscribe c) (cl_subscribed (hub_clients h c)) h"
| "runOp (opBroadcast ch m) h = broadcast ch m h"

text \<open>What the reading side of connection \<open>c\<close> puts into the hub's queue for a message it received.\<close>

definition controlOp :: "nat \<Rightarrow> controlMessage option \<Rightarrow> 'm hubOp option" where
  "controlOp c msg =
     (case msg of
        None \<Rightarrow> None
      | Some m \<Rightarrow>
          if cm_Op m = ''subscribe'' then Some (opSubscribe c (cm_Channels m))
          else if cm_Op m = ''unsubscribe'' then Some (opUnsubscribe c (cm_Channels m))
          else None)"

section \<open>The gateway\<close>

text \<open>The hub, the operations waiting for it and the connections that have ended. A connection's reading side ends with
  \<open>opRemoveClient\<close>; its sends block while the queue of 1024 is full.\<close>

record 'm Gateway =
  gw_hub :: "'m Hub"
  gw_incoming :: "'m hubOp list"
  gw_gone :: "nat list"

definition incomingSize :: nat where "incomingSize = 1024"

text \<open>A relay packs what it hears on its Redis channel with the name of its channel (\<open>marshal\<close> can fail) and queues a
  broadcast. A relay that was just cancelled may still queue one message it had received, so no relay need be registered.\<close>

inductive gw_step :: "(string \<Rightarrow> 'p \<Rightarrow> 'm option) \<Rightarrow> 'm Gateway \<Rightarrow> 'm Gateway \<Rightarrow> bool" for marshal where
  receive: "c \<notin> set (gw_gone g) \<Longrightarrow> length (gw_incoming g) < incomingSize \<Longrightarrow> controlOp c msg = Some op \<Longrightarrow>
     gw_step marshal g (g\<lparr> gw_incoming := gw_incoming g @ [op] \<rparr>)"
| disconnect: "c \<notin> set (gw_gone g) \<Longrightarrow> length (gw_incoming g) < incomingSize \<Longrightarrow>
     gw_step marshal g (g\<lparr> gw_incoming := gw_incoming g @ [opRemoveClient c], gw_gone := c # gw_gone g \<rparr>)"
| relay: "length (gw_incoming g) < incomingSize \<Longrightarrow> marshal ch p = Some m \<Longrightarrow>
     gw_step marshal g (g\<lparr> gw_incoming := gw_incoming g @ [opBroadcast ch m] \<rparr>)"
| run_one: "gw_incoming g = op # rest \<Longrightarrow>
     gw_step marshal g (g\<lparr> gw_hub := runOp op (gw_hub g), gw_incoming := rest \<rparr>)"
| deliver: "cl_send (hub_clients (gw_hub g) c) = m # ms \<Longrightarrow>
     gw_step marshal g (g\<lparr> gw_hub := (gw_hub g)\<lparr> hub_clients := (hub_clients (gw_hub g))(c := (hub_clients (gw_hub g) c)\<lparr> cl_send := ms \<rparr>) \<rparr> \<rparr>)"

definition gw_initial :: "'m Gateway" where
  "gw_initial = \<lparr> gw_hub = NewHub, gw_incoming = [], gw_gone = [] \<rparr>"

text \<open>The Redis channel the engine publishes an event on.\<close>

fun intervalText :: "KlineInterval \<Rightarrow> string" where
  "intervalText Kline1m = ''1m''"
| "intervalText Kline5m = ''5m''"
| "intervalText Kline15m = ''15m''"
| "intervalText Kline1h = ''1h''"
| "intervalText Kline4h = ''4h''"
| "intervalText Kline1d = ''1d''"

fun pushChannel :: "(nat \<Rightarrow> string) \<Rightarrow> Push \<Rightarrow> string" where
  "pushChannel show (PushDepth sy d) = DepthChannel sy"
| "pushChannel show (PushTrade sy t) = TradeChannel sy"
| "pushChannel show (PushMarkPrice sy p) = MarkPriceChannel sy"
| "pushChannel show (PushKline sy k) = KlineChannel sy (intervalText (kl_Interval k))"
| "pushChannel show (PushUser u snap) = UserChannel show u"

section \<open>Who listens to what\<close>

definition listens :: "'m Hub \<Rightarrow> nat \<Rightarrow> string \<Rightarrow> bool" where
  "listens h c ch \<longleftrightarrow> ch \<in> set (cl_subscribed (hub_clients h c))"

definition hub_ok :: "'m Hub \<Rightarrow> bool" where
  "hub_ok h \<longleftrightarrow>
     (\<forall>ch c. c \<in> set (subscribersOf h ch) \<longleftrightarrow> listens h c ch) \<and>
     (\<forall>ch. distinct (subscribersOf h ch) \<and> hub_channels h ch \<noteq> Some [] \<and>
        hub_cancels h ch = (if hub_channels h ch = None then None else Some (pubsubPrefix @ ch))) \<and>
     (\<forall>c. length (cl_send (hub_clients h c)) \<le> sendBufferSize)"

lemma hub_okD:
  assumes "hub_ok h"
  shows "c \<in> set (subscribersOf h ch) \<longleftrightarrow> listens h c ch" "distinct (subscribersOf h ch)" "hub_channels h ch \<noteq> Some []"
    "hub_cancels h ch = (if hub_channels h ch = None then None else Some (pubsubPrefix @ ch))"
    "length (cl_send (hub_clients h c)) \<le> sendBufferSize"
  using assms by (auto simp: hub_ok_def)

lemma hub_ok_New: "hub_ok NewHub"
  by (simp add: hub_ok_def NewHub_def NewClient_def subscribersOf_def listens_def)

lemma subscribe_listens: "listens (subscribe c ch h) d k \<longleftrightarrow> listens h d k \<or> d = c \<and> k = ch"
  by (auto simp: subscribe_def listens_def startRelay_def Let_def)

lemma unsubscribe_listens: "listens (unsubscribe c ch h) d k \<longleftrightarrow> listens h d k \<and> \<not> (d = c \<and> k = ch)"
  by (auto simp: unsubscribe_def listens_def Let_def)

lemma subscribe_subscribers:
  "\<not> listens h c ch \<Longrightarrow> subscribersOf (subscribe c ch h) k = (if k = ch then List.insert c (subscribersOf h ch) else subscribersOf h k)"
  by (simp add: subscribe_def listens_def startRelay_def subscribersOf_def Let_def)

lemma unsubscribe_subscribers:
  "listens h c ch \<Longrightarrow> subscribersOf (unsubscribe c ch h) k = (if k = ch then removeAll c (subscribersOf h ch) else subscribersOf h k)"
  by (auto simp: unsubscribe_def listens_def subscribersOf_def Let_def)

lemma subscribe_relay:
  "\<not> listens h c ch \<Longrightarrow> hub_channels (subscribe c ch h) k = (if k = ch then Some (List.insert c (subscribersOf h ch)) else hub_channels h k)"
  "\<not> listens h c ch \<Longrightarrow> hub_cancels (subscribe c ch h) k =
     (if k = ch \<and> hub_cancels h ch = None then Some (pubsubPrefix @ ch) else hub_cancels h k)"
  by (simp_all add: subscribe_def listens_def startRelay_def Let_def)

lemma unsubscribe_relay:
  "listens h c ch \<Longrightarrow> hub_channels (unsubscribe c ch h) k =
     (if k = ch then (if removeAll c (subscribersOf h ch) = [] then None else Some (removeAll c (subscribersOf h ch))) else hub_channels h k)"
  "listens h c ch \<Longrightarrow> hub_cancels (unsubscribe c ch h) k =
     (if k = ch \<and> removeAll c (subscribersOf h ch) = [] then None else hub_cancels h k)"
  by (simp_all add: unsubscribe_def listens_def Let_def)

lemma subscription_sends:
  "cl_send (hub_clients (subscribe c ch h) d) = cl_send (hub_clients h d)"
  "cl_send (hub_clients (unsubscribe c ch h) d) = cl_send (hub_clients h d)"
  by (simp_all add: subscribe_def unsubscribe_def startRelay_def Let_def)

lemma subscribe_ok:
  assumes "hub_ok h" shows "hub_ok (subscribe c ch h)"
proof (cases "listens h c ch")
  case True
  thus ?thesis using assms by (simp add: subscribe_def listens_def)
next
  case False
  note h = hub_okD [OF assms]
  have "List.insert c (subscribersOf h ch) \<noteq> []" using set_insert [of c "subscribersOf h ch"] by force
  thus ?thesis
    using h(1,2,5) h(3,4) [of ch] h(3,4)
    by (auto simp: hub_ok_def subscribe_subscribers [OF False] subscribe_relay [OF False] subscribe_listens subscription_sends split: if_splits)
qed

lemma unsubscribe_ok:
  assumes "hub_ok h" shows "hub_ok (unsubscribe c ch h)"
proof (cases "listens h c ch")
  case False
  thus ?thesis using assms by (simp add: unsubscribe_def listens_def)
next
  case True
  note h = hub_okD [OF assms]
  have "hub_channels h ch \<noteq> None" using True h(1) [of c ch] by (cases "hub_channels h ch") (auto simp: subscribersOf_def)
  moreover have "d = c" if "removeAll c (subscribersOf h ch) = []" "listens h d ch" for d
    using that h(1) [of d ch] set_removeAll [of c "subscribersOf h ch"] by auto
  ultimately show ?thesis
    using h(1,2,5) h(3,4) [of ch] h(3,4)
    by (auto simp: hub_ok_def unsubscribe_subscribers [OF True] unsubscribe_relay [OF True] unsubscribe_listens subscription_sends distinct_removeAll split: if_splits)
qed

section \<open>Sending to those who listen\<close>

lemma fold_trySend:
  "distinct cs \<Longrightarrow>
   fold (\<lambda>c h. h\<lparr> hub_clients := (hub_clients h)(c := trySend m (hub_clients h c)) \<rparr>) cs h =
   h\<lparr> hub_clients := (\<lambda>c. if c \<in> set cs then trySend m (hub_clients h c) else hub_clients h c) \<rparr>"
proof (induction cs arbitrary: h)
  case (Cons c cs)
  thus ?case by (auto simp: fun_eq_iff)
qed simp

lemma broadcast_eq:
  assumes "hub_ok h"
  shows "broadcast ch m h = h\<lparr> hub_clients := (\<lambda>c. if listens h c ch then trySend m (hub_clients h c) else hub_clients h c) \<rparr>"
  using hub_okD(1) [OF assms, of _ ch] hub_okD(2) [OF assms, of ch] by (simp add: broadcast_def fold_trySend)

lemma trySend_fields [simp]: "cl_subscribed (trySend m c) = cl_subscribed c"
  "length (cl_send c) \<le> sendBufferSize \<Longrightarrow> length (cl_send (trySend m c)) \<le> sendBufferSize"
  by (simp_all add: trySend_def)

text \<open>Changing only what waits to be written keeps who listens to what.\<close>

lemma hub_ok_clients:
  assumes "hub_ok h" "\<And>c. cl_subscribed (f c) = cl_subscribed (hub_clients h c)" "\<And>c. length (cl_send (f c)) \<le> sendBufferSize"
  shows "hub_ok (h\<lparr> hub_clients := f \<rparr>)"
  using assms by (simp add: hub_ok_def listens_def subscribersOf_def)

lemma broadcast_ok: "hub_ok h \<Longrightarrow> hub_ok (broadcast ch m h)"
  using hub_okD(5) [of h] by (auto simp: broadcast_eq intro!: hub_ok_clients)

lemma fold_keeps: "(\<And>x s. P s \<Longrightarrow> P (f x s)) \<Longrightarrow> P s \<Longrightarrow> P (fold f xs s)"
  by (induction xs arbitrary: s) auto

lemma runOp_ok: "hub_ok h \<Longrightarrow> hub_ok (runOp op h)"
  by (cases op) (auto intro!: fold_keeps [of hub_ok] subscribe_ok unsubscribe_ok broadcast_ok)

section \<open>The gateway as it runs\<close>

lemma subscription_others:
  "d \<noteq> c \<Longrightarrow> cl_subscribed (hub_clients (subscribe c ch h) d) = cl_subscribed (hub_clients h d)"
  "d \<noteq> c \<Longrightarrow> cl_subscribed (hub_clients (unsubscribe c ch h) d) = cl_subscribed (hub_clients h d)"
  by (simp_all add: subscribe_def unsubscribe_def startRelay_def Let_def)

definition opClient :: "'m hubOp \<Rightarrow> nat option" where
  "opClient op = (case op of opSubscribe c _ \<Rightarrow> Some c | opUnsubscribe c _ \<Rightarrow> Some c | opRemoveClient c \<Rightarrow> Some c | opBroadcast _ _ \<Rightarrow> None)"

lemma broadcast_listens: "cl_subscribed (hub_clients (broadcast ch m h) c) = cl_subscribed (hub_clients h c)"
proof -
  have "cl_subscribed (hub_clients (fold (\<lambda>c h. h\<lparr> hub_clients := (hub_clients h)(c := trySend m (hub_clients h c)) \<rparr>) cs h) c) =
      cl_subscribed (hub_clients h c)" for cs
    by (induction cs arbitrary: h) auto
  thus ?thesis by (simp add: broadcast_def)
qed

lemma runOp_others: "opClient op \<noteq> Some c \<Longrightarrow> cl_subscribed (hub_clients (runOp op h) c) = cl_subscribed (hub_clients h c)"
  by (cases op)
    (auto simp: opClient_def broadcast_listens subscription_others
      intro!: fold_keeps [where P = "\<lambda>z. cl_subscribed (hub_clients z c) = cl_subscribed (hub_clients h c)"])

lemma unsubscribe_all: "listens (fold (unsubscribe c) chs h) d k \<longleftrightarrow> listens h d k \<and> \<not> (d = c \<and> k \<in> set chs)"
  by (induction chs arbitrary: h) (auto simp: unsubscribe_listens)

lemma subscribe_all: "listens (fold (subscribe c) chs h) d k \<longleftrightarrow> listens h d k \<or> d = c \<and> k \<in> set chs"
  by (induction chs arbitrary: h) (auto simp: subscribe_listens)

lemma remove_clears: "cl_subscribed (hub_clients (runOp (opRemoveClient c) h) c) = []"
proof -
  have "\<not> listens (runOp (opRemoveClient c) h) c k" for k by (simp add: unsubscribe_all) (simp add: listens_def)
  thus ?thesis by (metis listens_def list.set_intros(1) neq_Nil_conv)
qed

text \<open>Who listens does not depend on what waits to be written.\<close>

lemma runOp_listens:
  "listens (runOp op h) d k \<longleftrightarrow>
     (case op of opSubscribe c chs \<Rightarrow> listens h d k \<or> d = c \<and> k \<in> set chs
      | opUnsubscribe c chs \<Rightarrow> listens h d k \<and> \<not> (d = c \<and> k \<in> set chs)
      | opRemoveClient c \<Rightarrow> listens h d k \<and> d \<noteq> c
      | opBroadcast ch m \<Rightarrow> listens h d k)"
  by (cases op) (auto simp: subscribe_all unsubscribe_all listens_def [of "broadcast _ _ _"] broadcast_listens, auto simp: listens_def)

lemma runOps_listens_cong:
  "(\<And>d k. listens h d k \<longleftrightarrow> listens h' d k) \<Longrightarrow> listens (fold runOp ops h) d k \<longleftrightarrow> listens (fold runOp ops h') d k"
proof (induction ops arbitrary: h h')
  case (Cons op ops)
  have "listens (runOp op h) d k \<longleftrightarrow> listens (runOp op h') d k" for d k
    unfolding runOp_listens by (cases op) (simp_all add: Cons.prems)
  from Cons.IH [OF this] show ?case by simp
qed simp

definition gw_ok :: "'m Gateway \<Rightarrow> bool" where
  "gw_ok g \<longleftrightarrow> hub_ok (gw_hub g) \<and> length (gw_incoming g) \<le> incomingSize \<and>
     (\<forall>c\<in>set (gw_gone g). \<forall>k. \<not> listens (fold runOp (gw_incoming g) (gw_hub g)) c k)"

lemma gw_step_ok: "gw_step marshal g g' \<Longrightarrow> gw_ok g \<Longrightarrow> gw_ok g'"
proof (induction rule: gw_step.induct)
  case (receive c g msg op)
  hence "op = opSubscribe c (cm_Channels (the msg)) \<or> op = opUnsubscribe c (cm_Channels (the msg))"
    by (auto simp: controlOp_def split: option.splits if_splits)
  with receive show ?case by (auto simp: gw_ok_def runOp_listens simp del: runOp.simps)
next
  case (disconnect c g)
  thus ?case by (auto simp: gw_ok_def runOp_listens simp del: runOp.simps)
next
  case (relay g ch p m)
  thus ?case by (auto simp: gw_ok_def runOp_listens simp del: runOp.simps)
next
  case (run_one g op rest)
  thus ?case by (auto simp: gw_ok_def runOp_ok)
next
  case (deliver g c m ms)
  let ?f = "(hub_clients (gw_hub g))(c := (hub_clients (gw_hub g) c)\<lparr> cl_send := ms \<rparr>)"
  have h: "hub_ok (gw_hub g)" using deliver by (simp add: gw_ok_def)
  have "hub_ok ((gw_hub g)\<lparr> hub_clients := ?f \<rparr>)"
    by (rule hub_ok_clients [OF h]) (use hub_okD(5) [OF h] hub_okD(5) [OF h, of c] deliver in auto)
  moreover have "listens (fold runOp ops ((gw_hub g)\<lparr> hub_clients := ?f \<rparr>)) d k \<longleftrightarrow> listens (fold runOp ops (gw_hub g)) d k" for ops d k
    by (rule runOps_listens_cong) (simp add: listens_def)
  ultimately show ?case using deliver by (simp add: gw_ok_def)
qed

inductive gw_reachable :: "(string \<Rightarrow> 'p \<Rightarrow> 'm option) \<Rightarrow> 'm Gateway \<Rightarrow> bool" for marshal where
  initial: "gw_reachable marshal gw_initial"
| step: "gw_reachable marshal g \<Longrightarrow> gw_step marshal g g' \<Longrightarrow> gw_reachable marshal g'"

lemma gw_reachable_ok: "gw_reachable marshal g \<Longrightarrow> gw_ok g"
  by (induction rule: gw_reachable.induct) (use gw_step_ok in \<open>auto simp: gw_ok_def gw_initial_def hub_ok_New\<close>)

text \<open>A gateway with one connection that listens to one channel, before and after it ends.\<close>

definition demoListening :: "string Gateway" where
  "demoListening = gw_initial\<lparr> gw_hub := runOp (opSubscribe 1 [''depth:BTCUSDT'']) NewHub \<rparr>"

definition demoLeft :: "string Gateway" where
  "demoLeft = demoListening\<lparr> gw_hub := runOp (opRemoveClient 1) (gw_hub demoListening), gw_gone := [1] \<rparr>"

lemma demoListening_reachable: "gw_reachable marshal demoListening"
proof -
  let ?q = "gw_initial\<lparr> gw_incoming := [opSubscribe 1 [''depth:BTCUSDT'']] \<rparr> :: string Gateway"
  have "gw_step marshal gw_initial ?q"
    using gw_step.receive [of 1 gw_initial "Some \<lparr> cm_Op = ''subscribe'', cm_Channels = [''depth:BTCUSDT''] \<rparr>" "opSubscribe 1 [''depth:BTCUSDT'']" marshal]
    by (simp add: gw_initial_def controlOp_def incomingSize_def)
  moreover have "gw_step marshal ?q demoListening"
    using gw_step.run_one [of ?q "opSubscribe 1 [''depth:BTCUSDT'']" "[]" marshal] by (simp add: demoListening_def gw_initial_def)
  ultimately show ?thesis by (metis gw_reachable.intros)
qed

lemma demoLeft_reachable: "gw_reachable marshal demoLeft"
proof -
  let ?q = "demoListening\<lparr> gw_incoming := [opRemoveClient 1], gw_gone := [1] \<rparr>"
  have "gw_step marshal demoListening ?q"
    using gw_step.disconnect [of 1 demoListening marshal] by (simp add: demoListening_def gw_initial_def incomingSize_def)
  moreover have "gw_step marshal ?q demoLeft"
    using gw_step.run_one [of ?q "opRemoveClient 1" "[]" marshal] by (simp add: demoLeft_def demoListening_def gw_initial_def)
  ultimately show ?thesis using demoListening_reachable by (metis gw_reachable.intros)
qed

text \<open>C32. However subscriptions, unsubscriptions, disconnections and messages interleave, the hub keeps one Redis relay exactly for the
  channels some connection listens to, on the channel's own Redis name, and lists exactly the connections that listen; a
  connection that has ended listens to nothing once the hub has caught up, so no relay outlives its listeners; and what waits for one connection never
  exceeds its buffer.\<close>

theorem gateway_subscriptions:
  assumes "gw_reachable marshal g"
  shows "(hub_cancels (gw_hub g) ch = Some r \<longleftrightarrow> r = pubsubPrefix @ ch \<and> (\<exists>c. listens (gw_hub g) c ch)) \<and>
     (c \<in> set (subscribersOf (gw_hub g) ch) \<longleftrightarrow> listens (gw_hub g) c ch) \<and>
     (c \<in> set (gw_gone g) \<and> gw_incoming g = [] \<longrightarrow> \<not> listens (gw_hub g) c ch) \<and>
     length (cl_send (hub_clients (gw_hub g) c)) \<le> sendBufferSize \<and> length (gw_incoming g) \<le> incomingSize"
proof -
  have g: "gw_ok g" by (rule gw_reachable_ok [OF assms])
  hence h: "hub_ok (gw_hub g)" by (simp add: gw_ok_def)
  have "hub_channels (gw_hub g) ch = None \<longleftrightarrow> (\<forall>c. \<not> listens (gw_hub g) c ch)"
    using hub_okD(1) [OF h, of _ ch] hub_okD(3) [OF h, of ch] by (cases "subscribersOf (gw_hub g) ch") (auto simp: subscribersOf_def split: option.splits)
  with g show ?thesis using hub_okD(1,4,5) [OF h] by (auto simp: gw_ok_def)
qed

lemma gateway_subscriptions_witness:
  "hub_cancels (gw_hub demoListening) ''depth:BTCUSDT'' = Some (DepthChannel ''BTCUSDT'') \<and> hub_cancels (gw_hub demoLeft) ''depth:BTCUSDT'' \<noteq> Some (DepthChannel ''BTCUSDT'')"
  using gateway_subscriptions [where ch = "''depth:BTCUSDT''" and r = "DepthChannel ''BTCUSDT''" and c = 1, OF demoListening_reachable]
    gateway_subscriptions [where ch = "''depth:BTCUSDT''" and r = "DepthChannel ''BTCUSDT''" and c = 1, OF demoLeft_reachable]
  by (auto simp: DepthChannel_def demoListening_def demoLeft_def gw_initial_def NewHub_def NewClient_def runOp_listens listens_def [of "NewHub"]
      subscribe_listens unsubscribe_listens) (auto simp: listens_def subscribe_def unsubscribe_def startRelay_def NewClient_def subscribersOf_def Let_def)

text \<open>What the engine publishes reaches, through the channel's relay, exactly the connections that listen to the channel and have room.\<close>

lemma push_reaches_listeners:
  assumes "gw_reachable marshal g" "gw_incoming g = []" "hub_cancels (gw_hub g) ch = Some (pushChannel show p)" "marshal ch payload = Some m"
  shows "pushChannel show p = pubsubPrefix @ ch \<and>
    (\<exists>g1 g2. gw_step marshal g g1 \<and> gw_step marshal g1 g2 \<and> gw_incoming g2 = [] \<and>
       (\<forall>c. cl_send (hub_clients (gw_hub g2) c) = cl_send (hub_clients (gw_hub g) c) @
          (if listens (gw_hub g) c ch \<and> length (cl_send (hub_clients (gw_hub g) c)) < sendBufferSize then [m] else [])))"
proof -
  have h: "hub_ok (gw_hub g)" using gw_reachable_ok [OF assms(1)] by (simp add: gw_ok_def)
  let ?g1 = "g\<lparr> gw_incoming := [opBroadcast ch m] \<rparr>" and ?g2 = "g\<lparr> gw_hub := broadcast ch m (gw_hub g), gw_incoming := [] \<rparr>"
  have "gw_step marshal g ?g1" using gw_step.relay [of g marshal ch payload m] assms(2,4) by (simp add: incomingSize_def)
  moreover have "gw_step marshal ?g1 ?g2" using gw_step.run_one [of ?g1 "opBroadcast ch m" "[]" marshal] by simp
  moreover have "cl_send (hub_clients (broadcast ch m (gw_hub g)) c) = cl_send (hub_clients (gw_hub g) c) @
      (if listens (gw_hub g) c ch \<and> length (cl_send (hub_clients (gw_hub g) c)) < sendBufferSize then [m] else [])" for c
    by (simp add: broadcast_eq [OF h] trySend_def)
  ultimately show ?thesis using hub_okD(4) [OF h, of ch] assms(3) by (intro conjI exI [of _ ?g1] exI [of _ ?g2]) (auto split: if_splits)
qed

end
