(* ===== verification/Lock.thy ===== *)
theory Lock
  imports Model
begin

text \<open>
  The keys with a time to live that the services keep in Redis (AcquireLock, ReleaseLock and ClaimNonce of
  src/internal/cache/cache.go), and the lock built on them, src/internal/service/lock.go. \<open>SETNX\<close> writes a
  key that is absent or expired; the release script compares the value and deletes in one step. Times are
  milliseconds of one clock.
\<close>

section \<open>Keys with a time to live\<close>

type_synonym redis = "string \<rightharpoonup> string \<times> int"

text \<open>The value of a key that has not expired.\<close>

definition liveValue :: "int \<Rightarrow> redis \<Rightarrow> string \<Rightarrow> string option" where
  "liveValue now r key = (case r key of None \<Rightarrow> None | Some (v, expires) \<Rightarrow> if now < expires then Some v else None)"

definition SetNX :: "int \<Rightarrow> string \<Rightarrow> string \<Rightarrow> int \<Rightarrow> redis \<Rightarrow> bool \<times> redis" where
  "SetNX now key v ttl r = (if liveValue now r key = None then (True, r(key \<mapsto> (v, now + ttl))) else (False, r))"

definition ClaimNonce :: "int \<Rightarrow> string \<Rightarrow> int \<Rightarrow> redis \<Rightarrow> bool \<times> redis" where
  "ClaimNonce now key ttl = SetNX now key ''1'' ttl"

definition AcquireLock :: "int \<Rightarrow> string \<Rightarrow> string \<Rightarrow> int \<Rightarrow> redis \<Rightarrow> bool \<times> redis" where
  "AcquireLock now key token ttl = SetNX now key token ttl"

definition ReleaseLock :: "int \<Rightarrow> string \<Rightarrow> string \<Rightarrow> redis \<Rightarrow> redis" where
  "ReleaseLock now key token r = (if liveValue now r key = Some token then r(key := None) else r)"

section \<open>Waiting for a lock\<close>

definition lockTTL :: int where "lockTTL = 3000"

definition lockRetryInterval :: int where "lockRetryInterval = 20"

definition lockMaxWait :: int where "lockMaxWait = 500"

datatype lockWait = LockTaken int | LockBusy | LockCanceled

text \<open>The loop of WithLock from its n-th attempt: \<open>clock n\<close> is the time of the attempt, \<open>others n\<close> what other
  clients do before it, \<open>canceled n\<close> whether the caller's context ends while waiting after it. None: the
  fuel ran out.\<close>

fun acquireLoop ::
  "nat \<Rightarrow> (nat \<Rightarrow> int) \<Rightarrow> (nat \<Rightarrow> redis \<Rightarrow> redis) \<Rightarrow> (nat \<Rightarrow> bool) \<Rightarrow> string \<Rightarrow> string \<Rightarrow> int \<Rightarrow> nat \<Rightarrow> redis \<Rightarrow> (lockWait \<times> redis) option" where
  "acquireLoop 0 clock others canceled key token deadline n r = None"
| "acquireLoop (Suc fuel) clock others canceled key token deadline n r =
     (case AcquireLock (clock n) key token lockTTL (others n r) of
        (True, r') \<Rightarrow> Some (LockTaken (clock n), r')
      | (False, r') \<Rightarrow>
          if deadline < clock n then Some (LockBusy, r')
          else if canceled n then Some (LockCanceled, r')
          else acquireLoop fuel clock others canceled key token deadline (Suc n) r')"

definition WithLock_wait ::
  "nat \<Rightarrow> (nat \<Rightarrow> int) \<Rightarrow> (nat \<Rightarrow> redis \<Rightarrow> redis) \<Rightarrow> (nat \<Rightarrow> bool) \<Rightarrow> string \<Rightarrow> string \<Rightarrow> redis \<Rightarrow> (lockWait \<times> redis) option" where
  "WithLock_wait fuel clock others canceled key token r =
     acquireLoop fuel clock others canceled key token (clock 0 + lockMaxWait) 0 r"

text \<open>The attempts are at least the retry interval apart, so the loop ends after at most
  \<open>lockMaxWait / lockRetryInterval + 2\<close> of them.\<close>

lemma acquireLoop_returns:
  assumes "\<And>n. clock n + lockRetryInterval \<le> clock (Suc n)"
    and "deadline < clock n + lockRetryInterval * int k"
  shows "acquireLoop (Suc k) clock others canceled key token deadline n r \<noteq> None"
  using assms(2)
proof (induction k arbitrary: n r)
  case 0
  thus ?case by (auto split: prod.split bool.split)
next
  case (Suc k)
  have "clock n + lockRetryInterval * int (Suc k) \<le> clock (Suc n) + lockRetryInterval * int k"
    using assms(1) [of n] by (simp add: distrib_left)
  with Suc.prems have "deadline < clock (Suc n) + lockRetryInterval * int k" by linarith
  from Suc.IH [OF this] show ?case by (subst acquireLoop.simps) (simp del: acquireLoop.simps split: prod.split bool.split)
qed

lemma twentyseven: "(27::nat) = Suc 26"
  by simp



section \<open>Clients of a lock\<close>

text \<open>The clients of one key: the keys, the clock, the tokens ever drawn, and the critical sections that are
  running, each with its token and the time it took the lock.\<close>

record LockWorld =
  lw_redis :: redis
  lw_now :: int
  lw_tokens :: "string set"
  lw_inside :: "(string \<times> int) set"

inductive lockStep :: "string \<Rightarrow> LockWorld \<Rightarrow> LockWorld \<Rightarrow> bool" for key where
  tick: "0 \<le> d \<Longrightarrow> lockStep key s (s\<lparr> lw_now := lw_now s + d \<rparr>)"
| enter: "token \<notin> lw_tokens s \<Longrightarrow> AcquireLock (lw_now s) key token lockTTL (lw_redis s) = (True, r) \<Longrightarrow>
    lockStep key s (s\<lparr> lw_redis := r, lw_tokens := insert token (lw_tokens s), lw_inside := insert (token, lw_now s) (lw_inside s) \<rparr>)"
| refused: "token \<notin> lw_tokens s \<Longrightarrow> AcquireLock (lw_now s) key token lockTTL (lw_redis s) = (False, r) \<Longrightarrow>
    lockStep key s (s\<lparr> lw_redis := r, lw_tokens := insert token (lw_tokens s) \<rparr>)"
| leave: "(token, t) \<in> lw_inside s \<Longrightarrow>
    lockStep key s (s\<lparr> lw_redis := ReleaseLock (lw_now s) key token (lw_redis s), lw_inside := lw_inside s - {(token, t)} \<rparr>)"

inductive lockReachable :: "string \<Rightarrow> LockWorld \<Rightarrow> bool" for key where
  start: "lw_inside s = {} \<Longrightarrow> lw_redis s key = None \<Longrightarrow> lockReachable key s"
| step: "lockReachable key s \<Longrightarrow> lockStep key s t \<Longrightarrow> lockReachable key t"

text \<open>A section within its time to live holds the key; tokens are not drawn twice.\<close>

definition lockInv :: "string \<Rightarrow> LockWorld \<Rightarrow> bool" where
  "lockInv key s \<longleftrightarrow>
     (\<forall>(token, t)\<in>lw_inside s. token \<in> lw_tokens s \<and> (lw_now s < t + lockTTL \<longrightarrow> lw_redis s key = Some (token, t + lockTTL))) \<and>
     (\<forall>a\<in>lw_inside s. \<forall>b\<in>lw_inside s. fst a = fst b \<longrightarrow> a = b)"

lemma lockInv_reachable: "lockReachable key s \<Longrightarrow> lockInv key s"
proof (induction rule: lockReachable.induct)
  case (start s)
  thus ?case by (simp add: lockInv_def)
next
  case (step s t)
  from step.hyps(2) step.IH show ?case
  proof (cases rule: lockStep.cases)
    case (enter token r)
    have free: "\<And>tk t. (tk, t) \<in> lw_inside s \<Longrightarrow> \<not> lw_now s < t + lockTTL"
      using step.IH enter(3) by (fastforce simp: lockInv_def AcquireLock_def SetNX_def liveValue_def split: if_splits)
    have "r = (lw_redis s)(key \<mapsto> (token, lw_now s + lockTTL))"
      using enter(3) by (auto simp: AcquireLock_def SetNX_def split: if_splits)
    with step.IH enter(1,2) free show ?thesis by (fastforce simp: lockInv_def)
  next
    case (leave token t')
    from leave step.IH show ?thesis
      by (fastforce simp: lockInv_def ReleaseLock_def liveValue_def split: if_splits)
  qed (auto simp: lockInv_def AcquireLock_def SetNX_def split: if_splits)
qed

text \<open>C31. The lock excludes. In every reachable state of its clients, at most one critical section is running
  that took the lock less than its time to live (3 s) ago; and a client that leaves late, after its key has
  expired and gone to another client, does not remove the other client's key.\<close>

theorem lock_excludes:
  assumes "lockReachable key s"
  shows "(\<forall>(token, t)\<in>lw_inside s. \<forall>(token', t')\<in>lw_inside s.
      lw_now s < t + lockTTL \<longrightarrow> lw_now s < t' + lockTTL \<longrightarrow> (token, t) = (token', t')) \<and>
    (\<forall>(token, t)\<in>lw_inside s. \<forall>(token', t')\<in>lw_inside s. token' \<noteq> token \<longrightarrow> lw_now s < t + lockTTL \<longrightarrow>
      liveValue (lw_now s) (ReleaseLock (lw_now s) key token' (lw_redis s)) key = Some token)"
proof -
  have "lockInv key s" by (rule lockInv_reachable [OF assms])
  hence held: "lw_redis s key = Some (token, t + lockTTL)" if "(token, t) \<in> lw_inside s" "lw_now s < t + lockTTL" for token t
    using that by (auto simp: lockInv_def)
  have "(token, t) = (token', t')"
    if "(token, t) \<in> lw_inside s" "(token', t') \<in> lw_inside s" "lw_now s < t + lockTTL" "lw_now s < t' + lockTTL" for token t token' t'
    using held [OF that(1,3)] held [OF that(2,4)] by simp
  moreover have "liveValue (lw_now s) (ReleaseLock (lw_now s) key token' (lw_redis s)) key = Some token"
    if "(token, t) \<in> lw_inside s" "token' \<noteq> token" "lw_now s < t + lockTTL" for token t token'
    using held [OF that(1,3)] that(2,3) by (simp add: ReleaseLock_def liveValue_def)
  ultimately show ?thesis by blast
qed

lemma lock_excludes_witness:
  "\<exists>s :: LockWorld. lw_inside s = {(''a'', 0), (''b'', 3001)} \<and> lw_now s = 3001 \<and>
     liveValue 3001 (ReleaseLock 3001 ''k'' ''a'' (lw_redis s)) ''k'' = Some ''b''"
proof -
  let ?s0 = "\<lparr> lw_redis = Map.empty, lw_now = 0, lw_tokens = {}, lw_inside = {} \<rparr>"
  let ?s1 = "?s0\<lparr> lw_redis := [''k'' \<mapsto> (''a'', 3000)], lw_tokens := {''a''}, lw_inside := {(''a'', 0)} \<rparr>"
  let ?s2 = "?s1\<lparr> lw_now := 3001 \<rparr>"
  let ?s3 = "?s2\<lparr> lw_redis := [''k'' \<mapsto> (''b'', 6001)], lw_tokens := {''b'', ''a''}, lw_inside := {(''b'', 3001), (''a'', 0)} \<rparr>"
  have "lockReachable ''k'' ?s0" by (rule lockReachable.start) simp_all
  moreover have "lockStep ''k'' ?s0 ?s1"
    using lockStep.enter [of "''a''" ?s0 "''k''" "[''k'' \<mapsto> (''a'', 3000)]"]
    by (simp add: AcquireLock_def SetNX_def liveValue_def lockTTL_def)
  moreover have "lockStep ''k'' ?s1 ?s2" using lockStep.tick [of 3001 "''k''" ?s1] by simp
  moreover have "lockStep ''k'' ?s2 ?s3"
    using lockStep.enter [of "''b''" ?s2 "''k''" "[''k'' \<mapsto> (''b'', 6001)]"]
    by (simp add: AcquireLock_def SetNX_def liveValue_def lockTTL_def)
  ultimately have "lockReachable ''k'' ?s3" by (blast intro: lockReachable.step)
  from lock_excludes [OF this] have "liveValue 3001 (ReleaseLock 3001 ''k'' ''a'' (lw_redis ?s3)) ''k'' = Some ''b''"
    by (simp add: lockTTL_def)
  note late = this
  show ?thesis by (rule exI [of _ ?s3]) (use late in auto)
qed

end
