(* ===== verification/Auth.thy ===== *)
theory Auth
  imports ApiParams Lock
begin

text \<open>
  Request authentication, src/internal/api/auth.go: an API key with an HMAC signature over the timestamp, a
  nonce and the request, nonces that are claimed once in Redis, and the scope every route declares
  (src/internal/api/router.go). SHA-256 and HMAC-SHA-256, printed in hexadecimal, are the parameters \<open>sha\<close>
  and \<open>mac\<close>. A body that cannot be read, and a nonce store that does not answer, are answers of the
  environment. The API server and Redis read one clock.
\<close>

section \<open>Requests, keys and routes\<close>

datatype authScope = ScopeTrade | ScopeOps

record apiKey =
  ak_Secret :: string
  ak_Scopes :: "authScope set"

record authRequest =
  aq_Method :: string
  aq_Path :: string
  aq_Route :: string
  aq_RawQuery :: string
  aq_Body :: string
  aq_ContentLength :: int
  aq_ApiKey :: string
  aq_Timestamp :: string
  aq_Nonce :: string
  aq_Signature :: string

record authEnv =
  au_Disabled :: bool
  au_Keys :: "string \<rightharpoonup> apiKey"
  au_sha :: "string \<Rightarrow> string"
  au_mac :: "string \<Rightarrow> string \<Rightarrow> string"
  au_BodyFails :: "authRequest \<Rightarrow> bool"
  au_StoreFails :: "int \<Rightarrow> bool"

definition authWindow :: int where "authWindow = 30000"

definition maxAuthBodyBytes :: nat where "maxAuthBodyBytes = 64 * 1024"

definition nonceRegexp :: "string \<Rightarrow> bool" where
  "nonceRegexp v \<longleftrightarrow> list_all keyChar v \<and> 16 \<le> length v \<and> length v \<le> 64"

text \<open>The scope a route declares; the route is the pattern the request matched.\<close>

definition routeScopes :: "string \<Rightarrow> string \<Rightarrow> authScope option" where
  "routeScopes m route =
     map_of
       [((''POST'', ''/account/create''), ScopeTrade), ((''POST'', ''/account/balance''), ScopeOps),
        ((''GET'', ''/account/info''), ScopeTrade), ((''POST'', ''/account/credit''), ScopeOps),
        ((''POST'', ''/account/insured''), ScopeOps), ((''POST'', ''/account/status''), ScopeOps),
        ((''POST'', ''/account/round/close''), ScopeTrade), ((''POST'', ''/order/add''), ScopeTrade),
        ((''POST'', ''/order/cancel/:orderId''), ScopeTrade), ((''GET'', ''/order/current''), ScopeTrade),
        ((''GET'', ''/order/history''), ScopeTrade), ((''POST'', ''/order/conditional/add''), ScopeTrade),
        ((''POST'', ''/order/conditional/cancel/:orderId''), ScopeTrade),
        ((''GET'', ''/order/conditional/current''), ScopeTrade), ((''GET'', ''/order/conditional/history''), ScopeTrade),
        ((''GET'', ''/position/current''), ScopeTrade), ((''POST'', ''/position/leverage''), ScopeTrade),
        ((''GET'', ''/trade/history''), ScopeTrade), ((''GET'', ''/funding/rate''), ScopeTrade),
        ((''GET'', ''/funding/history''), ScopeTrade), ((''GET'', ''/kline''), ScopeTrade),
        ((''POST'', ''/kline/sync''), ScopeOps), ((''POST'', ''/index-price''), ScopeOps), ((''GET'', ''/ws''), ScopeTrade),
        ((''GET'', ''/contract/list''), ScopeTrade), ((''GET'', ''/contract/detail''), ScopeTrade),
        ((''GET'', ''/market/ticker''), ScopeTrade), ((''GET'', ''/market/trades''), ScopeTrade),
        ((''GET'', ''/order/detail''), ScopeTrade), ((''POST'', ''/order/cancel-all''), ScopeTrade),
        ((''GET'', ''/order/conditional/detail''), ScopeTrade), ((''GET'', ''/account/transactions''), ScopeTrade),
        ((''GET'', ''/liquidation/history''), ScopeTrade)] (m, route)"

section \<open>Signatures\<close>

fun joinLines :: "string list \<Rightarrow> string" where
  "joinLines [] = []"
| "joinLines [p] = p"
| "joinLines (p # ps) = p @ CHR 0x0A # joinLines ps"

definition SignRequest :: "authEnv \<Rightarrow> string \<Rightarrow> authRequest \<Rightarrow> string" where
  "SignRequest U secret q =
     au_mac U secret (joinLines [aq_Timestamp q, aq_Nonce q, aq_Method q, aq_Path q, aq_RawQuery q, au_sha U (aq_Body q)])"

definition lowerChar :: "char \<Rightarrow> char" where
  "lowerChar c = (let n = of_char c :: nat in if 65 \<le> n \<and> n \<le> 90 then char_of (n + 32) else c)"

definition ToLower :: "string \<Rightarrow> string" where
  "ToLower = map lowerChar"

section \<open>The middleware\<close>

text \<open>strconv.ParseInt (base 10, 64 bits) is Atoi.\<close>

definition readBody :: "authEnv \<Rightarrow> authRequest \<Rightarrow> failure + string" where
  "readBody U q = (if au_BodyFails U q \<or> maxAuthBodyBytes < length (aq_Body q) then Inl (failWith 400) else Inr (aq_Body q))"

definition headersOK :: "authRequest \<Rightarrow> bool" where
  "headersOK q \<longleftrightarrow> aq_ApiKey q \<noteq> [] \<and> aq_Timestamp q \<noteq> [] \<and> aq_Nonce q \<noteq> [] \<and> aq_Signature q \<noteq> [] \<and> nonceRegexp (aq_Nonce q)"

definition dummySecret :: string where "dummySecret = ''unknown-key-dummy-secret''"

definition signatureOK :: "authEnv \<Rightarrow> authRequest \<Rightarrow> bool" where
  "signatureOK U q \<longleftrightarrow>
     (let secret = (case au_Keys U (aq_ApiKey q) of Some k \<Rightarrow> ak_Secret k | None \<Rightarrow> dummySecret) in
      SignRequest U secret q = ToLower (aq_Signature q) \<and> au_Keys U (aq_ApiKey q) \<noteq> None)"

definition nonceKey :: "authRequest \<Rightarrow> string" where
  "nonceKey q = ''perpgo:auth:nonce:'' @ aq_ApiKey q @ '':'' @ aq_Nonce q"

definition nonceTTL :: int where "nonceTTL = 2 * authWindow + 5000"

definition checkScope :: "authEnv \<Rightarrow> authRequest \<Rightarrow> failure + string" where
  "checkScope U q =
     (case routeScopes (aq_Method q) (aq_Route q) of
        None \<Rightarrow> Inl (403, CodeForbidden)
      | Some scope \<Rightarrow>
          (case au_Keys U (aq_ApiKey q) of
             Some k \<Rightarrow> if scope \<in> ak_Scopes k then Inr (aq_ApiKey q) else Inl (403, CodeForbidden)
           | None \<Rightarrow> Inl (403, CodeForbidden)))"

text \<open>What the middleware answers: a failure, or the key of the caller (empty when no key was needed).\<close>

definition Middleware :: "authEnv \<Rightarrow> int \<Rightarrow> authRequest \<Rightarrow> redis \<Rightarrow> (failure + string) \<times> redis" where
  "Middleware U now q r =
     (if au_Disabled U \<or> aq_Path q = ''/health'' then (Inr [], r)
      else if int maxAuthBodyBytes < aq_ContentLength q then (Inl (400, CodeInvalidParam), r)
      else if \<not> headersOK q then (Inl (401, CodeAuthMissing), r)
      else
        (case Atoi (aq_Timestamp q) of
           None \<Rightarrow> (Inl (401, CodeAuthMissing), r)
         | Some ts \<Rightarrow>
             let skew = now - ts in
             if authWindow < skew \<or> skew < - authWindow then (Inl (401, CodeAuthExpired), r)
             else
               (case readBody U q of
                  Inl f \<Rightarrow> (Inl f, r)
                | Inr body \<Rightarrow>
                    if \<not> signatureOK U q then (Inl (401, CodeAuthInvalidSignature), r)
                    else if au_StoreFails U now then (Inl (500, CodeInternal), r)
                    else
                      (case ClaimNonce now (nonceKey q) nonceTTL r of
                         (False, r') \<Rightarrow> (Inl (401, CodeAuthReplayed), r')
                       | (True, r') \<Rightarrow> (checkScope U q, r')))))"

text \<open>The requests that reach the server, with the times at which they are checked.\<close>

fun serve :: "authEnv \<Rightarrow> (int \<times> authRequest) list \<Rightarrow> redis \<Rightarrow> (failure + string) list \<times> redis" where
  "serve U [] r = ([], r)"
| "serve U ((now, q) # qs) r =
     (let (a, r1) = Middleware U now q r; (as, r2) = serve U qs r1 in (a # as, r2))"

section \<open>No replay\<close>

lemma SetNX_keeps_live:
  assumes "liveValue now r key = Some v"
  shows "snd (SetNX now key' v' ttl r) key = r key"
  using assms by (auto simp: SetNX_def)

lemma Middleware_keeps_live:
  assumes "liveValue now r key = Some v"
  shows "snd (Middleware U now q r) key = r key"
  using SetNX_keeps_live [OF assms, of "nonceKey q" "''1''" nonceTTL]
  by (auto simp: Middleware_def ClaimNonce_def Let_def split: option.split sum.split prod.split bool.split)

text \<open>A request that is not exempt and is let through has claimed its nonce, within the window of its timestamp.\<close>

lemma Middleware_claims:
  assumes "Middleware U now q r = (Inr k, r')" "\<not> au_Disabled U" "aq_Path q \<noteq> ''/health''"
  obtains ts where "Atoi (aq_Timestamp q) = Some ts" "\<bar>now - ts\<bar> \<le> authWindow" "signatureOK U q"
    "liveValue now r (nonceKey q) = None" "r' (nonceKey q) = Some (''1'', now + nonceTTL)" "checkScope U q = Inr k"
  using assms
  by (auto simp: Middleware_def ClaimNonce_def SetNX_def Let_def abs_le_iff split: option.splits sum.splits prod.splits bool.splits if_splits)

lemma serve_Cons_simps [simp]:
  "fst (serve U ((now, q) # qs) r) = fst (Middleware U now q r) # fst (serve U qs (snd (Middleware U now q r)))"
  "snd (serve U ((now, q) # qs) r) = snd (serve U qs (snd (Middleware U now q r)))"
  by (simp_all add: case_prod_beta)

declare serve.simps(2) [simp del]

lemma length_serve [simp]: "length (fst (serve U qs r)) = length qs"
  by (induction qs arbitrary: r) auto

lemma serve_nth: "j < length reqs \<Longrightarrow> \<exists>r'. fst (serve U reqs r) ! j = fst (Middleware U (fst (reqs ! j)) (snd (reqs ! j)) r')"
proof (induction reqs arbitrary: r j)
  case (Cons e1 reqs)
  obtain now q1 where "e1 = (now, q1)" by (cases e1)
  with Cons show ?case by (cases j) auto
qed simp

text \<open>While a nonce is live, no request that uses it passes.\<close>

lemma serve_live_nonce:
  assumes "r (nonceKey q) = Some (v, e)" "\<And>m. m \<le> j \<Longrightarrow> fst (reqs ! m) \<le> fst (reqs ! j)" "fst (reqs ! j) < e" "j < length reqs"
    and "nonceKey (snd (reqs ! j)) = nonceKey q" "\<not> au_Disabled U" "aq_Path (snd (reqs ! j)) \<noteq> ''/health''"
  shows "isl (fst (serve U reqs r) ! j)"
  using assms
proof (induction reqs arbitrary: r j)
  case (Cons e1 reqs)
  obtain now q1 where e1: "e1 = (now, q1)" by (cases e1)
  have "now < e" using Cons.prems(2) [of 0] Cons.prems(3) e1 by simp
  hence live: "liveValue now r (nonceKey q) = Some v" using Cons.prems(1) by (simp add: liveValue_def)
  show ?case
  proof (cases j)
    case 0
    have same: "nonceKey q1 = nonceKey q" "aq_Path q1 \<noteq> ''/health''" using Cons.prems(5,7) e1 0 by simp_all
    have "isl (fst (Middleware U now q1 r))"
    proof (cases "fst (Middleware U now q1 r)")
      case (Inr k)
      then obtain r' where "Middleware U now q1 r = (Inr k, r')" by (metis prod.collapse)
      with live same Cons.prems(6) show ?thesis by (elim Middleware_claims) simp_all
    qed simp
    with 0 e1 show ?thesis by simp
  next
    case (Suc i)
    have "snd (Middleware U now q1 r) (nonceKey q) = Some (v, e)"
      using Middleware_keeps_live [OF live] Cons.prems(1) by simp
    moreover have "fst (reqs ! m) \<le> fst (reqs ! i)" if "m \<le> i" for m using Cons.prems(2) [of "Suc m"] Suc that by simp
    ultimately show ?thesis using Cons.IH [of _ i] Cons.prems(3-) Suc e1 by simp
  qed
qed simp

text \<open>The key of the nonce store tells key and nonce apart: a nonce has no colon.\<close>

lemma keyChar_colon [simp]: "\<not> keyChar CHR '':''"
  by (simp add: keyChar_def)

lemma last_colon:
  assumes "xs @ CHR '':'' # ys = xs' @ CHR '':'' # ys'" "CHR '':'' \<notin> set ys" "CHR '':'' \<notin> set ys'"
  shows "xs = xs' \<and> ys = ys'"
  using assms by (induction xs arbitrary: xs') (auto simp: Cons_eq_append_conv append_eq_Cons_conv)

lemma nonceKey_inj:
  assumes "nonceKey q = nonceKey q'" "nonceRegexp (aq_Nonce q)" "nonceRegexp (aq_Nonce q')"
  shows "aq_ApiKey q = aq_ApiKey q' \<and> aq_Nonce q = aq_Nonce q'"
proof -
  have "CHR '':'' \<notin> set (aq_Nonce q)" "CHR '':'' \<notin> set (aq_Nonce q')"
    using assms(2,3) keyChar_colon by (auto simp: nonceRegexp_def list_all_iff)
  with assms(1) last_colon [of "aq_ApiKey q" "aq_Nonce q" "aq_ApiKey q'" "aq_Nonce q'"] show ?thesis
    by (simp add: nonceKey_def)
qed

text \<open>A server with one key and a request signed with it.\<close>

definition demoAuth :: authEnv where
  "demoAuth = \<lparr> au_Disabled = False, au_Keys = [''key'' \<mapsto> \<lparr> ak_Secret = ''s'', ak_Scopes = {ScopeTrade} \<rparr>], au_sha = (\<lambda>_. ''h''),
    au_mac = (\<lambda>_ _. ''ab''), au_BodyFails = (\<lambda>_. False), au_StoreFails = (\<lambda>_. False) \<rparr>"

definition demoRequest :: authRequest where
  "demoRequest = \<lparr> aq_Method = ''GET'', aq_Path = ''/kline'', aq_Route = ''/kline'', aq_RawQuery = [], aq_Body = [], aq_ContentLength = 0,
    aq_ApiKey = ''key'', aq_Timestamp = ''5000'', aq_Nonce = ''0123456789abcdef'', aq_Signature = ''ab'' \<rparr>"

lemma demo_passes: "fst (Middleware demoAuth 5000 demoRequest Map.empty) = Inr ''key''" "\<not> au_Disabled demoAuth"
  by (simp_all add: demoAuth_def demoRequest_def Middleware_def headersOK_def nonceRegexp_def keyChar_def Atoi_def isDigit_def
    digitsValue_def readBody_def signatureOK_def SignRequest_def ToLower_def lowerChar_def ClaimNonce_def SetNX_def liveValue_def
    checkScope_def routeScopes_def maxAuthBodyBytes_def authWindow_def Let_def)

text \<open>C28. A signed request is accepted once. Among the requests a server checks in the order of its clock, let two
  carry the same key, nonce and timestamp (so also a copy of one request). When the first was let through, the
  second is refused, whatever requests came between and before: the claimed nonce outlives the window in which
  its timestamp is accepted.\<close>

theorem accepted_once:
  assumes "sorted (map fst reqs)" "i < j" "j < length reqs"
    and "aq_ApiKey (snd (reqs ! i)) = aq_ApiKey (snd (reqs ! j))" "aq_Nonce (snd (reqs ! i)) = aq_Nonce (snd (reqs ! j))"
    and "aq_Timestamp (snd (reqs ! i)) = aq_Timestamp (snd (reqs ! j))"
    and "\<not> au_Disabled U" "aq_Path (snd (reqs ! i)) \<noteq> ''/health''" "aq_Path (snd (reqs ! j)) \<noteq> ''/health''"
    and "\<not> isl (fst (serve U reqs r) ! i)"
  shows "isl (fst (serve U reqs r) ! j)"
  using assms
proof (induction reqs arbitrary: r i j)
  case (Cons e1 reqs)
  obtain now q1 where e1: "e1 = (now, q1)" by (cases e1)
  obtain j' where j: "j = Suc j'" using Cons.prems(2) by (cases j) auto
  show ?case
  proof (cases i)
    case (Suc i')
    from Cons.IH [of i' j' "snd (Middleware U now q1 r)"] Cons.prems Suc j e1 show ?thesis by auto
  next
    case 0
    let ?t = "fst (reqs ! j')" and ?q = "snd (reqs ! j')"
    have "\<not> isl (fst (Middleware U now q1 r))" using Cons.prems(10) 0 e1 by simp
    then obtain k r' where m: "Middleware U now q1 r = (Inr k, r')"
      by (cases "Middleware U now q1 r"; cases "fst (Middleware U now q1 r)") auto
    have q1: "aq_Path q1 \<noteq> ''/health''" "aq_Timestamp q1 = aq_Timestamp ?q" "nonceKey ?q = nonceKey q1"
      using Cons.prems(4,5,6,8) 0 j e1 by (simp_all add: nonceKey_def)
    from Middleware_claims [OF m Cons.prems(7) q1(1)] obtain ts where
      ts: "Atoi (aq_Timestamp q1) = Some ts" "\<bar>now - ts\<bar> \<le> authWindow" and claimed: "r' (nonceKey q1) = Some (''1'', now + nonceTTL)" by metis
    have later: "fst (reqs ! m) \<le> ?t" if "m \<le> j'" for m
      using Cons.prems(1,3) j that by (simp add: sorted_iff_nth_mono)
    show ?thesis
    proof (cases "?t \<le> ts + authWindow")
      case True
      hence "?t < now + nonceTTL" using ts(2) by (simp add: nonceTTL_def authWindow_def)
      with claimed later q1(3) Cons.prems(3,7,9) j have "isl (fst (serve U reqs r') ! j')"
        by (intro serve_live_nonce [where q = q1 and v = "''1''" and e = "now + nonceTTL"]) simp_all
      with j m e1 show ?thesis by simp
    next
      case False
      obtain r2 where r2: "fst (serve U reqs r') ! j' = fst (Middleware U ?t ?q r2)" using serve_nth [of j' reqs] Cons.prems(3) j by auto
      have "isl (fst (Middleware U ?t ?q r2))"
      proof (cases "fst (Middleware U ?t ?q r2)")
        case (Inr k')
        then obtain r3 where m2: "Middleware U ?t ?q r2 = (Inr k', r3)" by (metis prod.collapse)
        have "aq_Path ?q \<noteq> ''/health''" using Cons.prems(9) j by simp
        from Middleware_claims [OF m2 Cons.prems(7) this] obtain ts' where "Atoi (aq_Timestamp ?q) = Some ts'" "\<bar>?t - ts'\<bar> \<le> authWindow" by metis
        with ts(1) q1(2) False show ?thesis by simp
      qed simp
      with r2 m e1 j show ?thesis by simp
    qed
  qed
qed simp

lemma accepted_once_witness:
  "fst (Middleware demoAuth 5000 demoRequest Map.empty) = Inr ''key'' \<and>
   isl (fst (serve demoAuth [(5000, demoRequest), (34999, demoRequest)] Map.empty) ! 1)"
proof -
  have "aq_Path demoRequest \<noteq> ''/health''" by (simp add: demoRequest_def)
  with demo_passes have "isl (fst (serve demoAuth [(5000, demoRequest), (34999, demoRequest)] Map.empty) ! 1)"
    by (intro accepted_once [of _ 0 1]) simp_all
  with demo_passes show ?thesis by simp
qed

text \<open>C29. Nothing unsigned passes. A request that is let through with authentication enabled (and is not the
  health probe) carries a known key and a signature made with that key's secret over its timestamp, nonce,
  method, path, query and body; its timestamp is within 30 s; its nonce was not in use; the route it matched
  declares a scope, and the key has that scope: so a key without the ops scope moves no money and feeds no
  price, and a route that declares none is refused. A refused request that does not pass the signature check
  leaves the nonce store as it is.\<close>

theorem accepted_only_signed:
  assumes "\<not> au_Disabled U" "aq_Path q \<noteq> ''/health''"
  shows "(\<forall>k. fst (Middleware U now q r) = Inr k \<longrightarrow>
      (\<exists>key ts scope. au_Keys U k = Some key \<and> k = aq_ApiKey q \<and> SignRequest U (ak_Secret key) q = ToLower (aq_Signature q) \<and>
         Atoi (aq_Timestamp q) = Some ts \<and> \<bar>now - ts\<bar> \<le> 30000 \<and> liveValue now r (nonceKey q) = None \<and>
         routeScopes (aq_Method q) (aq_Route q) = Some scope \<and> scope \<in> ak_Scopes key)) \<and>
    (\<not> signatureOK U q \<longrightarrow> snd (Middleware U now q r) = r)"
proof (intro conjI allI impI)
  fix k assume "fst (Middleware U now q r) = Inr k"
  then obtain r' where "Middleware U now q r = (Inr k, r')" by (metis prod.collapse)
  from Middleware_claims [OF this assms] obtain ts where "Atoi (aq_Timestamp q) = Some ts" "\<bar>now - ts\<bar> \<le> authWindow" "signatureOK U q"
    "liveValue now r (nonceKey q) = None" "checkScope U q = Inr k" by metis
  thus "\<exists>key ts scope. au_Keys U k = Some key \<and> k = aq_ApiKey q \<and> SignRequest U (ak_Secret key) q = ToLower (aq_Signature q) \<and>
         Atoi (aq_Timestamp q) = Some ts \<and> \<bar>now - ts\<bar> \<le> 30000 \<and> liveValue now r (nonceKey q) = None \<and>
         routeScopes (aq_Method q) (aq_Route q) = Some scope \<and> scope \<in> ak_Scopes key"
    by (auto simp: checkScope_def signatureOK_def authWindow_def split: option.splits if_splits)
next
  assume "\<not> signatureOK U q"
  thus "snd (Middleware U now q r) = r"
    by (auto simp: Middleware_def Let_def split: option.split sum.split)
qed

lemma accepted_only_signed_witness:
  "fst (Middleware demoAuth 5000 demoRequest Map.empty) = Inr ''key'' \<and>
   (\<exists>key. au_Keys demoAuth ''key'' = Some key \<and> SignRequest demoAuth (ak_Secret key) demoRequest = ToLower (aq_Signature demoRequest))"
proof -
  have "aq_Path demoRequest \<noteq> ''/health''" by (simp add: demoRequest_def)
  from accepted_only_signed [OF demo_passes(2) this, of 5000 Map.empty] demo_passes(1) show ?thesis by blast
qed

end
