(* ===== verification/Config.thy ===== *)
theory Config
  imports Auth IdGen MarkPrice
begin

text \<open>
  The configuration of the processes, src/internal/config/config.go, and the checks their mains do before they
  touch anything (src/cmd). The environment is a function from names to values, the empty text where a
  name is not set; the values are ASCII. A fatal exit is an error that names what was wrong. The reading of a floating point number
  (as the decimal it is turned into) is an argument.
\<close>

section \<open>Texts\<close>

definition isSpace :: "char \<Rightarrow> bool" where
  "isSpace c \<longleftrightarrow> c = CHR '' '' \<or> 9 \<le> (of_char c :: nat) \<and> (of_char c :: nat) \<le> 13"

definition TrimSpace :: "string \<Rightarrow> string" where
  "TrimSpace s = rev (dropWhile isSpace (rev (dropWhile isSpace s)))"

fun Split :: "char \<Rightarrow> string \<Rightarrow> string list" where
  "Split sep [] = [[]]"
| "Split sep (c # cs) =
     (if c = sep then [] # Split sep cs
      else (case Split sep cs of [] \<Rightarrow> [[c]] | p # ps \<Rightarrow> (c # p) # ps))"

fun Contains :: "string \<Rightarrow> string \<Rightarrow> bool" where
  "Contains s pat \<longleftrightarrow> take (length pat) s = pat \<or> (case s of [] \<Rightarrow> False | _ # t \<Rightarrow> Contains t pat)"

declare Contains.simps [simp del]

section \<open>API keys\<close>

record APIKey =
  key_ID :: string
  key_Secret :: string
  key_Scopes :: "string list"

definition validScopes :: "string list" where
  "validScopes = [''trade'', ''ops'']"

definition minSecretLen :: nat where "minSecretLen = 16"

datatype keyError = KeyFormat | KeyEmptyID | KeyRepeated string | KeySecretShort string | KeyPlaceholder string | KeyBadScope string string | KeyNoScope string

fun parseScopes :: "string \<Rightarrow> string list \<Rightarrow> keyError + string list" where
  "parseScopes i [] = Inr []"
| "parseScopes i (p # ps) =
     (let sc = TrimSpace p in
      if sc = [] then parseScopes i ps
      else if sc \<notin> set validScopes then Inl (KeyBadScope i sc)
      else bindE (parseScopes i ps) (\<lambda>rest. Inr (sc # rest)))"

text \<open>One entry, given the ids of the entries before it.\<close>

definition parseKey :: "string list \<Rightarrow> string \<Rightarrow> keyError + APIKey" where
  "parseKey seen item =
     (case Split (CHR '':'') item of
        [p0, p1, p2] \<Rightarrow>
          (let i = TrimSpace p0; secret = TrimSpace p1 in
           if i = [] then Inl KeyEmptyID
           else if i \<in> set seen then Inl (KeyRepeated i)
           else if length secret < minSecretLen then Inl (KeySecretShort i)
           else if Contains (ToLower secret) ''change_me'' then Inl (KeyPlaceholder i)
           else bindE (parseScopes i (Split (CHR ''|'') p2))
             (\<lambda>scopes. if scopes = [] then Inl (KeyNoScope i)
                       else Inr \<lparr> key_ID = i, key_Secret = secret, key_Scopes = scopes \<rparr>))
      | _ \<Rightarrow> Inl KeyFormat)"

fun parseItems :: "string list \<Rightarrow> string list \<Rightarrow> keyError + APIKey list" where
  "parseItems seen [] = Inr []"
| "parseItems seen (p # ps) =
     (let item = TrimSpace p in
      if item = [] then parseItems seen ps
      else bindE (parseKey seen item) (\<lambda>k. bindE (parseItems (key_ID k # seen) ps) (\<lambda>rest. Inr (k # rest))))"

definition ParseAPIKeys :: "string \<Rightarrow> keyError + APIKey list" where
  "ParseAPIKeys raw = (let raw = TrimSpace raw in if raw = [] then Inr [] else parseItems [] (Split (CHR '','') raw))"

text \<open>The keys as the middleware looks them up.\<close>

definition scopeOf :: "string \<Rightarrow> authScope option" where
  "scopeOf s = (if s = ''trade'' then Some ScopeTrade else if s = ''ops'' then Some ScopeOps else None)"

definition keyTable :: "APIKey list \<Rightarrow> string \<rightharpoonup> apiKey" where
  "keyTable keys = foldl (\<lambda>m k. m(key_ID k \<mapsto> \<lparr> ak_Secret = key_Secret k, ak_Scopes = {s. Some s \<in> scopeOf ` set (key_Scopes k)} \<rparr>)) Map.empty keys"

section \<open>The environment\<close>

type_synonym environ = "string \<Rightarrow> string"

datatype fatal = BadValue string | BadKeys keyError | NoKeys | NodeIDMissing | NodeIDTooBig

definition envOr :: "environ \<Rightarrow> string \<Rightarrow> string \<Rightarrow> string" where
  "envOr env key def = (if env key \<noteq> [] then env key else def)"

definition envInt :: "environ \<Rightarrow> string \<Rightarrow> int \<Rightarrow> fatal + int" where
  "envInt env key def =
     (if env key = [] then Inr def
      else (case Atoi (env key) of
              None \<Rightarrow> Inl (BadValue key)
            | Some n \<Rightarrow> if n \<le> 0 then Inl (BadValue key) else Inr n))"

definition envFloat :: "(string \<Rightarrow> dec option) \<Rightarrow> environ \<Rightarrow> string \<Rightarrow> dec \<Rightarrow> fatal + dec" where
  "envFloat parseFloat env key def =
     (if env key = [] then Inr def
      else (case parseFloat (env key) of
              None \<Rightarrow> Inl (BadValue key)
            | Some f \<Rightarrow> if f \<le> 0 then Inl (BadValue key) else Inr f))"

text \<open>A duration is a 64-bit count of nanoseconds; multiplying wraps around.\<close>

definition Duration :: "int \<Rightarrow> int \<Rightarrow> int" where
  "Duration n unit = sint (word_of_int (n * unit) :: 64 word)"

definition second :: int where "second = 1000000000"

definition millisecond :: int where "millisecond = 1000000"

definition klineSource :: "environ \<Rightarrow> fatal + string" where
  "klineSource env =
     (let v = envOr env ''PERP_KLINE_SOURCE'' ''trades'' in
      if v \<noteq> ''trades'' \<and> v \<noteq> ''external'' then Inl (BadValue ''PERP_KLINE_SOURCE'') else Inr v)"

text \<open>No symbols at all is None: the process is responsible for every symbol.\<close>

definition parseEngineSymbols :: "string \<Rightarrow> symbol list option" where
  "parseEngineSymbols raw =
     (if raw = [] then None
      else let symbols = filter (\<lambda>p. p \<noteq> []) (map TrimSpace (Split (CHR '','') raw)) in
           if symbols = [] then None else Some symbols)"

record Config =
  conf_AuthDisabled :: bool
  conf_APIKeys :: "APIKey list"
  conf_MySQLDSN :: string
  conf_RedisAddr :: string
  conf_RedisPass :: string
  conf_KafkaBrokers :: "string list"
  conf_APIAddr :: string
  conf_EngineHTTPAddr :: string
  conf_NodeID :: nat
  conf_NodeIDExplicit :: bool
  conf_LiquidationOrderTimeoutMs :: int
  conf_RiskScanIntervalMs :: int
  conf_MarkPriceRefreshMs :: int
  conf_FundingSampleIntervalMs :: int
  conf_ConditionalScanIntervalMs :: int
  conf_SymbolCacheRefreshMs :: int
  conf_DedupRetentionHours :: int
  conf_DedupCleanupIntervalMs :: int
  conf_MarkPriceMaxIndexAge :: int
  conf_MarkPriceMaxDeviation :: dec
  conf_MarkPriceBasisWindow :: int
  conf_MarkPriceRequireIndex :: bool
  conf_IndexMaxJump :: dec
  conf_IndexJumpConfirm :: int
  conf_EngineSymbols :: "symbol list option"
  conf_KlineSource :: string
  conf_MirrorSymbols :: "symbol list option"
  conf_MirrorLevels :: int
  conf_MirrorInterval :: int
  conf_MirrorLeverage :: int
  conf_MirrorStaleAfter :: int
  conf_MirrorBinanceURL :: string

definition loadNodeID :: "nat \<Rightarrow> environ \<Rightarrow> fatal + (nat \<times> bool)" where
  "loadNodeID def env =
     (let v = env ''PERP_NODE_ID'' in
      if v = [] then Inr (def, False)
      else (case ParseUint v of None \<Rightarrow> Inl (BadValue ''PERP_NODE_ID'') | Some n \<Rightarrow> Inr (n, True)))"

definition loadKeys :: "environ \<Rightarrow> fatal + APIKey list" where
  "loadKeys env = (case ParseAPIKeys (env ''PERP_API_KEYS'') of Inl e \<Rightarrow> Inl (BadKeys e) | Inr keys \<Rightarrow> Inr keys)"

text \<open>The fields are evaluated in the order they are written, so the first bad variable is the one reported.\<close>

definition Load :: "(string \<Rightarrow> dec option) \<Rightarrow> nat \<Rightarrow> environ \<Rightarrow> fatal + Config" where
  "Load parseFloat defaultNodeID env =
     bindE (loadNodeID defaultNodeID env) (\<lambda>(nodeID, explicit).
     bindE (loadKeys env) (\<lambda>keys.
     bindE (envInt env ''PERP_MARK_MAX_INDEX_AGE_SEC'' 30) (\<lambda>maxAge.
     bindE (envFloat parseFloat env ''PERP_MARK_MAX_DEVIATION'' (1 / 100)) (\<lambda>maxDev.
     bindE (envInt env ''PERP_MARK_BASIS_WINDOW_SEC'' 60) (\<lambda>window.
     bindE (envFloat parseFloat env ''PERP_INDEX_MAX_JUMP'' 0) (\<lambda>maxJump.
     bindE (envInt env ''PERP_INDEX_JUMP_CONFIRM_SEC'' 3) (\<lambda>confirm.
     bindE (klineSource env) (\<lambda>source.
     bindE (envInt env ''PERP_MIRROR_LEVELS'' 50) (\<lambda>levels.
     bindE (envInt env ''PERP_MIRROR_INTERVAL_MS'' 1000) (\<lambda>interval.
     bindE (envInt env ''PERP_MIRROR_LEVERAGE'' 5) (\<lambda>leverage.
     bindE (envInt env ''PERP_MIRROR_STALE_SEC'' 10) (\<lambda>stale.
       Inr \<lparr> conf_AuthDisabled = (env ''PERP_AUTH_DISABLED'' = ''true''),
             conf_APIKeys = keys,
             conf_MySQLDSN = envOr env ''PERP_MYSQL_DSN'' ''perpgo:local123@tcp(127.0.0.1:3306)/perpgo?parseTime=true&loc=Local'',
             conf_RedisAddr = envOr env ''PERP_REDIS_ADDR'' ''127.0.0.1:6379'',
             conf_RedisPass = envOr env ''PERP_REDIS_PASS'' ''local123'',
             conf_KafkaBrokers = [envOr env ''PERP_KAFKA_BROKER'' ''127.0.0.1:9092''],
             conf_APIAddr = envOr env ''PERP_API_ADDR'' '':7001'',
             conf_EngineHTTPAddr = envOr env ''PERP_ENGINE_HTTP_ADDR'' '':7002'',
             conf_NodeID = nodeID,
             conf_NodeIDExplicit = explicit,
             conf_LiquidationOrderTimeoutMs = 10000,
             conf_RiskScanIntervalMs = 30000,
             conf_MarkPriceRefreshMs = 1000,
             conf_FundingSampleIntervalMs = 60000,
             conf_ConditionalScanIntervalMs = 2000,
             conf_SymbolCacheRefreshMs = 30000,
             conf_DedupRetentionHours = 168,
             conf_DedupCleanupIntervalMs = 3600000,
             conf_MarkPriceMaxIndexAge = Duration maxAge second,
             conf_MarkPriceMaxDeviation = maxDev,
             conf_MarkPriceBasisWindow = Duration window second,
             conf_MarkPriceRequireIndex = (env ''PERP_MARK_REQUIRE_INDEX'' = ''true''),
             conf_IndexMaxJump = maxJump,
             conf_IndexJumpConfirm = Duration confirm second,
             conf_EngineSymbols = parseEngineSymbols (env ''PERP_ENGINE_SYMBOLS''),
             conf_KlineSource = source,
             conf_MirrorSymbols = parseEngineSymbols (env ''PERP_MIRROR_SYMBOLS''),
             conf_MirrorLevels = levels,
             conf_MirrorInterval = Duration interval millisecond,
             conf_MirrorLeverage = leverage,
             conf_MirrorStaleAfter = Duration stale second,
             conf_MirrorBinanceURL = envOr env ''PERP_MIRROR_BINANCE_URL'' ''https://fapi.binance.com'' \<rparr>))))))))))))"

section \<open>Starting the processes\<close>

definition ValidateAuth :: "Config \<Rightarrow> fatal + unit" where
  "ValidateAuth c = (if \<not> conf_AuthDisabled c \<and> conf_APIKeys c = [] then Inl NoKeys else Inr ())"

definition sharded :: "Config \<Rightarrow> bool" where
  "sharded c \<longleftrightarrow> conf_EngineSymbols c \<noteq> None"

text \<open>The consumer group of an instance: its own one when the engine is sharded.\<close>

definition consumerGroupID :: "(nat \<Rightarrow> string) \<Rightarrow> string \<Rightarrow> Config \<Rightarrow> string" where
  "consumerGroupID show base c = (if \<not> sharded c then base else base @ ''-'' @ show (conf_NodeID c))"

text \<open>What both mains do before they connect to anything; the generator of ids has its node set by then.\<close>

definition initNode :: "Config \<Rightarrow> IdState \<Rightarrow> fatal + IdState" where
  "initNode c s = (case InitNodeID (word_of_nat (conf_NodeID c)) s of (Inl _, _) \<Rightarrow> Inl NodeIDTooBig | (Inr _, s') \<Rightarrow> Inr s')"

definition engineStart :: "(string \<Rightarrow> dec option) \<Rightarrow> environ \<Rightarrow> fatal + (Config \<times> IdState)" where
  "engineStart parseFloat env =
     bindE (Load parseFloat 1 env) (\<lambda>c.
     bindE (initNode c idInitial) (\<lambda>ids.
     bindE (ValidateAuth c) (\<lambda>_.
       if sharded c \<and> \<not> conf_NodeIDExplicit c then Inl NodeIDMissing else Inr (c, ids))))"

definition apiStart :: "(string \<Rightarrow> dec option) \<Rightarrow> environ \<Rightarrow> fatal + (Config \<times> IdState)" where
  "apiStart parseFloat env =
     bindE (Load parseFloat 0 env) (\<lambda>c.
     bindE (ValidateAuth c) (\<lambda>_.
     bindE (initNode c idInitial) (\<lambda>ids. Inr (c, ids))))"

text \<open>The parameters of the mark price service.\<close>

definition apiMarkConfig :: "Config \<Rightarrow> MarkPriceConfig" where
  "apiMarkConfig c =
     \<lparr> cfg_MaxIndexAge = conf_MarkPriceMaxIndexAge c div millisecond, cfg_MaxDeviation = conf_MarkPriceMaxDeviation c,
       cfg_BasisWindow = conf_MarkPriceBasisWindow c div millisecond, cfg_RequireIndex = conf_MarkPriceRequireIndex c,
       cfg_IndexMaxJump = conf_IndexMaxJump c, cfg_IndexJumpConfirm = conf_IndexJumpConfirm c div millisecond \<rparr>"

text \<open>The engine leaves the check of jumps of the index price to the API.\<close>

definition engineMarkConfig :: "Config \<Rightarrow> MarkPriceConfig" where
  "engineMarkConfig c = (apiMarkConfig c)\<lparr> cfg_IndexMaxJump := 0, cfg_IndexJumpConfirm := 0 \<rparr>"

section \<open>Splitting and joining\<close>

fun joinWith :: "char \<Rightarrow> string list \<Rightarrow> string" where
  "joinWith sep [] = []"
| "joinWith sep [p] = p"
| "joinWith sep (p # ps) = p @ sep # joinWith sep ps"

lemma Split_nonempty [simp]: "Split sep s \<noteq> []"
  by (induction sep s rule: Split.induct) (auto split: list.split)

lemma Split_plain: "sep \<notin> set p \<Longrightarrow> Split sep p = [p]"
  by (induction p) auto

lemma Split_append: "sep \<notin> set p \<Longrightarrow> Split sep (p @ sep # s) = p # Split sep s"
  by (induction p) auto

lemma Split_joinWith: "ps \<noteq> [] \<Longrightarrow> (\<And>p. p \<in> set ps \<Longrightarrow> sep \<notin> set p) \<Longrightarrow> Split sep (joinWith sep ps) = ps"
  by (induction sep ps rule: joinWith.induct) (auto simp: Split_plain Split_append)

lemma Split_parts: "p \<in> set (Split sep s) \<Longrightarrow> sep \<notin> set p \<and> set p \<subseteq> set s"
proof (induction sep s arbitrary: p rule: Split.induct)
  case (2 sep c cs)
  obtain q qs where q: "Split sep cs = q # qs" using Split_nonempty by (metis neq_Nil_conv)
  show ?case using 2(3) 2(1,2) [of q] 2(1,2) [of p] by (auto simp: q split: if_splits)
qed simp

text \<open>A text without space at its ends.\<close>

definition trimmed :: "string \<Rightarrow> bool" where
  "trimmed s \<longleftrightarrow> (s \<noteq> [] \<longrightarrow> \<not> isSpace (hd s) \<and> \<not> isSpace (last s))"

lemma dropWhile_id: "(s \<noteq> [] \<Longrightarrow> \<not> P (hd s)) \<Longrightarrow> dropWhile P s = s"
  by (cases s) auto

lemma TrimSpace_trimmed:
  assumes "trimmed s" shows "TrimSpace s = s"
proof -
  have "dropWhile isSpace s = s" using assms by (intro dropWhile_id) (simp add: trimmed_def)
  moreover have "dropWhile isSpace (rev s) = rev s" using assms by (intro dropWhile_id) (simp add: trimmed_def hd_rev)
  ultimately show ?thesis by (simp add: TrimSpace_def)
qed

lemma trimmed_TrimSpace: "trimmed (TrimSpace s)"
proof (cases "TrimSpace s = []")
  case False
  let ?t = "dropWhile isSpace s"
  let ?u = "dropWhile isSpace (rev ?t)"
  have u: "TrimSpace s = rev ?u" "?u \<noteq> []" using False by (simp_all only: TrimSpace_def rev_is_Nil_conv not_False_eq_True)
  have "?t \<noteq> []" using u(2) by (metis dropWhile.simps(1) rev.simps(1))
  have "?t = rev ?u @ rev (takeWhile isSpace (rev ?t))" by (metis rev_append rev_rev_ident takeWhile_dropWhile_id)
  hence "hd (rev ?u) = hd ?t" using u(2) by (metis hd_append2 rev_is_Nil_conv)
  moreover have "\<not> isSpace (hd ?t)" "\<not> isSpace (hd ?u)" using hd_dropWhile \<open>?t \<noteq> []\<close> u(2) by blast+
  ultimately show ?thesis using u by (simp add: trimmed_def last_rev)
qed (simp add: trimmed_def)

lemma set_TrimSpace: "set (TrimSpace s) \<subseteq> set s"
  by (auto simp: TrimSpace_def dest!: set_dropWhileD)

section \<open>The keys a configuration can hold\<close>

definition goodKey :: "APIKey \<Rightarrow> bool" where
  "goodKey k \<longleftrightarrow>
     key_ID k \<noteq> [] \<and> trimmed (key_ID k) \<and> CHR '':'' \<notin> set (key_ID k) \<and> CHR '','' \<notin> set (key_ID k) \<and>
     minSecretLen \<le> length (key_Secret k) \<and> trimmed (key_Secret k) \<and> CHR '':'' \<notin> set (key_Secret k) \<and> CHR '','' \<notin> set (key_Secret k) \<and>
     \<not> Contains (ToLower (key_Secret k)) ''change_me'' \<and> key_Scopes k \<noteq> [] \<and> set (key_Scopes k) \<subseteq> set validScopes"

definition printKey :: "APIKey \<Rightarrow> string" where
  "printKey k = key_ID k @ CHR '':'' # key_Secret k @ CHR '':'' # joinWith (CHR ''|'') (key_Scopes k)"

definition printKeys :: "APIKey list \<Rightarrow> string" where
  "printKeys keys = joinWith (CHR '','') (map printKey keys)"

lemma parseScopes_sound: "parseScopes i ps = Inr scopes \<Longrightarrow> set scopes \<subseteq> set validScopes"
proof (induction ps arbitrary: scopes)
  case (Cons p ps)
  thus ?case by (force simp: Let_def bindE_def split: if_splits sum.splits)
qed simp

lemma parseScopes_valid: "set ps \<subseteq> set validScopes \<Longrightarrow> parseScopes i ps = Inr ps"
proof (induction ps)
  case (Cons p ps)
  have "TrimSpace p = p" "p \<noteq> []" using Cons.prems by (auto simp: validScopes_def TrimSpace_def isSpace_def)
  with Cons show ?case by (simp add: bindE_def)
qed simp

lemma Split_three: "Split sep s = [p0, p1, p2] \<Longrightarrow> sep \<notin> set p0 \<and> sep \<notin> set p1 \<and> set p0 \<subseteq> set s \<and> set p1 \<subseteq> set s"
  using Split_parts [of _ sep s] by simp

lemma parseKey_sound:
  assumes "parseKey seen item = Inr k" "CHR '','' \<notin> set item"
  shows "goodKey k \<and> key_ID k \<notin> set seen"
proof -
  obtain p0 p1 p2 where p: "Split (CHR '':'') item = [p0, p1, p2]"
    using assms(1) by (auto simp: parseKey_def split: list.splits)
  let ?i = "TrimSpace p0" and ?s = "TrimSpace p1"
  have sep: "CHR '':'' \<notin> set ?i \<and> CHR '','' \<notin> set ?i \<and> CHR '':'' \<notin> set ?s \<and> CHR '','' \<notin> set ?s"
    using Split_three [OF p] set_TrimSpace [of p0] set_TrimSpace [of p1] assms(2) by blast
  note assms(1) [unfolded parseKey_def p list.case Let_def]
  then obtain scopes where "?i \<noteq> []" "?i \<notin> set seen" "minSecretLen \<le> length ?s" "\<not> Contains (ToLower ?s) ''change_me''"
      "parseScopes ?i (Split (CHR ''|'') p2) = Inr scopes" "scopes \<noteq> []" "k = \<lparr> key_ID = ?i, key_Secret = ?s, key_Scopes = scopes \<rparr>"
    by (cases "parseScopes ?i (Split (CHR ''|'') p2)") (simp_all add: bindE_def split: if_splits)
  with sep show ?thesis using parseScopes_sound [of ?i] trimmed_TrimSpace by (simp add: goodKey_def)
qed

lemma parseItems_sound:
  "parseItems seen ps = Inr keys \<Longrightarrow> (\<And>p. p \<in> set ps \<Longrightarrow> CHR '','' \<notin> set p) \<Longrightarrow>
     list_all goodKey keys \<and> distinct (map key_ID keys) \<and> set (map key_ID keys) \<inter> set seen = {}"
proof (induction seen ps arbitrary: keys rule: parseItems.induct)
  case (2 seen p ps)
  show ?case
  proof (cases "TrimSpace p = []")
    case True
    with 2 show ?thesis by simp
  next
    case False
    from 2(3) False obtain k rest where k: "parseKey seen (TrimSpace p) = Inr k" "parseItems (key_ID k # seen) ps = Inr rest" "keys = k # rest"
      by (auto simp: Let_def bindE_def split: sum.splits)
    have "CHR '','' \<notin> set (TrimSpace p)" using 2(4) [of p] set_TrimSpace [of p] by auto
    with 2(2) [OF refl False k(2)] parseKey_sound [OF k(1)] 2(4) k(3) show ?thesis by auto
  qed
qed simp

lemma printKey_parse:
  assumes "goodKey k" "key_ID k \<notin> set seen"
  shows "parseKey seen (printKey k) = Inr k" "TrimSpace (printKey k) = printKey k" "printKey k \<noteq> []" "CHR '','' \<notin> set (printKey k)"
proof -
  have scopes: "set (key_Scopes k) \<subseteq> {''trade'', ''ops''}" using assms(1) by (simp add: goodKey_def validScopes_def)
  have join: "set (joinWith (CHR ''|'') ss) \<subseteq> set ''|tradeops'' \<and> (ss \<noteq> [] \<longrightarrow> joinWith (CHR ''|'') ss \<noteq> [] \<and> \<not> isSpace (last (joinWith (CHR ''|'') ss)))"
    if "set ss \<subseteq> {''trade'', ''ops''}" for ss
    using that by (induction "CHR ''|''" ss rule: joinWith.induct) (auto simp: isSpace_def)
  have "Split (CHR ''|'') (joinWith (CHR ''|'') (key_Scopes k)) = key_Scopes k"
    by (rule Split_joinWith) (use assms(1) scopes in \<open>auto simp: goodKey_def\<close>)
  moreover have "Split (CHR '':'') (printKey k) = [key_ID k, key_Secret k, joinWith (CHR ''|'') (key_Scopes k)]"
  proof -
    have "CHR '':'' \<notin> set (joinWith (CHR ''|'') (key_Scopes k))" using join [OF scopes] by auto
    with assms(1) show ?thesis by (simp add: printKey_def goodKey_def Split_append Split_plain)
  qed
  ultimately show "parseKey seen (printKey k) = Inr k"
    using assms parseScopes_valid [of "key_Scopes k" "key_ID k"]
    by (simp add: parseKey_def goodKey_def TrimSpace_trimmed bindE_def Let_def)
  show "TrimSpace (printKey k) = printKey k"
    by (rule TrimSpace_trimmed) (use assms(1) join [OF scopes] in \<open>auto simp: trimmed_def printKey_def goodKey_def\<close>)
  show "printKey k \<noteq> []" "CHR '','' \<notin> set (printKey k)"
    using assms(1) join [OF scopes] by (auto simp: printKey_def goodKey_def)
qed

lemma parseItems_print:
  assumes "list_all goodKey keys" "distinct (map key_ID keys)" "set (map key_ID keys) \<inter> set seen = {}"
  shows "parseItems seen (map printKey keys) = Inr keys"
  using assms
proof (induction keys arbitrary: seen)
  case (Cons k keys)
  have k: "goodKey k" "key_ID k \<notin> set seen" using Cons.prems by auto
  have "parseItems (key_ID k # seen) (map printKey keys) = Inr keys" using Cons.prems by (intro Cons.IH) auto
  with printKey_parse [OF k] show ?case by (simp add: bindE_def)
qed simp

lemma trimmed_join:
  assumes "\<And>p. p \<in> set ps \<Longrightarrow> p \<noteq> [] \<and> trimmed p" "ps \<noteq> []"
  shows "trimmed (joinWith sep ps) \<and> joinWith sep ps \<noteq> [] \<and> hd (joinWith sep ps) = hd (hd ps) \<and> last (joinWith sep ps) = last (last ps)"
  using assms
proof (induction sep ps rule: joinWith.induct)
  case (3 sep p q ps)
  hence "trimmed (joinWith sep (q # ps)) \<and> joinWith sep (q # ps) \<noteq> [] \<and> last (joinWith sep (q # ps)) = last (last (q # ps))" by simp
  with 3(2) [of p] show ?case by (auto simp: trimmed_def split: if_splits)
qed simp_all



section \<open>What a started process can rely on\<close>

text \<open>A process that starts with authentication on has a key, every key is good, and its ids carry a node that fits.\<close>

lemma bindE_Inr_iff: "bindE x f = Inr y \<longleftrightarrow> (\<exists>v. x = Inr v \<and> f v = Inr y)"
  by (cases x) (simp_all add: bindE_def)

lemma envInt_positive: "envInt env key def = Inr n \<Longrightarrow> 0 < def \<Longrightarrow> 0 < n"
  by (auto simp: envInt_def split: if_splits option.splits)

lemma envFloat_positive: "envFloat parseFloat env key def = Inr n \<Longrightarrow> 0 < def \<Longrightarrow> 0 < n"
  by (auto simp: envFloat_def split: if_splits option.splits)

lemma klineSource_known: "klineSource env = Inr v \<Longrightarrow> v \<in> {''trades'', ''external''}"
  by (auto simp: klineSource_def Let_def split: if_splits)

lemma Load_fields:
  assumes "Load parseFloat def env = Inr c"
  shows "loadKeys env = Inr (conf_APIKeys c)" "loadNodeID def env = Inr (conf_NodeID c, conf_NodeIDExplicit c)"
    "conf_AuthDisabled c = (env ''PERP_AUTH_DISABLED'' = ''true'')" "conf_KlineSource c \<in> {''trades'', ''external''}"
    "0 < conf_MirrorLevels c" "0 < conf_MirrorLeverage c" "0 < conf_MarkPriceMaxDeviation c"
proof -
  from assms [unfolded Load_def bindE_Inr_iff split_paired_Ex prod.case]
  obtain nodeID explicit keys maxDev source levels leverage where
    "loadNodeID def env = Inr (nodeID, explicit)" "loadKeys env = Inr keys"
    "envFloat parseFloat env ''PERP_MARK_MAX_DEVIATION'' (1 / 100) = Inr maxDev" "klineSource env = Inr source"
    "envInt env ''PERP_MIRROR_LEVELS'' 50 = Inr levels" "envInt env ''PERP_MIRROR_LEVERAGE'' 5 = Inr leverage"
    "conf_APIKeys c = keys" "conf_NodeID c = nodeID" "conf_NodeIDExplicit c = explicit" "conf_AuthDisabled c = (env ''PERP_AUTH_DISABLED'' = ''true'')"
    "conf_KlineSource c = source" "conf_MirrorLevels c = levels" "conf_MirrorLeverage c = leverage" "conf_MarkPriceMaxDeviation c = maxDev"
    by (elim exE conjE) (use that in \<open>force simp del: split_paired_Ex\<close>)
  note f = this
  show "loadKeys env = Inr (conf_APIKeys c)" "loadNodeID def env = Inr (conf_NodeID c, conf_NodeIDExplicit c)"
    "conf_AuthDisabled c = (env ''PERP_AUTH_DISABLED'' = ''true'')" "conf_KlineSource c \<in> {''trades'', ''external''}"
    "0 < conf_MirrorLevels c" "0 < conf_MirrorLeverage c" "0 < conf_MarkPriceMaxDeviation c"
    using f(1,2,7-) klineSource_known [OF f(4)] envInt_positive [OF f(5)] envInt_positive [OF f(6)] envFloat_positive [OF f(3)]
    by (simp_all del: insert_iff)
qed

lemma Duration_exact:
  assumes "0 \<le> n" "0 \<le> unit" "n * unit < 2 ^ 63" shows "Duration n unit = n * unit"
proof -
  have "0 \<le> n * unit" using assms by simp
  with assms(3) show ?thesis unfolding Duration_def sint_sbintrunc' by (intro signed_take_bit_int_eq_self) simp_all
qed

lemma Duration_wraps: "Duration 9223372037 second < 0"
  by (simp add: Duration_def second_def)

text \<open>Two instances of a sharded engine with different nodes have different consumer groups.\<close>

lemma consumerGroups_distinct:
  assumes "inj show" "sharded c" "sharded d" "conf_NodeID c \<noteq> conf_NodeID d"
  shows "consumerGroupID show base c \<noteq> consumerGroupID show base d"
  using assms by (simp add: consumerGroupID_def inj_eq)

lemma engineStart_safe:
  assumes "engineStart parseFloat env = Inr (c, ids)"
  shows "conf_AuthDisabled c \<or> conf_APIKeys c \<noteq> []" "sharded c \<Longrightarrow> conf_NodeIDExplicit c" "id_NodeSet ids"
    "list_all goodKey (conf_APIKeys c)" "distinct (map key_ID (conf_APIKeys c))"
proof -
  from assms have c: "Load parseFloat 1 env = Inr c" "initNode c idInitial = Inr ids" "ValidateAuth c = Inr ()" "\<not> (sharded c \<and> \<not> conf_NodeIDExplicit c)"
    by (auto simp: engineStart_def bindE_def split: sum.splits if_splits)
  from c(2-4) show "conf_AuthDisabled c \<or> conf_APIKeys c \<noteq> []" "sharded c \<Longrightarrow> conf_NodeIDExplicit c" "id_NodeSet ids"
    by (auto simp: ValidateAuth_def initNode_def InitNodeID_def split: if_splits)
  from Load_fields(1) [OF c(1)] obtain raw where "ParseAPIKeys raw = Inr (conf_APIKeys c)" by (auto simp: loadKeys_def split: sum.splits)
  hence "conf_APIKeys c = [] \<or> parseItems [] (Split (CHR '','') (TrimSpace raw)) = Inr (conf_APIKeys c)"
    by (simp add: ParseAPIKeys_def Let_def split: if_splits)
  with parseItems_sound [of "[]" "Split (CHR '','') (TrimSpace raw)"] Split_parts
  show "list_all goodKey (conf_APIKeys c)" "distinct (map key_ID (conf_APIKeys c))" by fastforce+
qed

end
