(* ===== verification/BinancePlan.thy ===== *)
theory BinancePlan
  imports Model
begin

text \<open>
  The difference between the levels an outside market shows and the orders the system account rests,
  src/internal/binancefeed/plan.go: which orders to cancel and which to place. Prices are compared by their
  printed form in the source; two decimals print alike exactly when they are equal.
\<close>

record Level =
  lv_Price :: dec
  lv_Qty :: dec

definition roundedQty :: "dec_lib \<Rightarrow> nat \<Rightarrow> dec \<Rightarrow> dec \<Rightarrow> dec" where
  "roundedQty L qtyDP step q =
     (let t = lib_Truncate L q qtyDP in if 0 < step then of_int \<lfloor>lib_Div L t step\<rfloor> * step else t)"

text \<open>The first n levels that can be rested, with the quantity rounded down to the contract's step. \<open>n\<close> counts
  the levels still to find.\<close>

fun DesiredLevels :: "dec_lib \<Rightarrow> Level list \<Rightarrow> nat \<Rightarrow> nat \<Rightarrow> dec \<Rightarrow> dec \<Rightarrow> Level list" where
  "DesiredLevels L [] n qtyDP step minVolume = []"
| "DesiredLevels L (l # levels) n qtyDP step minVolume =
     (if n = 0 then []
      else
        let q = roundedQty L qtyDP step (lv_Qty l) in
        if q \<le> 0 \<or> q < minVolume then DesiredLevels L levels n qtyDP step minVolume
        else \<lparr> lv_Price = lv_Price l, lv_Qty = q \<rparr> # DesiredLevels L levels (n - 1) qtyDP step minVolume)"

record LiveOrder =
  lo_ID :: nat
  lo_Price :: dec
  lo_Amount :: dec
  lo_Remaining :: dec

record Placement =
  pm_Price :: dec
  pm_Qty :: dec

text \<open>The orders by id: a price that is not wanted, a second order at a price, or an order of which less than half
  is left is cancelled; the first other one at a price is kept. The result is the ids to cancel and the
  prices that keep an order.\<close>

fun planCancels :: "dec list \<Rightarrow> dec list \<Rightarrow> LiveOrder list \<Rightarrow> nat list \<times> dec list" where
  "planCancels want kept [] = ([], kept)"
| "planCancels want kept (o' # os) =
     (if lo_Price o' \<notin> set want \<or> lo_Price o' \<in> set kept \<or> lo_Remaining o' * 2 < lo_Amount o'
      then (case planCancels want kept os of (cs, ks) \<Rightarrow> (lo_ID o' # cs, ks))
      else planCancels want (lo_Price o' # kept) os)"

definition Plan :: "Level list \<Rightarrow> LiveOrder list \<Rightarrow> nat list \<times> Placement list" where
  "Plan desired existing =
     (case planCancels (map lv_Price desired) [] (sort_key lo_ID existing) of
        (cancels, kept) \<Rightarrow>
          (cancels, map (\<lambda>d. \<lparr> pm_Price = lv_Price d, pm_Qty = lv_Qty d \<rparr>)
             (filter (\<lambda>d. lv_Price d \<notin> set kept \<and> 0 < lv_Qty d) desired)))"

fun bestLive :: "(dec \<Rightarrow> dec \<Rightarrow> bool) \<Rightarrow> LiveOrder list \<Rightarrow> dec option" where
  "bestLive better [] = None"
| "bestLive better (o' # os) = Some (foldl (\<lambda>best p. if better (lo_Price p) best then lo_Price p else best) (lo_Price o') os)"

definition MinLivePrice :: "LiveOrder list \<Rightarrow> dec option" where
  "MinLivePrice = bestLive (<)"

definition MaxLivePrice :: "LiveOrder list \<Rightarrow> dec option" where
  "MaxLivePrice = bestLive (>)"

definition PlacesBelow :: "Placement list \<Rightarrow> dec option \<Rightarrow> Placement list" where
  "PlacesBelow places limit = (case limit of None \<Rightarrow> places | Some l \<Rightarrow> filter (\<lambda>p. pm_Price p < l) places)"

definition PlacesAbove :: "Placement list \<Rightarrow> dec option \<Rightarrow> Placement list" where
  "PlacesAbove places limit = (case limit of None \<Rightarrow> places | Some l \<Rightarrow> filter (\<lambda>p. l < pm_Price p) places)"

section \<open>The desired levels\<close>

lemma roundedQty_le:
  assumes L: "decimal_lib L" and q: "0 \<le> q" and step: "0 < step \<Longrightarrow> fits 16 (lib_Truncate L q dp / step)"
  shows "roundedQty L dp step q \<le> q"
proof (cases "0 < step")
  case True
  have "of_int \<lfloor>lib_Div L (lib_Truncate L q dp) step\<rfloor> * step \<le> lib_Div L (lib_Truncate L q dp) step * step"
    using True by (simp add: mult_right_mono)
  also have "\<dots> = lib_Truncate L q dp" using True decimal_lib.div_exact [OF L _ step] by simp
  finally show ?thesis using decimal_lib.trunc_le [OF L q, of dp] True by (simp add: roundedQty_def Let_def)
qed (simp add: roundedQty_def decimal_lib.trunc_le [OF L q])

lemma DesiredLevels_sub:
  "length (DesiredLevels L levels n dp step mv) \<le> n \<and>
   (\<forall>d\<in>set (DesiredLevels L levels n dp step mv). \<exists>l\<in>set levels. lv_Price d = lv_Price l \<and>
      lv_Qty d = roundedQty L dp step (lv_Qty l) \<and> 0 < lv_Qty d \<and> mv \<le> lv_Qty d)"
  by (induction L levels n dp step mv rule: DesiredLevels.induct) (auto simp: Let_def)

lemma DesiredLevels_distinct:
  "distinct (map lv_Price levels) \<Longrightarrow> distinct (map lv_Price (DesiredLevels L levels n dp step mv))"
proof (induction L levels n dp step mv rule: DesiredLevels.induct)
  case (2 L l levels n dp step mv)
  have "lv_Price l \<notin> lv_Price ` set (DesiredLevels L levels m dp step mv)" for m
    using 2(3) DesiredLevels_sub [of L levels m dp step mv] by fastforce
  with 2 show ?case by (simp add: Let_def)
qed simp

section \<open>The plan\<close>

text \<open>The orders a plan keeps.\<close>

fun keptOrders :: "dec list \<Rightarrow> dec list \<Rightarrow> LiveOrder list \<Rightarrow> LiveOrder list" where
  "keptOrders want kept [] = []"
| "keptOrders want kept (o' # os) =
     (if lo_Price o' \<notin> set want \<or> lo_Price o' \<in> set kept \<or> lo_Remaining o' * 2 < lo_Amount o'
      then keptOrders want kept os else o' # keptOrders want (lo_Price o' # kept) os)"

lemma keptOrders_sub: "set (keptOrders want kept os) \<subseteq> set os"
  by (induction want kept os rule: keptOrders.induct) auto

lemma keptOrders_good:
  "o' \<in> set (keptOrders want kept os) \<Longrightarrow> lo_Price o' \<in> set want \<and> lo_Price o' \<notin> set kept \<and> lo_Amount o' \<le> lo_Remaining o' * 2"
  by (induction want kept os rule: keptOrders.induct) (auto split: if_splits)

lemma keptOrders_distinct: "distinct (map lo_Price (keptOrders want kept os))"
proof (induction want kept os rule: keptOrders.induct)
  case (2 want kept o' os)
  have "lo_Price o' \<notin> lo_Price ` set (keptOrders want (lo_Price o' # kept) os)" using keptOrders_good by fastforce
  with 2 show ?case by simp
qed simp

lemma keptOrders_only:
  assumes "o' \<in> set os" "lo_Price o' \<in> set want" "lo_Price o' \<notin> set kept" "lo_Amount o' \<le> lo_Remaining o' * 2"
    and "\<forall>q\<in>set os. lo_Price q = lo_Price o' \<longrightarrow> q = o'"
  shows "o' \<in> set (keptOrders want kept os)"
  using assms
proof (induction want kept os rule: keptOrders.induct)
  case (2 want kept q os)
  show ?case
  proof (cases "q = o'")
    case False
    with 2 show ?thesis by auto
  qed (use 2(4-6) in simp)
qed simp

lemma keptOrders_all:
  "distinct (map lo_Price os) \<Longrightarrow> (\<And>o'. o' \<in> set os \<Longrightarrow> lo_Price o' \<in> set want \<and> lo_Price o' \<notin> set kept \<and> lo_Amount o' \<le> lo_Remaining o' * 2) \<Longrightarrow>
   keptOrders want kept os = os"
proof (induction want kept os rule: keptOrders.induct)
  case (2 want kept o' os)
  have g: "lo_Price o' \<in> set want" "lo_Price o' \<notin> set kept" "lo_Amount o' \<le> lo_Remaining o' * 2" using 2(4) [of o'] by simp_all
  have "lo_Price q \<notin> set (lo_Price o' # kept)" if q: "q \<in> set os" for q
  proof -
    have "lo_Price q \<in> lo_Price ` set os" using q by (rule imageI)
    hence "lo_Price q \<noteq> lo_Price o'" using 2(3) by auto
    thus ?thesis using 2(4) [of q] q by simp
  qed
  with 2(2) 2(3) 2(4) g have "keptOrders want (lo_Price o' # kept) os = os" by simp
  with g show ?case by auto
qed simp

lemma planCancels_kept: "snd (planCancels want kept os) = rev (map lo_Price (keptOrders want kept os)) @ kept"
  by (induction want kept os rule: planCancels.induct) (auto split: prod.split)

lemma planCancels_ids:
  assumes "distinct (map lo_ID os)"
  shows "set (fst (planCancels want kept os)) = lo_ID ` set os - lo_ID ` set (keptOrders want kept os)"
  using assms
proof (induction want kept os rule: planCancels.induct)
  case (2 want kept o' os)
  have "lo_ID o' \<notin> lo_ID ` set os" using 2(3) by simp
  moreover have "lo_ID ` set (keptOrders want k os) \<subseteq> lo_ID ` set os" for k using keptOrders_sub by (rule image_mono)
  ultimately have "lo_ID o' \<notin> lo_ID ` set (keptOrders want k os)" for k by blast
  note fresh = this
  show ?case
  proof (cases "lo_Price o' \<notin> set want \<or> lo_Price o' \<in> set kept \<or> lo_Remaining o' * 2 < lo_Amount o'")
    case True
    have "set (fst (planCancels want kept os)) = lo_ID ` set os - lo_ID ` set (keptOrders want kept os)" using 2(1) [OF True] 2(3) by simp
    moreover have "fst (planCancels want kept (o' # os)) = lo_ID o' # fst (planCancels want kept os)"
      "keptOrders want kept (o' # os) = keptOrders want kept os" using True by (simp_all add: case_prod_beta)
    ultimately show ?thesis using fresh [of kept] by auto
  next
    case False
    let ?k = "lo_Price o' # kept"
    have "set (fst (planCancels want ?k os)) = lo_ID ` set os - lo_ID ` set (keptOrders want ?k os)" using 2(2) [OF False] 2(3) by simp
    moreover have "planCancels want kept (o' # os) = planCancels want ?k os"
      "keptOrders want kept (o' # os) = o' # keptOrders want ?k os" using False by simp_all
    ultimately show ?thesis using 2(3) by auto
  qed
qed simp

text \<open>The orders of a side after a plan has been carried out: what was not cancelled, and the new ones.\<close>

definition carriedOut :: "(nat \<Rightarrow> nat) \<Rightarrow> LiveOrder list \<Rightarrow> nat list \<times> Placement list \<Rightarrow> LiveOrder list" where
  "carriedOut ids existing plan =
     filter (\<lambda>o'. lo_ID o' \<notin> set (fst plan)) existing @
     map (\<lambda>(i, p). \<lparr> lo_ID = ids i, lo_Price = pm_Price p, lo_Amount = pm_Qty p, lo_Remaining = pm_Qty p \<rparr>)
       (zip [0..<length (snd plan)] (snd plan))"

lemma carriedOut_prices:
  "map lo_Price (carriedOut ids existing plan) =
     map lo_Price (filter (\<lambda>o'. lo_ID o' \<notin> set (fst plan)) existing) @ map pm_Price (snd plan)"
proof -
  have "map lo_Price (map (\<lambda>(i, p). \<lparr> lo_ID = ids i, lo_Price = pm_Price p, lo_Amount = pm_Qty p, lo_Remaining = pm_Qty p \<rparr>) (zip is ps))
      = map pm_Price ps" if "length is = length ps" for "is" ps
    using that by (induction "is" ps rule: list_induct2) simp_all
  from this [of "[0..<length (snd plan)]" "snd plan"] show ?thesis by (simp add: carriedOut_def)
qed

lemma Plan_eq:
  "Plan desired existing =
     (fst (planCancels (map lv_Price desired) [] (sort_key lo_ID existing)),
      map (\<lambda>d. \<lparr> pm_Price = lv_Price d, pm_Qty = lv_Qty d \<rparr>)
        (filter (\<lambda>d. lv_Price d \<notin> lo_Price ` set (keptOrders (map lv_Price desired) [] (sort_key lo_ID existing)) \<and> 0 < lv_Qty d) desired))"
  using planCancels_kept [of "map lv_Price desired" "[]" "sort_key lo_ID existing"]
  by (cases "planCancels (map lv_Price desired) [] (sort_key lo_ID existing)") (simp add: Plan_def)

lemma kept_after_cancels:
  assumes "distinct (map lo_ID existing)"
  shows "set (filter (\<lambda>o'. lo_ID o' \<notin> set (fst (Plan desired existing))) existing) =
    set (keptOrders (map lv_Price desired) [] (sort_key lo_ID existing))"
proof -
  let ?k = "keptOrders (map lv_Price desired) [] (sort_key lo_ID existing)"
  have "distinct (map lo_ID (sort_key lo_ID existing))" using assms by (simp add: distinct_map)
  from planCancels_ids [OF this] have ids: "set (fst (Plan desired existing)) = lo_ID ` set existing - lo_ID ` set ?k"
    by (simp add: Plan_eq)
  have sub: "set ?k \<subseteq> set existing" using keptOrders_sub [of _ _ "sort_key lo_ID existing"] by simp
  have "o' \<in> set ?k" if mem: "o' \<in> set existing" and img: "lo_ID o' \<in> lo_ID ` set ?k" for o'
  proof -
    obtain q where q: "q \<in> set ?k" "lo_ID o' = lo_ID q" using img by blast
    with unique_key_eq [OF assms mem, of q] sub show ?thesis by auto
  qed
  hence "o' \<in> set existing \<and> lo_ID o' \<notin> set (fst (Plan desired existing)) \<longleftrightarrow> o' \<in> set ?k" for o'
    unfolding ids using sub by blast
  thus ?thesis by auto
qed

lemma Plan_settled:
  assumes "distinct (map lo_ID out)" "distinct (map lo_Price out)" "set (map lo_Price out) = set (map lv_Price desired)"
    and "\<And>o'. o' \<in> set out \<Longrightarrow> lo_Price o' \<in> set (map lv_Price desired) \<and> lo_Amount o' \<le> lo_Remaining o' * 2"
  shows "Plan desired out = ([], [])"
proof -
  let ?want = "map lv_Price desired"
  have "distinct out" "inj_on lo_Price (set out)" using assms(2) by (simp_all add: distinct_map)
  hence "distinct (map lo_Price (sort_key lo_ID out))" by (simp add: distinct_map)
  hence all: "keptOrders ?want [] (sort_key lo_ID out) = sort_key lo_ID out"
    by (rule keptOrders_all) (use assms(4) in simp)
  have "distinct (map lo_ID (sort_key lo_ID out))" using assms(1) by (simp add: distinct_map)
  from planCancels_ids [OF this, of ?want "[]"] have "fst (Plan desired out) = []" by (simp add: Plan_eq all)
  moreover have "lv_Price d \<in> lo_Price ` set out" if "d \<in> set desired" for d using assms(3) that by (metis imageI list.set_map)
  hence "snd (Plan desired out) = []" by (simp add: Plan_eq all filter_empty_conv)
  ultimately show ?thesis by (simp add: prod_eq_iff)
qed

text \<open>The mirrored ladder converges in one round. Given levels at different prices with positive quantities and
  orders with different ids, carrying out a plan leaves exactly one order at every wanted price and none at
  another; an order that is alone at a wanted price and has at least half of its amount left keeps its place
  in the queue; what is placed is placed at the wanted quantity; and planning again from the result changes
  nothing.\<close>

theorem Plan_converges:
  assumes "distinct (map lv_Price desired)" "\<forall>d\<in>set desired. 0 < lv_Qty d" "distinct (map lo_ID existing)"
    and "inj ids" "\<forall>o'\<in>set existing. lo_ID o' \<notin> range ids"
  shows "distinct (map lo_Price (carriedOut ids existing (Plan desired existing))) \<and>
    set (map lo_Price (carriedOut ids existing (Plan desired existing))) = set (map lv_Price desired) \<and>
    (\<forall>o'\<in>set existing. lo_Price o' \<in> set (map lv_Price desired) \<longrightarrow> lo_Amount o' \<le> lo_Remaining o' * 2 \<longrightarrow>
       (\<forall>q\<in>set existing. lo_Price q = lo_Price o' \<longrightarrow> q = o') \<longrightarrow> lo_ID o' \<notin> set (fst (Plan desired existing))) \<and>
    (\<forall>p\<in>set (snd (Plan desired existing)). \<exists>d\<in>set desired. pm_Price p = lv_Price d \<and> pm_Qty p = lv_Qty d) \<and>
    Plan desired (carriedOut ids existing (Plan desired existing)) = ([], [])"
proof -
  let ?want = "map lv_Price desired" and ?plan = "Plan desired existing"
  let ?k = "keptOrders ?want [] (sort_key lo_ID existing)" and ?stay = "filter (\<lambda>o'. lo_ID o' \<notin> set (fst ?plan)) existing"
  let ?new = "filter (\<lambda>d. lv_Price d \<notin> lo_Price ` set ?k \<and> 0 < lv_Qty d) desired"
  let ?out = "carriedOut ids existing ?plan"
  have stay: "set ?stay = set ?k" by (rule kept_after_cancels [OF assms(3)])
  have kprices: "inj_on lo_Price (set ?k)" using keptOrders_distinct by (simp add: distinct_map)
  have new: "snd ?plan = map (\<lambda>d. \<lparr> pm_Price = lv_Price d, pm_Qty = lv_Qty d \<rparr>) ?new" by (simp add: Plan_eq)
  hence newp: "map pm_Price (snd ?plan) = map lv_Price ?new" by simp
  have out: "map lo_Price ?out = map lo_Price ?stay @ map lv_Price ?new" by (simp only: carriedOut_prices newp)
  have "distinct ?stay" using assms(3) by (simp add: distinct_map)
  hence d1: "distinct (map lo_Price ?stay)" using kprices stay by (simp add: distinct_map)
  have d2: "distinct (map lv_Price ?new)" using assms(1) by (rule distinct_map_filter)
  have "set (map lo_Price ?stay) \<inter> set (map lv_Price ?new) = {}" unfolding set_map stay by force
  with d1 d2 out have D: "distinct (map lo_Price ?out)" by (simp only: distinct_append)
  have kw: "lo_Price ` set ?k \<subseteq> set ?want" using keptOrders_good by blast
  have S: "set (map lo_Price ?out) = set ?want"
    unfolding out set_append set_map stay using kw assms(2) by auto
  have K: "lo_ID o' \<notin> set (fst ?plan)"
    if "o' \<in> set existing" "lo_Price o' \<in> set ?want" "lo_Amount o' \<le> lo_Remaining o' * 2" "\<forall>q\<in>set existing. lo_Price q = lo_Price o' \<longrightarrow> q = o'" for o'
  proof -
    have "o' \<in> set ?k" using that by (intro keptOrders_only) simp_all
    with stay show ?thesis by auto
  qed
  have P: "\<exists>d\<in>set desired. pm_Price p = lv_Price d \<and> pm_Qty p = lv_Qty d" if "p \<in> set (snd ?plan)" for p
    using that new by auto
  have good: "lo_Price o' \<in> set ?want \<and> lo_Amount o' \<le> lo_Remaining o' * 2" if "o' \<in> set ?out" for o'
  proof
    show "lo_Price o' \<in> set ?want" using S that by (metis imageI list.set_map)
    from that have "o' \<in> set ?k \<or> (\<exists>p\<in>set (snd ?plan). lo_Remaining o' = pm_Qty p \<and> lo_Amount o' = pm_Qty p)"
      unfolding carriedOut_def using stay by (auto dest: set_zip_rightD)
    thus "lo_Amount o' \<le> lo_Remaining o' * 2" using keptOrders_good [of o'] P assms(2) by fastforce
  qed
  have "distinct (map lo_ID ?out)"
  proof -
    have "map lo_ID (map (\<lambda>(i, p). \<lparr> lo_ID = ids i, lo_Price = pm_Price p, lo_Amount = pm_Qty p, lo_Remaining = pm_Qty p \<rparr>)
        (zip [0..<n] ps)) = map ids [0..<n]" if "n = length ps" for n ps
      using that by (intro nth_equalityI) simp_all
    from this [OF refl, of "snd ?plan"] have "map lo_ID ?out = map lo_ID ?stay @ map ids [0..<length (snd ?plan)]" by (simp add: carriedOut_def)
    moreover have "distinct (map lo_ID ?stay)" using assms(3) by (rule distinct_map_filter)
    moreover have "distinct (map ids [0..<length (snd ?plan)])" using inj_on_subset [OF assms(4) subset_UNIV] by (simp add: distinct_map)
    ultimately show ?thesis using assms(5) by (fastforce simp: distinct_append)
  qed
  from Plan_settled [OF this D S good] have F: "Plan desired ?out = ([], [])" .
  from D S K P F show ?thesis by blast
qed

lemma Plan_converges_witness:
  "Plan [\<lparr> lv_Price = 100, lv_Qty = 2 \<rparr>] [\<lparr> lo_ID = 1, lo_Price = 99, lo_Amount = 2, lo_Remaining = 2 \<rparr>] =
     ([1], [\<lparr> pm_Price = 100, pm_Qty = 2 \<rparr>]) \<and>
   Plan [\<lparr> lv_Price = 100, lv_Qty = 2 \<rparr>]
     (carriedOut (\<lambda>i. i + 2) [\<lparr> lo_ID = 1, lo_Price = 99, lo_Amount = 2, lo_Remaining = 2 \<rparr>]
       (Plan [\<lparr> lv_Price = 100, lv_Qty = 2 \<rparr>] [\<lparr> lo_ID = 1, lo_Price = 99, lo_Amount = 2, lo_Remaining = 2 \<rparr>])) = ([], [])"
proof
  have "inj (\<lambda>i::nat. i + 2)" by (simp add: inj_on_def)
  thus "Plan [\<lparr> lv_Price = 100, lv_Qty = 2 \<rparr>]
     (carriedOut (\<lambda>i. i + 2) [\<lparr> lo_ID = 1, lo_Price = 99, lo_Amount = 2, lo_Remaining = 2 \<rparr>]
       (Plan [\<lparr> lv_Price = 100, lv_Qty = 2 \<rparr>] [\<lparr> lo_ID = 1, lo_Price = 99, lo_Amount = 2, lo_Remaining = 2 \<rparr>])) = ([], [])"
    by (intro Plan_converges [THEN conjunct2, THEN conjunct2, THEN conjunct2, THEN conjunct2]) auto
qed (simp add: Plan_def)

end
