(* ===== verification/BinanceFeed.thy ===== *)
theory BinanceFeed
  imports BinancePlan
begin

text \<open>
  Reading the public market data of Binance, src/internal/binancefeed/binance.go. The HTTP exchange and the JSON decoder are
  the environment's: a fetch ends with an error or with the decoded document. The decimal parser is an argument.
\<close>

datatype feedError = FetchFailed | NotJSON | BadLevel | BadPrice | BadQuantity | PriceNotPositive | EmptySide | CrossedBook | BadIndexPrice | BadCandle

definition DepthLimits :: "nat list" where
  "DepthLimits = [5, 10, 20, 50, 100, 500, 1000]"

definition DepthLimitFor :: "int \<Rightarrow> nat option" where
  "DepthLimitFor n = find (\<lambda>l. n \<le> int l) DepthLimits"

section \<open>Depth\<close>

definition parseLevel :: "(string \<Rightarrow> dec option) \<Rightarrow> string list \<Rightarrow> feedError + Level option" where
  "parseLevel parse r =
     (case r of
        p0 # q0 # _ \<Rightarrow>
          (case parse p0 of
             None \<Rightarrow> Inl BadPrice
           | Some p \<Rightarrow>
               (case parse q0 of
                  None \<Rightarrow> Inl BadQuantity
                | Some q \<Rightarrow>
                    if p \<le> 0 then Inl PriceNotPositive
                    else if 0 < q then Inr (Some \<lparr> lv_Price = p, lv_Qty = q \<rparr>) else Inr None))
      | _ \<Rightarrow> Inl BadLevel)"

fun parseLevels :: "(string \<Rightarrow> dec option) \<Rightarrow> string list list \<Rightarrow> feedError + Level list" where
  "parseLevels parse [] = Inr []"
| "parseLevels parse (r # rs) =
     (case parseLevel parse r of
        Inl e \<Rightarrow> Inl e
      | Inr l \<Rightarrow>
          (case parseLevels parse rs of
             Inl e \<Rightarrow> Inl e
           | Inr ls \<Rightarrow> Inr ((case l of None \<Rightarrow> [] | Some x \<Rightarrow> [x]) @ ls)))"

text \<open>A fetched document: the two sides as lists of rows of texts.\<close>

type_synonym rawDepth = "feedError + (string list list \<times> string list list)"

definition feedDepth :: "(string \<Rightarrow> dec option) \<Rightarrow> rawDepth \<Rightarrow> feedError + (Level list \<times> Level list)" where
  "feedDepth parse raw =
     (case raw of
        Inl e \<Rightarrow> Inl e
      | Inr (rawBids, rawAsks) \<Rightarrow>
          (case parseLevels parse rawBids of
             Inl e \<Rightarrow> Inl e
           | Inr bids \<Rightarrow>
               (case parseLevels parse rawAsks of
                  Inl e \<Rightarrow> Inl e
                | Inr asks \<Rightarrow>
                    (case (bids, asks) of
                       (b # _, a # _) \<Rightarrow> if \<not> lv_Price b < lv_Price a then Inl CrossedBook else Inr (bids, asks)
                     | _ \<Rightarrow> Inl EmptySide))))"

section \<open>Index price and candlesticks\<close>

definition IndexPrice :: "(string \<Rightarrow> dec option) \<Rightarrow> feedError + string \<Rightarrow> feedError + dec" where
  "IndexPrice parse raw =
     (case raw of
        Inl e \<Rightarrow> Inl e
      | Inr v \<Rightarrow> (case parse v of None \<Rightarrow> Inl BadIndexPrice | Some p \<Rightarrow> if p \<le> 0 then Inl BadIndexPrice else Inr p))"

text \<open>A column of a candlestick row: a text, a whole number, null (which decodes to the zero value), or something else.\<close>

datatype rawColumn = RawText string | RawNumber int | RawNull | RawOther

record Candle =
  cd_OpenTime :: int
  cd_Open :: dec
  cd_High :: dec
  cd_Low :: dec
  cd_Close :: dec
  cd_Volume :: dec
  cd_Trades :: int

definition MaxKlineLimit :: int where "MaxKlineLimit = 1500"

definition rawDecimal :: "(string \<Rightarrow> dec option) \<Rightarrow> rawColumn \<Rightarrow> dec option" where
  "rawDecimal parse c = (case c of RawText v \<Rightarrow> parse v | RawNull \<Rightarrow> parse [] | _ \<Rightarrow> None)"

definition rawInt :: "rawColumn \<Rightarrow> int option" where
  "rawInt c = (case c of RawNumber n \<Rightarrow> Some n | RawNull \<Rightarrow> Some 0 | _ \<Rightarrow> None)"

definition parseCandle :: "(string \<Rightarrow> dec option) \<Rightarrow> rawColumn list \<Rightarrow> feedError + Candle" where
  "parseCandle parse r =
     (if length r < 9 then Inl BadCandle
      else
        (case (rawInt (r ! 0), rawDecimal parse (r ! 1), rawDecimal parse (r ! 2), rawDecimal parse (r ! 3), rawDecimal parse (r ! 4),
               rawDecimal parse (r ! 5), rawInt (r ! 8)) of
           (Some t, Some op, Some hi, Some lo, Some cl, Some vol, Some trades) \<Rightarrow>
             if t \<le> 0 then Inl BadCandle
             else Inr \<lparr> cd_OpenTime = t, cd_Open = op, cd_High = hi, cd_Low = lo, cd_Close = cl, cd_Volume = vol, cd_Trades = trades \<rparr>
         | _ \<Rightarrow> Inl BadCandle))"

fun parseCandles :: "(string \<Rightarrow> dec option) \<Rightarrow> rawColumn list list \<Rightarrow> feedError + Candle list" where
  "parseCandles parse [] = Inr []"
| "parseCandles parse (r # rs) =
     (case parseCandle parse r of
        Inl e \<Rightarrow> Inl e
      | Inr c \<Rightarrow> (case parseCandles parse rs of Inl e \<Rightarrow> Inl e | Inr cs \<Rightarrow> Inr (c # cs)))"

definition feedKlines :: "(string \<Rightarrow> dec option) \<Rightarrow> feedError + rawColumn list list \<Rightarrow> feedError + Candle list" where
  "feedKlines parse raw = (case raw of Inl e \<Rightarrow> Inl e | Inr rows \<Rightarrow> parseCandles parse rows)"

section \<open>What a depth guarantees\<close>

lemma parseLevel_good: "parseLevel parse r = Inr (Some l) \<Longrightarrow> 0 < lv_Price l \<and> 0 < lv_Qty l"
  by (auto simp: parseLevel_def split: list.splits option.splits if_splits)

lemma parseLevels_good: "parseLevels parse rs = Inr ls \<Longrightarrow> l \<in> set ls \<Longrightarrow> 0 < lv_Price l \<and> 0 < lv_Qty l"
proof (induction rs arbitrary: ls)
  case (Cons r rs)
  then obtain o' ls' where r: "parseLevel parse r = Inr o'" "parseLevels parse rs = Inr ls'"
    "ls = (case o' of None \<Rightarrow> [] | Some x \<Rightarrow> [x]) @ ls'" by (auto split: sum.splits)
  show ?case
  proof (cases "l \<in> set ls'")
    case True
    with Cons.IH [OF r(2)] show ?thesis by blast
  next
    case False
    with r(3) Cons.prems(2) have "o' = Some l" by (auto split: option.splits)
    with parseLevel_good r(1) show ?thesis by blast
  qed
qed simp

lemma feedDepth_good:
  assumes "feedDepth parse raw = Inr (bids, asks)"
  shows "bids \<noteq> [] \<and> asks \<noteq> [] \<and> lv_Price (hd bids) < lv_Price (hd asks) \<and> (\<forall>l\<in>set (bids @ asks). 0 < lv_Price l \<and> 0 < lv_Qty l)"
proof -
  from assms obtain rb ra where "parseLevels parse rb = Inr bids" "parseLevels parse ra = Inr asks"
    and "bids \<noteq> [] \<and> asks \<noteq> [] \<and> lv_Price (hd bids) < lv_Price (hd asks)"
    by (auto simp: feedDepth_def split: sum.splits prod.splits list.splits if_splits)
  with parseLevels_good show ?thesis by (metis Un_iff set_append)
qed

lemma DepthLimitFor_least: "DepthLimitFor n = Some l \<Longrightarrow> n \<le> int l \<and> (\<forall>k\<in>set DepthLimits. n \<le> int k \<longrightarrow> l \<le> k)"
  by (auto simp: DepthLimitFor_def DepthLimits_def split: if_splits)

end
