(* ===== verification/Mirror.thy ===== *)
theory Mirror
  imports EngineSteps Recovery BinanceFeed
begin

text \<open>
  The mirror of the outside order book, src/internal/service/mirror.go: every round the levels of Binance are turned into limit
  orders of the system account, placed and cancelled inside the engine; when the outside data is too old, all of them are withdrawn. Times are
  nanoseconds; one reading of the clock per round.

  \<^item> What Binance answered in a round is an argument, already decoded (BinanceFeed).
  \<^item> The two sides are placed by two goroutines: which of them does its next placement is given by a schedule, a list of choices (True is the bid
    side); when it is used up the bids finish first.
  \<^item> The symbols of a round run one after the other here; in the source they run concurrently, each on its own book and state.
\<close>

record MirrorConfig =
  mir_Symbols :: "symbol list"
  mir_Levels :: int
  mir_Interval :: int
  mir_Leverage :: int
  mir_StaleAfter :: int

definition mirrorValidate :: "MirrorConfig \<Rightarrow> bool" where
  "mirrorValidate c \<longleftrightarrow>
     mir_Symbols c \<noteq> [] \<and> \<not> mir_Levels c \<le> 0 \<and> \<not> (mir_Interval c \<le> 0 \<or> mir_StaleAfter c \<le> 0) \<and> \<not> mir_Leverage c \<le> 0"

record mirrorContractInfo =
  mci_qtyDP :: nat
  mci_volumeStep :: dec
  mci_minVolume :: dec

text \<open>A time that was never set is None.\<close>

record mirrorSymState =
  mss_lastOK :: "int option"
  mss_stopped :: bool
  mss_lastWarn :: "int option"

record MirrorState = EngineState +
  mi_ready :: bool
  mi_contracts :: "symbol \<rightharpoonup> mirrorContractInfo"
  mi_states :: "symbol \<Rightarrow> mirrorSymState"

record MirrorEnv =
  me_engine :: EngineEnv
  me_cfg :: MirrorConfig
  me_startedAt :: int

definition mirrorLib :: "MirrorEnv \<Rightarrow> dec_lib" where
  "mirrorLib M = ee_lib (me_engine M)"

text \<open>The depth that is asked for, when the configuration is accepted.\<close>

definition NewMirrorService :: "MirrorConfig \<Rightarrow> nat option" where
  "NewMirrorService c = (if \<not> mirrorValidate c then None else DepthLimitFor (mir_Levels c))"

datatype mirrorError =
    MirrorNoContract symbol
  | MirrorSource feedError
  | MirrorOneSided
  | MirrorEngine err

definition inEngine :: "('s \<Rightarrow> 'a res \<times> 's) \<Rightarrow> 's \<Rightarrow> (mirrorError + 'a) \<times> 's" where
  "inEngine f s = (case f s of (Inl e, s') \<Rightarrow> (Inl (MirrorEngine e), s') | (Inr a, s') \<Rightarrow> (Inr a, s'))"

section \<open>Orders of the system account\<close>

definition liveOrders :: "symbol \<Rightarrow> 'z EngineState_scheme \<Rightarrow> Order list" where
  "liveOrders sy s = filter (\<lambda>o'. ord_Action o' = ActionOpen \<and> ord_Type o' = OrderTypeLimit) (ordFindActiveByUID (es_orders s) UID sy)"

definition toLiveOrder :: "Order \<Rightarrow> LiveOrder" where
  "toLiveOrder o' = \<lparr> lo_ID = ord_OrderID o', lo_Price = ord_Price o', lo_Amount = ord_Amount o', lo_Remaining = RemainingAmount o' \<rparr>"

definition mirrorOrder :: "nat \<Rightarrow> int \<Rightarrow> symbol \<Rightarrow> Side \<Rightarrow> int \<Rightarrow> Placement \<Rightarrow> FreezeResult \<Rightarrow> Order" where
  "mirrorOrder i now sy side leverage p fr =
     \<lparr> ord_OrderID = i, ord_UID = UID, ord_Symbol = sy, ord_Side = side, ord_Action = ActionOpen, ord_Type = OrderTypeLimit,
       ord_Price = pm_Price p, ord_Amount = pm_Qty p, ord_TradedAmount = 0, ord_AvgDealPrice = 0,
       ord_FrozenMargin = frz_FromAvailable fr, ord_FrozenCredit = frz_FromCredit fr, ord_Leverage = nat (leverage mod 2 ^ 32),
       ord_ReduceOnly = False, ord_Liquidation = False, ord_Status = OrderStatusOpen, ord_CreateTime = now, ord_UpdateTime = now,
       ord_RequestID = None, ord_RequestHash = None \<rparr>"

definition mirrorPlace :: "MirrorEnv \<Rightarrow> int \<Rightarrow> symbol \<Rightarrow> Side \<Rightarrow> Placement \<Rightarrow> 'z EngineState_scheme \<Rightarrow> unit res \<times> 'z EngineState_scheme" where
  "mirrorPlace M now sy side p s =
     (let E = me_engine M; leverage = mir_Leverage (me_cfg M);
          requiredMargin = lib_Div (ee_lib E) (pm_Qty p * pm_Price p) (of_int leverage) in
      andThen (onAccounts (FreezeMargin (ee_lib E) (\<lambda>_ rows. rows) (TotalUnrealizedPnl (marksOf s) UID (mny_positions s)) UID requiredMargin))
        (\<lambda>fr. andThen (nextID E)
        (\<lambda>i. let o' = mirrorOrder i (now div 1000000) sy side leverage p fr in
           andThen (onOrders (ordInsert (ee_lib E) o'))
           (\<lambda>_. SubmitOrder E (now div 1000000) o' now))) s)"

text \<open>Both sides: a side that fails places no more, the other one goes on; the error of the bids is reported first.\<close>

fun placeBoth ::
  "MirrorEnv \<Rightarrow> int \<Rightarrow> symbol \<Rightarrow> bool list \<Rightarrow> Placement list \<Rightarrow> Placement list \<Rightarrow> err option \<Rightarrow> err option \<Rightarrow>
   'z EngineState_scheme \<Rightarrow> unit res \<times> 'z EngineState_scheme" where
  "placeBoth M now sy sched [] [] bidErr askErr s =
     ((case bidErr of Some e \<Rightarrow> Inl e | None \<Rightarrow> (case askErr of Some e \<Rightarrow> Inl e | None \<Rightarrow> Inr ())), s)"
| "placeBoth M now sy sched (b # bs) [] bidErr askErr s =
     (case mirrorPlace M now sy SideLong b s of
        (Inl e, s') \<Rightarrow> if isPanic e then (Inl e, s') else placeBoth M now sy sched [] [] (Some e) askErr s'
      | (Inr _, s') \<Rightarrow> placeBoth M now sy sched bs [] bidErr askErr s')"
| "placeBoth M now sy sched [] (a # as) bidErr askErr s =
     (case mirrorPlace M now sy SideShort a s of
        (Inl e, s') \<Rightarrow> if isPanic e then (Inl e, s') else placeBoth M now sy sched [] [] bidErr (Some e) s'
      | (Inr _, s') \<Rightarrow> placeBoth M now sy sched [] as bidErr askErr s')"
| "placeBoth M now sy sched (b # bs) (a # as) bidErr askErr s =
     (if sched = [] \<or> hd sched then
        (case mirrorPlace M now sy SideLong b s of
           (Inl e, s') \<Rightarrow> if isPanic e then (Inl e, s') else placeBoth M now sy (tl sched) [] (a # as) (Some e) askErr s'
         | (Inr _, s') \<Rightarrow> placeBoth M now sy (tl sched) bs (a # as) bidErr askErr s')
      else
        (case mirrorPlace M now sy SideShort a s of
           (Inl e, s') \<Rightarrow> if isPanic e then (Inl e, s') else placeBoth M now sy (tl sched) (b # bs) [] bidErr (Some e) s'
         | (Inr _, s') \<Rightarrow> placeBoth M now sy (tl sched) (b # bs) as bidErr askErr s'))"

text \<open>The rows as they were read before the placements are what is cancelled.\<close>

definition syncLadders ::
  "MirrorEnv \<Rightarrow> int \<Rightarrow> bool list \<Rightarrow> symbol \<Rightarrow> Level list \<Rightarrow> Level list \<Rightarrow> 'z EngineState_scheme \<Rightarrow> unit res \<times> 'z EngineState_scheme" where
  "syncLadders M now sched sy bids asks s =
     (let live = liveOrders sy s;
          (cancelBids, placeBids) = BinancePlan.Plan bids (map toLiveOrder (filter (\<lambda>o'. ord_Side o' = SideLong) live));
          (cancelAsks, placeAsks) = BinancePlan.Plan asks (map toLiveOrder (filter (\<lambda>o'. ord_Side o' \<noteq> SideLong) live)) in
      andThen (placeBoth M now sy sched placeBids placeAsks None None)
        (\<lambda>_. andThen (mapEach (\<lambda>i. case sql_first (\<lambda>o'. ord_OrderID o' = i) (rev live) of
                                    None \<Rightarrow> retn ()
                                  | Some o' \<Rightarrow> CancelOrder (me_engine M) (now div 1000000) o')
                       (cancelBids @ cancelAsks))
        (\<lambda>_. retn ())) s)"

definition cancelAllLive :: "MirrorEnv \<Rightarrow> int \<Rightarrow> symbol \<Rightarrow> 'z EngineState_scheme \<Rightarrow> unit res \<times> 'z EngineState_scheme" where
  "cancelAllLive M now sy s =
     andThen (mapEach (CancelOrder (me_engine M) (now div 1000000)) (liveOrders sy s)) (\<lambda>_. retn ()) s"

section \<open>A round\<close>

definition setSym :: "symbol \<Rightarrow> (mirrorSymState \<Rightarrow> mirrorSymState) \<Rightarrow> MirrorState \<Rightarrow> MirrorState" where
  "setSym sy f s = s\<lparr> mi_states := (mi_states s)(sy := f (mi_states s sy)) \<rparr>"

definition sourceFailed :: "MirrorEnv \<Rightarrow> int \<Rightarrow> symbol \<Rightarrow> mirrorError \<Rightarrow> MirrorState \<Rightarrow> (mirrorError + unit) \<times> MirrorState" where
  "sourceFailed M now sy cause s =
     (let since = (case mss_lastOK (mi_states s sy) of None \<Rightarrow> me_startedAt M | Some t \<Rightarrow> t) in
      if now - since \<le> mir_StaleAfter (me_cfg M) then (Inl cause, s)
      else
        andThen (inEngine (cancelAllLive M now sy))
          (\<lambda>_ s'. (Inr (), setSym sy (\<lambda>st. st\<lparr> mss_stopped := True \<rparr>) s')) s)"

definition cycle ::
  "MirrorEnv \<Rightarrow> int \<Rightarrow> bool list \<Rightarrow> symbol \<Rightarrow> feedError + (Level list \<times> Level list) \<Rightarrow> MirrorState \<Rightarrow> (mirrorError + unit) \<times> MirrorState" where
  "cycle M now sched sy depth s =
     (case depth of
        Inl e \<Rightarrow> sourceFailed M now sy (MirrorSource e) s
      | Inr (bids, asks) \<Rightarrow>
          let ci = (case mi_contracts s sy of None \<Rightarrow> \<lparr> mci_qtyDP = 0, mci_volumeStep = 0, mci_minVolume = 0 \<rparr> | Some ci \<Rightarrow> ci);
              want = (\<lambda>levels. DesiredLevels (mirrorLib M) levels (nat (mir_Levels (me_cfg M))) (mci_qtyDP ci) (mci_volumeStep ci) (mci_minVolume ci)) in
          if want bids = [] \<or> want asks = [] then sourceFailed M now sy MirrorOneSided s
          else inEngine (syncLadders M now sched sy (want bids) (want asks))
                 (setSym sy (\<lambda>st. st\<lparr> mss_lastOK := Some now, mss_stopped := False \<rparr>) s))"

text \<open>A message of one symbol is written at most every 30 seconds; what remains of a failure is whether it was written.\<close>

definition mirrorWarn :: "int \<Rightarrow> symbol \<Rightarrow> MirrorState \<Rightarrow> MirrorState" where
  "mirrorWarn now sy s =
     (case mss_lastWarn (mi_states s sy) of
        None \<Rightarrow> setSym sy (\<lambda>st. st\<lparr> mss_lastWarn := Some now \<rparr>) s
      | Some t \<Rightarrow> if now - t < 30000000000 then s else setSym sy (\<lambda>st. st\<lparr> mss_lastWarn := Some now \<rparr>) s)"

fun contractInfos :: "Coin list \<Rightarrow> symbol list \<Rightarrow> (symbol \<rightharpoonup> mirrorContractInfo) \<Rightarrow> (mirrorError + unit) \<times> (symbol \<rightharpoonup> mirrorContractInfo)" where
  "contractInfos coins [] m = (Inr (), m)"
| "contractInfos coins (sy # sys) m =
     (case coinBySymbol coins sy of
        None \<Rightarrow> (Inl (MirrorNoContract sy), m)
      | Some c \<Rightarrow> contractInfos coins sys
          (m(sy \<mapsto> \<lparr> mci_qtyDP = coin_BaseCoinScale c, mci_volumeStep = coin_VolumeStep c, mci_minVolume = coin_MinVolume c \<rparr>)))"

definition ensureReady :: "MirrorEnv \<Rightarrow> MirrorState \<Rightarrow> (mirrorError + unit) \<times> MirrorState" where
  "ensureReady M s =
     (let s1 = s\<lparr> mny_accounts := snd (CreateIfAbsent (mny_accounts s) UID) \<rparr> in
      case contractInfos (ee_coins (me_engine M)) (mir_Symbols (me_cfg M)) (mi_contracts s1) of
        (r, m) \<Rightarrow> (r, s1\<lparr> mi_contracts := m \<rparr>))"

definition mirrorSymbol ::
  "MirrorEnv \<Rightarrow> int \<Rightarrow> (symbol \<Rightarrow> bool list) \<Rightarrow> (symbol \<Rightarrow> feedError + (Level list \<times> Level list)) \<Rightarrow> symbol \<Rightarrow> MirrorState \<Rightarrow> unit res \<times> MirrorState" where
  "mirrorSymbol M now sched depth sy s =
     (if \<not> OwnsSymbol (me_engine M) sy then (Inr (), s)
      else
        (case cycle M now (sched sy) sy (depth sy) s of
           (Inr _, s') \<Rightarrow> (Inr (), s')
         | (Inl (MirrorEngine e), s') \<Rightarrow> if isPanic e then (Inl e, s') else (Inr (), mirrorWarn now sy s')
         | (Inl _, s') \<Rightarrow> (Inr (), mirrorWarn now sy s')))"

definition mirrorStep ::
  "MirrorEnv \<Rightarrow> int \<Rightarrow> (symbol \<Rightarrow> bool list) \<Rightarrow> (symbol \<Rightarrow> feedError + (Level list \<times> Level list)) \<Rightarrow> MirrorState \<Rightarrow> unit res \<times> MirrorState" where
  "mirrorStep M now sched depth s =
     (case (if mi_ready s then (Inr (), s) else ensureReady M s) of
        (Inl _, s1) \<Rightarrow> (Inr (), s1)
      | (Inr _, s1) \<Rightarrow>
          andThen (mapEach (mirrorSymbol M now sched depth) (mir_Symbols (me_cfg M))) (\<lambda>_. retn ()) (s1\<lparr> mi_ready := True \<rparr>))"

section \<open>Cancelling what is live\<close>

text \<open>What a cancellation does to the rows of the orders and to the books.\<close>

lemma aside_orders [simp]:
  "es_orders (snd (UnfreezeMarginOf E u x y s)) = es_orders s" "es_books (snd (UnfreezeMarginOf E u x y s)) = es_books s"
  "es_orders (snd (PublishUserSnapshot E u s)) = es_orders s" "es_books (snd (PublishUserSnapshot E u s)) = es_books s"
  "es_orders (snd (PublishDepth sy s)) = es_orders s" "bookOf (es_books (snd (PublishDepth sy s))) k = bookOf (es_books s) k"
  by (auto simp: UnfreezeMarginOf_def onAccounts_def PublishUserSnapshot_def publish_def PublishDepth_def onBook_def andThen_def bookOf_def BookFor_def
      Let_def split: prod.splits option.splits)

lemma snd_andThen: "snd (andThen f k s) = (case fst (f s) of Inl _ \<Rightarrow> snd (f s) | Inr a \<Rightarrow> snd (k a (snd (f s))))"
  by (simp add: andThen_def split: prod.splits sum.splits)

lemma finalizeOrderCancel_rows [simp]:
  "es_orders (snd (finalizeOrderCancel E now o' r s)) = snd (ordMarkCanceled (ord_OrderID o') now (es_orders s))"
  "es_books (snd (finalizeOrderCancel E now o' r s)) = es_books s"
proof -
  have "es_orders (snd (cancelAndReleaseMargin E now o' r s)) = snd (ordMarkCanceled (ord_OrderID o') now (es_orders s)) \<and>
      es_books (snd (cancelAndReleaseMargin E now o' r s)) = es_books s"
    by (simp add: cancelAndReleaseMargin_def snd_andThen onOrders_def retn_def split: prod.splits sum.splits)
  thus "es_orders (snd (finalizeOrderCancel E now o' r s)) = snd (ordMarkCanceled (ord_OrderID o') now (es_orders s))"
    "es_books (snd (finalizeOrderCancel E now o' r s)) = es_books s"
    by (simp_all add: finalizeOrderCancel_def snd_andThen retn_def split: sum.splits)
qed

lemma CancelOrder_rows:
  assumes "OwnsSymbol E (ord_Symbol o')" "CancelOrder E now o' s = (Inr (), t)"
  shows "es_orders t = snd (ordMarkCanceled (ord_OrderID o') now (es_orders s))"
    "bookOf (es_books t) k = (if k = ord_Symbol o' then snd (Cancel (bookOf (es_books s) k) (ord_OrderID o')) else bookOf (es_books s) k)"
proof -
  let ?f = "onBook (ord_Symbol o') (\<lambda>b. case Cancel b (ord_OrderID o') of (r, b') \<Rightarrow> (Inr r, b'))"
  obtain remaining ok b' where c: "Cancel (bookOf (es_books s) (ord_Symbol o')) (ord_OrderID o') = ((remaining, ok), b')" by (metis prod.exhaust)
  hence r: "fst (?f s) = Inr (remaining, ok)" by (cases "BookFor (es_books s) (ord_Symbol o')") (simp add: onBook_def bookOf_def)
  have f: "es_orders (snd (?f s)) = es_orders s"
    "bookOf (es_books (snd (?f s))) k = (if k = ord_Symbol o' then snd (Cancel (bookOf (es_books s) k) (ord_OrderID o')) else bookOf (es_books s) k)" for k
    using c by (auto simp: onBook_def bookOf_def BookFor_def Let_def split: prod.splits option.splits)
  from assms have t: "t = snd (if \<not> ok then finalizeOrderCancel E now o' (RemainingAmount o') (snd (?f s))
      else andThen (PublishDepth (ord_Symbol o')) (\<lambda>_. finalizeOrderCancel E now o' remaining) (snd (?f s)))"
    using r by (simp add: CancelOrder_def andThen_def split: prod.splits sum.splits if_splits)
  have depth: "fst (PublishDepth sy z) = Inr ()" for sy and z :: "'a EngineState_scheme"
    by (simp add: PublishDepth_def andThen_def onBook_def publish_def Let_def split: prod.splits)
  show "es_orders t = snd (ordMarkCanceled (ord_OrderID o') now (es_orders s))"
    "bookOf (es_books t) k = (if k = ord_Symbol o' then snd (Cancel (bookOf (es_books s) k) (ord_OrderID o')) else bookOf (es_books s) k)"
    by (simp_all add: t f snd_andThen depth del: if_split split del: if_split) (auto simp: f snd_andThen depth)
qed

lemma Cancel_contains:
  assumes "wf_book b" shows "Contains (snd (Cancel b i)) j \<longleftrightarrow> Contains b j \<and> j \<noteq> i"
proof -
  have "wf_book (snd (Cancel b i))" "flat (levelsOf (snd (Cancel b i)) buy) = filter (\<lambda>x. ro_OrderID x \<noteq> i) (flat (levelsOf b buy))" for buy
    using Cancel_exact [OF assms] by blast+
  thus ?thesis using book.has_law [OF assms, of j] book.has_law [of "snd (Cancel b i)" j] by auto
qed

text \<open>Every order of a list that is cancelled without an error is inactive and off its book afterwards; no other order becomes active.\<close>

lemma cancel_each:
  assumes "mapEach (CancelOrder E now) os s = (Inr rs, t)" "\<And>o'. o' \<in> set os \<Longrightarrow> OwnsSymbol E (ord_Symbol o')"
    and "decimal_lib (ee_lib E)" "okEngine (\<lambda>_ _. True) s"
  shows "(\<forall>r\<in>set (es_orders t). ActiveOrderStatuses (ord_Status r) \<longrightarrow> r \<in> set (es_orders s) \<and> ord_OrderID r \<notin> ord_OrderID ` set os) \<and>
    (\<forall>k i. \<not> Contains (bookOf (es_books s) k) i \<longrightarrow> \<not> Contains (bookOf (es_books t) k) i) \<and>
    (\<forall>o'\<in>set os. \<not> Contains (bookOf (es_books t) (ord_Symbol o')) (ord_OrderID o'))"
  using assms
proof (induction os arbitrary: s rs)
  case Nil
  thus ?case by (simp add: retn_def)
next
  case (Cons o' os)
  from Cons.prems(1) obtain s1 rs1 where s1: "CancelOrder E now o' s = (Inr (), s1)" "mapEach (CancelOrder E now) os s1 = (Inr rs1, t)"
    by (auto simp: andThen_def retn_def split: prod.splits sum.splits)
  have own: "OwnsSymbol E (ord_Symbol o')" using Cons.prems(2) by simp
  note step = CancelOrder_rows [OF own s1(1)]
  have ok1: "okEngine (\<lambda>_ _. True) s1" using keepsD [OF anyBook.keeps_cancelling(3) [OF Cons.prems(3)] Cons.prems(4), of now o'] s1(1) by simp
  have wf: "wf_book (bookOf (es_books s) k)" for k
    using okEngineD(6) [OF Cons.prems(4), of k] by (auto simp: bookOf_def BookFor_def wf_NewBook split: option.splits)
  note IH = Cons.IH [OF s1(2) Cons.prems(2) Cons.prems(3) ok1]
  have active: "r \<in> set (es_orders s) \<and> ord_OrderID r \<noteq> ord_OrderID o'" if "r \<in> set (es_orders s1)" "ActiveOrderStatuses (ord_Status r)" for r
    using that by (auto simp: step(1) ordMarkCanceled_def sql_exec_def sql_update_def split: if_splits)
  have gone: "Contains (bookOf (es_books s1) k) i \<longleftrightarrow> Contains (bookOf (es_books s) k) i \<and> \<not> (k = ord_Symbol o' \<and> i = ord_OrderID o')" for k i
    using Cancel_contains [OF wf] by (simp add: step(2))
  show ?case using IH active by (auto simp: gone)
qed

lemma set_liveOrders: "o' \<in> set (liveOrders sy s) \<longleftrightarrow> o' \<in> set (es_orders s) \<and> ord_UID o' = UID \<and> (sy = [] \<or> ord_Symbol o' = sy) \<and>
   ActiveOrderStatuses (ord_Status o') \<and> ord_Action o' = ActionOpen \<and> ord_Type o' = OrderTypeLimit"
  by (auto simp: liveOrders_def ordFindActiveByUID_def newest_first_def)

lemma setSym_fields [simp]:
  "es_orders (setSym sy f s) = es_orders s" "es_books (setSym sy f s) = es_books s" "mi_states (setSym sy f s) sy = f (mi_states s sy)"
  by (simp_all add: setSym_def)

text \<open>C37. When the outside data of a contract is too old, a round that ends without an error leaves the system account without any active order on
  the contract and takes every one it had off the book, so nobody can trade against a stale quote; before that age, a failed fetch
  changes nothing at all.\<close>

theorem mirror_stale_withdrawn:
  assumes L: "decimal_lib (ee_lib (me_engine M))" and s: "wfEngine s" and sy: "sy \<noteq> []" "OwnsSymbol (me_engine M) sy"
    and round: "cycle M now sched sy (Inl e) s = (r, t)"
  shows "(now - (case mss_lastOK (mi_states s sy) of None \<Rightarrow> me_startedAt M | Some t0 \<Rightarrow> t0) \<le> mir_StaleAfter (me_cfg M) \<longrightarrow>
       r = Inl (MirrorSource e) \<and> t = s) \<and>
     (now - (case mss_lastOK (mi_states s sy) of None \<Rightarrow> me_startedAt M | Some t0 \<Rightarrow> t0) > mir_StaleAfter (me_cfg M) \<and> r = Inr () \<longrightarrow>
       liveOrders sy t = [] \<and> mss_stopped (mi_states t sy) \<and>
       (\<forall>o'\<in>set (liveOrders sy s). \<not> Contains (bookOf (es_books t) sy) (ord_OrderID o')))"
proof (intro conjI impI)
  assume "now - (case mss_lastOK (mi_states s sy) of None \<Rightarrow> me_startedAt M | Some t0 \<Rightarrow> t0) \<le> mir_StaleAfter (me_cfg M)"
  with round show "r = Inl (MirrorSource e)" "t = s" by (simp_all add: cycle_def sourceFailed_def)
next
  assume stale: "now - (case mss_lastOK (mi_states s sy) of None \<Rightarrow> me_startedAt M | Some t0 \<Rightarrow> t0) > mir_StaleAfter (me_cfg M) \<and> r = Inr ()"
  hence "sourceFailed M now sy (MirrorSource e) s = (Inr (), t)" using round by (simp add: cycle_def)
  with stale have finished: "andThen (inEngine (cancelAllLive M now sy)) (\<lambda>_ s'. (Inr (), setSym sy (\<lambda>st. st\<lparr> mss_stopped := True \<rparr>) s')) s = (Inr (), t)"
    by (simp add: sourceFailed_def Let_def)
  obtain q s1 where q: "mapEach (CancelOrder (me_engine M) (now div 1000000)) (liveOrders sy s) s = (q, s1)" by fastforce
  with finished obtain rs where each: "mapEach (CancelOrder (me_engine M) (now div 1000000)) (liveOrders sy s) s = (Inr rs, s1)"
    and t: "t = setSym sy (\<lambda>st. st\<lparr> mss_stopped := True \<rparr>) s1"
    by (cases q) (simp_all add: cancelAllLive_def inEngine_def andThen_def retn_def)
  have own: "OwnsSymbol (me_engine M) (ord_Symbol o') \<and> ord_Symbol o' = sy" if "o' \<in> set (liveOrders sy s)" for o'
    using that sy by (simp add: set_liveOrders)
  have owns: "OwnsSymbol (me_engine M) (ord_Symbol o')" if "o' \<in> set (liveOrders sy s)" for o' using own [OF that] by blast
  note after = cancel_each [OF each owns L s [unfolded wfEngine_def]]
  have "o' \<notin> set (liveOrders sy t)" for o'
  proof
    assume "o' \<in> set (liveOrders sy t)"
    hence live: "o' \<in> set (es_orders s1)" "ActiveOrderStatuses (ord_Status o')" "ord_UID o' = UID \<and> (sy = [] \<or> ord_Symbol o' = sy) \<and>
        ord_Action o' = ActionOpen \<and> ord_Type o' = OrderTypeLimit" by (simp_all add: t set_liveOrders)
    with after have "o' \<in> set (es_orders s)" "ord_OrderID o' \<notin> ord_OrderID ` set (liveOrders sy s)" by blast+
    moreover from this(1) live have "o' \<in> set (liveOrders sy s)" by (simp add: set_liveOrders)
    ultimately show False by blast
  qed
  thus "liveOrders sy t = []" by (metis list.set_intros(1) neq_Nil_conv)
  show "mss_stopped (mi_states t sy)" by (simp add: t)
  show "\<forall>o'\<in>set (liveOrders sy s). \<not> Contains (bookOf (es_books t) sy) (ord_OrderID o')" using after own by (auto simp: t)
qed

text \<open>One resting order of the system account, and a feed that has been silent for eleven seconds.\<close>

definition demoMirrorEnv :: MirrorEnv where
  "demoMirrorEnv = \<lparr> me_engine = demoEnv,
     me_cfg = \<lparr> mir_Symbols = [''BTCUSDT''], mir_Levels = 2, mir_Interval = 1000000000, mir_Leverage = 5, mir_StaleAfter = 10000000000 \<rparr>,
     me_startedAt = 0 \<rparr>"

definition demoMirror :: MirrorState where
  "demoMirror =
     \<lparr> mny_accounts = map (\<lambda>a. a\<lparr> acc_UID := UID \<rparr>) demoAccounts, mny_positions = [], mny_txs = [],
       es_orders = [demoFillOrder\<lparr> ord_UID := UID \<rparr>], es_conds = [],
       es_trades = [], es_klines = [], es_fund = (Some 1000, []), es_progress = [], es_books = NewEngine,
       es_marks = (\<lambda>_. \<lparr> mc_mark = Some 100, mc_index = Some (100, 0), mc_last = None, mc_jump = None \<rparr>),
       es_windows = (\<lambda>_. []), es_ids = 0, es_pushes = [], mi_ready = True, mi_contracts = Map.empty,
       mi_states = (\<lambda>_. \<lparr> mss_lastOK = None, mss_stopped = False, mss_lastWarn = None \<rparr>) \<rparr>"

lemma wf_demoMirror: "wfEngine demoMirror"
  using wf_demoAccounts by (simp add: wfEngine_def okEngine_def demoMirror_def wf_positions_def NewEngine_def wf_accounts_def demoAccounts_def fits_row_def)

lemmas mirror_eval = demoMirrorEnv_def demoMirror_def demoEnv_def demoFillOrder_def demoAccounts_def cycle_def sourceFailed_def cancelAllLive_def
  inEngine_def andThen_def retn_def liveOrders_def ordFindActiveByUID_def newest_first_def Let_def

lemmas cancel_eval = CancelOrder_def OwnsSymbol_def onBook_def BookFor_def Cancel_def NewBook_def NewEngine_def nodeOf_def finalizeOrderCancel_def
  cancelAndReleaseMargin_def onOrders_def ordMarkCanceled_def sql_exec_eq sql_update_def ProportionalFrozen_def sdiv_def UnfreezeMarginOf_def onAccounts_def
  UnfreezeMargin_def withAccount_def GetOrCreate_def FindByUID_def sql_first_def AdjustFrozenMargin_def RemainingAmount_def PublishUserSnapshot_def
  View_def publish_def round_to_id col_def

lemma demoMirror_withdraws: "fst (cycle demoMirrorEnv 11000000000 [] ''BTCUSDT'' (Inl FetchFailed) demoMirror) = Inr ()"
  by (simp add: mirror_eval cancel_eval)

lemma mirror_stale_withdrawn_witness:
  "length (liveOrders ''BTCUSDT'' demoMirror) = 1 \<and>
   liveOrders ''BTCUSDT'' (snd (cycle demoMirrorEnv 11000000000 [] ''BTCUSDT'' (Inl FetchFailed) demoMirror)) = []"
proof -
  have "cycle demoMirrorEnv 11000000000 [] ''BTCUSDT'' (Inl FetchFailed) demoMirror =
      (Inr (), snd (cycle demoMirrorEnv 11000000000 [] ''BTCUSDT'' (Inl FetchFailed) demoMirror))"
    using demoMirror_withdraws by (simp add: prod_eq_iff)
  moreover have "decimal_lib (ee_lib (me_engine demoMirrorEnv))" "OwnsSymbol (me_engine demoMirrorEnv) ''BTCUSDT''"
    by (simp_all add: demoMirrorEnv_def demoEnv_def OwnsSymbol_def std_decimal_lib)
  ultimately show ?thesis
    using mirror_stale_withdrawn [of demoMirrorEnv demoMirror "''BTCUSDT''" 11000000000 "[]" FetchFailed] wf_demoMirror
    by (simp add: mirror_eval)
qed

section \<open>A round keeps the engine sound\<close>

lemma keeps_mirrorFreeze:
  assumes "decimal_lib L" shows "keeps wf_accounts (FreezeMargin L (\<lambda>_ rows. rows) tu UID amount)"
proof -
  have "FreezeMargin L (\<lambda>_ rows. rows) tu UID amount =
      withAccount UID (\<lambda>account rows. (Inr \<lparr> frz_FromAvailable = amount, frz_FromCredit = 0 \<rparr>, FreezeUnconditional L (acc_ID account) amount rows))"
    by (rule ext) (simp add: FreezeMargin_def withAccount_def split: prod.split option.split)
  thus ?thesis by (simp only:) (intro keeps_withAccount keepsI, simp add: wf_statements [OF assms])
qed

lemma CreateIfAbsent_wf: "wf_accounts rows \<Longrightarrow> wf_accounts (snd (CreateIfAbsent rows u))"
proof -
  assume wf: "wf_accounts rows"
  from GetOrCreate_wf [OF wf, of u] obtain a rows' where g: "GetOrCreate rows u = (Some a, rows')" "wf_accounts rows'" by blast
  have "snd (CreateIfAbsent rows u) = snd (GetOrCreate rows u)"
    by (simp add: CreateIfAbsent_def GetOrCreate_def insertIgnore_def Let_def split: option.split)
  with g show ?thesis by simp
qed

lemma Plan_prices: "p \<in> set (snd (BinancePlan.Plan desired existing)) \<Longrightarrow> pm_Price p \<in> lv_Price ` set desired"
  by (auto simp: BinancePlan.Plan_def split: prod.splits)

lemma okEngine_setSym: "okEngine Q s \<Longrightarrow> okEngine Q (setSym sy f s)"
  by (simp add: okEngine_def setSym_def)

lemma mirrorWarn_ok: "okEngine Q s \<Longrightarrow> okEngine Q (mirrorWarn now sy s)"
  by (simp add: mirrorWarn_def okEngine_setSym split: option.split)

lemma inEngine_snd [simp]: "snd (inEngine f s) = snd (f s)"
  by (simp add: inEngine_def split: prod.splits sum.splits)

context submit_promise
begin

lemma keeps_mirrorPlace:
  assumes L: "decimal_lib (ee_lib (me_engine M))" and p: "price (pm_Price p)"
  shows "keeps (okEngine Q) (mirrorPlace M now sy side p)"
proof (rule keepsI)
  fix s :: "'b EngineState_scheme" assume s: "okEngine Q s"
  have "goodPrice price (mirrorOrder i n sy side l p fr)" for i n l fr using p by (simp add: goodPrice_def mirrorOrder_def)
  thus "okEngine Q (snd (mirrorPlace M now sy side p s))"
    unfolding mirrorPlace_def Let_def
    by (intro keepsD_andThen [where P = "okEngine Q", OF _ s] keeps_andThen keeps_on keeps_orders keeps_mirrorFreeze keeps_submitting L)
qed

lemma ok_placeBoth:
  assumes L: "decimal_lib (ee_lib (me_engine M))"
  shows "okEngine Q s \<Longrightarrow> (\<And>p. p \<in> set bs \<union> set as \<Longrightarrow> price (pm_Price p)) \<Longrightarrow>
    okEngine Q (snd (placeBoth M now sy sched bs as be ae s))"
proof (induction "length bs + length as" arbitrary: sched bs as be ae s rule: less_induct)
  case less
  have one: "okEngine Q s1" if "mirrorPlace M now sy side p s = (r, s1)" "p \<in> set bs \<union> set as" for side p r s1
    using keepsD [OF keeps_mirrorPlace [OF L less(3) [OF that(2)]] less(2), of now sy side] that(1) by simp
  have rest: "okEngine Q (snd (placeBoth M now sy sched' bs' as' be' ae' s1))"
    if "mirrorPlace M now sy side p s = (r, s1)" "p \<in> set bs \<union> set as" "length bs' + length as' < length bs + length as"
      "set bs' \<subseteq> set bs" "set as' \<subseteq> set as" for sched' bs' as' be' ae' side p r s1
    by (rule less(1) [OF that(3) one [OF that(1,2)]]) (use that(4,5) less(3) in blast)
  show ?case
  proof (cases bs)
    case Nil
    show ?thesis
    proof (cases as)
      case (Cons a as')
      obtain r s1 where r: "mirrorPlace M now sy SideShort a s = (r, s1)" by fastforce
      show ?thesis unfolding Nil Cons
        by (subst placeBoth.simps(3), cases r) (use one [OF r] in \<open>auto simp: r Nil Cons simp del: placeBoth.simps intro!: rest [OF r]\<close>)
    qed (simp add: Nil less(2))
  next
    case b: (Cons b bs')
    obtain r s1 where r: "mirrorPlace M now sy SideLong b s = (r, s1)" by fastforce
    show ?thesis
    proof (cases as)
      case Nil
      show ?thesis unfolding Nil b
        by (subst placeBoth.simps(2), cases r) (use one [OF r] in \<open>auto simp: r Nil b simp del: placeBoth.simps intro!: rest [OF r]\<close>)
    next
      case (Cons a as')
      obtain q s2 where q: "mirrorPlace M now sy SideShort a s = (q, s2)" by fastforce
      show ?thesis unfolding Cons b
        by (subst placeBoth.simps(4), cases r; cases q)
          (use one [OF r] one [OF q] in \<open>auto simp: r q Cons b simp del: placeBoth.simps intro!: rest [OF r] rest [OF q]\<close>)
    qed
  qed
qed

lemma ok_syncLadders:
  assumes L: "decimal_lib (ee_lib (me_engine M))" and s: "okEngine Q s" and good: "\<And>l. l \<in> set bids \<union> set asks \<Longrightarrow> price (lv_Price l)"
  shows "okEngine Q (snd (syncLadders M now sched sy bids asks s))"
proof -
  obtain cb pb where b: "BinancePlan.Plan bids (map toLiveOrder (filter (\<lambda>o'. ord_Side o' = SideLong) (liveOrders sy s))) = (cb, pb)" by fastforce
  obtain ca pa where a: "BinancePlan.Plan asks (map toLiveOrder (filter (\<lambda>o'. ord_Side o' \<noteq> SideLong) (liveOrders sy s))) = (ca, pa)" by fastforce
  have prices: "price (pm_Price p)" if "p \<in> set pb \<union> set pa" for p
    using that good Plan_prices [of p bids] Plan_prices [of p asks] b a by (metis UnE UnI1 UnI2 imageE snd_conv)
  have placed: "okEngine Q (snd (placeBoth M now sy sched pb pa None None s))"
    by (rule ok_placeBoth [OF L s]) (rule prices)
  let ?C = "andThen (mapEach (\<lambda>i. case sql_first (\<lambda>o'. ord_OrderID o' = i) (rev (liveOrders sy s)) of
      None \<Rightarrow> retn () | Some o' \<Rightarrow> CancelOrder (me_engine M) (now div 1000000) o') (cb @ ca)) (\<lambda>_. retn ())"
  have cancels: "keeps (okEngine Q) ?C" by (intro keeps_rules keeps_cancelling L)
  have "syncLadders M now sched sy bids asks s = andThen (placeBoth M now sy sched pb pa None None) (\<lambda>_. ?C) s"
    by (simp add: syncLadders_def a b)
  with placed keepsD [OF cancels placed] show ?thesis by (simp only: snd_andThen split: sum.split) simp
qed

lemma ok_mirrorSymbol:
  assumes L: "decimal_lib (ee_lib (me_engine M))" and s: "okEngine Q s"
    and good: "\<And>bids asks l. depth sy = Inr (bids, asks) \<Longrightarrow> l \<in> set bids \<union> set asks \<Longrightarrow> price (lv_Price l)"
  shows "okEngine Q (snd (mirrorSymbol M now sched depth sy s))"
proof -
  have failed: "okEngine Q (snd (sourceFailed M now sy cause s))" for cause
  proof -
    have "okEngine Q (snd (mapEach (CancelOrder (me_engine M) (now div 1000000)) (liveOrders sy s) s))"
      by (intro keepsD [where P = "okEngine Q", OF _ s] keeps_mapEach keeps_cancelling L)
    hence "okEngine Q (snd (inEngine (cancelAllLive M now sy) s))"
      by (simp add: cancelAllLive_def snd_andThen retn_def split: sum.split)
    thus ?thesis using s okEngine_setSym by (simp add: sourceFailed_def snd_andThen Let_def split: sum.split)
  qed
  obtain q z where q: "cycle M now (sched sy) sy (depth sy) s = (q, z)" by fastforce
  have "okEngine Q (snd (cycle M now (sched sy) sy (depth sy) s))"
  proof (cases "depth sy")
    case (Inr d)
    obtain bids asks where d: "d = (bids, asks)" by fastforce
    have "price (lv_Price l)" if "l \<in> set (DesiredLevels K bids n dp st mv) \<union> set (DesiredLevels K asks n dp st mv)" for l K n dp st mv
      using that DesiredLevels_sub [of K bids n dp st mv] DesiredLevels_sub [of K asks n dp st mv] good [OF Inr [unfolded d]] by (metis Un_iff)
    note synced = ok_syncLadders [OF L okEngine_setSym [OF s] this]
    show ?thesis using failed synced by (simp add: cycle_def Inr d Let_def)
  qed (simp add: cycle_def failed)
  hence "okEngine Q z" by (simp add: q)
  hence z: "okEngine Q z" "okEngine Q (mirrorWarn now sy z)" using mirrorWarn_ok by blast+
  show ?thesis
  proof (cases q)
    case (Inl e)
    with s z show ?thesis by (cases e) (simp_all add: mirrorSymbol_def q)
  qed (use s z in \<open>simp add: mirrorSymbol_def q\<close>)
qed

lemma ok_mirrorStep:
  assumes L: "decimal_lib (ee_lib (me_engine M))" and s: "okEngine Q s"
    and good: "\<And>sy bids asks l. depth sy = Inr (bids, asks) \<Longrightarrow> l \<in> set bids \<union> set asks \<Longrightarrow> price (lv_Price l)"
  shows "okEngine Q (snd (mirrorStep M now sched depth s))"
proof -
  have "wf_accounts (snd (CreateIfAbsent (mny_accounts s) UID))"
    using okEngineD(1) [OF s] by (metis CreateIfAbsent_wf)
  hence ready: "okEngine Q (snd (ensureReady M s))"
    using s by (simp add: ensureReady_def okEngine_def Let_def split: prod.split)
  have all: "keeps (okEngine Q) (mapEach (mirrorSymbol M now sched depth) sys)" for sys
    by (intro keeps_mapEach keepsI) (rule ok_mirrorSymbol [OF L _ good])
  obtain q z where q: "(if mi_ready s then (Inr (), s) else ensureReady M s) = (q, z)" by fastforce
  hence z: "okEngine Q z" using s ready by (auto split: if_splits)
  hence "okEngine Q (z\<lparr> mi_ready := True \<rparr>)" by (simp add: okEngine_def)
  from keepsD [OF all this] z show ?thesis by (simp add: mirrorStep_def q snd_andThen retn_def split: sum.split)
qed

end



end
