(* ===== verification/ApiQueries.thy ===== *)
theory ApiQueries
  imports Api
begin

text \<open>
  The queries of the API server (src/internal/api/router.go, extra.go) and the depth query of the engine
  process (engine_server.go), from the strings of the query. A query reads the shared state; the candles,
  trades and orders are the pages of the repositories.
\<close>

section \<open>Account, orders and positions of a user\<close>

definition accountInfo :: "ApiEnv \<Rightarrow> string \<Rightarrow> 'z ApiState_scheme \<Rightarrow> AccountView option reply \<times> 'z ApiState_scheme" where
  "accountInfo A uidq =
     answer
       (andThen (parseAccountUID A uidq)
         (\<lambda>u s. case View (TotalUnrealizedPnl (marksOf s) u (mny_positions s)) (TotalPositionMargin u (mny_positions s)) u (mny_accounts s) of
              (view, rows) \<Rightarrow> (Inr view, s\<lparr> mny_accounts := rows \<rparr>)))"

definition orderCurrent :: "ApiEnv \<Rightarrow> string \<Rightarrow> symbol \<Rightarrow> 'z ApiState_scheme \<Rightarrow> Order list reply \<times> 'z ApiState_scheme" where
  "orderCurrent A uidq sy =
     answer (andThen (parseAccountUID A uidq) (\<lambda>u. getState (\<lambda>s. ordFindActiveByUID (es_orders s) u sy)))"

text \<open>A page of a user's history.\<close>

definition historyPage ::
  "ApiEnv \<Rightarrow> (uid \<Rightarrow> nat \<Rightarrow> nat \<Rightarrow> 'z ApiState_scheme \<Rightarrow> 'r) \<Rightarrow> string \<Rightarrow> string \<Rightarrow> string \<Rightarrow> 'z ApiState_scheme \<Rightarrow> 'r reply \<times> 'z ApiState_scheme" where
  "historyPage A fetch uidq limit before =
     answer
       (andThen (parseAccountUID A uidq)
         (\<lambda>u. andThen (validated (pageParams limit before)) (\<lambda>(n, b). getState (fetch u n b))))"

definition orderHistory :: "ApiEnv \<Rightarrow> string \<Rightarrow> string \<Rightarrow> string \<Rightarrow> 'z ApiState_scheme \<Rightarrow> Order list reply \<times> 'z ApiState_scheme" where
  "orderHistory A = historyPage A (\<lambda>u n b s. ordFindHistoryByUID (es_orders s) u n b)"

definition conditionalOrderCurrent :: "ApiEnv \<Rightarrow> string \<Rightarrow> symbol \<Rightarrow> 'z ApiState_scheme \<Rightarrow> ConditionalOrder list reply \<times> 'z ApiState_scheme" where
  "conditionalOrderCurrent A uidq sy =
     answer (andThen (parseAccountUID A uidq) (\<lambda>u. getState (\<lambda>s. coFindActiveByUID (es_conds s) u sy)))"

definition conditionalOrderHistory :: "ApiEnv \<Rightarrow> string \<Rightarrow> string \<Rightarrow> string \<Rightarrow> 'z ApiState_scheme \<Rightarrow> ConditionalOrder list reply \<times> 'z ApiState_scheme" where
  "conditionalOrderHistory A = historyPage A (\<lambda>u n b s. coFindHistoryByUID (es_conds s) u n b)"

definition tradeHistory :: "ApiEnv \<Rightarrow> string \<Rightarrow> string \<Rightarrow> string \<Rightarrow> 'z ApiState_scheme \<Rightarrow> Trade list reply \<times> 'z ApiState_scheme" where
  "tradeHistory A = historyPage A (\<lambda>u n b s. tradesByUID (es_trades s) u n b)"

definition liquidationHistory :: "ApiEnv \<Rightarrow> string \<Rightarrow> string \<Rightarrow> string \<Rightarrow> 'z ApiState_scheme \<Rightarrow> Order list reply \<times> 'z ApiState_scheme" where
  "liquidationHistory A = historyPage A (\<lambda>u n b s. FindLiquidationsByUID (es_orders s) u n b)"

definition txTypeOf :: "string \<Rightarrow> TxType option" where
  "txTypeOf v =
     (if v = ''deposit'' then Some TxDeposit else if v = ''fee'' then Some TxFee
      else if v = ''realized_pnl'' then Some TxRealizedPnl else if v = ''funding_fee'' then Some TxFundingFee
      else if v = ''credit_grant'' then Some TxCreditGrant else if v = ''round_close'' then Some TxRoundClose else None)"

definition accountTransactions ::
  "ApiEnv \<Rightarrow> string \<Rightarrow> string \<Rightarrow> string \<Rightarrow> string \<Rightarrow> 'z ApiState_scheme \<Rightarrow> (nat \<times> Transaction) list reply \<times> 'z ApiState_scheme" where
  "accountTransactions A uidq txType limit before =
     answer
       (andThen (parseAccountUID A uidq)
         (\<lambda>u. andThen (require (txType = [] \<or> txTypeOf txType \<noteq> None) (failWith 400))
         (\<lambda>_. andThen (validated (pageParams limit before))
         (\<lambda>(n, b). getState (\<lambda>s. txFindByUID (mny_txs s) u (txTypeOf txType) n b)))))"

definition positionCurrent :: "ApiEnv \<Rightarrow> string \<Rightarrow> 'z ApiState_scheme \<Rightarrow> PositionView list reply \<times> 'z ApiState_scheme" where
  "positionCurrent A uidq =
     answer
       (andThen (validated (parseUID A uidq))
         (\<lambda>u. andThen (loadAccount u)
         (\<lambda>account. getState (\<lambda>s. Views (ae_lib A) (marksOf s) u (acc_IsInsured account) (acc_Balance account + acc_Credit account)
                                    (mny_positions s)))))"

text \<open>The order of a detail query: by id, or by the user's idempotency key.\<close>

datatype orderRef = ByOrderID nat | ByRequestID string

definition parseOrderRef :: "string \<Rightarrow> string \<Rightarrow> failure + orderRef" where
  "parseOrderRef orderId requestId =
     (if orderId \<noteq> [] then
        (case ParseUint orderId of None \<Rightarrow> Inl (failWith 400) | Some n \<Rightarrow> if n = 0 then Inl (failWith 400) else Inr (ByOrderID n))
      else
        bindE (normalizeRequestID requestId) (\<lambda>cid. if cid = [] then Inl (failWith 400) else Inr (ByRequestID cid)))"

definition orderDetail :: "ApiEnv \<Rightarrow> string \<Rightarrow> string \<Rightarrow> string \<Rightarrow> 'z ApiState_scheme \<Rightarrow> Order reply \<times> 'z ApiState_scheme" where
  "orderDetail A uidq orderId requestId =
     answer
       (andThen (parseAccountUID A uidq)
         (\<lambda>u. andThen (validated (parseOrderRef orderId requestId))
         (\<lambda>ref. andThen (getState (\<lambda>s. case ref of ByOrderID i \<Rightarrow> ordFindByOrderID (es_orders s) i
                                              | ByRequestID r \<Rightarrow> ordFindByRequestID (es_orders s) u r))
         (\<lambda>found. case found of
              None \<Rightarrow> replyNow (Fail (400, CodeOrderNotFound))
            | Some o' \<Rightarrow> if ord_UID o' \<noteq> u then replyNow (Fail (400, CodeOrderNotFound)) else retn o'))))"

definition conditionalOrderDetail :: "ApiEnv \<Rightarrow> string \<Rightarrow> string \<Rightarrow> string \<Rightarrow> 'z ApiState_scheme \<Rightarrow> ConditionalOrder reply \<times> 'z ApiState_scheme" where
  "conditionalOrderDetail A uidq orderId requestId =
     answer
       (andThen (parseAccountUID A uidq)
         (\<lambda>u. andThen (validated (parseOrderRef orderId requestId))
         (\<lambda>ref. andThen (getState (\<lambda>s. case ref of ByOrderID i \<Rightarrow> coFindByOrderID (es_conds s) i
                                              | ByRequestID r \<Rightarrow> coFindByRequestID (es_conds s) u r))
         (\<lambda>found. case found of
              None \<Rightarrow> replyNow (Fail (400, CodeOrderNotFound))
            | Some co \<Rightarrow> if co_UID co \<noteq> u then replyNow (Fail (400, CodeOrderNotFound)) else retn co))))"

section \<open>Contracts and market data\<close>

definition knownCoin :: "ApiEnv \<Rightarrow> symbol \<Rightarrow> 's \<Rightarrow> ('x reply + Coin) \<times> 's" where
  "knownCoin A sy s =
     (case coinBySymbol (ee_coins (ae_engine A)) sy of
        None \<Rightarrow> (Inl (Fail (400, CodeSymbolNotFound)), s)
      | Some coin \<Rightarrow> (Inr coin, s))"

definition tradedCoin :: "ApiEnv \<Rightarrow> symbol \<Rightarrow> 's \<Rightarrow> ('x reply + Coin) \<times> 's" where
  "tradedCoin A sy =
     andThen (knownCoin A sy) (\<lambda>coin. andThen (require (coin_Enable coin) (400, CodeSymbolNotFound)) (\<lambda>_. retn coin))"

definition contractList :: "ApiEnv \<Rightarrow> Coin list reply" where
  "contractList A = OK (FindAllEnabled (ee_coins (ae_engine A)))"

definition contractDetail :: "ApiEnv \<Rightarrow> symbol \<Rightarrow> 'z ApiState_scheme \<Rightarrow> (Coin \<times> RiskLimitTier list) reply \<times> 'z ApiState_scheme" where
  "contractDetail A sy =
     answer (andThen (tradedCoin A sy) (\<lambda>coin. retn (coin, tiersBySymbol (ee_tiers (ae_engine A)) sy)))"

record fundingRateView =
  frv_Symbol :: symbol
  frv_EstimatedRate :: dec
  frv_NextFundingTime :: int

definition fundingRate :: "ApiEnv \<Rightarrow> int \<Rightarrow> symbol \<Rightarrow> 'z ApiState_scheme \<Rightarrow> fundingRateView reply \<times> 'z ApiState_scheme" where
  "fundingRate A now sy =
     answer
       (andThen (knownCoin A sy)
         (\<lambda>coin. getState (\<lambda>s. \<lparr> frv_Symbol = sy, frv_EstimatedRate = EstimateRate (ae_lib A) coin (fs_accum s),
                              frv_NextFundingTime = NextFundingTime coin now \<rparr>)))"

definition fundingHistory :: "symbol \<Rightarrow> string \<Rightarrow> string \<Rightarrow> 'z ApiState_scheme \<Rightarrow> FundingRateRecord list reply \<times> 'z ApiState_scheme" where
  "fundingHistory sy limit before =
     answer (andThen (validated (pageParams limit before)) (\<lambda>(n, b). getState (\<lambda>s. FindHistory (fs_rates s) sy n (int b))))"

definition intervalOf :: "string \<Rightarrow> KlineInterval option" where
  "intervalOf v =
     (if v = ''1m'' then Some Kline1m else if v = ''5m'' then Some Kline5m else if v = ''15m'' then Some Kline15m
      else if v = ''1h'' then Some Kline1h else if v = ''4h'' then Some Kline4h else if v = ''1d'' then Some Kline1d else None)"

definition apiKline :: "ApiEnv \<Rightarrow> symbol \<Rightarrow> string \<Rightarrow> string \<Rightarrow> 'z ApiState_scheme \<Rightarrow> Kline list reply \<times> 'z ApiState_scheme" where
  "apiKline A sy interval limit =
     answer
       (andThen (knownCoin A sy)
         (\<lambda>_. case intervalOf interval of
              None \<Rightarrow> replyNow (Fail (failWith 400))
            | Some iv \<Rightarrow> andThen (validated (parsePositiveIntQuery limit 200))
                (\<lambda>n. getState (\<lambda>s. FindRecent sy iv (nat n) (es_klines s)))))"

definition marketTrades :: "ApiEnv \<Rightarrow> symbol \<Rightarrow> string \<Rightarrow> string \<Rightarrow> 'z ApiState_scheme \<Rightarrow> PublicTrade list reply \<times> 'z ApiState_scheme" where
  "marketTrades A sy limit before =
     answer
       (andThen (tradedCoin A sy)
         (\<lambda>_. andThen (validated (pageParams limit before))
         (\<lambda>(n, b). getState (\<lambda>s. map Public (tradesBySymbol (es_trades s) sy n b)))))"

record ticker =
  tk_Symbol :: symbol
  tk_LastPrice :: "dec option"
  tk_MarkPrice :: "dec option"
  tk_IndexPrice :: "dec option"
  tk_Open24h :: "dec option"
  tk_High24h :: "dec option"
  tk_Low24h :: "dec option"
  tk_Volume24h :: dec
  tk_Change24h :: "dec option"

text \<open>With candles of an external source the last price is the close of the last minute; otherwise it is the
  last trade; each falls back to the other.\<close>

definition lastPriceOf :: "bool \<Rightarrow> Trade list \<Rightarrow> Kline list \<Rightarrow> dec option" where
  "lastPriceOf external latest recent =
     (if external \<and> recent \<noteq> [] then Some (kl_Close (hd recent))
      else if latest \<noteq> [] then Some (tr_Price (hd latest))
      else if recent \<noteq> [] then Some (kl_Close (hd recent))
      else None)"

definition dayStats :: "dec_lib \<Rightarrow> ticker \<Rightarrow> Kline list \<Rightarrow> ticker" where
  "dayStats L t klines =
     (case klines of
        [] \<Rightarrow> t
      | k0 # _ \<Rightarrow>
          let open24 = kl_Open k0 in
          t\<lparr> tk_Open24h := Some open24,
             tk_High24h := Some (foldl (\<lambda>h k. max h (kl_High k)) (kl_High k0) klines),
             tk_Low24h := Some (foldl (\<lambda>l k. min l (kl_Low k)) (kl_Low k0) klines),
             tk_Volume24h := foldl (\<lambda>v k. v + kl_Volume k) 0 klines,
             tk_Change24h := (case tk_LastPrice t of
                 None \<Rightarrow> None
               | Some p \<Rightarrow> if 0 < open24 then Some (lib_Div L (p - open24) open24) else None) \<rparr>)"

definition marketTicker :: "ApiEnv \<Rightarrow> symbol \<Rightarrow> 'z ApiState_scheme \<Rightarrow> ticker reply \<times> 'z ApiState_scheme" where
  "marketTicker A sy =
     answer
       (andThen (tradedCoin A sy)
         (\<lambda>_. getState (\<lambda>s.
            let latest = tradesBySymbol (es_trades s) sy 1 0;
                recent = (if ae_klineExternal A \<or> latest = [] then FindRecent sy Kline1m 1 (es_klines s) else []);
                t = \<lparr> tk_Symbol = sy, tk_LastPrice = lastPriceOf (ae_klineExternal A) latest recent,
                      tk_MarkPrice = Get (es_marks s sy), tk_IndexPrice = GetIndexPrice (es_marks s sy),
                      tk_Open24h = None, tk_High24h = None, tk_Low24h = None, tk_Volume24h = 0, tk_Change24h = None \<rparr>
            in dayStats (ae_lib A) t (FindRecent sy Kline1h 24 (es_klines s)))))"

section \<open>Depth, on an engine process\<close>

text \<open>\<open>enabled\<close> is the cache of enabled contracts that RefreshSymbols fills.\<close>

definition RefreshSymbols :: "Coin list \<Rightarrow> symbol list" where
  "RefreshSymbols coins = map coin_Symbol (FindAllEnabled coins)"

definition depthQuery :: "EngineEnv \<Rightarrow> symbol list \<Rightarrow> symbol \<Rightarrow> string \<Rightarrow> 'z EngineState_scheme \<Rightarrow> DepthSnapshot reply \<times> 'z EngineState_scheme" where
  "depthQuery E enabled sy levels =
     answer
       (andThen (require (sy \<noteq> []) (failWith 400))
         (\<lambda>_. andThen (require (sy \<in> set enabled) (failWith 400))
         (\<lambda>_. andThen (require (OwnsSymbol E sy) (failWith 400))
         (\<lambda>_. andThen (validated (parsePositiveIntQuery levels DefaultDepthLevels))
         (\<lambda>n. orFail (failWith 500) (onBook sy (\<lambda>b. (Inr (Depth b n), b))))))))"

end
