(* ===== verification/KlineSync.thy ===== *)
theory KlineSync
  imports ApiQueries ApiDemo
begin

text \<open>
  Candles of an external market pushed into the candlestick table, src/internal/api/kline_sync.go. A batch is
  validated as a whole, replaces the candles with the same open times, and only what changed is published.
  \<open>pub\<close>: a publisher is attached.
\<close>

definition maxKlineSyncBatch :: nat where "maxKlineSyncBatch = 200"

record syncKlineCandle =
  sk_OpenTime :: int
  sk_Open :: dec
  sk_High :: dec
  sk_Low :: dec
  sk_Close :: dec
  sk_Volume :: dec
  sk_TradeCount :: nat

definition candleOK :: "int \<Rightarrow> int \<Rightarrow> int \<Rightarrow> syncKlineCandle \<Rightarrow> bool" where
  "candleOK step nowMs prev k \<longleftrightarrow>
     \<not> (sk_OpenTime k \<le> 0 \<or> sk_OpenTime k mod step \<noteq> 0) \<and> \<not> sk_OpenTime k \<le> prev \<and> \<not> nowMs + step < sk_OpenTime k \<and>
     \<not> (sk_Open k \<le> 0 \<or> sk_High k \<le> 0 \<or> sk_Low k \<le> 0 \<or> sk_Close k \<le> 0) \<and>
     \<not> sk_High k < max (max (sk_Open k) (sk_Close k)) (sk_Low k) \<and> \<not> min (sk_Open k) (sk_Close k) < sk_Low k \<and>
     \<not> sk_Volume k < 0"

definition candleRow :: "symbol \<Rightarrow> KlineInterval \<Rightarrow> syncKlineCandle \<Rightarrow> Kline" where
  "candleRow sy iv k =
     \<lparr> kl_Symbol = sy, kl_Interval = iv, kl_OpenTime = sk_OpenTime k, kl_Open = sk_Open k, kl_High = sk_High k,
       kl_Low = sk_Low k, kl_Close = sk_Close k, kl_Volume = sk_Volume k, kl_TradeCount = sk_TradeCount k, kl_UpdateTime = 0 \<rparr>"

fun validateFrom :: "symbol \<Rightarrow> KlineInterval \<Rightarrow> int \<Rightarrow> int \<Rightarrow> syncKlineCandle list \<Rightarrow> failure + Kline list" where
  "validateFrom sy iv nowMs prev [] = Inr []"
| "validateFrom sy iv nowMs prev (k # ks) =
     (if \<not> candleOK (KlineIntervalMillis iv) nowMs prev k then Inl (failWith 400)
      else bindE (validateFrom sy iv nowMs (sk_OpenTime k) ks) (\<lambda>out. Inr (candleRow sy iv k # out)))"

definition validateKlineCandles :: "symbol \<Rightarrow> KlineInterval \<Rightarrow> syncKlineCandle list \<Rightarrow> int \<Rightarrow> failure + Kline list" where
  "validateKlineCandles sy iv ks nowMs = validateFrom sy iv nowMs (-1) ks"

definition sameCandle :: "Kline \<Rightarrow> Kline \<Rightarrow> bool" where
  "sameCandle a b \<longleftrightarrow> kl_Open a = kl_Open b \<and> kl_High a = kl_High b \<and> kl_Low a = kl_Low b \<and> kl_Close a = kl_Close b \<and>
     kl_Volume a = kl_Volume b \<and> kl_TradeCount a = kl_TradeCount b"

text \<open>The candles to publish: those that were not in the table as they are pushed.\<close>

definition changedCandles :: "Kline list \<Rightarrow> Kline list \<Rightarrow> Kline list" where
  "changedCandles earlier candles =
     (let old = map_of (map (\<lambda>k. (kl_OpenTime k, k)) (rev earlier)) in
      filter (\<lambda>k. case old (kl_OpenTime k) of None \<Rightarrow> True | Some o' \<Rightarrow> \<not> sameCandle o' k) candles)"

definition writeCandles ::
  "ApiEnv \<Rightarrow> bool \<Rightarrow> int \<Rightarrow> symbol \<Rightarrow> KlineInterval \<Rightarrow> Kline list \<Rightarrow> 'z ApiState_scheme \<Rightarrow> (nat \<times> nat) \<times> 'z ApiState_scheme" where
  "writeCandles A pub now sy iv candles s =
     (let changed = changedCandles (FindByOpenTimes sy iv (map kl_OpenTime candles) (es_klines s)) candles in
      ((length candles, length changed),
       s\<lparr> es_klines := ReplaceBatch (ae_lib A) sy iv candles now (es_klines s),
          es_pushes := es_pushes s @ (if pub then map (\<lambda>k. PushKline sy (k\<lparr> kl_UpdateTime := now \<rparr>)) changed else []) \<rparr>))"

definition syncKlines ::
  "ApiEnv \<Rightarrow> bool \<Rightarrow> int \<Rightarrow> symbol \<Rightarrow> string \<Rightarrow> syncKlineCandle list \<Rightarrow> 'z ApiState_scheme \<Rightarrow> (nat \<times> nat) reply \<times> 'z ApiState_scheme" where
  "syncKlines A pub now sy interval ks =
     answer
       (andThen (require (sy \<noteq> [] \<and> interval \<noteq> []) (failWith 400))
         (\<lambda>_. andThen (require (ae_klineExternal A) (400, CodeKlineSourceNotExternal))
         (\<lambda>_. andThen (tradedCoin A sy)
         (\<lambda>_. case intervalOf interval of
              None \<Rightarrow> replyNow (Fail (failWith 400))
            | Some iv \<Rightarrow>
                andThen (require (ks \<noteq> [] \<and> length ks \<le> maxKlineSyncBatch) (failWith 400))
                  (\<lambda>_. andThen (validated (validateKlineCandles sy iv ks now))
                  (\<lambda>candles s. case writeCandles A pub now sy iv candles s of (r, s') \<Rightarrow> (Inr r, s')))))))"

section \<open>Validation\<close>

lemma bindE_Inr: "bindE x k = Inr b \<longleftrightarrow> (\<exists>a. x = Inr a \<and> k a = Inr b)"
  by (cases x) (auto simp: bindE_def)

text \<open>Every accepted candle is well-formed, later than the one before it, and kept as pushed.\<close>

lemma validateFrom_Inr:
  "validateFrom sy iv nowMs prev ks = Inr out \<Longrightarrow>
     out = map (candleRow sy iv) ks \<and> (\<forall>k\<in>set ks. candleOK (KlineIntervalMillis iv) nowMs prev k) \<and> sorted_wrt (<) (map sk_OpenTime ks)"
proof (induction ks arbitrary: prev out)
  case (Cons k ks)
  from Cons.prems obtain out' where ok: "candleOK (KlineIntervalMillis iv) nowMs prev k"
    "validateFrom sy iv nowMs (sk_OpenTime k) ks = Inr out'" "out = candleRow sy iv k # out'"
    by (auto simp: bindE_Inr split: if_splits)
  from Cons.IH [OF ok(2)] have "out' = map (candleRow sy iv) ks"
    "\<forall>j\<in>set ks. candleOK (KlineIntervalMillis iv) nowMs (sk_OpenTime k) j" "sorted_wrt (<) (map sk_OpenTime ks)" by auto
  moreover from this(2) ok(1) have "\<forall>j\<in>set ks. sk_OpenTime k < sk_OpenTime j \<and> candleOK (KlineIntervalMillis iv) nowMs prev j"
    by (auto simp: candleOK_def)
  ultimately show ?case using ok by simp
qed simp

section \<open>The table after a batch\<close>

lemma klineAt_ReplaceBatch:
  "klineAt (ReplaceBatch L sy iv cs now rows) sy' iv' t =
     (case find (\<lambda>k. (sy, iv, kl_OpenTime k) = (sy', iv', t)) (rev cs) of
        None \<Rightarrow> klineAt rows sy' iv' t
      | Some k \<Rightarrow> Some (feedKline L sy iv now k))"
proof (induction cs rule: rev_induct)
  case Nil
  show ?case by (simp add: ReplaceBatch_def)
next
  case (snoc k cs)
  have "ReplaceBatch L sy iv (cs @ [k]) now rows = klineUpsert (\<lambda>_ new. new) (ReplaceBatch L sy iv cs now rows) (feedKline L sy iv now k)"
    by (simp add: ReplaceBatch_def)
  moreover have "klineKey (feedKline L sy iv now k) = (sy, iv, kl_OpenTime k)" by (simp add: klineKey_def feedKline_def)
  ultimately show ?case using snoc by (simp add: klineAt_upsert split: option.split)
qed

lemma find_openTime:
  assumes "distinct (map kl_OpenTime cs)" "k \<in> set cs"
  shows "find (\<lambda>c. kl_OpenTime c = kl_OpenTime k) (rev cs) = Some k"
  using sql_first_key [of kl_OpenTime "rev cs" k "kl_OpenTime k"] assms by (simp add: sql_first_def rev_map [symmetric])

lemma klineAt_ReplaceBatch_in:
  assumes "distinct (map kl_OpenTime cs)" "k \<in> set cs"
  shows "klineAt (ReplaceBatch L sy iv cs now rows) sy iv (kl_OpenTime k) = Some (feedKline L sy iv now k)"
  using find_openTime [OF assms] by (simp add: klineAt_ReplaceBatch)

lemma klineAt_ReplaceBatch_out:
  assumes "(sy', iv', t) \<notin> (\<lambda>k. (sy, iv, kl_OpenTime k)) ` set cs"
  shows "klineAt (ReplaceBatch L sy iv cs now rows) sy' iv' t = klineAt rows sy' iv' t"
proof -
  have "find (\<lambda>k. (sy, iv, kl_OpenTime k) = (sy', iv', t)) (rev cs) = None"
    using assms by (auto simp: find_None_iff)
  thus ?thesis by (simp add: klineAt_ReplaceBatch)
qed

lemma distinct_klineUpsert:
  assumes "distinct (map klineKey rows)"
  shows "distinct (map klineKey (klineUpsert (\<lambda>_ new. new) rows new))"
proof (cases "klineAt rows (kl_Symbol new) (kl_Interval new) (kl_OpenTime new)")
  case None
  hence "klineKey new \<notin> set (map klineKey rows)"
    by (auto simp: klineAt_def sql_first_None klineKey_def)
  with None assms show ?thesis by (simp add: klineUpsert_def)
next
  case (Some k)
  have "map klineKey (sql_update (\<lambda>k. klineKey k = klineKey new) (\<lambda>_. new) rows) = map klineKey rows"
    by (rule map_sql_update) simp
  with Some assms show ?thesis by (simp add: klineUpsert_def)
qed

lemma distinct_ReplaceBatch:
  "distinct (map klineKey rows) \<Longrightarrow> distinct (map klineKey (ReplaceBatch L sy iv cs now rows))"
  unfolding ReplaceBatch_def by (induction cs arbitrary: rows) (simp_all add: distinct_klineUpsert)

lemma old_lookup:
  assumes "distinct (map klineKey rows)" "t \<in> set ts"
  shows "map_of (map (\<lambda>k. (kl_OpenTime k, k)) (rev (FindByOpenTimes sy iv ts rows))) t = klineAt rows sy iv t"
proof -
  let ?F = "FindByOpenTimes sy iv ts rows"
  have "distinct (map klineKey ?F)" using assms(1) by (simp add: FindByOpenTimes_def distinct_map inj_on_def)
  moreover have "klineKey k = (sy, iv, kl_OpenTime k)" if "k \<in> set ?F" for k
    using that by (auto simp: FindByOpenTimes_def klineKey_def)
  ultimately have "distinct (map kl_OpenTime ?F)" by (simp add: distinct_map inj_on_def)
  hence d: "distinct (map fst (map (\<lambda>k. (kl_OpenTime k, k)) (rev ?F)))" by (simp add: rev_map [symmetric] comp_def)
  show ?thesis
  proof (cases "klineAt rows sy iv t")
    case None
    hence "\<forall>k\<in>set ?F. kl_OpenTime k \<noteq> t" by (auto simp: klineAt_def sql_first_None klineKey_def FindByOpenTimes_def)
    with None show ?thesis by (auto simp: map_of_eq_None_iff)
  next
    case (Some k)
    from sql_first_Some [OF this [unfolded klineAt_def]] assms(2) have "(t, k) \<in> set (map (\<lambda>k. (kl_OpenTime k, k)) (rev ?F))"
      by (auto simp: klineKey_def FindByOpenTimes_def)
    with map_of_is_SomeI [OF d] Some show ?thesis by simp
  qed
qed

lemma changedCandles_none:
  assumes "distinct (map klineKey rows)" "\<And>k. k \<in> set cs \<Longrightarrow> \<exists>o'. klineAt rows sy iv (kl_OpenTime k) = Some o' \<and> sameCandle o' k"
  shows "changedCandles (FindByOpenTimes sy iv (map kl_OpenTime cs) rows) cs = []"
proof -
  have "\<exists>o'. map_of (map (\<lambda>k. (kl_OpenTime k, k)) (rev (FindByOpenTimes sy iv (map kl_OpenTime cs) rows))) (kl_OpenTime k) = Some o' \<and> sameCandle o' k"
    if "k \<in> set cs" for k
    using old_lookup [OF assms(1), of "kl_OpenTime k" "map kl_OpenTime cs" sy iv] assms(2) [OF that] that by simp
  thus ?thesis unfolding changedCandles_def Let_def by (fastforce simp: filter_empty_conv split: option.splits)
qed

text \<open>The values of a candle have no more digits than their columns.\<close>

definition candleFits :: "syncKlineCandle \<Rightarrow> bool" where
  "candleFits k \<longleftrightarrow> fits 8 (sk_Open k) \<and> fits 8 (sk_High k) \<and> fits 8 (sk_Low k) \<and> fits 8 (sk_Close k) \<and> fits 16 (sk_Volume k)"

lemma syncKlines_refused:
  "syncKlines A pub now sy interval ks s = (Fail f, s') \<Longrightarrow> s' = s"
  by (auto simp: syncKlines_def answer_def andThen_def require_def validated_def replyNow_def tradedCoin_def knownCoin_def retn_def
      split: if_splits option.splits sum.splits prod.splits)

lemma syncKlines_accepted:
  assumes "syncKlines A pub now sy interval ks s = (OK r, s')"
  shows "\<exists>iv. intervalOf interval = Some iv \<and> ks \<noteq> [] \<and> length ks \<le> 200 \<and>
    validateKlineCandles sy iv ks now = Inr (map (candleRow sy iv) ks) \<and>
    (\<forall>k\<in>set ks. candleOK (KlineIntervalMillis iv) now (-1) k) \<and> sorted_wrt (<) (map sk_OpenTime ks) \<and>
    (r, s') = writeCandles A pub now sy iv (map (candleRow sy iv) ks) s"
proof -
  from assms obtain iv candles where a: "intervalOf interval = Some iv" "ks \<noteq> []" "length ks \<le> maxKlineSyncBatch"
    "validateKlineCandles sy iv ks now = Inr candles" "(r, s') = writeCandles A pub now sy iv candles s"
    by (auto simp: syncKlines_def answer_def andThen_def require_def validated_def replyNow_def tradedCoin_def knownCoin_def retn_def
        split: if_splits option.splits sum.splits prod.splits)
  from validateFrom_Inr [OF a(4) [unfolded validateKlineCandles_def]] a show ?thesis by (simp add: maxKlineSyncBatch_def)
qed

text \<open>What passed once passes again, on whatever table.\<close>

lemma syncKlines_again:
  assumes "syncKlines A pub now sy interval ks s = (OK r, s')" "intervalOf interval = Some iv"
    and "validateKlineCandles sy iv ks now' = Inr candles"
  shows "syncKlines A pub now' sy interval ks t =
    (case writeCandles A pub now' sy iv candles t of (r', t') \<Rightarrow> (OK r', t'))"
  using assms
  by (auto simp: syncKlines_def answer_def andThen_def require_def validated_def replyNow_def tradedCoin_def knownCoin_def retn_def
      split: if_splits option.splits sum.splits prod.splits)

lemma validateFrom_later:
  "now \<le> now' \<Longrightarrow> validateFrom sy iv now prev ks = Inr out \<Longrightarrow> validateFrom sy iv now' prev ks = Inr out"
proof (induction ks arbitrary: prev out)
  case (Cons k ks)
  have "candleOK step now' prev k" if "candleOK step now prev k" for step using that Cons.prems(1) by (auto simp: candleOK_def)
  with Cons show ?case by (auto simp: bindE_Inr split: if_splits)
qed simp

text \<open>Pushed candles are stored whole or not at all. A refused batch changes nothing. An accepted one consists of
  candles aligned to the interval, strictly increasing in time, each with 0 < low <= open, close <= high and a
  volume that is not negative; every one of them is in the table afterwards with its values in the columns, no
  other candle and nothing else of the state but the publications changes; and pushing the batch again later
  reports the same number written, changes no value, and publishes nothing when the values fit their columns.\<close>

theorem syncKlines_replaces:
  assumes L: "decimal_lib (ae_lib A)" and keys: "distinct (map klineKey (es_klines s))"
  shows "(\<forall>f s'. syncKlines A pub now sy interval ks s = (Fail f, s') \<longrightarrow> s' = s) \<and>
    (\<forall>n m s'. syncKlines A pub now sy interval ks s = (OK (n, m), s') \<longrightarrow>
       (\<exists>iv. intervalOf interval = Some iv \<and> n = length ks \<and> m \<le> n \<and>
          sorted_wrt (<) (map sk_OpenTime ks) \<and>
          (\<forall>k\<in>set ks. KlineIntervalMillis iv dvd sk_OpenTime k \<and> 0 < sk_Low k \<and> sk_Low k \<le> sk_Open k \<and> sk_Open k \<le> sk_High k \<and>
             sk_Low k \<le> sk_Close k \<and> sk_Close k \<le> sk_High k \<and> 0 \<le> sk_Volume k \<and>
             klineAt (es_klines s') sy iv (sk_OpenTime k) = Some (feedKline (ae_lib A) sy iv now (candleRow sy iv k))) \<and>
          (\<forall>sy' iv' t. (sy', iv') \<noteq> (sy, iv) \<or> t \<notin> set (map sk_OpenTime ks) \<longrightarrow>
             klineAt (es_klines s') sy' iv' t = klineAt (es_klines s) sy' iv' t) \<and>
          (\<exists>rows ps. s' = s\<lparr> es_klines := rows, es_pushes := es_pushes s @ ps \<rparr>) \<and>
          (\<forall>now'\<ge>now. (\<forall>k\<in>set ks. candleFits k) \<longrightarrow>
             (\<exists>rows. syncKlines A pub now' sy interval ks s' = (OK (n, 0), s'\<lparr> es_klines := rows \<rparr>)))))"
proof (intro conjI allI impI)
  fix n m s' assume ok: "syncKlines A pub now sy interval ks s = (OK (n, m), s')"
  from syncKlines_accepted [OF ok] obtain iv where iv: "intervalOf interval = Some iv" "ks \<noteq> []"
    "validateKlineCandles sy iv ks now = Inr (map (candleRow sy iv) ks)"
    "\<forall>k\<in>set ks. candleOK (KlineIntervalMillis iv) now (-1) k" and incr: "sorted_wrt (<) (map sk_OpenTime ks)"
    and w: "((n, m), s') = writeCandles A pub now sy iv (map (candleRow sy iv) ks) s" by auto
  let ?cs = "map (candleRow sy iv) ks"
  have times: "map kl_OpenTime ?cs = map sk_OpenTime ks" by (simp add: candleRow_def)
  have d: "distinct (map kl_OpenTime ?cs)" unfolding times using incr by (simp only: strict_sorted_iff)
  have rows: "es_klines s' = ReplaceBatch (ae_lib A) sy iv ?cs now (es_klines s)" and n: "n = length ks"
    and m: "m = length (changedCandles (FindByOpenTimes sy iv (map kl_OpenTime ?cs) (es_klines s)) ?cs)"
    using w by (auto simp: writeCandles_def Let_def)
  have shape: "\<exists>rows ps. s' = s\<lparr> es_klines := rows, es_pushes := es_pushes s @ ps \<rparr>"
    using w unfolding writeCandles_def Let_def by (blast dest: arg_cong [of _ _ snd, simplified])
  have "m \<le> n" unfolding m n changedCandles_def Let_def by (rule order_trans [OF length_filter_le]) simp
  have stored: "klineAt (es_klines s') sy iv (sk_OpenTime k) = Some (feedKline (ae_lib A) sy iv now (candleRow sy iv k))" if "k \<in> set ks" for k
    using klineAt_ReplaceBatch_in [OF d, of "candleRow sy iv k"] that by (simp add: rows candleRow_def)
  have good: "KlineIntervalMillis iv dvd sk_OpenTime k \<and> 0 < sk_Low k \<and> sk_Low k \<le> sk_Open k \<and> sk_Open k \<le> sk_High k \<and>
             sk_Low k \<le> sk_Close k \<and> sk_Close k \<le> sk_High k \<and> 0 \<le> sk_Volume k" if "k \<in> set ks" for k
    using iv(4) that by (fastforce simp: candleOK_def dvd_eq_mod_eq_0)
  have others: "klineAt (es_klines s') sy' iv' t = klineAt (es_klines s) sy' iv' t"
    if "(sy', iv') \<noteq> (sy, iv) \<or> t \<notin> set (map sk_OpenTime ks)" for sy' iv' t
    unfolding rows by (rule klineAt_ReplaceBatch_out) (use that in \<open>auto simp: candleRow_def\<close>)
  have again: "\<exists>rows. syncKlines A pub now' sy interval ks s' = (OK (n, 0), s'\<lparr> es_klines := rows \<rparr>)"
    if later: "now \<le> now'" and fit: "\<forall>k\<in>set ks. candleFits k" for now'
  proof -
    have v: "validateKlineCandles sy iv ks now' = Inr ?cs"
      using validateFrom_later [OF later iv(3) [unfolded validateKlineCandles_def]] by (simp add: validateKlineCandles_def)
    have same: "\<exists>o'. klineAt (es_klines s') sy iv (kl_OpenTime c) = Some o' \<and> sameCandle o' c" if "c \<in> set ?cs" for c
    proof -
      from that obtain k where k: "k \<in> set ks" "c = candleRow sy iv k" by auto
      with fit have "sameCandle (feedKline (ae_lib A) sy iv now c) c"
        by (simp add: sameCandle_def feedKline_def candleRow_def candleFits_def price_col_def col_def decimal_lib.col_id [OF L])
      with stored [OF k(1)] k(2) show ?thesis by (simp add: candleRow_def)
    qed
    have keys': "distinct (map klineKey (es_klines s'))" unfolding rows by (rule distinct_ReplaceBatch [OF keys])
    from changedCandles_none [OF keys' same] have "changedCandles (FindByOpenTimes sy iv (map kl_OpenTime ?cs) (es_klines s')) ?cs = []" .
    with syncKlines_again [OF ok iv(1) v, of s'] n show ?thesis by (auto simp: writeCandles_def)
  qed
  show "\<exists>iv. intervalOf interval = Some iv \<and> n = length ks \<and> m \<le> n \<and>
          sorted_wrt (<) (map sk_OpenTime ks) \<and>
          (\<forall>k\<in>set ks. KlineIntervalMillis iv dvd sk_OpenTime k \<and> 0 < sk_Low k \<and> sk_Low k \<le> sk_Open k \<and> sk_Open k \<le> sk_High k \<and>
             sk_Low k \<le> sk_Close k \<and> sk_Close k \<le> sk_High k \<and> 0 \<le> sk_Volume k \<and>
             klineAt (es_klines s') sy iv (sk_OpenTime k) = Some (feedKline (ae_lib A) sy iv now (candleRow sy iv k))) \<and>
          (\<forall>sy' iv' t. (sy', iv') \<noteq> (sy, iv) \<or> t \<notin> set (map sk_OpenTime ks) \<longrightarrow>
             klineAt (es_klines s') sy' iv' t = klineAt (es_klines s) sy' iv' t) \<and>
          (\<exists>rows ps. s' = s\<lparr> es_klines := rows, es_pushes := es_pushes s @ ps \<rparr>) \<and>
          (\<forall>now'\<ge>now. (\<forall>k\<in>set ks. candleFits k) \<longrightarrow>
             (\<exists>rows. syncKlines A pub now' sy interval ks s' = (OK (n, 0), s'\<lparr> es_klines := rows \<rparr>)))"
    by (rule exI [of _ iv], intro conjI ballI allI impI iv(1) n \<open>m \<le> n\<close> incr shape stored others again)
       (simp_all add: good)
qed (rule syncKlines_refused)

definition demoCandle :: syncKlineCandle where
  "demoCandle = \<lparr> sk_OpenTime = 60000, sk_Open = 100, sk_High = 103, sk_Low = 99, sk_Close = 102, sk_Volume = 5, sk_TradeCount = 3 \<rparr>"

lemma syncKlines_replaces_witness:
  "\<exists>s' rows. syncKlines demoApi True 60000 ''BTCUSDT'' ''1m'' [demoCandle] demoApiState = (OK (1, 1), s') \<and>
     klineAt (es_klines s') ''BTCUSDT'' Kline1m 60000 \<noteq> None \<and>
     syncKlines demoApi True 65000 ''BTCUSDT'' ''1m'' [demoCandle] s' = (OK (1, 0), s'\<lparr> es_klines := rows \<rparr>)"
proof -
  have "fst (syncKlines demoApi True 60000 ''BTCUSDT'' ''1m'' [demoCandle] demoApiState) = OK (1, 1)" by code_simp
  then obtain s' where ok: "syncKlines demoApi True 60000 ''BTCUSDT'' ''1m'' [demoCandle] demoApiState = (OK (1, 1), s')"
    by (metis prod.collapse)
  have keys: "distinct (map klineKey (es_klines demoApiState))" by code_simp
  have fit: "candleFits demoCandle" "sk_OpenTime demoCandle = 60000" by (simp_all add: demoCandle_def candleFits_def)
  from syncKlines_replaces [OF demoApi_lib keys, of True 60000 "''BTCUSDT''" "''1m''" "[demoCandle]"] ok
  obtain iv where "intervalOf ''1m'' = Some iv"
    "\<forall>k\<in>set [demoCandle]. klineAt (es_klines s') ''BTCUSDT'' iv (sk_OpenTime k) \<noteq> None"
    "\<exists>rows. syncKlines demoApi True 65000 ''BTCUSDT'' ''1m'' [demoCandle] s' = (OK (1, 0), s'\<lparr> es_klines := rows \<rparr>)"
    using fit(1) by fastforce
  moreover have "intervalOf ''1m'' = Some Kline1m" by (simp add: intervalOf_def)
  ultimately show ?thesis using ok fit(2) by auto
qed

end
