(* ===== verification/BookSync.thy ===== *)
theory BookSync
  imports KlineSync BinanceFeed
begin

text \<open>
  The process that feeds the index price and the candlesticks of Binance into the API, src/internal/booksync/syncer.go: what it asks for after
  an interruption, how it cuts what it got into requests, and how it limits its log. Times are nanoseconds. What Binance answers is an
  argument (BinanceFeed); the signed HTTP call to the API is the function \<open>call\<close>, which changes a state and ends well or with an error.
\<close>

record SyncConfig =
  sc_Symbols :: "symbol list"
  sc_Interval :: int
  sc_KlineEvery :: int
  sc_KlineBackfill :: int

definition syncValidate :: "SyncConfig \<Rightarrow> bool" where
  "syncValidate c \<longleftrightarrow>
     sc_Symbols c \<noteq> [] \<and> \<not> (sc_KlineBackfill c < 0 \<or> MaxKlineLimit < sc_KlineBackfill c) \<and> \<not> sc_Interval c \<le> 0"

record symState =
  sst_lastIndexWarn :: "int option"
  sst_lastKlineWarn :: "int option"
  sst_klineSynced :: "KlineInterval \<rightharpoonup> int"

definition klineChunk :: nat where "klineChunk = 200"

text \<open>How many candlesticks to ask for at the time \<open>now\<close>.\<close>

definition klineLimit :: "SyncConfig \<Rightarrow> int \<Rightarrow> KlineInterval \<Rightarrow> symState \<Rightarrow> int" where
  "klineLimit c now iv st =
     (case sst_klineSynced st iv of
        None \<Rightarrow> sc_KlineBackfill c
      | Some synced \<Rightarrow>
          let missed = quot (quot (now - synced) 1000000) (KlineIntervalMillis iv) + 3 in
          min (max missed 3) (sc_KlineBackfill c))"

function chunks :: "nat \<Rightarrow> 'a list \<Rightarrow> 'a list list" where
  "chunks n xs = (if xs = [] \<or> n = 0 then [] else take n xs # chunks n (drop n xs))"
  by pat_completeness auto
termination by (relation "measure (\<lambda>(n, xs). length xs)") auto

declare chunks.simps [simp del]

text \<open>A candlestick as the receiver decodes it.\<close>

definition candleOfFeed :: "Candle \<Rightarrow> syncKlineCandle" where
  "candleOfFeed c =
     \<lparr> sk_OpenTime = cd_OpenTime c, sk_Open = cd_Open c, sk_High = cd_High c, sk_Low = cd_Low c, sk_Close = cd_Close c,
       sk_Volume = cd_Volume c, sk_TradeCount = nat (cd_Trades c) \<rparr>"

datatype 'e syncError = FeedError feedError | CallError 'e

text \<open>The requests of one batch, oldest first; the first that fails ends the batch and keeps those before it.\<close>

fun pushAll :: "('c list \<Rightarrow> 's \<Rightarrow> 'e option \<times> 's) \<Rightarrow> 'c list list \<Rightarrow> 's \<Rightarrow> 'e option \<times> 's" where
  "pushAll call [] s = (None, s)"
| "pushAll call (b # bs) s = (case call b s of (Some e, s') \<Rightarrow> (Some e, s') | (None, s') \<Rightarrow> pushAll call bs s')"

text \<open>One interval of one contract: \<open>now\<close> is read when the request is sized, \<open>finish\<close> when the last push has succeeded.\<close>

definition syncKline ::
  "SyncConfig \<Rightarrow> (int \<Rightarrow> feedError + Candle list) \<Rightarrow> (Candle list \<Rightarrow> 's \<Rightarrow> 'e option \<times> 's) \<Rightarrow> int \<Rightarrow> int \<Rightarrow> KlineInterval \<Rightarrow>
   symState \<Rightarrow> 's \<Rightarrow> ('e syncError + unit) \<times> symState \<times> 's" where
  "syncKline c feed call now finish iv st s =
     (let limit = klineLimit c now iv st in
      if limit \<le> 0 then (Inr (), st, s)
      else
        (case feed limit of
           Inl e \<Rightarrow> (Inl (FeedError e), st, s)
         | Inr candles \<Rightarrow>
             if candles = [] then (Inr (), st, s)
             else
               (case pushAll call (chunks klineChunk candles) s of
                  (Some e, s') \<Rightarrow> (Inl (CallError e), st, s')
                | (None, s') \<Rightarrow> (Inr (), st\<lparr> sst_klineSynced := (sst_klineSynced st)(iv \<mapsto> finish) \<rparr>, s'))))"

text \<open>Whether a line is logged, and the time of the last one.\<close>

definition syncWarn :: "int \<Rightarrow> int option \<Rightarrow> bool \<times> int option" where
  "syncWarn now warned =
     (case warned of Some t \<Rightarrow> if now - t < 30000000000 then (False, warned) else (True, Some now) | None \<Rightarrow> (True, Some now))"

definition warnKline :: "int \<Rightarrow> symState \<Rightarrow> symState" where
  "warnKline now st = st\<lparr> sst_lastKlineWarn := snd (syncWarn now (sst_lastKlineWarn st)) \<rparr>"

text \<open>One round over the intervals of a contract, and over the contracts. \<open>clock\<close> gives the two readings of each interval.\<close>

fun syncIntervals ::
  "SyncConfig \<Rightarrow> (KlineInterval \<Rightarrow> int \<Rightarrow> feedError + Candle list) \<Rightarrow> (KlineInterval \<Rightarrow> Candle list \<Rightarrow> 's \<Rightarrow> 'e option \<times> 's) \<Rightarrow>
   (KlineInterval \<Rightarrow> int \<times> int) \<Rightarrow> KlineInterval list \<Rightarrow> symState \<Rightarrow> 's \<Rightarrow> symState \<times> 's" where
  "syncIntervals c feed call clock [] st s = (st, s)"
| "syncIntervals c feed call clock (iv # ivs) st s =
     (case syncKline c (feed iv) (call iv) (fst (clock iv)) (snd (clock iv)) iv st s of
        (Inl _, st', s') \<Rightarrow> syncIntervals c feed call clock ivs (warnKline (snd (clock iv)) st') s'
      | (Inr _, st', s') \<Rightarrow> syncIntervals c feed call clock ivs st' s')"

definition SyncKlines ::
  "SyncConfig \<Rightarrow> (symbol \<Rightarrow> KlineInterval \<Rightarrow> int \<Rightarrow> feedError + Candle list) \<Rightarrow>
   (symbol \<Rightarrow> KlineInterval \<Rightarrow> Candle list \<Rightarrow> 's \<Rightarrow> 'e option \<times> 's) \<Rightarrow> (symbol \<Rightarrow> KlineInterval \<Rightarrow> int \<times> int) \<Rightarrow>
   (symbol \<Rightarrow> symState) \<times> 's \<Rightarrow> (symbol \<Rightarrow> symState) \<times> 's" where
  "SyncKlines c feed call clock z =
     fold (\<lambda>sy (sts, s). case syncIntervals c (feed sy) (call sy) (clock sy) AllKlineIntervals (sts sy) s of (st, s') \<Rightarrow> (sts(sy := st), s'))
       (sc_Symbols c) z"

text \<open>The index price of one contract, and of all.\<close>

definition pushIndex :: "feedError + dec \<Rightarrow> (dec \<Rightarrow> 's \<Rightarrow> 'e option \<times> 's) \<Rightarrow> int \<Rightarrow> symState \<Rightarrow> 's \<Rightarrow> symState \<times> 's" where
  "pushIndex price call now st s =
     (let (failed, s') = (case price of Inl _ \<Rightarrow> (True, s) | Inr p \<Rightarrow> (case call p s of (e, s') \<Rightarrow> (e \<noteq> None, s'))) in
      (if failed then st\<lparr> sst_lastIndexWarn := snd (syncWarn now (sst_lastIndexWarn st)) \<rparr> else st, s'))"

definition syncStep ::
  "SyncConfig \<Rightarrow> (symbol \<Rightarrow> feedError + dec) \<Rightarrow> (symbol \<Rightarrow> dec \<Rightarrow> 's \<Rightarrow> 'e option \<times> 's) \<Rightarrow> int \<Rightarrow>
   (symbol \<Rightarrow> symState) \<times> 's \<Rightarrow> (symbol \<Rightarrow> symState) \<times> 's" where
  "syncStep c price call now z =
     fold (\<lambda>sy (sts, s). case pushIndex (price sy) (call sy) now (sts sy) s of (st, s') \<Rightarrow> (sts(sy := st), s')) (sc_Symbols c) z"

text \<open>Before the first round nothing was synced and nothing logged.\<close>

definition newSymState :: symState where
  "newSymState = \<lparr> sst_lastIndexWarn = None, sst_lastKlineWarn = None, sst_klineSynced = Map.empty \<rparr>"

definition newSyncer :: "SyncConfig \<Rightarrow> (symbol \<Rightarrow> symState) option" where
  "newSyncer c = (if syncValidate c then Some (\<lambda>_. newSymState) else None)"

section \<open>The call to the API\<close>

text \<open>
  A request that reached the server may still be lost on the way back. \<open>intervalName\<close> is the text of the interval in the request, and
  a trade count that is no 32 bit number makes the body undecodable.
\<close>

datatype callError = ApiRefused failure | NoAnswer

datatype delivery = Delivered | RequestLost | ReplyLost

definition intervalName :: "KlineInterval \<Rightarrow> string" where
  "intervalName iv = (case iv of Kline1m \<Rightarrow> ''1m'' | Kline5m \<Rightarrow> ''5m'' | Kline15m \<Rightarrow> ''15m'' | Kline1h \<Rightarrow> ''1h'' | Kline4h \<Rightarrow> ''4h'' | Kline1d \<Rightarrow> ''1d'')"

definition callResult :: "'a reply \<Rightarrow> callError option" where
  "callResult r = (case r of OK _ \<Rightarrow> None | Fail f \<Rightarrow> Some (ApiRefused f) | Crash _ \<Rightarrow> Some NoAnswer)"

definition callSyncKlines ::
  "ApiEnv \<Rightarrow> bool \<Rightarrow> (Candle list \<Rightarrow> delivery \<times> int) \<Rightarrow> symbol \<Rightarrow> KlineInterval \<Rightarrow> Candle list \<Rightarrow>
   'z ApiState_scheme \<Rightarrow> callError option \<times> 'z ApiState_scheme" where
  "callSyncKlines A pub net sy iv b s =
     (case net b of
        (RequestLost, _) \<Rightarrow> (Some NoAnswer, s)
      | (way, now) \<Rightarrow>
          if \<not> (\<forall>k\<in>set b. 0 \<le> cd_Trades k \<and> cd_Trades k < 2 ^ 32) then (Some (ApiRefused (failWith 400)), s)
          else
            (case syncKlines A pub now sy (intervalName iv) (map candleOfFeed b) s of
               (r, s') \<Rightarrow> (if way = ReplyLost then Some NoAnswer else callResult r, s')))"

section \<open>Cutting a batch\<close>

lemma concat_chunks: "0 < n \<Longrightarrow> concat (chunks n xs) = xs"
  by (induction n xs rule: chunks.induct) (subst chunks.simps, auto)

lemma chunks_size: "b \<in> set (chunks n xs) \<Longrightarrow> b \<noteq> [] \<and> length b \<le> n"
  by (induction n xs rule: chunks.induct) (subst (asm) chunks.simps, auto split: if_splits)

lemma klineChunk_fits: "klineChunk \<le> maxKlineSyncBatch"
  by (simp add: klineChunk_def maxKlineSyncBatch_def)

section \<open>How far back a request reaches\<close>

lemma quot_nonneg: "0 \<le> a \<Longrightarrow> quot a b = a div b"
  by (simp add: quot_def)

lemma step_pos: "0 < KlineIntervalMillis iv"
  by (cases iv) simp_all

text \<open>The open time, in milliseconds, of the candlestick that covers a moment given in nanoseconds.\<close>

definition openAt :: "KlineInterval \<Rightarrow> int \<Rightarrow> int" where
  "openAt iv ns = ns div (1000000 * KlineIntervalMillis iv) * KlineIntervalMillis iv"

lemma div_above: "0 < n \<Longrightarrow> a < (a div n + 1) * (n :: int)"
proof -
  assume "0 < n"
  hence "a mod n < n" by (rule pos_mod_bound)
  moreover have "a = a div n * n + a mod n" by (rule div_mult_mod_eq [symmetric])
  ultimately have "a < a div n * n + n" by linarith
  thus ?thesis by (simp add: distrib_right)
qed

lemma div_gap:
  fixes a b n q :: int
  assumes "0 < n" "b < a + (q + 1) * n"
  shows "b div n \<le> a div n + q + 1"
proof -
  have "b div n \<le> (a + (q + 1) * n) div n" using assms by (intro zdiv_mono1) auto
  also have "\<dots> = a div n + (q + 1)" using assms(1) by simp
  finally show ?thesis by simp
qed

lemma klineLimit_reach:
  assumes synced: "sst_klineSynced st iv = Some r0"
    and times: "f0 \<le> r0" "r0 \<le> t" "t \<le> f1" "(r0 - f0) + (f1 - t) \<le> 1000000 * KlineIntervalMillis iv"
    and uncut: "klineLimit c t iv st < sc_KlineBackfill c"
  shows "openAt iv f1 - (klineLimit c t iv st - 1) * KlineIntervalMillis iv \<le> openAt iv f0"
proof -
  let ?m = "KlineIntervalMillis iv" and ?n = "1000000 * KlineIntervalMillis iv"
  let ?q = "(t - r0) div ?n"
  have n: "0 < ?n" using step_pos [of iv] by simp
  have q: "quot (quot (t - r0) 1000000) ?m = ?q" using times(2) by (simp add: quot_nonneg pos_imp_zdiv_nonneg_iff zdiv_zmult2_eq less_imp_le [OF step_pos])
  have "0 \<le> ?q" using times(2) n by (simp add: pos_imp_zdiv_nonneg_iff)
  hence limit: "klineLimit c t iv st = ?q + 3"
    using synced uncut by (auto simp: klineLimit_def q Let_def min_def max_def split: if_splits)
  have "t - r0 < (?q + 1) * ?n" by (rule div_above [OF n])
  with times(4) have "f1 < f0 + ((?q + 1) + 1) * ?n" by (simp add: distrib_right)
  from div_gap [OF n this] have "f1 div ?n - (?q + 2) \<le> f0 div ?n" by simp
  hence "(f1 div ?n - (?q + 2)) * ?m \<le> f0 div ?n * ?m" by (intro mult_right_mono less_imp_le [OF step_pos])
  thus ?thesis by (simp add: openAt_def limit left_diff_distrib algebra_simps)
qed

text \<open>What a round does to the state of the contract: a failed one leaves it, and one that pushed something notes when it ended.\<close>

lemma syncKline_cases:
  assumes "syncKline c feed call now finish iv st s = (r, st', s')"
  obtains (failed) e where "r = Inl e" "st' = st"
  | (idle) "r = Inr ()" "st' = st" "s' = s" "klineLimit c now iv st \<le> 0 \<or> feed (klineLimit c now iv st) = Inr []"
  | (pushed) candles where "r = Inr ()" "st' = st\<lparr> sst_klineSynced := (sst_klineSynced st)(iv \<mapsto> finish) \<rparr>"
      "feed (klineLimit c now iv st) = Inr candles" "candles \<noteq> []" "pushAll call (chunks klineChunk candles) s = (None, s')"
  using assms by (auto simp: syncKline_def Let_def split: if_splits sum.splits prod.splits option.splits)

text \<open>C38. A request for candlesticks reaches back to where the last successful one ended. When a round that had candlesticks to push went
  through, fetching at f0 and finishing at r0, the size of a later request is computed at t and Binance answers at f1, the delays r0 - f0 and f1 - t together
  are at most one interval, and the request is not cut by the backfill bound, then the oldest of the candlesticks asked for is no younger
  than the one that was still open at f0: no candlestick is skipped however long the interruption lasted.\<close>

theorem klines_no_gap:
  assumes round: "syncKline c feed call t0 r0 iv st0 s0 = (Inr (), st, s)" "0 < klineLimit c t0 iv st0" "feed (klineLimit c t0 iv st0) \<noteq> Inr []"
    and times: "t0 \<le> f0" "f0 \<le> r0" "r0 \<le> t" "t \<le> f1" "(r0 - f0) + (f1 - t) \<le> 1000000 * KlineIntervalMillis iv"
    and uncut: "klineLimit c t iv st < sc_KlineBackfill c"
  shows "openAt iv f1 - (klineLimit c t iv st - 1) * KlineIntervalMillis iv \<le> openAt iv f0"
proof -
  from round(1) have "sst_klineSynced st iv = Some r0"
    by (cases rule: syncKline_cases) (use round(2,3) in auto)
  from klineLimit_reach [OF this times(2-5) uncut] show ?thesis .
qed

definition demoSync :: SyncConfig where
  "demoSync = \<lparr> sc_Symbols = [''BTCUSDT''], sc_Interval = 1000000000, sc_KlineEvery = 5000000000, sc_KlineBackfill = 1000 \<rparr>"

definition demoFed :: Candle where
  "demoFed = \<lparr> cd_OpenTime = 60000, cd_Open = 100, cd_High = 103, cd_Low = 99, cd_Close = 102, cd_Volume = 5, cd_Trades = 3 \<rparr>"

lemma klines_no_gap_witness:
  "\<exists>st. syncKline demoSync (\<lambda>_. Inr [demoFed]) (\<lambda>_ s. (None :: callError option, s)) 118000000000 120000000000 Kline1m newSymState () = (Inr (), st, ()) \<and>
     klineLimit demoSync 659000000000 Kline1m st = 11 \<and> openAt Kline1m 119000000000 = 60000 \<and> openAt Kline1m 660000000000 = 660000 \<and>
     openAt Kline1m 660000000000 - (klineLimit demoSync 659000000000 Kline1m st - 1) * 60000 \<le> openAt Kline1m 119000000000"
proof -
  let ?st = "newSymState\<lparr> sst_klineSynced := [Kline1m \<mapsto> 120000000000] \<rparr>"
  have round: "syncKline demoSync (\<lambda>_. Inr [demoFed]) (\<lambda>_ s. (None :: callError option, s)) 118000000000 120000000000 Kline1m newSymState () = (Inr (), ?st, ())"
    by (simp add: syncKline_def klineLimit_def demoSync_def newSymState_def chunks.simps klineChunk_def)
  have v: "klineLimit demoSync 659000000000 Kline1m ?st = 11" "sc_KlineBackfill demoSync = 1000" "klineLimit demoSync 118000000000 Kline1m newSymState = 1000"
    by (simp_all add: klineLimit_def demoSync_def newSymState_def quot_def)
  have o: "openAt Kline1m 119000000000 = 60000" "openAt Kline1m 660000000000 = 660000" by (simp_all add: openAt_def)
  from klines_no_gap [OF round, of 119000000000 659000000000 660000000000] v o round show ?thesis by auto
qed

section \<open>A round and the table of the API\<close>

lemma intervalOf_name [simp]: "intervalOf (intervalName iv) = Some iv"
  by (cases iv) (simp_all add: intervalName_def intervalOf_def)

text \<open>One request: refused or lost on the way it changes nothing, else its candles are in the table and no other is touched.\<close>

lemma callSyncKlines_effect:
  assumes "callSyncKlines A pub net sy iv b s = (r, s')"
  shows "(r = None \<longrightarrow> (\<forall>k\<in>set b. \<exists>now. klineAt (es_klines s') sy iv (cd_OpenTime k) = Some (feedKline (ae_lib A) sy iv now (candleRow sy iv (candleOfFeed k))))) \<and>
    (\<forall>sy' iv' t. (sy', iv') \<noteq> (sy, iv) \<or> t \<notin> cd_OpenTime ` set b \<longrightarrow> klineAt (es_klines s') sy' iv' t = klineAt (es_klines s) sy' iv' t)"
proof (cases "s' = s \<and> r \<noteq> None")
  case False
  obtain way now where net: "net b = (way, now)" by fastforce
  let ?ks = "map candleOfFeed b"
  have refused: "s' = s" if "syncKlines A pub now sy (intervalName iv) ?ks s = (Fail f, s')" for f using syncKlines_refused [OF that] .
  from assms False net obtain rep where rep: "syncKlines A pub now sy (intervalName iv) ?ks s = (rep, s')"
    and r: "r = (if way = ReplyLost then Some NoAnswer else callResult rep)"
    by (auto simp: callSyncKlines_def split: delivery.splits if_splits prod.splits)
  show ?thesis
  proof (cases rep)
    case (OK x)
    from syncKlines_accepted [OF rep [unfolded OK]]
    have incr: "sorted_wrt (<) (map sk_OpenTime ?ks)" and w: "(x, s') = writeCandles A pub now sy iv (map (candleRow sy iv) ?ks) s" by auto
    from w have rows: "es_klines s' = ReplaceBatch (ae_lib A) sy iv (map (candleRow sy iv) ?ks) now (es_klines s)"
      by (auto simp: writeCandles_def Let_def)
    have times: "map kl_OpenTime (map (candleRow sy iv) ?ks) = map sk_OpenTime ?ks" by (simp add: candleRow_def)
    have d: "distinct (map kl_OpenTime (map (candleRow sy iv) ?ks))" unfolding times using incr by (simp only: strict_sorted_iff)
    have "klineAt (es_klines s') sy iv (cd_OpenTime k) = Some (feedKline (ae_lib A) sy iv now (candleRow sy iv (candleOfFeed k)))" if "k \<in> set b" for k
      using klineAt_ReplaceBatch_in [OF d, of "candleRow sy iv (candleOfFeed k)"] that by (simp add: rows candleRow_def candleOfFeed_def)
    moreover have "klineAt (es_klines s') sy' iv' t = klineAt (es_klines s) sy' iv' t" if "(sy', iv') \<noteq> (sy, iv) \<or> t \<notin> cd_OpenTime ` set b" for sy' iv' t
      unfolding rows by (rule klineAt_ReplaceBatch_out) (use that in \<open>auto simp: candleRow_def candleOfFeed_def\<close>)
    ultimately show ?thesis by blast
  next
    case (Fail f)
    with rep refused r False show ?thesis by (auto simp: callResult_def split: if_splits)
  next
    case (Crash e)
    with rep show ?thesis
      by (auto simp: syncKlines_def answer_def andThen_def require_def validated_def replyNow_def tradedCoin_def knownCoin_def retn_def
          split: if_splits option.splits sum.splits prod.splits)
  qed
qed auto

lemma pushAll_effect:
  assumes "pushAll (callSyncKlines A pub net sy iv) bs s = (r, s')" "distinct (map cd_OpenTime (concat bs))"
  shows "(r = None \<longrightarrow> (\<forall>k\<in>set (concat bs). \<exists>now. klineAt (es_klines s') sy iv (cd_OpenTime k) = Some (feedKline (ae_lib A) sy iv now (candleRow sy iv (candleOfFeed k))))) \<and>
    (\<forall>sy' iv' t. (sy', iv') \<noteq> (sy, iv) \<or> t \<notin> cd_OpenTime ` set (concat bs) \<longrightarrow> klineAt (es_klines s') sy' iv' t = klineAt (es_klines s) sy' iv' t)"
  using assms
proof (induction bs arbitrary: s)
  case (Cons b bs)
  obtain r1 s1 where first: "callSyncKlines A pub net sy iv b s = (r1, s1)" by fastforce
  note e1 = callSyncKlines_effect [OF this]
  show ?case
  proof (cases r1)
    case (Some e)
    with Cons.prems(1) first have "r = Some e" "s' = s1" by auto
    with e1 show ?thesis by (simp add: image_Un)
  next
    case None
    with Cons.prems(1) first have "pushAll (callSyncKlines A pub net sy iv) bs s1 = (r, s')" by simp
    from Cons.IH [OF this] Cons.prems(2) have e2:
      "r = None \<Longrightarrow> k \<in> set (concat bs) \<Longrightarrow> \<exists>now. klineAt (es_klines s') sy iv (cd_OpenTime k) = Some (feedKline (ae_lib A) sy iv now (candleRow sy iv (candleOfFeed k)))"
      "(sy', iv') \<noteq> (sy, iv) \<or> t \<notin> cd_OpenTime ` set (concat bs) \<Longrightarrow> klineAt (es_klines s') sy' iv' t = klineAt (es_klines s1) sy' iv' t" for k sy' iv' t
      by auto
    have apart: "cd_OpenTime k \<notin> cd_OpenTime ` set (concat bs)" if "k \<in> set b" for k using Cons.prems(2) that by auto
    show ?thesis
    proof (intro conjI ballI allI impI)
      fix k assume "r = None" "k \<in> set (concat (b # bs))"
      then consider "k \<in> set b" | "k \<in> set (concat bs)" by auto
      thus "\<exists>now. klineAt (es_klines s') sy iv (cd_OpenTime k) = Some (feedKline (ae_lib A) sy iv now (candleRow sy iv (candleOfFeed k)))"
      proof cases
        case 1
        with e1 None have "\<exists>now. klineAt (es_klines s1) sy iv (cd_OpenTime k) = Some (feedKline (ae_lib A) sy iv now (candleRow sy iv (candleOfFeed k)))" by simp
        with e2(2) [of sy iv "cd_OpenTime k"] apart [OF 1] show ?thesis by simp
      next
        case 2
        from e2(1) [OF \<open>r = None\<close> 2] show ?thesis .
      qed
    next
      fix sy' iv' t assume out: "(sy', iv') \<noteq> (sy, iv) \<or> t \<notin> cd_OpenTime ` set (concat (b # bs))"
      hence "klineAt (es_klines s') sy' iv' t = klineAt (es_klines s1) sy' iv' t" by (intro e2(2)) auto
      also from out e1 have "\<dots> = klineAt (es_klines s) sy' iv' t" by (simp add: image_Un)
      finally show "klineAt (es_klines s') sy' iv' t = klineAt (es_klines s) sy' iv' t" .
    qed
  qed
qed simp

text \<open>C39. A round over an interval ends with what Binance answered in the candlestick table. When Binance answers candlesticks in
  ascending order, a round that ends without an error has put every one of them, cut into requests of at most 200, into the table of the
  API with its own values, whatever was lost on the way back before; a round that ends with an error leaves the time of the last
  successful one, so that the next round asks for the same stretch again; and in either case no candlestick of another contract, interval
  or open time changes.\<close>

theorem syncKline_stores:
  assumes round: "syncKline c feed (callSyncKlines A pub net sy iv) now finish iv st s = (r, st', s')"
    and ascending: "\<And>cs. feed (klineLimit c now iv st) = Inr cs \<Longrightarrow> sorted_wrt (<) (map cd_OpenTime cs)"
  shows "(\<forall>cs. r = Inr () \<longrightarrow> 0 < klineLimit c now iv st \<longrightarrow> feed (klineLimit c now iv st) = Inr cs \<longrightarrow>
       (\<forall>k\<in>set cs. \<exists>u. klineAt (es_klines s') sy iv (cd_OpenTime k) = Some (feedKline (ae_lib A) sy iv u (candleRow sy iv (candleOfFeed k))))) \<and>
    (\<forall>e. r = Inl e \<longrightarrow> st' = st) \<and>
    (\<forall>sy' iv' t. klineAt (es_klines s') sy' iv' t \<noteq> klineAt (es_klines s) sy' iv' t \<longrightarrow>
       sy' = sy \<and> iv' = iv \<and> (\<exists>cs. feed (klineLimit c now iv st) = Inr cs \<and> t \<in> cd_OpenTime ` set cs))"
proof (cases "\<exists>cs. 0 < klineLimit c now iv st \<and> feed (klineLimit c now iv st) = Inr cs \<and> cs \<noteq> []")
  case False
  with round show ?thesis by (auto simp: syncKline_def Let_def split: if_splits sum.splits)
next
  case True
  then obtain cs where cs: "0 < klineLimit c now iv st" "feed (klineLimit c now iv st) = Inr cs" "cs \<noteq> []" by blast
  obtain p where p: "pushAll (callSyncKlines A pub net sy iv) (chunks klineChunk cs) s = (p, s')"
    and r: "r = (case p of None \<Rightarrow> Inr () | Some e \<Rightarrow> Inl (CallError e))" "p \<noteq> None \<longrightarrow> st' = st"
    using round cs by (auto simp: syncKline_def Let_def split: prod.splits option.splits)
  have whole: "concat (chunks klineChunk cs) = cs" by (rule concat_chunks) (simp add: klineChunk_def)
  have "distinct (map cd_OpenTime cs)" using ascending [OF cs(2)] by (simp only: strict_sorted_iff)
  from pushAll_effect [OF p] this have e:
    "p = None \<longrightarrow> (\<forall>k\<in>set cs. \<exists>u. klineAt (es_klines s') sy iv (cd_OpenTime k) = Some (feedKline (ae_lib A) sy iv u (candleRow sy iv (candleOfFeed k))))"
    "\<forall>sy' iv' t. (sy', iv') \<noteq> (sy, iv) \<or> t \<notin> cd_OpenTime ` set cs \<longrightarrow> klineAt (es_klines s') sy' iv' t = klineAt (es_klines s) sy' iv' t"
    unfolding whole by blast+
  have "r = Inr () \<Longrightarrow> p = None" "r = Inl e \<Longrightarrow> st' = st" for e using r by (auto split: option.splits)
  with e cs(2) show ?thesis by auto
qed

lemma syncKline_stores_witness:
  "\<exists>st' s'. syncKline demoSync (\<lambda>_. Inr [demoFed]) (callSyncKlines demoApi True (\<lambda>_. (Delivered, 60000)) ''BTCUSDT'' Kline1m) 60000000000 61000000000 Kline1m
      newSymState demoApiState = (Inr (), st', s') \<and>
     (\<exists>u. klineAt (es_klines s') ''BTCUSDT'' Kline1m 60000 = Some (feedKline (ae_lib demoApi) ''BTCUSDT'' Kline1m u (candleRow ''BTCUSDT'' Kline1m (candleOfFeed demoFed))))"
proof -
  let ?net = "\<lambda>_. (Delivered, 60000)"
  let ?round = "syncKline demoSync (\<lambda>_. Inr [demoFed]) (callSyncKlines demoApi True ?net ''BTCUSDT'' Kline1m) 60000000000 61000000000 Kline1m newSymState demoApiState"
  have feed: "candleOfFeed demoFed = demoCandle" "cd_OpenTime demoFed = 60000" "cd_Trades demoFed = 3" by (simp_all add: candleOfFeed_def demoFed_def demoCandle_def)
  have "fst (syncKlines demoApi True 60000 ''BTCUSDT'' ''1m'' [demoCandle] demoApiState) = OK (1, 1)" by code_simp
  then obtain s' where ok: "syncKlines demoApi True 60000 ''BTCUSDT'' ''1m'' [demoCandle] demoApiState = (OK (1, 1), s')"
    by (metis prod.collapse)
  have "callSyncKlines demoApi True ?net ''BTCUSDT'' Kline1m [demoFed] demoApiState = (None, s')"
    using ok by (simp add: callSyncKlines_def feed intervalName_def callResult_def)
  hence round: "?round = (Inr (), newSymState\<lparr> sst_klineSynced := (sst_klineSynced newSymState)(Kline1m \<mapsto> 61000000000) \<rparr>, s')"
    by (simp add: syncKline_def klineLimit_def demoSync_def newSymState_def chunks.simps klineChunk_def)
  have "0 < klineLimit demoSync 60000000000 Kline1m newSymState" by (simp add: klineLimit_def demoSync_def newSymState_def)
  with syncKline_stores [OF round] feed(2) round show ?thesis by auto
qed

end
