(* ===== verification/SignedCall.thy ===== *)
theory SignedCall
  imports Auth BookSync "HOL-Library.Word"
begin

text \<open>
  A program that calls the API: the feed of prices and candlesticks (apiClient.call of src/internal/booksync/syncer.go) and the browser
  client of src/tools/sim-client/proxy.go (signer). Both sign with the function the server checks with. A request is what reaches the server:
  its escaped path and raw query are the ones that were signed. The random bytes of the nonce and the readings of the two clocks are
  arguments; so is what the network does with the request.
\<close>

section \<open>Printing numbers and bytes\<close>

definition digitChar :: "nat \<Rightarrow> char" where
  "digitChar d = char_of (48 + d)"

fun formatNat :: "nat \<Rightarrow> string" where
  "formatNat n = (if n < 10 then [digitChar n] else formatNat (n div 10) @ [digitChar (n mod 10)])"

declare formatNat.simps [simp del]

definition FormatInt :: "int \<Rightarrow> string" where
  "FormatInt n = (if n < 0 then CHR ''-'' # formatNat (nat (- n)) else formatNat (nat n))"

definition hexDigit :: "nat \<Rightarrow> char" where
  "hexDigit d = (if d < 10 then digitChar d else char_of (87 + d))"

definition EncodeToString :: "8 word list \<Rightarrow> string" where
  "EncodeToString = concat \<circ> map (\<lambda>b. [hexDigit (unat b div 16), hexDigit (unat b mod 16)])"

section \<open>Signing and calling\<close>

record signer =
  sg_keyID :: string
  sg_secret :: string

text \<open>The headers of one request; without a key there are none.\<close>

definition signHeaders :: "authEnv \<Rightarrow> signer \<Rightarrow> int \<Rightarrow> 8 word list \<Rightarrow> authRequest \<Rightarrow> authRequest" where
  "signHeaders U g ms nb q =
     (if sg_keyID g = [] then q
      else
        let q' = q\<lparr> aq_ApiKey := sg_keyID g, aq_Timestamp := FormatInt ms, aq_Nonce := EncodeToString nb \<rparr> in
        q'\<lparr> aq_Signature := SignRequest U (sg_secret g) q' \<rparr>)"

definition plainRequest :: "string \<Rightarrow> string \<Rightarrow> string \<Rightarrow> string \<Rightarrow> string \<Rightarrow> authRequest" where
  "plainRequest method path route query body =
     \<lparr> aq_Method = method, aq_Path = path, aq_Route = route, aq_RawQuery = query, aq_Body = body, aq_ContentLength = int (length body),
       aq_ApiKey = [], aq_Timestamp = [], aq_Nonce = [], aq_Signature = [] \<rparr>"

text \<open>Which key the browser client signs with: the main one for the requests marked ops, and for all when no trade key is configured.\<close>

definition signerFor :: "signer \<Rightarrow> signer \<Rightarrow> string \<Rightarrow> signer" where
  "signerFor main trade mark = (if mark = ''ops'' \<or> sg_keyID trade = [] then main else trade)"

text \<open>The call of the feed, behind the authentication of the server.\<close>

definition apiCall ::
  "authEnv \<Rightarrow> delivery \<Rightarrow> int \<Rightarrow> authRequest \<Rightarrow> ('s \<Rightarrow> 'a reply \<times> 's) \<Rightarrow> 's \<times> redis \<Rightarrow> callError option \<times> 's \<times> redis" where
  "apiCall U way now q h = (\<lambda>(s, r).
     (if way = RequestLost then (Some NoAnswer, s, r)
      else
        (case Middleware U now q r of
           (Inl f, r') \<Rightarrow> (if way = ReplyLost then Some NoAnswer else Some (ApiRefused f), s, r')
         | (Inr _, r') \<Rightarrow> (case h s of (rep, s') \<Rightarrow> (if way = ReplyLost then Some NoAnswer else callResult rep, s', r')))))"

section \<open>What is printed is read back\<close>

lemma of_digitChar [simp]: "d < 10 \<Longrightarrow> (of_char (digitChar d) :: nat) = 48 + d"
  by (simp add: digitChar_def)

lemma isDigit_digitChar [simp]: "d < 10 \<Longrightarrow> isDigit (digitChar d)"
  by (simp add: isDigit_def)

lemma digitsValue_snoc [simp]: "digitsValue (ds @ [c]) = digitsValue ds * 10 + (of_char c - 48)"
  by (simp add: digitsValue_def)

lemma formatNat_digits: "formatNat n \<noteq> [] \<and> list_all isDigit (formatNat n) \<and> digitsValue (formatNat n) = n"
proof (induction n rule: formatNat.induct)
  case (1 n)
  show ?case
  proof (cases "n < 10")
    case True
    thus ?thesis by (simp add: formatNat.simps [of n]) (simp add: digitsValue_def)
  next
    case False
    with 1 show ?thesis by (simp add: formatNat.simps [of n])
  qed
qed

lemma Atoi_FormatInt:
  assumes "0 \<le> n" "n < 2 ^ 63"
  shows "Atoi (FormatInt n) = Some n"
proof -
  note d = formatNat_digits [of "nat n"]
  hence "hd (formatNat (nat n)) \<noteq> CHR ''-''" "hd (formatNat (nat n)) \<noteq> CHR ''+''"
    by (cases "formatNat (nat n)"; auto simp: isDigit_def)+
  with d assms show ?thesis by (simp add: Atoi_def FormatInt_def)
qed

lemma FormatInt_nonempty: "FormatInt n \<noteq> []"
  using formatNat_digits by (simp add: FormatInt_def)

lemma hexDigit_keyChar: "d < 16 \<Longrightarrow> keyChar (hexDigit d)"
  by (simp add: hexDigit_def keyChar_def digitChar_def)

lemma EncodeToString_nonce: "length nb = 12 \<Longrightarrow> nonceRegexp (EncodeToString nb)"
proof -
  have "length (EncodeToString nb) = 2 * length nb" by (induction nb) (simp_all add: EncodeToString_def)
  moreover have "unat b div 16 < 16" for b :: "8 word" using unsigned_less [of b, where ?'a = nat] by simp
  hence "list_all keyChar (EncodeToString nb)" by (induction nb) (simp_all add: EncodeToString_def hexDigit_keyChar)
  moreover assume "length nb = 12"
  ultimately show ?thesis by (simp add: nonceRegexp_def)
qed

section \<open>A signed call gets through\<close>

text \<open>C40. What the client signs the server accepts. A request built by the signer with a key the server knows, with the same secret and the
  scope its route declares, is let through under that key when the two clocks differ by at most 30 s at its arrival, its body is
  at most 64 KB and can be read, its random nonce is not in use and the nonce store answers: printing the time, encoding the nonce
  and joining what is signed are read back exactly. The call then has the effect and the outcome of the handler alone, and
  only the nonce is recorded besides.\<close>

theorem signed_call_accepted:
  assumes mac: "\<And>k m. au_mac U k m \<noteq> [] \<and> ToLower (au_mac U k m) = au_mac U k m"
    and key: "au_Keys U (sg_keyID g) = Some k" "sg_keyID g \<noteq> []" "sg_secret g = ak_Secret k"
    and route: "path \<noteq> ''/health''" "routeScopes method route = Some scope" "scope \<in> ak_Scopes k"
    and clock: "0 \<le> ms" "ms < 2 ^ 63" "\<bar>now - ms\<bar> \<le> 30000" and nonce: "length nb = 12"
    and q: "q = signHeaders U g ms nb (plainRequest method path route query body)"
    and server: "\<not> au_Disabled U" "length body \<le> 64 * 1024" "\<not> au_BodyFails U q" "\<not> au_StoreFails U now"
    and fresh: "liveValue now r (nonceKey q) = None"
  shows "\<exists>r'. Middleware U now q r = (Inr (sg_keyID g), r') \<and> (\<forall>key. key \<noteq> nonceKey q \<longrightarrow> r' key = r key) \<and>
    apiCall U way now q h (s, r) =
      (if way = RequestLost then (Some NoAnswer, s, r)
       else (case h s of (rep, s') \<Rightarrow> (if way = ReplyLost then Some NoAnswer else callResult rep, s', r')))"
proof -
  let ?r' = "r(nonceKey q \<mapsto> (''1'', now + nonceTTL))"
  have fields: "aq_ApiKey q = sg_keyID g" "aq_Timestamp q = FormatInt ms" "aq_Nonce q = EncodeToString nb" "aq_Path q = path"
    "aq_Method q = method" "aq_Route q = route" "aq_Body q = body" "aq_ContentLength q = int (length body)"
    "aq_Signature q = SignRequest U (ak_Secret k) q"
    using key by (simp_all add: q signHeaders_def plainRequest_def SignRequest_def Let_def)
  have sig: "aq_Signature q \<noteq> []" "ToLower (aq_Signature q) = aq_Signature q" using mac by (simp_all add: fields(9) SignRequest_def)
  have "nonceRegexp (EncodeToString nb)" using nonce by (rule EncodeToString_nonce)
  moreover from this have "EncodeToString nb \<noteq> []" by (auto simp: nonceRegexp_def)
  ultimately have headers: "headersOK q" using key(2) sig(1) FormatInt_nonempty by (simp add: headersOK_def fields)
  have signed: "signatureOK U q" using key(1) sig(2) by (simp add: signatureOK_def fields(1) fields(9) [symmetric])
  have scope: "checkScope U q = Inr (sg_keyID g)" using route key(1) by (simp add: checkScope_def fields)
  have claim: "ClaimNonce now (nonceKey q) nonceTTL r = (True, ?r')" using fresh by (simp add: ClaimNonce_def SetNX_def)
  have body: "readBody U q = Inr body" using server(2,3) by (simp add: readBody_def fields maxAuthBodyBytes_def)
  have time: "Atoi (aq_Timestamp q) = Some ms" using Atoi_FormatInt [OF clock(1,2)] by (simp add: fields)
  have "Middleware U now q r = (Inr (sg_keyID g), ?r')"
    using server route(1) headers signed scope claim body time clock(3)
    by (simp add: Middleware_def fields(4,8) maxAuthBodyBytes_def authWindow_def Let_def abs_le_iff)
  thus ?thesis by (intro exI [of _ ?r']) (auto simp: apiCall_def split: prod.splits)
qed

definition demoKeys :: authEnv where
  "demoKeys = demoAuth\<lparr> au_Keys := [''feed'' \<mapsto> \<lparr> ak_Secret = ''s'', ak_Scopes = {ScopeOps} \<rparr>] \<rparr>"

definition demoCall :: authRequest where
  "demoCall = signHeaders demoKeys \<lparr> sg_keyID = ''feed'', sg_secret = ''s'' \<rparr> 1700000000000 (replicate 12 171)
     (plainRequest ''POST'' ''/kline/sync'' ''/kline/sync'' [] ''{}'')"

lemma signed_call_accepted_witness:
  "fst (Middleware demoKeys 1700000020000 demoCall Map.empty) = Inr ''feed'' \<and>
   (\<exists>r'. apiCall demoKeys Delivered 1700000020000 demoCall (\<lambda>n. (OK (), n + 1)) (0 :: nat, Map.empty) = (None, 1, r'))"
proof -
  have "\<exists>r'. Middleware demoKeys 1700000020000 demoCall Map.empty = (Inr ''feed'', r') \<and>
      (\<forall>key. key \<noteq> nonceKey demoCall \<longrightarrow> r' key = Map.empty key) \<and>
      apiCall demoKeys Delivered 1700000020000 demoCall (\<lambda>n. (OK (), n + 1)) (0 :: nat, Map.empty) =
        (if Delivered = RequestLost then (Some NoAnswer, 0, Map.empty)
         else (case (OK (), 0 + 1 :: nat) of (rep, s') \<Rightarrow> (if Delivered = ReplyLost then Some NoAnswer else callResult (rep :: unit reply), s', r')))"
    by (rule signed_call_accepted [of demoKeys "\<lparr> sg_keyID = ''feed'', sg_secret = ''s'' \<rparr>" "\<lparr> ak_Secret = ''s'', ak_Scopes = {ScopeOps} \<rparr>"
          "''/kline/sync''" "''POST''" "''/kline/sync''" ScopeOps 1700000000000 1700000020000 "replicate 12 171" _ "[]" "''{}''", simplified])
      (simp_all add: demoKeys_def demoAuth_def demoCall_def ToLower_def lowerChar_def routeScopes_def liveValue_def)
  thus ?thesis by (auto simp: callResult_def)
qed

end
