(* ===== verification/Spec2Isabelle.thy ===== *)
theory Spec2Isabelle
  imports BookProps MarkPrice PositionProps OrderProps RoundingDust Klines IdGen Dedup Recovery RoundClose RiskScan FundingProps
    ApiRace ApiLeverage Ws Config Mirror SignedCall
begin

text \<open>
  A verification library for perp-go, an exchange for perpetual futures written in Go. The program is three processes over one MySQL
  database, one Redis and one Kafka: contract-api answers the partner's signed HTTP requests and the WebSocket clients, contract-engine
  keeps the order books in memory, matches, settles, liquidates and pays funding, and orderbook-sync feeds index prices and candlesticks of an
  outside exchange into the API. A request to trade is validated, funded and stored by the API and sent to the engine as a Kafka message; the engine
  matches it, and settling a fill writes accounts, positions, ledger, orders, trades and candlesticks and publishes what changed.

  The definitions are the code, in the code's order: a table is the list of its rows, a SQL statement one atomic function on it; a struct is a
  record, an enumeration a datatype; a method that can fail returns an error or a value together with the state it leaves behind, so an early
  return keeps the writes made before it. Names are those of the source where Isabelle allows it.

  \<^bold>\<open>Foundations.\<close>
  \<^item> Prelude: decimals as rationals, the rounding library as a record \<open>dec_lib\<close> with its laws in the locale \<open>decimal_lib\<close> (interpreted on
    \<open>std_lib\<close>, half away from zero), SQL updates, the sequencing \<open>andThen\<close>, \<open>mapEach\<close> and the rules \<open>keeps_rules\<close> that carry an
    invariant through it, and the locale \<open>optimistic\<close> for read-compute-write loops, interpreted in PositionProps and OrderProps.
  \<^item> Model: src/internal/model/model.go. Lock: the locks and nonces in Redis (src/internal/service/lock.go, src/internal/cache/cache.go).

  \<^bold>\<open>The engine process.\<close>
  \<^item> Book (src/internal/matching/book.go), BookSpec and BookProps: level arrays with their binary search, totals and id index implement a list of
    orders in price-time priority; the locale \<open>price_time_book\<close> is what clients rely on.
  \<^item> Accounts, AccountService, AccountProps (src/internal/repo/account_repo.go, src/internal/service/account.go): freezing margin, partner
    operations and their idempotency, with interference of other sessions between the statements.
  \<^item> Positions, PositionProps (position_repo.go, risk_limit_repo.go, position.go); Orders, OrderProps (order, conditional order, trade and contract
    tables, their optimistic loop and their cursor pages, the locale \<open>history\<close>); Klines (kline_repo.go, kline.go); MarkPrice (markprice.go);
    IdGen (idgen.go); Dedup (mq.go, processed_message_repo.go).
  \<^item> Settlement, SettlementProps, RoundingDust: one side of a trade (src/internal/service/settlement.go).
  \<^item> EngineState, Engine (engine.go, adl.go, consumer_handlers.go), Liquidation (liquidation.go), Conditionals (conditional_order.go), Funding
    (funding.go, funding_repo.go): the state of an engine and every handler. EngineInvariant and EngineSteps: the handlers as a step relation,
    the integrity of all tables and books in every reachable state, the locales \<open>book_promise\<close> and \<open>submit_promise\<close> for a promise about
    each book and their interpretations for well-formed and for uncrossed books.
  \<^item> Recovery (replaying the books at start-up), Aftermath (what is left after a liquidation), RiskScan (which positions a scan liquidates, and how that ends), RoundClose
    (ending a round over several engines), FundingProps (one funding settlement).
  \<^item> BinanceFeed, BinancePlan (src/internal/binancefeed), Mirror (src/internal/service/mirror.go): outside levels become orders of the system
    account, placed and withdrawn inside the engine.

  \<^bold>\<open>The API process and its clients.\<close>
  \<^item> ApiParams, Api, ApiOrders, ApiRisk, ApiQueries (router.go, extra.go, params.go, errors.go, engine_server.go) are the handlers; ApiOrderProps,
    ApiRace and ApiLeverage are about accepted, refused, repeated and overlapping requests; ApiDemo is a small server for the examples.
  \<^item> Auth (auth.go): signatures, nonces and scopes. Config (src/internal/config/config.go and the beginning of the mains). Ws (src/internal/ws,
    src/internal/pubsub): the hub as a step relation. KlineSync (kline_sync.go).
  \<^item> BookSync (src/internal/booksync/syncer.go) and SignedCall (the signing call of syncer.go and of src/tools/sim-client): what the feed asks for,
    pushes and remembers, composed with the handler it calls and the authentication in front of it.

  \<^bold>\<open>What the lemmas show.\<close> The abstract matching of the books and its refinement; the locked margin of accounts, orders and positions moving in
  step, with the exceptions of RoundingDust, ApiRace and ApiLeverage, where it does not; optimistic loops linearizable; fills and
  conditional orders neither lost nor settled twice; unique ids; tables that stay well-formed and books that stay uncrossed whatever
  runs in whatever order; recovery, liquidation, funding and round closing settling exactly once and exactly what is due; an order request
  stored and funded, refused without a trace, or recognised when repeated; authentication complete and sound; locks that exclude and waiting that
  ends; stale outside quotes withdrawn and no outside candlestick skipped. Each theorem with hypotheses is followed by a concrete instance.

  \<^bold>\<open>Bounds and fuel.\<close> Matching terminates because every step removes a resting order or ends. The optimistic loops take a number of rounds;
  one undisturbed round is enough (\<open>returns_when_quiet\<close>), and without interference they are total. Waiting for a lock takes at most 27
  attempts, since attempts are 20 ms apart and it gives up after 500 ms. NextID returns once its clock has caught up. A partner
  operation is tried at most three times. \<open>liquidateInClips\<close> alone has fuel without a bound: the source's loop has none, it goes on as long as
  the position is there.

  \<^bold>\<open>What is assumed.\<close>
  \<^item> Decimals are exact but for division, truncation and the rounding of DECIMAL columns. Row ids and unsigned counters do not overflow (IdGen works
    on 64-bit words). SHA-256, HMAC, the parser of decimals and the JSON decoder are arguments.
  \<^item> Database and Redis calls succeed, except where a definition has the failure as an argument: deadlock victims, busy locks, a refused unique key,
    a producer or nonce store that fails, a duplicate that cannot be recorded, requests and replies that are lost.
  \<^item> A handler reads the clock once where the source reads it several times within one call (two readings in BookSync, where the difference matters).
  \<^item> Where Go leaves an order open (map iteration, equal keys of an unstable sort) the model takes the order of the table.
  \<^item> Handlers of the engine run one at a time. Interference is explicit where statements of several sessions interleave: between the statements
    of FreezeMargin, the rounds of the optimistic loops, at points 0 to 3 of an API handler, and during the sleeps of a liquidation. The users of
    a risk scan and the contracts of a mirror round are handled in turn; the two sides of a mirrored book are placed in any order.
  \<^item> Texts are ASCII.

  \<^bold>\<open>What is not modelled.\<close> The wiring of the three mains (constructors, tickers, signal handling), opening connections, the Kafka client, the upgrade
  and the deadlines of a WebSocket, the HTTP transport and the decoding of JSON: they forward to libraries and hold no state of the
  exchange. Logging is left out except for the limits on it in Mirror and BookSync. Of the browser client only the signing is modelled; its
  forwarding and its checks of host and origin belong to a development tool. Test helpers are left out.
\<close>

end
